(* ===== verification/Prelude.thy ===== *)
theory Prelude
  imports Main "HOL-Library.Sublist" "HOL-Library.List_Lexorder" "HOL-Library.Char_ord"
begin

text \<open>
  The vocabulary every component shares: Go strings (byte strings, so a HOL
  \<^typ>\<open>string\<close> holds the UTF-8 bytes), the functions of the packages
  \<open>strings\<close>, \<open>strconv\<close> and \<open>fmt\<close> the source uses, and Go errors with their
  wrapped sentinels. \<open>gostr\<close> collects the facts about strings that the component
  proofs rewrite with.
\<close>

named_theorems gostr "facts about Go string functions"

section \<open>Strings\<close>

text \<open>The UTF-8 encodings of the runes \<open>unicode.IsSpace\<close> accepts.\<close>

definition space_seqs :: "string list" where
  "space_seqs =
     [[CHR 0x20], [CHR 0x09], [CHR 0x0A], [CHR 0x0D], [CHR 0x0B], [CHR 0x0C],
      [CHR 0xC2, CHR 0x85], [CHR 0xC2, CHR 0xA0], [CHR 0xE1, CHR 0x9A, CHR 0x80],
      [CHR 0xE2, CHR 0x80, CHR 0x80], [CHR 0xE2, CHR 0x80, CHR 0x81],
      [CHR 0xE2, CHR 0x80, CHR 0x82], [CHR 0xE2, CHR 0x80, CHR 0x83],
      [CHR 0xE2, CHR 0x80, CHR 0x84], [CHR 0xE2, CHR 0x80, CHR 0x85],
      [CHR 0xE2, CHR 0x80, CHR 0x86], [CHR 0xE2, CHR 0x80, CHR 0x87],
      [CHR 0xE2, CHR 0x80, CHR 0x88], [CHR 0xE2, CHR 0x80, CHR 0x89],
      [CHR 0xE2, CHR 0x80, CHR 0x8A], [CHR 0xE2, CHR 0x80, CHR 0xA8],
      [CHR 0xE2, CHR 0x80, CHR 0xA9], [CHR 0xE2, CHR 0x80, CHR 0xAF],
      [CHR 0xE2, CHR 0x81, CHR 0x9F], [CHR 0xE3, CHR 0x80, CHR 0x80]]"

text \<open>The length of the first of \<open>seqs\<close> that \<open>s\<close> starts with, 0 when there is none.\<close>

fun seq_len :: "string list \<Rightarrow> string \<Rightarrow> nat" where
  "seq_len [] s = 0"
| "seq_len (q # qs) s = (if q \<noteq> [] \<and> prefix q s then length q else seq_len qs s)"

definition space_len :: "string \<Rightarrow> nat" where
  "space_len s = seq_len space_seqs s"

fun trim_seqs :: "string list \<Rightarrow> string \<Rightarrow> string" where
  "trim_seqs qs [] = []"
| "trim_seqs qs (c # s) =
     (case seq_len qs (c # s) of 0 \<Rightarrow> c # s | Suc n \<Rightarrow> trim_seqs qs (drop n s))"

definition trim_left :: "string \<Rightarrow> string" where
  "trim_left s = trim_seqs space_seqs s"

definition trim_right :: "string \<Rightarrow> string" where
  "trim_right s = rev (trim_seqs (map rev space_seqs) (rev s))"

text \<open>\<open>strings.TrimSpace\<close>.\<close>

definition trim_space :: "string \<Rightarrow> string" where
  "trim_space s = trim_right (trim_left s)"

text \<open>\<open>strings.TrimSpace(s) == ""\<close>, the emptiness test most validations make.\<close>

abbreviation blank :: "string \<Rightarrow> bool" where
  "blank s \<equiv> trim_space s = ''''"

text \<open>\<open>strings.Fields\<close>.\<close>

fun str_fields_aux :: "string \<Rightarrow> string \<Rightarrow> string list" where
  "str_fields_aux cur [] = (if cur = [] then [] else [rev cur])"
| "str_fields_aux cur (c # s) =
     (case space_len (c # s) of
        0 \<Rightarrow> str_fields_aux (c # cur) s
      | Suc n \<Rightarrow> (if cur = [] then [] else [rev cur]) @ str_fields_aux [] (drop n s))"

definition str_fields :: "string \<Rightarrow> string list" where
  "str_fields s = str_fields_aux [] s"

text \<open>\<open>strings.Split\<close> with a one-byte separator, and \<open>strings.Join\<close>.\<close>

fun split_on :: "char \<Rightarrow> string \<Rightarrow> string list" where
  "split_on d [] = [[]]"
| "split_on d (c # s) =
     (if c = d then [] # split_on d s
      else (case split_on d s of [] \<Rightarrow> [[c]] | w # ws \<Rightarrow> (c # w) # ws))"

fun join :: "string \<Rightarrow> string list \<Rightarrow> string" where
  "join sep [] = []"
| "join sep [w] = w"
| "join sep (w # v # ws) = w @ sep @ join sep (v # ws)"

text \<open>\<open>strings.Cut\<close> with a one-byte separator: \<open>None\<close> is \<open>ok == false\<close>.\<close>

fun cut :: "char \<Rightarrow> string \<Rightarrow> (string \<times> string) option" where
  "cut d [] = None"
| "cut d (c # s) =
     (if c = d then Some ([], s)
      else (case cut d s of None \<Rightarrow> None | Some (a, b) \<Rightarrow> Some (c # a, b)))"

definition trim_prefix :: "string \<Rightarrow> string \<Rightarrow> string" where
  "trim_prefix s p = (if prefix p s then drop (length p) s else s)"

definition trim_suffix :: "string \<Rightarrow> string \<Rightarrow> string" where
  "trim_suffix s q = (if suffix q s then take (length s - length q) s else s)"

definition contains_any :: "string \<Rightarrow> string \<Rightarrow> bool" where
  "contains_any s cs = list_ex (\<lambda>c. c \<in> set cs) s"

text \<open>\<open>strings.TrimRight\<close> and \<open>strings.Trim\<close> with a cutset of ASCII characters.\<close>

definition trim_right_set :: "string \<Rightarrow> string \<Rightarrow> string" where
  "trim_right_set cs s = rev (dropWhile (\<lambda>c. c \<in> set cs) (rev s))"

definition trim_set :: "string \<Rightarrow> string \<Rightarrow> string" where
  "trim_set cs s = trim_right_set cs (dropWhile (\<lambda>c. c \<in> set cs) s)"

text \<open>\<open>strings.ReplaceAll\<close> for a non-empty pattern.\<close>

function replace_all :: "string \<Rightarrow> string \<Rightarrow> string \<Rightarrow> string" where
  "replace_all old new s =
     (if old = [] \<or> s = [] then s
      else if prefix old s then new @ replace_all old new (drop (length old) s)
      else hd s # replace_all old new (tl s))"
  by pat_completeness auto
termination
  by (relation "measure (\<lambda>(old, new, s). length s)") auto

declare replace_all.simps [simp del]

definition contains_str :: "string \<Rightarrow> string \<Rightarrow> bool" where
  "contains_str s t = sublist t s"

text \<open>
  \<open>strings.ToLower\<close>, as far as its callers look: ASCII letters, and the two runes beyond ASCII
  whose lower case is an ASCII letter, the Kelvin sign and the dotted capital I.
\<close>

definition lower_char :: "char \<Rightarrow> char" where
  "lower_char c =
     (if CHR ''A'' \<le> c \<and> c \<le> CHR ''Z'' then char_of (of_char c + 32 :: nat) else c)"

fun to_lower :: "string \<Rightarrow> string" where
  "to_lower [] = []"
| "to_lower (c # s) =
     (if c = CHR 0xC4 \<and> prefix [CHR 0xB0] s then CHR ''i'' # to_lower (drop 1 s)
      else if c = CHR 0xE2 \<and> prefix [CHR 0x84, CHR 0xAA] s then CHR ''k'' # to_lower (drop 2 s)
      else lower_char c # to_lower s)"

text \<open>Decimal rendering, \<open>strconv.Itoa\<close> and the verb \<open>%d\<close>.\<close>

definition digit_char :: "nat \<Rightarrow> char" where
  "digit_char d = char_of (48 + d)"

fun nat_str :: "nat \<Rightarrow> string" where
  "nat_str n = (if n < 10 then [digit_char n] else nat_str (n div 10) @ [digit_char (n mod 10)])"

declare nat_str.simps [simp del]

definition int_str :: "int \<Rightarrow> string" where
  "int_str i = (if i < 0 then ''-'' @ nat_str (nat (- i)) else nat_str (nat i))"

text \<open>
  The verb \<open>%q\<close>: \<open>strconv.Quote\<close>. Bytes from 0x80 on are kept as they are, which is
  what Quote does for a printable rune.
\<close>

definition hex_digit :: "nat \<Rightarrow> char" where
  "hex_digit d = char_of (if d < 10 then 48 + d else 87 + d)"

definition quote_char :: "char \<Rightarrow> string" where
  "quote_char c =
     (if c = CHR 0x22 then [CHR 0x5C, CHR 0x22]
      else if c = CHR 0x5C then [CHR 0x5C, CHR 0x5C]
      else if c = CHR 0x07 then [CHR 0x5C, CHR ''a'']
      else if c = CHR 0x08 then [CHR 0x5C, CHR ''b'']
      else if c = CHR 0x0C then [CHR 0x5C, CHR ''f'']
      else if c = CHR 0x0A then [CHR 0x5C, CHR ''n'']
      else if c = CHR 0x0D then [CHR 0x5C, CHR ''r'']
      else if c = CHR 0x09 then [CHR 0x5C, CHR ''t'']
      else if c = CHR 0x0B then [CHR 0x5C, CHR ''v'']
      else if (of_char c :: nat) < 32 \<or> (of_char c :: nat) = 127
        then [CHR 0x5C, CHR ''x'', hex_digit (of_char c div 16), hex_digit (of_char c mod 16)]
      else [c])"

definition quote :: "string \<Rightarrow> string" where
  "quote s = CHR 0x22 # concat (map quote_char s) @ [CHR 0x22]"

abbreviation nl :: string where "nl \<equiv> [CHR 0x0A]"

text \<open>The em dash the source's messages use, as UTF-8.\<close>

definition em_dash :: string where
  "em_dash = [CHR 0xE2, CHR 0x80, CHR 0x94]"

subsection \<open>Facts about the string functions\<close>

lemma seq_len_le: "seq_len qs s \<le> length s"
  by (induction qs) (auto dest: prefix_length_le)

lemma seq_len_0_iff: "seq_len qs s = 0 \<longleftrightarrow> (\<forall>q\<in>set qs. q \<noteq> [] \<longrightarrow> \<not> prefix q s)"
  by (induction qs) auto

lemma trim_seqs_suffix: "suffix (trim_seqs qs s) s"
proof (induction qs s rule: trim_seqs.induct)
  case (2 qs c s)
  show ?case
  proof (cases "seq_len qs (c # s)")
    case (Suc n)
    with "2.IH" have "suffix (trim_seqs qs (drop n s)) (drop n s)" by simp
    then have "suffix (trim_seqs qs (drop n s)) s"
      by (meson suffix_drop suffix_order.trans)
    with Suc show ?thesis by (simp add: suffix_ConsI)
  qed simp
qed simp

lemma trim_seqs_fixed: "trim_seqs qs s = s \<longleftrightarrow> s = [] \<or> seq_len qs s = 0"
proof (cases s)
  case (Cons c t)
  show ?thesis
  proof (cases "seq_len qs s")
    case (Suc n)
    have "length (trim_seqs qs (drop n t)) \<le> length t"
      using suffix_length_le [OF trim_seqs_suffix [of qs "drop n t"]] by simp
    then have "trim_seqs qs (drop n t) \<noteq> c # t" by auto
    with Suc Cons show ?thesis by simp
  qed (use Cons in simp)
qed simp

lemma trim_seqs_done: "trim_seqs qs s = [] \<or> seq_len qs (trim_seqs qs s) = 0"
proof (induction qs s rule: trim_seqs.induct)
  case (2 qs c s)
  then show ?case by (cases "seq_len qs (c # s)") auto
qed simp

lemma trim_seqs_idem [simp]: "trim_seqs qs (trim_seqs qs s) = trim_seqs qs s"
  using trim_seqs_done trim_seqs_fixed by blast

lemma seq_len_prefix_0: "seq_len qs s = 0 \<Longrightarrow> prefix t s \<Longrightarrow> seq_len qs t = 0"
  unfolding seq_len_0_iff using prefix_order.trans by blast

lemma trim_right_prefix: "prefix (trim_right s) s"
  using trim_seqs_suffix [of "map rev space_seqs" "rev s"]
  by (simp add: trim_right_def suffix_to_prefix)

lemma trim_space_sublist: "sublist (trim_space s) s"
  unfolding trim_space_def trim_left_def
  by (meson prefix_imp_sublist sublist_order.order.trans suffix_imp_sublist
        trim_right_prefix trim_seqs_suffix)

lemma trim_left_trim_space: "trim_left (trim_space s) = trim_space s"
proof -
  have "trim_left s = [] \<or> seq_len space_seqs (trim_left s) = 0"
    by (simp add: trim_left_def trim_seqs_done)
  then have "trim_space s = [] \<or> seq_len space_seqs (trim_space s) = 0"
    unfolding trim_space_def
    using seq_len_prefix_0 [OF _ trim_right_prefix] trim_right_prefix [of "[]"] by auto
  then show ?thesis by (simp add: trim_left_def trim_seqs_fixed)
qed

lemma trim_space_idem [simp, gostr]: "trim_space (trim_space s) = trim_space s"
proof -
  have "trim_right (trim_space s) = trim_space s"
    by (simp add: trim_space_def trim_right_def)
  then show ?thesis
    by (metis trim_left_trim_space trim_space_def)
qed

lemma trim_space_Nil [simp]: "trim_space '''' = ''''"
  by (simp add: trim_space_def trim_left_def trim_right_def)

lemma not_blank_ne: "\<not> blank s \<Longrightarrow> s \<noteq> ''''"
  by auto

lemma split_on_ne [simp]: "split_on d s \<noteq> []"
  by (induction s) (auto split: list.splits)

lemma split_on_no_sep: "w \<in> set (split_on d s) \<Longrightarrow> d \<notin> set w"
proof (induction s arbitrary: w)
  case (Cons c s)
  show ?case
  proof (cases "split_on d s")
    case (Cons v vs)
    with Cons.prems Cons.IH show ?thesis
      by (auto split: if_splits)
  qed simp
qed simp

lemma split_on_cover: "c \<in> set s \<Longrightarrow> c = d \<or> (\<exists>w\<in>set (split_on d s). c \<in> set w)"
proof (induction s)
  case (Cons x s)
  then show ?case by (cases "split_on d s") auto
qed simp

lemma split_on_notin: "d \<notin> set s \<Longrightarrow> split_on d s = [s]"
  by (induction s) auto

lemma split_on_append_sep: "split_on d (s @ d # t) = split_on d s @ split_on d t"
  by (induction s) (auto split: list.splits)

lemma join_split_on: "join [d] (split_on d s) = s"
proof (induction s)
  case (Cons c s)
  then show ?case by (cases "split_on d s"; cases "tl (split_on d s)") auto
qed simp

lemma split_on_join:
  "ws \<noteq> [] \<Longrightarrow> (\<forall>w\<in>set ws. d \<notin> set w) \<Longrightarrow> split_on d (join [d] ws) = ws"
proof (induction "[d]" ws rule: join.induct)
  case (3 w v ws)
  then show ?case using split_on_append_sep [of d w] by (simp add: split_on_notin)
qed (auto simp: split_on_notin)

lemma cut_append [simp, gostr]: "d \<notin> set a \<Longrightarrow> cut d (a @ d # b) = Some (a, b)"
  by (induction a) auto

lemma cut_SomeD: "cut d s = Some (a, b) \<Longrightarrow> s = a @ d # b \<and> d \<notin> set a"
  by (induction s arbitrary: a b) (fastforce split: if_splits option.splits prod.splits)+

lemma cut_None_iff: "cut d s = None \<longleftrightarrow> d \<notin> set s"
  by (induction s) (auto split: option.splits)

lemma trim_prefix_append [simp, gostr]: "trim_prefix (p @ s) p = s"
  by (simp add: trim_prefix_def)

lemma trim_suffix_append [simp, gostr]: "trim_suffix (s @ q) q = s"
  by (simp add: trim_suffix_def suffix_def)

subsection \<open>Words\<close>

text \<open>A word: no white space starts anywhere in it.\<close>

definition spaceless :: "string \<Rightarrow> bool" where
  "spaceless w \<longleftrightarrow> (\<forall>i<length w. space_len (drop i w) = 0)"

lemma space_len_prefix_0: "space_len (v @ t) = 0 \<Longrightarrow> space_len v = 0"
  unfolding space_len_def by (rule seq_len_prefix_0) auto

lemma str_fields_aux_words:
  assumes "w \<in> set (str_fields_aux cur s)" "\<forall>i<length cur. space_len (drop i (rev cur @ s)) = 0"
  shows "w \<noteq> '''' \<and> spaceless w"
  using assms
proof (induction cur s rule: str_fields_aux.induct)
  case (1 cur)
  then show ?case by (auto simp: spaceless_def split: if_splits)
next
  case (2 cur c s)
  show ?case
  proof (cases "space_len (c # s)")
    case 0
    have "space_len (drop i (rev (c # cur) @ s)) = 0" if "i < length (c # cur)" for i
    proof (cases "i < length cur")
      case True
      with 2(4) show ?thesis by simp
    next
      case False
      with that have "i = length cur" by simp
      with 0 show ?thesis by simp
    qed
    with 2(1) [OF 0] 2(3) 0 show ?thesis by simp
  next
    case (Suc n)
    have "spaceless (rev cur)"
      unfolding spaceless_def
    proof (intro allI impI)
      fix i assume "i < length (rev cur)"
      with 2(4) have "space_len (drop i (rev cur) @ c # s) = 0" by simp
      then show "space_len (drop i (rev cur)) = 0" by (rule space_len_prefix_0)
    qed
    with Suc 2(2) [OF Suc] 2(3) show ?thesis by (auto split: if_splits)
  qed
qed

lemma str_fields_words: "w \<in> set (str_fields s) \<Longrightarrow> w \<noteq> '''' \<and> spaceless w"
  unfolding str_fields_def using str_fields_aux_words [of w "[]" s] by simp

lemma spaceless_no_nl: "spaceless w \<Longrightarrow> CHR 0x0A \<notin> set w"
proof
  assume s: "spaceless w" "CHR 0x0A \<in> set w"
  then obtain a b where w: "w = a @ CHR 0x0A # b" by (auto simp: in_set_conv_decomp)
  with s(1) have "space_len (CHR 0x0A # b) = 0" by (auto simp: spaceless_def dest: spec [of _ "length a"])
  then show False by (simp add: space_len_def space_seqs_def)
qed

text \<open>A word is still one in front of a blank: no other space contains one.\<close>

lemma space_len_before_blank:
  assumes "space_len v = 0" "v \<noteq> ''''"
  shows "space_len (v @ CHR '' '' # r) = 0"
  unfolding space_len_def seq_len_0_iff
proof (intro ballI impI notI)
  fix q assume q: "q \<in> set space_seqs" "q \<noteq> []" "prefix q (v @ CHR '' '' # r)"
  have "\<not> prefix q v" using assms(1) q(1,2) unfolding space_len_def seq_len_0_iff by blast
  with q(3) obtain t where "q = v @ CHR '' '' # t" by (auto simp: prefix_append prefix_Cons)
  with assms(2) have "CHR '' '' \<in> set (tl q)" by (cases v) auto
  moreover have "\<forall>q\<in>set space_seqs. CHR '' '' \<notin> set (tl q)" by (simp add: space_seqs_def)
  ultimately show False using q(1) by blast
qed

lemma str_fields_aux_word:
  assumes "spaceless w" "s = '''' \<or> (\<exists>r. s = CHR '' '' # r)"
  shows "str_fields_aux cur (w @ s) = str_fields_aux (rev w @ cur) s"
  using assms(1)
proof (induction w arbitrary: cur)
  case (Cons c w)
  have 0: "space_len (c # w) = 0" using Cons.prems by (auto simp: spaceless_def dest: spec [of _ 0])
  then have "space_len (c # w @ s) = 0"
    using assms(2) space_len_before_blank [of "c # w"] by auto
  moreover have "spaceless w"
    unfolding spaceless_def
  proof (intro allI impI)
    fix i assume "i < length w"
    with Cons.prems show "space_len (drop i w) = 0" by (auto simp: spaceless_def dest!: spec [of _ "Suc i"])
  qed
  ultimately show ?case using Cons.IH by simp
qed simp

lemma space_len_blank [simp]: "space_len (CHR '' '' # r) = 1"
  by (simp add: space_len_def space_seqs_def)

lemma str_fields_two:
  assumes "spaceless t" "t \<noteq> ''''" "spaceless b" "b \<noteq> ''''"
  shows "str_fields (t @ '' '' @ b) = [t, b]"
proof -
  have "str_fields_aux [] (t @ CHR '' '' # b) = t # str_fields_aux [] (b @ [])"
    unfolding str_fields_aux_word [OF assms(1) disjI2, OF exI, OF refl] using assms(2) by simp
  then show ?thesis
    unfolding str_fields_def str_fields_aux_word [OF assms(3) disjI1, OF refl] using assms(4) by simp
qed

lemma trim_left_blank [simp]: "trim_left (CHR '' '' # s) = trim_left s"
  using space_len_blank [of s] unfolding trim_left_def space_len_def by simp

lemma trim_space_blank [simp]: "trim_space (CHR '' '' # s) = trim_space s"
  by (simp add: trim_space_def)

lemma trim_left_spaceless: "space_len s = 0 \<Longrightarrow> trim_left s = s"
  by (cases s) (simp_all add: trim_left_def space_len_def)

lemma trim_right_before_blank:
  assumes "spaceless b" "b \<noteq> ''''"
  shows "trim_right (t @ CHR '' '' # b) = t @ CHR '' '' # b"
proof -
  have "seq_len (map rev space_seqs) (rev (t @ CHR '' '' # b)) = 0"
    unfolding seq_len_0_iff
  proof (intro ballI impI notI)
    fix p assume p: "p \<in> set (map rev space_seqs)" "p \<noteq> []" "prefix p (rev (t @ CHR '' '' # b))"
    then obtain q where q: "q \<in> set space_seqs" "p = rev q" "q \<noteq> []" by auto
    with p(3) have s: "suffix q (t @ CHR '' '' # b)" by (simp add: suffix_to_prefix)
    show False
    proof (cases "suffix q b")
      case True
      then obtain u where u: "b = u @ q" by (auto simp: suffix_def)
      with assms(1) q(3) have "space_len q = 0"
        by (auto simp: spaceless_def dest: spec [of _ "length u"])
      with q(1,3) show False unfolding space_len_def seq_len_0_iff by blast
    next
      case False
      from s obtain z where z: "t @ CHR '' '' # b = z @ q" by (auto simp: suffix_def)
      have "length q > length b"
      proof (rule ccontr)
        assume "\<not> ?thesis"
        then have "length (t @ [CHR '' '']) \<le> length z"
          using arg_cong [OF z, of length] by simp
        with z have "suffix q b" by (auto simp: append_eq_append_conv2 suffix_def Cons_eq_append_conv)
        with False show False by blast
      qed
      then have "length z \<le> length t" using arg_cong [OF z, of length] by simp
      with z obtain y where "q = y @ CHR '' '' # b" by (auto simp: append_eq_append_conv2)
      then have "CHR '' '' \<in> set (butlast q)" using assms(2) by (simp add: butlast_append)
      moreover have "\<forall>q\<in>set space_seqs. CHR '' '' \<notin> set (butlast q)" by (simp add: space_seqs_def)
      ultimately show False using q(1) by blast
    qed
  qed
  then have "trim_seqs (map rev space_seqs) (rev (t @ CHR '' '' # b)) = rev (t @ CHR '' '' # b)"
    using trim_seqs_fixed by blast
  then show ?thesis by (simp only: trim_right_def rev_rev_ident)
qed

lemma trim_space_two:
  assumes "spaceless t" "t \<noteq> ''''" "spaceless b" "b \<noteq> ''''"
  shows "trim_space (t @ '' '' @ b) = t @ '' '' @ b"
proof -
  have "space_len t = 0" using assms(1,2) by (auto simp: spaceless_def dest: spec [of _ 0])
  then have "trim_left (t @ CHR '' '' # b) = t @ CHR '' '' # b"
    using space_len_before_blank assms(2) by (intro trim_left_spaceless) blast
  with trim_right_before_blank [OF assms(3,4)] show ?thesis
    by (simp add: trim_space_def)
qed

lemma seq_len_taken: "seq_len qs s = Suc n \<Longrightarrow> \<exists>q\<in>set qs. q = take (Suc n) s"
  by (induction qs) (auto simp: prefix_def split: if_splits)

lemma trim_seqs_Nil: "trim_seqs qs s = [] \<Longrightarrow> c \<in> set s \<Longrightarrow> \<exists>q\<in>set qs. c \<in> set q"
proof (induction qs s rule: trim_seqs.induct)
  case (2 qs a s)
  from 2(2) obtain n where n: "seq_len qs (a # s) = Suc n" "trim_seqs qs (drop n s) = []"
    by (auto split: nat.splits)
  from seq_len_taken [OF n(1)] obtain q where q: "q \<in> set qs" "q = a # take n s" by auto
  from 2(3) have "c \<in> set q \<or> c \<in> set (drop n s)"
    using q(2) append_take_drop_id [of n s] by (metis Un_iff list.set_intros(1,2) set_ConsD set_append)
  with 2(1) [OF n(1)] n(2) q(1) show ?case by blast
qed simp

text \<open>A byte of no white space.\<close>

lemma not_blank_Cons:
  assumes "\<forall>q\<in>set space_seqs. c \<notin> set q"
  shows "\<not> blank (c # s)"
proof
  assume b: "blank (c # s)"
  have "space_len (c # s) = 0"
    unfolding space_len_def seq_len_0_iff using assms by (auto simp: prefix_Cons)
  then have "trim_right (c # s) = []" using b by (simp add: trim_space_def trim_left_spaceless)
  then have "trim_seqs (map rev space_seqs) (rev (c # s)) = []" by (simp add: trim_right_def)
  from trim_seqs_Nil [OF this, of c] assms show False by auto
qed

section \<open>Errors\<close>

text \<open>
  A Go error is its message and the sentinels its chain of wrapped errors reaches
  (\<open>errors.Is\<close>, \<open>os.IsNotExist\<close>). \<open>fmt.Errorf("p: %w", err)\<close> keeps the
  sentinels, \<open>%s\<close> and \<open>%v\<close> drop them. \<open>ExitCode\<close> stands for an \<open>ssh.ExitError\<close> with its status.
\<close>

datatype sentinel = KeystoreNotFound | BlobNotFound | NotExist | CtxDone | ExitCode nat

datatype error = Err (msg: string) (sentinels: "sentinel list")

definition errorf :: "string \<Rightarrow> error" where
  "errorf m = Err m []"

definition wrapf :: "string \<Rightarrow> error \<Rightarrow> error" where
  "wrapf p e = Err (p @ msg e) (sentinels e)"

text \<open>\<open>fmt.Errorf("%w%s", err, s)\<close>.\<close>

definition suffixf :: "error \<Rightarrow> string \<Rightarrow> error" where
  "suffixf e s = Err (msg e @ s) (sentinels e)"

definition errors_is :: "error \<Rightarrow> sentinel \<Rightarrow> bool" where
  "errors_is e s = (s \<in> set (sentinels e))"

lemma errors_is_errorf [simp]: "\<not> errors_is (errorf m) s"
  by (simp add: errors_is_def errorf_def)

lemma errors_is_wrapf [simp]: "errors_is (wrapf p e) s = errors_is e s"
  by (simp add: errors_is_def wrapf_def)

lemma errors_is_suffixf [simp]: "errors_is (suffixf e t) s = errors_is e s"
  by (simp add: errors_is_def suffixf_def)

lemma errors_is_Err [simp]: "errors_is (Err m ss) s \<longleftrightarrow> s \<in> set ss"
  by (simp add: errors_is_def)

end
