(* ===== verification/Paths.thy ===== *)
theory Paths
  imports Prelude
begin

text \<open>
  The lexical path functions of Go's \<open>path\<close> and (on Unix) \<open>path/filepath\<close>, which
  every containment check of the source rests on: \<open>Clean\<close>, \<open>Join\<close>, \<open>Dir\<close>, \<open>IsAbs\<close>.
  A path is processed element by element on a stack, as \<open>Clean\<close> does; \<open>comps\<close> is
  the list of elements an absolute path names, the form the file-system model is
  keyed by. The lemmas show that cleaning is idempotent, that joining a clean relative
  path extends the list of elements, and hence that it stays below its base.
\<close>

abbreviation slash :: char where "slash \<equiv> CHR ''/''"
abbreviation dot :: string where "dot \<equiv> ''.''"
abbreviation dotdot :: string where "dotdot \<equiv> ''..''"

fun rooted :: "string \<Rightarrow> bool" where
  "rooted (c # s) = (c = slash)"
| "rooted [] = False"

text \<open>One element of the path against the stack of elements already kept.\<close>

fun push :: "bool \<Rightarrow> string list \<Rightarrow> string \<Rightarrow> string list" where
  "push r st e =
     (if e = '''' \<or> e = dot then st
      else if e = dotdot then
        (case st of
           [] \<Rightarrow> (if r then [] else [dotdot])
         | t # ts \<Rightarrow> (if t = dotdot then dotdot # st else ts))
      else e # st)"

definition elems :: "bool \<Rightarrow> string \<Rightarrow> string list" where
  "elems r p = rev (foldl (push r) [] (split_on slash p))"

definition abs_path :: "string list \<Rightarrow> string" where
  "abs_path es = slash # join [slash] es"

definition rel_path :: "string list \<Rightarrow> string" where
  "rel_path es = (if es = [] then dot else join [slash] es)"

text \<open>\<open>filepath.Clean\<close>, \<open>filepath.IsAbs\<close> and \<open>filepath.Join\<close> of two elements.\<close>

definition clean :: "string \<Rightarrow> string" where
  "clean p = (if rooted p then abs_path (elems True p) else rel_path (elems False p))"

definition is_abs :: "string \<Rightarrow> bool" where
  "is_abs p = rooted p"

definition join2 :: "string \<Rightarrow> string \<Rightarrow> string" where
  "join2 a b =
     (if a = '''' then (if b = '''' then '''' else clean b)
      else clean (a @ slash # b))"

text \<open>\<open>path.Join\<close> of more elements: the clean join of the non-empty rest.\<close>

fun join_path :: "string list \<Rightarrow> string" where
  "join_path [] = ''''"
| "join_path (a # as) =
     (if a = '''' then join_path as else clean (join [slash] (a # as)))"

definition comps :: "string \<Rightarrow> string list" where
  "comps p = elems True p"

text \<open>\<open>filepath.Dir\<close>: everything up to the last slash, cleaned.\<close>

definition dir_of :: "string \<Rightarrow> string" where
  "dir_of p = clean (rev (dropWhile (\<lambda>c. c \<noteq> slash) (rev p)))"

definition plain_elem :: "string \<Rightarrow> bool" where
  "plain_elem e \<longleftrightarrow> e \<noteq> '''' \<and> e \<noteq> dot \<and> e \<noteq> dotdot \<and> slash \<notin> set e"

section \<open>Shape of cleaned paths\<close>

lemma push_plain: "plain_elem e \<Longrightarrow> push r st e = e # st"
  by (simp add: plain_elem_def)

lemma foldl_push_plain:
  "\<forall>e\<in>set es. plain_elem e \<Longrightarrow> foldl (push r) st es = rev es @ st"
  by (induction es arbitrary: st) (auto simp: push_plain simp del: push.simps)

lemma foldl_push_rooted_plain:
  "\<forall>e\<in>set st. plain_elem e \<Longrightarrow> \<forall>e\<in>set es. slash \<notin> set e \<Longrightarrow>
   e \<in> set (foldl (push True) st es) \<Longrightarrow> plain_elem e"
proof (induction es arbitrary: st)
  case (Cons x es)
  have "\<forall>e\<in>set (push True st x). plain_elem e"
    using Cons.prems(1,2) by (cases st) (auto simp: plain_elem_def)
  with Cons show ?case by simp
qed simp

lemma comps_plain: "e \<in> set (comps p) \<Longrightarrow> plain_elem e"
  using foldl_push_rooted_plain [of "[]" "split_on slash p" e]
  by (auto simp: comps_def elems_def dest: split_on_no_sep)

text \<open>Unrooted, the dot-dot elements that survive are at the front.\<close>

lemma push_unrooted_shape:
  assumes "\<forall>e\<in>set ns. plain_elem e" "slash \<notin> set x"
  shows "\<exists>ms j. push False (ns @ replicate k dotdot) x = ms @ replicate j dotdot
           \<and> (\<forall>e\<in>set ms. plain_elem e)"
proof -
  consider "x = '''' \<or> x = dot" | "x = dotdot" "ns = []" | n ms where "x = dotdot" "ns = n # ms"
    | "plain_elem x"
    using assms(2) by (cases ns) (auto simp: plain_elem_def)
  then show ?thesis
  proof cases
    case 1
    then show ?thesis using assms(1) by (intro exI [of _ ns] exI [of _ k]) auto
  next
    case 2
    then show ?thesis by (intro exI [of _ "[]"] exI [of _ "Suc k"]) (cases k; simp)
  next
    case (3 n ms)
    with assms(1) show ?thesis
      by (intro exI [of _ ms] exI [of _ k]) (auto simp: plain_elem_def)
  next
    case 4
    with assms(1) show ?thesis
      by (intro exI [of _ "x # ns"] exI [of _ k]) (auto simp: push_plain simp del: push.simps)
  qed
qed

lemma foldl_push_unrooted_shape:
  "\<forall>e\<in>set ns. plain_elem e \<Longrightarrow> \<forall>e\<in>set es. slash \<notin> set e \<Longrightarrow>
   \<exists>ms j. foldl (push False) (ns @ replicate k dotdot) es = ms @ replicate j dotdot
     \<and> (\<forall>e\<in>set ms. plain_elem e)"
proof (induction es arbitrary: ns k)
  case Nil
  then show ?case by auto
next
  case (Cons x es)
  from Cons.prems obtain ms j where
    "push False (ns @ replicate k dotdot) x = ms @ replicate j dotdot"
    "\<forall>e\<in>set ms. plain_elem e"
    using push_unrooted_shape [of ns x k] by auto
  with Cons show ?case by (simp del: push.simps)
qed

lemma elems_unrooted_shape:
  "\<exists>ms k. elems False p = replicate k dotdot @ ms \<and> (\<forall>e\<in>set ms. plain_elem e)"
proof -
  obtain ms k where "foldl (push False) [] (split_on slash p) = ms @ replicate k dotdot"
    "\<forall>e\<in>set ms. plain_elem e"
    using foldl_push_unrooted_shape [of "[]" "split_on slash p" 0]
    by (auto dest: split_on_no_sep)
  then show ?thesis
    by (intro exI [of _ "rev ms"] exI [of _ k]) (simp add: elems_def)
qed

lemma split_abs_path:
  "\<forall>e\<in>set es. slash \<notin> set e \<Longrightarrow>
   split_on slash (abs_path es) = '''' # (if es = [] then [''''] else es)"
  by (simp add: abs_path_def split_on_join)

lemma comps_abs_path [simp]:
  assumes "\<forall>e\<in>set es. plain_elem e"
  shows "comps (abs_path es) = es"
proof -
  have "\<forall>e\<in>set es. slash \<notin> set e" using assms by (auto simp: plain_elem_def)
  then show ?thesis
    using assms by (simp add: comps_def elems_def split_abs_path foldl_push_plain)
qed

lemma rooted_abs_path [simp]: "rooted (abs_path es)"
  by (simp add: abs_path_def)

lemma clean_rooted: "rooted p \<Longrightarrow> clean p = abs_path (comps p)"
  by (simp add: clean_def comps_def)

theorem clean_abs_idem: "rooted p \<Longrightarrow> clean (clean p) = clean p"
  by (simp add: clean_rooted comps_plain)

lemma comps_clean: "rooted p \<Longrightarrow> comps (clean p) = comps p"
  by (simp add: clean_rooted comps_plain)

section \<open>Joining below a base\<close>

lemma comps_append_slash:
  "comps (a @ slash # b) = rev (foldl (push True) (rev (comps a)) (split_on slash b))"
  by (simp add: comps_def elems_def split_on_append_sep)

lemma comps_join2: "rooted a \<Longrightarrow>
  comps (join2 a b) = rev (foldl (push True) (rev (comps a)) (split_on slash b))"
  by (cases a) (simp_all add: join2_def comps_clean flip: comps_append_slash)

lemma rooted_join2 [simp]: "rooted a \<Longrightarrow> rooted (join2 a b)"
  by (cases a) (simp_all add: join2_def clean_rooted)

lemma join2_abs_path: "rooted a \<Longrightarrow> join2 a b = abs_path (comps (join2 a b))"
  by (cases a) (simp_all add: join2_def clean_rooted comps_plain)

lemma split_rel_path:
  "\<forall>e\<in>set es. plain_elem e \<Longrightarrow> split_on slash (rel_path es) = (if es = [] then [dot] else es)"
  by (simp add: rel_path_def split_on_join plain_elem_def)

text \<open>Joining a clean relative path with no dot-dot appends its elements.\<close>

lemma comps_join2_rel:
  assumes "rooted a" "\<forall>e\<in>set es. plain_elem e"
  shows "comps (join2 a (rel_path es)) = comps a @ es"
  using assms
  by (simp add: comps_join2 split_rel_path foldl_push_plain del: push.simps)
     (simp add: push.simps)

lemma join2_plain:
  assumes "rooted a" "plain_elem e"
  shows "comps (join2 a e) = comps a @ [e]"
  using comps_join2_rel [OF assms(1), of "[e]"] assms(2) by (simp add: rel_path_def)

lemma join_slash_prefix:
  assumes "\<forall>e\<in>set (xs @ ys). slash \<notin> set e \<and> e \<noteq> ''''" "xs \<noteq> []" "ys \<noteq> []"
  shows "join [slash] (xs @ ys) = join [slash] xs @ slash # join [slash] ys"
  using assms
proof (induction "[slash]" xs rule: join.induct)
  case (2 w)
  then show ?case by (cases ys) auto
qed auto

lemma join_inj:
  assumes "join [d] xs = join [d] ys" "xs \<noteq> []" "ys \<noteq> []"
    "\<forall>e\<in>set xs. d \<notin> set e" "\<forall>e\<in>set ys. d \<notin> set e"
  shows "xs = ys"
  using assms by (metis split_on_join)

text \<open>
  The containment test of the source, \<open>full == base || HasPrefix(full, base + "/")\<close>,
  decides the prefix order on elements, except when the base is the root directory.
\<close>

theorem contained_iff:
  assumes "\<forall>e\<in>set bs. plain_elem e" "\<forall>e\<in>set fs. plain_elem e" "bs \<noteq> []"
  shows "(abs_path fs = abs_path bs \<or> prefix (abs_path bs @ [slash]) (abs_path fs))
           \<longleftrightarrow> prefix bs fs"
    (is "?test \<longleftrightarrow> _")
proof
  have ns: "\<forall>e\<in>set bs. slash \<notin> set e" "\<forall>e\<in>set fs. slash \<notin> set e"
    using assms by (auto simp: plain_elem_def)
  show "prefix bs fs" if ?test
    using that
  proof
    assume "abs_path fs = abs_path bs"
    then have "fs = bs" using assms by (metis comps_abs_path)
    then show ?thesis by simp
  next
    assume "prefix (abs_path bs @ [slash]) (abs_path fs)"
    then obtain t where t: "abs_path fs = abs_path bs @ slash # t"
      by (auto simp: prefix_def)
    have "split_on slash (abs_path fs) = split_on slash (abs_path bs) @ split_on slash t"
      by (simp add: t split_on_append_sep)
    with ns assms(3) have "(if fs = [] then [''''] else fs) = bs @ split_on slash t"
      by (simp add: split_abs_path)
    with assms(3) show ?thesis by (auto simp: prefix_def Cons_eq_append_conv split: if_splits)
  qed
next
  assume "prefix bs fs"
  then obtain cs where cs: "fs = bs @ cs" by (auto simp: prefix_def)
  show ?test
  proof (cases "cs = []")
    case False
    have "join [slash] fs = join [slash] bs @ slash # join [slash] cs"
      using join_slash_prefix [of bs cs] False assms cs by (auto simp: plain_elem_def)
    then show ?thesis by (simp add: abs_path_def prefix_def)
  qed (simp add: cs)
qed

section \<open>The directory of a path\<close>

lemma dir_of_split: "slash \<notin> set x \<Longrightarrow> dir_of (q @ slash # x) = clean (q @ [slash])"
proof -
  assume "slash \<notin> set x"
  then have "dropWhile (\<lambda>c. c \<noteq> slash) (rev x @ slash # rev q) = slash # rev q"
    by (subst dropWhile_append2) auto
  then show ?thesis by (simp add: dir_of_def)
qed

lemma comps_trailing: "comps (q @ [slash]) = comps q"
  using comps_append_slash [of q "''''"] by simp

lemma abs_path_snoc:
  "\<forall>e\<in>set (es @ [e]). plain_elem e \<Longrightarrow>
   abs_path (es @ [e]) = (if es = [] then '''' else abs_path es) @ slash # e"
  using join_slash_prefix [of es "[e]"] by (auto simp: abs_path_def plain_elem_def)

lemma dir_of_abs_path:
  assumes "\<forall>e\<in>set es. plain_elem e"
  shows "rooted (dir_of (abs_path es))" "comps (dir_of (abs_path es)) = butlast es"
proof -
  have "rooted (dir_of (abs_path es)) \<and> comps (dir_of (abs_path es)) = butlast es"
  proof (cases es rule: rev_cases)
    case Nil
    have "rooted (dir_of ''/'') \<and> comps (dir_of ''/'') = []" by code_simp
    with Nil show ?thesis by (simp add: abs_path_def)
  next
    case (snoc xs x)
    then have x: "slash \<notin> set x" and xs: "\<forall>e\<in>set xs. plain_elem e"
      using assms by (auto simp: plain_elem_def)
    have s: "abs_path es = (if xs = [] then '''' else abs_path xs) @ slash # x"
      using abs_path_snoc [of xs x] assms snoc by simp
    have d: "dir_of (abs_path es) = clean ((if xs = [] then '''' else abs_path xs) @ [slash])"
      unfolding s by (rule dir_of_split [OF x])
    have r: "rooted ((if xs = [] then '''' else abs_path xs) @ [slash])"
      by (simp add: abs_path_def)
    have c: "comps ((if xs = [] then '''' else abs_path xs) @ [slash]) = xs"
      using xs by (simp add: comps_trailing) (simp add: comps_def elems_def)
    show ?thesis
      using d r c xs snoc by (simp add: clean_rooted)
  qed
  then show "rooted (dir_of (abs_path es))" "comps (dir_of (abs_path es)) = butlast es" by simp_all
qed

lemma nat_str_digits: "c \<in> set (nat_str n) \<Longrightarrow> \<exists>d < 10. c = digit_char d"
proof (induction n rule: nat_str.induct)
  case (1 n)
  from "1.prems" have "c = digit_char (n mod 10) \<or> (\<not> n < 10 \<and> c \<in> set (nat_str (n div 10)))"
    by (subst (asm) nat_str.simps) (auto split: if_splits)
  then show ?case
    using "1.IH" by (elim disjE) (auto intro: exI [of _ "n mod 10"])
qed

lemma digit_char_neq: "d < 10 \<Longrightarrow> digit_char d \<in> set ''0123456789''"
proof -
  have "list_all (\<lambda>d. digit_char d \<in> set ''0123456789'') [0..<10]" by code_simp
  then show "d < 10 \<Longrightarrow> digit_char d \<in> set ''0123456789''" unfolding list_all_iff by simp
qed

lemma nat_str_chars: "set (nat_str n) \<subseteq> set ''0123456789''"
  using nat_str_digits digit_char_neq by blast

lemma nat_str_no_slash: "slash \<notin> set (nat_str n)"
  using nat_str_chars [of n] by auto

lemma join_snoc_append:
  "join sep (es @ [e]) @ t = join sep (es @ [e @ t])"
  by (induction sep es rule: join.induct) auto

lemma abs_path_append: "abs_path (es @ [e]) @ t = abs_path (es @ [e @ t])"
  by (simp add: abs_path_def join_snoc_append)

lemma join2_plain_path:
  assumes "rooted a" "plain_elem e"
  shows "join2 a e = abs_path (comps a @ [e])"
  using join2_abs_path [OF assms(1), of e] join2_plain [OF assms] by simp

end
