(* ===== verification/FileSys.thy ===== *)
theory FileSys
  imports Paths "HOL-Library.AList"
begin

text \<open>
  The operating-system calls of Go's \<open>os\<close> package the in-tree drivers are written on, over
  a tree of directories and files keyed by path elements. Every call may fail: \<open>fault n\<close> says
  whether the \<open>n\<close>-th call does, with what message, and (for a call that writes a file) what
  torn prefix of the content it leaves behind. \<open>fnode\<close> reads the tree; each operation has a
  lemma for its success and one for its failure, in terms of \<open>fnode\<close> before and after.
\<close>

named_theorems fs_ops "success and failure facts of the file-system calls"

datatype node = Dir | File (nd_content: string) (nd_mode: nat)

record fsys =
  nodes :: "(string list \<times> node) list"
  cwd :: "string list"
  fault :: "nat \<Rightarrow> (string \<times> string option) option"
  tmpname :: "nat \<Rightarrow> nat"
  fops :: nat

definition fnode :: "fsys \<Rightarrow> string list \<Rightarrow> node option" where
  "fnode s q = (if q = [] then Some Dir else map_of (nodes s) q)"

text \<open>The node a path names: a relative one is taken below the working directory.\<close>

definition place :: "fsys \<Rightarrow> string \<Rightarrow> string list" where
  "place s p = (if rooted p then comps p else comps (abs_path (cwd s) @ slash # p))"

definition put_node :: "string list \<Rightarrow> node \<Rightarrow> fsys \<Rightarrow> fsys" where
  "put_node q n s = s\<lparr>nodes := AList.update q n (nodes s)\<rparr>"

definition drop_below :: "string list \<Rightarrow> fsys \<Rightarrow> fsys" where
  "drop_below q s = s\<lparr>nodes := filter (\<lambda>x. \<not> prefix q (fst x)) (nodes s)\<rparr>"

definition drop_node :: "string list \<Rightarrow> fsys \<Rightarrow> fsys" where
  "drop_node q s = s\<lparr>nodes := filter (\<lambda>x. fst x \<noteq> q) (nodes s)\<rparr>"

definition is_file :: "node option \<Rightarrow> bool" where
  "is_file n = (case n of Some (File c m) \<Rightarrow> True | _ \<Rightarrow> False)"

text \<open>ENOENT, or ENOTDIR when a file is where the path has a directory.\<close>

definition missing :: "fsys \<Rightarrow> string list \<Rightarrow> error" where
  "missing s q =
     (if list_ex (\<lambda>r. is_file (fnode s r)) (prefixes (butlast q))
      then errorf ''not a directory''
      else Err ''no such file or directory'' [NotExist])"

definition with_fault ::
    "(string \<Rightarrow> fsys \<Rightarrow> fsys) \<Rightarrow> (fsys \<Rightarrow> (error + 'a) \<times> fsys) \<Rightarrow> fsys \<Rightarrow> (error + 'a) \<times> fsys" where
  "with_fault torn f s =
     (let s' = s\<lparr>fops := Suc (fops s)\<rparr>
      in case fault s (fops s) of
           None \<Rightarrow> f s'
         | Some (m, part) \<Rightarrow>
             (Inl (errorf m), case part of None \<Rightarrow> s' | Some c \<Rightarrow> torn c s'))"

abbreviation no_torn :: "string \<Rightarrow> fsys \<Rightarrow> fsys" where
  "no_torn \<equiv> (\<lambda>c s. s)"

text \<open>\<open>os.ReadFile\<close>.\<close>

definition os_read_file :: "string \<Rightarrow> fsys \<Rightarrow> (error + string) \<times> fsys" where
  "os_read_file p =
     with_fault no_torn (\<lambda>s.
       (case (if p = '''' then None else fnode s (place s p)) of
          Some (File c m) \<Rightarrow> (Inr c, s)
        | Some Dir \<Rightarrow> (Inl (errorf ''is a directory''), s)
        | None \<Rightarrow> (Inl (missing s (place s p)), s)))"

text \<open>Whether a file can be created or replaced at a place.\<close>

definition writable :: "fsys \<Rightarrow> string list \<Rightarrow> bool" where
  "writable s q \<longleftrightarrow> q \<noteq> [] \<and> fnode s q \<noteq> Some Dir \<and> fnode s (butlast q) = Some Dir"

definition file_mode :: "fsys \<Rightarrow> string list \<Rightarrow> nat \<Rightarrow> nat" where
  "file_mode s q m = (case fnode s q of Some (File c m') \<Rightarrow> m' | _ \<Rightarrow> m)"

text \<open>\<open>os.WriteFile\<close>: truncates and writes; an existing file keeps its mode.\<close>

definition os_write_file :: "string \<Rightarrow> string \<Rightarrow> nat \<Rightarrow> fsys \<Rightarrow> (error + unit) \<times> fsys" where
  "os_write_file p c m =
     with_fault
       (\<lambda>part s. if p \<noteq> '''' \<and> writable s (place s p)
         then put_node (place s p) (File part (file_mode s (place s p) m)) s else s)
       (\<lambda>s. if p \<noteq> '''' \<and> writable s (place s p)
         then (Inr (), put_node (place s p) (File c (file_mode s (place s p) m)) s)
         else if p \<noteq> '''' \<and> fnode s (place s p) = Some Dir
         then (Inl (errorf ''is a directory''), s)
         else (Inl (missing s (place s p)), s))"

text \<open>\<open>os.MkdirAll\<close>.\<close>

definition add_dir :: "string list \<Rightarrow> fsys \<Rightarrow> fsys" where
  "add_dir q s = (if fnode s q = None then put_node q Dir s else s)"

definition os_mkdir_all :: "string \<Rightarrow> fsys \<Rightarrow> (error + unit) \<times> fsys" where
  "os_mkdir_all p =
     with_fault no_torn (\<lambda>s.
       if p = '''' then (Inl (missing s []), s)
       else if list_ex (\<lambda>r. is_file (fnode s r)) (prefixes (place s p))
       then (Inl (errorf ''not a directory''), s)
       else (Inr (), fold add_dir (prefixes (place s p)) s))"

text \<open>\<open>os.Remove\<close> of a file, and \<open>os.RemoveAll\<close>.\<close>

definition os_remove :: "string \<Rightarrow> fsys \<Rightarrow> (error + unit) \<times> fsys" where
  "os_remove p =
     with_fault no_torn (\<lambda>s.
       if p \<noteq> '''' \<and> is_file (fnode s (place s p)) then (Inr (), drop_node (place s p) s)
       else (Inl (missing s (place s p)), s))"

definition os_remove_all :: "string \<Rightarrow> fsys \<Rightarrow> (error + unit) \<times> fsys" where
  "os_remove_all p =
     with_fault no_torn (\<lambda>s.
       if p = '''' then (Inr (), s) else (Inr (), drop_below (place s p) s))"

text \<open>
  \<open>os.Rename\<close>. A file replaces a file in one step; a directory moves with everything below
  it onto a name that is free.
\<close>

definition move_below :: "string list \<Rightarrow> string list \<Rightarrow> fsys \<Rightarrow> fsys" where
  "move_below a b s =
     s\<lparr>nodes := map (\<lambda>(q, n). (if prefix a q then b @ drop (length a) q else q, n))
                   (filter (\<lambda>x. \<not> prefix b (fst x)) (nodes s))\<rparr>"

definition os_rename :: "string \<Rightarrow> string \<Rightarrow> fsys \<Rightarrow> (error + unit) \<times> fsys" where
  "os_rename p p' =
     with_fault no_torn (\<lambda>s.
       (case fnode s (place s p) of
          None \<Rightarrow> (Inl (missing s (place s p)), s)
        | Some (File c m) \<Rightarrow>
            (if writable s (place s p')
             then (Inr (), put_node (place s p') (File c m) (drop_node (place s p) s))
             else (Inl (errorf ''cannot rename''), s))
        | Some Dir \<Rightarrow>
            (if \<not> prefix (place s p) (place s p') \<and> fnode s (place s p') = None
                \<and> fnode s (butlast (place s p')) = Some Dir
             then (Inr (), move_below (place s p) (place s p') s)
             else (Inl (errorf ''cannot rename''), s))))"

text \<open>\<open>os.Stat\<close>, reduced to whether the name is there and is a directory.\<close>

definition os_stat :: "string \<Rightarrow> fsys \<Rightarrow> (error + bool) \<times> fsys" where
  "os_stat p =
     with_fault no_torn (\<lambda>s.
       (case (if p = '''' then None else fnode s (place s p)) of
          Some n \<Rightarrow> (Inr (n = Dir), s)
        | None \<Rightarrow> (Inl (missing s (place s p)), s)))"

text \<open>
  \<open>os.CreateTemp(dir, pre + "*" + suf)\<close>: a new, empty file under a name that is not taken
  yet; the name is random, here \<open>tmpname\<close> of the call's number.
\<close>

definition os_create_temp :: "string \<Rightarrow> string \<Rightarrow> string \<Rightarrow> fsys \<Rightarrow> (error + string) \<times> fsys" where
  "os_create_temp d pre suf =
     with_fault no_torn (\<lambda>s.
       let p = join2 d (pre @ nat_str (tmpname s (fops s)) @ suf); q = place s p
       in if fnode s q = None \<and> writable s q then (Inr p, put_node q (File '''' 384) s)
          else (Inl (errorf ''file exists''), s))"

text \<open>\<open>Close\<close> of a written file, which reports a failed flush.\<close>

definition os_close :: "fsys \<Rightarrow> (error + unit) \<times> fsys" where
  "os_close = with_fault no_torn (\<lambda>s. (Inr (), s))"

text \<open>
  \<open>os.Open\<close>, as what its reader will deliver: bytes, and the error a read then ends with if it
  fails. The reader keeps the file it opened: replacing the name by a rename does not reach it.
\<close>

type_synonym reader = "string \<times> error option"

definition os_open :: "string \<Rightarrow> fsys \<Rightarrow> (error + reader) \<times> fsys" where
  "os_open p s =
     (let s' = s\<lparr>fops := Suc (fops s)\<rparr>
      in case (if p = '''' then None else fnode s (place s p)) of
           None \<Rightarrow> (Inl (missing s (place s p)), s')
         | Some Dir \<Rightarrow> (Inr ('''', Some (errorf ''is a directory'')), s')
         | Some (File c m) \<Rightarrow>
             (case fault s (fops s) of
                None \<Rightarrow> (Inr (c, None), s')
              | Some (em, None) \<Rightarrow> (Inl (errorf em), s')
              | Some (em, Some part) \<Rightarrow> (Inr (take (length part) c, Some (errorf em)), s')))"

text \<open>The files below a directory, in the lexical order \<open>filepath.WalkDir\<close> visits them.\<close>

definition files_below :: "fsys \<Rightarrow> string list \<Rightarrow> string list list" where
  "files_below s q =
     sort (remdups (filter (\<lambda>r. prefix q r \<and> is_file (fnode s r)) (map fst (nodes s))))"

section \<open>Reading the tree back\<close>

lemma fnode_put [simp]:
  "q \<noteq> [] \<Longrightarrow> fnode (put_node q n s) = (fnode s)(q \<mapsto> n)"
  by (auto simp: fnode_def put_node_def update_conv' fun_eq_iff)

lemma map_of_filter_prefix:
  "map_of (filter (\<lambda>x. \<not> prefix q (fst x)) al) r = (if prefix q r then None else map_of al r)"
  by (induction al) auto

lemma fnode_drop_below:
  "fnode (drop_below q s) r = (if prefix q r \<and> r \<noteq> [] then None else fnode s r)"
  by (simp add: fnode_def drop_below_def map_of_filter_prefix)

lemma map_of_filter_ne:
  "map_of (filter (\<lambda>x. fst x \<noteq> q) al) r = (if r = q then None else map_of al r)"
  by (induction al) auto

lemma fnode_drop_node:
  "fnode (drop_node q s) r = (if r = q \<and> r \<noteq> [] then None else fnode s r)"
  by (simp add: fnode_def drop_node_def map_of_filter_ne)

lemma drop_node_simps [simp]:
  "cwd (drop_node q s) = cwd s" "fault (drop_node q s) = fault s"
  "fops (drop_node q s) = fops s" "tmpname (drop_node q s) = tmpname s"
  by (simp_all add: drop_node_def)

lemma put_node_simps [simp]:
  "cwd (put_node q n s) = cwd s" "fault (put_node q n s) = fault s"
  "fops (put_node q n s) = fops s" "tmpname (put_node q n s) = tmpname s"
  by (simp_all add: put_node_def)

lemma drop_below_simps [simp]:
  "cwd (drop_below q s) = cwd s" "fault (drop_below q s) = fault s"
  "fops (drop_below q s) = fops s" "tmpname (drop_below q s) = tmpname s"
  by (simp_all add: drop_below_def)

lemma fnode_fops [simp]: "fnode (s\<lparr>fops := n\<rparr>) = fnode s"
  by (simp add: fnode_def fun_eq_iff)

lemma place_fops [simp]: "place (s\<lparr>fops := n\<rparr>) = place s"
  by (simp add: place_def fun_eq_iff)

lemma place_cwd: "cwd s' = cwd s \<Longrightarrow> place s' = place s"
  by (simp add: place_def fun_eq_iff)

lemma missing_fops [simp]: "missing (s\<lparr>fops := n\<rparr>) = missing s"
  by (simp add: missing_def fun_eq_iff)

lemma writable_fops [simp]: "writable (s\<lparr>fops := n\<rparr>) = writable s"
  by (simp add: writable_def fun_eq_iff)

lemma file_mode_fops [simp]: "file_mode (s\<lparr>fops := n\<rparr>) = file_mode s"
  by (simp add: file_mode_def fun_eq_iff)

lemma with_fault_Inr:
  "with_fault torn f s = (Inr x, s') \<longleftrightarrow>
     fault s (fops s) = None \<and> f (s\<lparr>fops := Suc (fops s)\<rparr>) = (Inr x, s')"
  by (auto simp: with_fault_def Let_def split: option.splits)

lemma with_fault_Inl:
  "with_fault torn f s = (Inl e, s') \<Longrightarrow>
     (\<exists>m part. e = errorf m \<and> s' = (case part of None \<Rightarrow> s\<lparr>fops := Suc (fops s)\<rparr>
         | Some c \<Rightarrow> torn c (s\<lparr>fops := Suc (fops s)\<rparr>)))
     \<or> f (s\<lparr>fops := Suc (fops s)\<rparr>) = (Inl e, s')"
  by (auto simp: with_fault_def Let_def split: option.splits prod.splits)

lemma os_read_file_Inr [fs_ops]:
  assumes "os_read_file p s = (Inr c, s')"
  shows "(\<exists>m. fnode s (place s p) = Some (File c m)) \<and> fnode s' = fnode s \<and> cwd s' = cwd s"
  using assms
  by (auto simp: os_read_file_def with_fault_Inr split: option.splits node.splits if_splits)

lemma os_read_file_Inl [fs_ops]:
  assumes "os_read_file p s = (Inl e, s')"
  shows "fnode s' = fnode s \<and> cwd s' = cwd s
    \<and> (errors_is e NotExist \<longrightarrow> p = '''' \<or> fnode s (place s p) = None)"
  using assms unfolding os_read_file_def
  by (auto dest!: with_fault_Inl split: option.splits node.splits if_splits)

text \<open>No call of the file system returns an error of another package.\<close>

definition fs_error :: "error \<Rightarrow> bool" where
  "fs_error e \<longleftrightarrow> set (sentinels e) \<subseteq> {NotExist}"

lemma fs_error_intros [simp]: "fs_error (errorf m)" "fs_error (missing s q)"
  by (auto simp: fs_error_def errorf_def missing_def)

lemma fs_errorD: "fs_error e \<Longrightarrow> s \<noteq> NotExist \<Longrightarrow> \<not> errors_is e s"
  by (auto simp: fs_error_def errors_is_def)

lemma with_fault_error:
  "with_fault torn f s = (Inl e, s') \<Longrightarrow> (\<And>t t' e'. f t = (Inl e', t') \<Longrightarrow> fs_error e') \<Longrightarrow> fs_error e"
  by (fastforce dest: with_fault_Inl)

lemma fs_errors:
  "os_read_file p s = (Inl e, s') \<Longrightarrow> fs_error e"
  "os_write_file p c m s = (Inl e, s') \<Longrightarrow> fs_error e"
  "os_mkdir_all p s = (Inl e, s') \<Longrightarrow> fs_error e"
  "os_rename p p' s = (Inl e, s') \<Longrightarrow> fs_error e"
  unfolding os_read_file_def os_write_file_def os_mkdir_all_def os_rename_def
  by (auto elim!: with_fault_error split: option.splits node.splits if_splits)

lemma os_write_file_Inr [fs_ops]:
  assumes "os_write_file p c m s = (Inr u, s')"
  shows "fnode s' = (fnode s)(place s p \<mapsto> File c (file_mode s (place s p) m)) \<and> cwd s' = cwd s
    \<and> place s p \<noteq> []"
  using assms
  by (auto simp: os_write_file_def with_fault_Inr writable_def split: if_splits)

lemma os_write_file_Inl [fs_ops]:
  assumes "os_write_file p c m s = (Inl e, s')" "q \<noteq> place s p"
  shows "fnode s' q = fnode s q"
  using assms unfolding os_write_file_def
  by (auto dest!: with_fault_Inl simp: writable_def split: option.splits if_splits)

lemma os_write_file_cwd [simp]: "cwd (snd (os_write_file p c m s)) = cwd s"
  by (auto simp: os_write_file_def with_fault_def Let_def split: option.splits)

lemma fnode_add_dir: "fnode (add_dir q s) r = (if r = q \<and> fnode s q = None then Some Dir else fnode s r)"
  by (cases "q = []") (auto simp: add_dir_def fnode_def [of _ "[]"])

lemma add_dir_cwd [simp]: "cwd (add_dir q s) = cwd s"
  by (simp add: add_dir_def)

lemma fold_add_dir:
  "fnode (fold add_dir qs s) r = (if r \<in> set qs \<and> fnode s r = None then Some Dir else fnode s r)
   \<and> cwd (fold add_dir qs s) = cwd s"
  by (induction qs arbitrary: s) (auto simp: fnode_add_dir)

text \<open>Making directories never touches a node that is there.\<close>

lemma os_mkdir_all_frame [fs_ops]:
  assumes "os_mkdir_all p s = (r, s')"
  shows "(fnode s q \<noteq> None \<longrightarrow> fnode s' q = fnode s q)
    \<and> (is_file (fnode s' q) \<longrightarrow> fnode s' q = fnode s q) \<and> cwd s' = cwd s"
  using assms
  by (cases r) (auto simp: os_mkdir_all_def with_fault_Inr fold_add_dir is_file_def
      dest!: with_fault_Inl split: if_splits option.splits)

lemma os_mkdir_all_Inr [fs_ops]:
  assumes "os_mkdir_all p s = (Inr u, s')"
  shows "fnode s' (place s p) = Some Dir"
proof -
  have *: "place s p \<in> set (prefixes (place s p))" by simp
  from assms have s': "s' = fold add_dir (prefixes (place s p)) (s\<lparr>fops := Suc (fops s)\<rparr>)"
    and nf: "\<not> is_file (fnode s (place s p))"
    using * by (auto simp: os_mkdir_all_def with_fault_Inr list_ex_iff split: if_splits)
  show ?thesis
  proof (cases "fnode s (place s p)")
    case (Some n)
    with nf show ?thesis by (cases n) (auto simp: s' fold_add_dir is_file_def)
  qed (simp add: s' fold_add_dir)
qed

lemma os_remove_frame [fs_ops]:
  assumes "os_remove p s = (r, s')" "q \<noteq> place s p"
  shows "fnode s' q = fnode s q"
  using assms
  by (cases r) (auto simp: os_remove_def with_fault_Inr fnode_drop_node
      dest!: with_fault_Inl split: if_splits option.splits)

lemma os_rename_file [fs_ops]:
  assumes "os_rename p p' s = (Inr u, s')" "fnode s (place s p) = Some (File c m)"
  shows "fnode s' (place s p') = Some (File c m)"
    "q \<noteq> place s p \<Longrightarrow> q \<noteq> place s p' \<Longrightarrow> fnode s' q = fnode s q" "cwd s' = cwd s"
  using assms
  by (auto simp: os_rename_def with_fault_Inr writable_def fnode_drop_node split: if_splits)

lemma os_rename_Inl [fs_ops]:
  assumes "os_rename p p' s = (Inl e, s')"
  shows "fnode s' = fnode s \<and> cwd s' = cwd s"
  using assms unfolding os_rename_def
  by (auto dest!: with_fault_Inl split: option.splits node.splits if_splits)

lemma os_open_Inr [fs_ops]:
  assumes "os_open p s = (Inr (c, None), s')"
  shows "\<exists>m. fnode s (place s p) = Some (File c m)"
  using assms by (auto simp: os_open_def Let_def split: option.splits node.splits if_splits)

lemma os_open_keeps [fs_ops]:
  assumes "os_open p s = (r, s')"
  shows "fnode s' = fnode s" "cwd s' = cwd s"
  using assms by (auto simp: os_open_def Let_def split: option.splits node.splits if_splits)

lemma os_open_Inl [fs_ops]:
  assumes "os_open p s = (Inl e, s')" "errors_is e NotExist" "rooted p"
  shows "fnode s (place s p) = None"
  using assms by (auto simp: os_open_def Let_def split: option.splits node.splits if_splits)

lemma os_close_keeps [fs_ops]:
  assumes "os_close s = (r, s')"
  shows "fnode s' = fnode s" "cwd s' = cwd s"
  using assms by (auto simp: os_close_def with_fault_def Let_def split: option.splits)

lemma os_create_temp_Inr [fs_ops]:
  assumes "os_create_temp d pre suf s = (Inr p, s')"
  shows "\<exists>n. p = join2 d (pre @ nat_str n @ suf)" "fnode s (place s p) = None"
    "fnode s' = (fnode s)(place s p \<mapsto> File '''' 384)" "cwd s' = cwd s"
  using assms
  by (auto simp: os_create_temp_def with_fault_Inr Let_def writable_def split: if_splits)

lemma os_create_temp_Inl [fs_ops]:
  assumes "os_create_temp d pre suf s = (Inl e, s')"
  shows "fnode s' = fnode s" "cwd s' = cwd s"
  using assms unfolding os_create_temp_def
  by (auto dest!: with_fault_Inl simp: Let_def split: option.splits if_splits)

lemma os_remove_cwd [fs_ops]:
  assumes "os_remove p s = (r, s')"
  shows "cwd s' = cwd s"
  using assms
  by (auto simp: os_remove_def with_fault_def Let_def split: if_splits option.splits)

text \<open>A removal or a move touches only what is below its paths.\<close>

lemma os_remove_all_frame [fs_ops]:
  assumes "os_remove_all p s = (r, s')"
  shows "\<not> prefix (place s p) q \<Longrightarrow> fnode s' q = fnode s q" "cwd s' = cwd s"
proof -
  have s: "s' = s\<lparr>fops := Suc (fops s)\<rparr> \<or> s' = drop_below (place s p) (s\<lparr>fops := Suc (fops s)\<rparr>)"
    using assms by (auto simp: os_remove_all_def with_fault_def Let_def split: option.splits if_splits)
  then show "\<not> prefix (place s p) q \<Longrightarrow> fnode s' q = fnode s q" "cwd s' = cwd s"
    by (auto simp: fnode_drop_below)
qed

lemma map_of_move:
  assumes "\<not> prefix a q" "\<not> prefix b q"
  shows "map_of (map (\<lambda>(q, n). (if prefix a q then b @ drop (length a) q else q, n))
           (filter (\<lambda>x. \<not> prefix b (fst x)) al)) q = map_of al q"
  using assms by (induction al) (auto simp: prefix_def)

lemma os_rename_frame [fs_ops]:
  assumes "os_rename p p' s = (r, s')"
  shows "\<not> prefix (place s p) q \<Longrightarrow> \<not> prefix (place s p') q \<Longrightarrow> fnode s' q = fnode s q"
    and "cwd s' = cwd s"
proof -
  let ?s = "s\<lparr>fops := Suc (fops s)\<rparr>"
  have s: "s' = ?s \<or> s' = move_below (place s p) (place s p') ?s \<or>
      (\<exists>n. place s p' \<noteq> [] \<and> s' = put_node (place s p') n (drop_node (place s p) ?s))"
    using assms
    by (auto simp: os_rename_def with_fault_def Let_def writable_def
        split: option.splits if_splits node.splits)
  have "cwd (move_below a b t) = cwd t" for a b t by (simp add: move_below_def)
  with s show "cwd s' = cwd s" by auto
  assume q: "\<not> prefix (place s p) q" "\<not> prefix (place s p') q"
  have "fnode (move_below (place s p) (place s p') ?s) q = fnode s q"
    using q by (auto simp: fnode_def move_below_def map_of_move)
  with s q show "fnode s' q = fnode s q"
    by (auto simp: fnode_drop_node)
qed

end
