(* ===== verification/Events.thy ===== *)
theory Events
  imports Prelude
begin

text \<open>
  \<open>internal/core/events\<close>: the event schema, a job's event log with its terminal state, and the
  delivery of the log to concurrent subscribers. The job itself is a record with one operation per
  method; delivery is a step relation at the grain of the code's critical sections (the part of
  \<open>Emit\<close> under \<open>j.mu\<close>, each \<open>push\<close> and \<open>close\<close> it makes after unlocking, \<open>Subscribe\<close>,
  the two halves of cancel, and the forwarding goroutine's receive, send and return). \<open>evs\<close>
  collects the facts about the log.
\<close>

named_theorems evs "facts about a job's event log"

section \<open>Events and jobs\<close>

datatype state = StateStarted | StateSucceeded | StateFailed

record event =
  ev_job :: string
  ev_step :: string
  ev_state :: state
  ev_detail :: string
  ev_time :: int

record job =
  job_id :: string
  job_events :: "event list"
  job_terminal :: bool

definition new_job :: "string \<Rightarrow> job" where
  "new_job i = \<lparr>job_id = i, job_events = [], job_terminal = False\<rparr>"

definition is_terminal :: "state \<Rightarrow> bool" where
  "is_terminal st \<longleftrightarrow> st = StateSucceeded \<or> st = StateFailed"

definition ends_job :: "string \<Rightarrow> state \<Rightarrow> bool" where
  "ends_job step st \<longleftrightarrow> step = '''' \<and> is_terminal st"

definition mk_event :: "job \<Rightarrow> string \<Rightarrow> state \<Rightarrow> string \<Rightarrow> int \<Rightarrow> event" where
  "mk_event j step st detail now =
     \<lparr>ev_job = job_id j, ev_step = step, ev_state = st, ev_detail = detail, ev_time = now\<rparr>"

text \<open>The critical section of \<open>Emit\<close>; \<open>None\<close> is the panic of an emit after the end.\<close>

definition job_emit :: "job \<Rightarrow> string \<Rightarrow> state \<Rightarrow> string \<Rightarrow> int \<Rightarrow> job option" where
  "job_emit j step st detail now =
     (if job_terminal j then None
      else Some (j\<lparr>job_events := job_events j @ [mk_event j step st detail now],
                   job_terminal := ends_job step st\<rparr>))"

definition event_ends :: "event \<Rightarrow> bool" where
  "event_ends e = ends_job (ev_step e) (ev_state e)"

text \<open>A log is well formed when it has ended exactly at its only terminal event, its last.\<close>

definition job_wf :: "job \<Rightarrow> bool" where
  "job_wf j \<longleftrightarrow>
     (\<forall>e\<in>set (job_events j). ev_job e = job_id j) \<and>
     (if job_terminal j
      then job_events j \<noteq> [] \<and> event_ends (last (job_events j))
           \<and> (\<forall>e\<in>set (butlast (job_events j)). \<not> event_ends e)
      else (\<forall>e\<in>set (job_events j). \<not> event_ends e))"

lemma new_job_wf [simp, evs]: "job_wf (new_job i)"
  by (simp add: job_wf_def new_job_def)

lemma mk_event_simps [simp, evs]:
  "ev_job (mk_event j step st d n) = job_id j" "ev_step (mk_event j step st d n) = step"
  "ev_state (mk_event j step st d n) = st" "ev_detail (mk_event j step st d n) = d"
  by (simp_all add: mk_event_def)

lemma event_ends_mk [simp, evs]: "event_ends (mk_event j step st d n) = ends_job step st"
  by (simp add: event_ends_def)

lemma job_emit_wf: "job_wf j \<Longrightarrow> job_emit j step st d n = Some j' \<Longrightarrow> job_wf j'"
  by (auto simp: job_wf_def job_emit_def split: if_splits)

lemma job_emit_Some: "job_emit j step st d n = Some j' \<longleftrightarrow>
  \<not> job_terminal j \<and> j' = j\<lparr>job_events := job_events j @ [mk_event j step st d n],
      job_terminal := ends_job step st\<rparr>"
  by (auto simp: job_emit_def)

lemma not_ends_job [simp, evs]: "step \<noteq> '''' \<Longrightarrow> \<not> ends_job step st"
  "\<not> ends_job step StateStarted"
  by (simp_all add: ends_job_def is_terminal_def)

lemma ends_job_terminal [simp, evs]:
  "ends_job '''' StateSucceeded" "ends_job '''' StateFailed"
  by (simp_all add: ends_job_def is_terminal_def)

section \<open>The job store\<close>

type_synonym store = "string \<rightharpoonup> job"

definition store_new :: "store \<Rightarrow> string \<Rightarrow> store \<times> job" where
  "store_new s i = (s(i \<mapsto> new_job i), new_job i)"

definition store_get :: "store \<Rightarrow> string \<Rightarrow> job option" where
  "store_get s i = s i"

section \<open>Delivery to subscribers\<close>

text \<open>
  A subscriber, with what its reader has received so far (\<open>received\<close>), the event its forwarder
  holds between taking it off the queue and the channel send (\<open>holding\<close>), and whether the
  forwarder has returned and closed the channel (\<open>out_closed\<close>).
\<close>

record subscriber =
  queue :: "event list"
  closed :: bool
  abandoned :: bool
  holding :: "event option"
  received :: "event list"
  out_closed :: bool

definition new_subscriber :: "event list \<Rightarrow> subscriber" where
  "new_subscriber backlog =
     \<lparr>queue = backlog, closed = False, abandoned = False, holding = None, received = [],
      out_closed = False\<rparr>"

definition sub_push :: "event \<Rightarrow> subscriber \<Rightarrow> subscriber" where
  "sub_push e s = s\<lparr>queue := queue s @ [e]\<rparr>"

definition sub_close :: "subscriber \<Rightarrow> subscriber" where
  "sub_close s = s\<lparr>closed := True\<rparr>"

definition sub_abandon :: "subscriber \<Rightarrow> subscriber" where
  "sub_abandon s = (sub_close s)\<lparr>abandoned := True\<rparr>"

text \<open>What an emitter still has to do for the event it recorded, after \<open>j.mu\<close> is released.\<close>

datatype act = Push nat event | Close nat

definition acts_for :: "event \<Rightarrow> nat list \<Rightarrow> act list" where
  "acts_for e os = concat (map (\<lambda>i. if event_ends e then [Push i e, Close i] else [Push i e]) os)"

record sys =
  jb :: job
  subs :: "nat set"
  objs :: "nat \<Rightarrow> subscriber"
  nobj :: nat
  pend :: "nat \<Rightarrow> act list"

definition init_sys :: "string \<Rightarrow> sys" where
  "init_sys i = \<lparr>jb = new_job i, subs = {}, objs = (\<lambda>_. new_subscriber []), nobj = 0,
     pend = (\<lambda>_. [])\<rparr>"

definition upd :: "sys \<Rightarrow> nat \<Rightarrow> (subscriber \<Rightarrow> subscriber) \<Rightarrow> sys" where
  "upd s i f = s\<lparr>objs := (objs s)(i := f (objs s i))\<rparr>"

text \<open>
  The steps, for emitting goroutines \<open>T\<close>. \<open>emit\<close> snapshots the registered subscribers in
  whatever order the map is iterated; \<open>push\<close> and \<open>close\<close> are the locked sections of the loop
  that follows; the four \<open>fwd\<close> rules are \<open>forward\<close>.
\<close>

inductive sstep :: "nat set \<Rightarrow> sys \<Rightarrow> sys \<Rightarrow> bool" for T where
  emit: "t \<in> T \<Longrightarrow> pend s t = [] \<Longrightarrow> job_emit (jb s) step st d now = Some j' \<Longrightarrow>
    distinct os \<Longrightarrow> set os = subs s \<Longrightarrow>
    sstep T s (s\<lparr>jb := j', subs := (if job_terminal j' then {} else subs s),
      pend := (pend s)(t := acts_for (last (job_events j')) os)\<rparr>)"
| push: "pend s t = Push i e # as \<Longrightarrow>
    sstep T s ((upd s i (sub_push e))\<lparr>pend := (pend s)(t := as)\<rparr>)"
| close: "pend s t = Close i # as \<Longrightarrow>
    sstep T s ((upd s i sub_close)\<lparr>pend := (pend s)(t := as)\<rparr>)"
| subscribe_live: "\<not> job_terminal (jb s) \<Longrightarrow>
    sstep T s (s\<lparr>objs := (objs s)(nobj s := new_subscriber (job_events (jb s))),
      subs := insert (nobj s) (subs s), nobj := Suc (nobj s)\<rparr>)"
| subscribe_done: "job_terminal (jb s) \<Longrightarrow>
    sstep T s (s\<lparr>objs := (objs s)(nobj s := sub_close (new_subscriber (job_events (jb s)))),
      nobj := Suc (nobj s)\<rparr>)"
| unregister: "i < nobj s \<Longrightarrow>
    sstep T s ((upd s i sub_abandon)\<lparr>subs := subs s - {i}\<rparr>)"
| fwd_take: "i < nobj s \<Longrightarrow> \<not> out_closed (objs s i) \<Longrightarrow> holding (objs s i) = None \<Longrightarrow>
    queue (objs s i) = e # q \<Longrightarrow>
    sstep T s (upd s i (\<lambda>b. b\<lparr>queue := q, holding := Some e\<rparr>))"
| fwd_send: "i < nobj s \<Longrightarrow> holding (objs s i) = Some e \<Longrightarrow>
    sstep T s (upd s i (\<lambda>b. b\<lparr>holding := None, received := received b @ [e]\<rparr>))"
| fwd_drop: "i < nobj s \<Longrightarrow> holding (objs s i) = Some e \<Longrightarrow> abandoned (objs s i) \<Longrightarrow>
    sstep T s (upd s i (\<lambda>b. b\<lparr>holding := None, out_closed := True\<rparr>))"
| fwd_return: "i < nobj s \<Longrightarrow> \<not> out_closed (objs s i) \<Longrightarrow> holding (objs s i) = None \<Longrightarrow>
    queue (objs s i) = [] \<Longrightarrow> closed (objs s i) \<Longrightarrow>
    sstep T s (upd s i (\<lambda>b. b\<lparr>out_closed := True\<rparr>))"

inductive reach :: "nat set \<Rightarrow> string \<Rightarrow> sys \<Rightarrow> bool" for T i where
  reach_init: "reach T i (init_sys i)"
| reach_step: "reach T i s \<Longrightarrow> sstep T s s' \<Longrightarrow> reach T i s'"

text \<open>Everything on its way to subscriber \<open>i\<close>, in the order it will be received.\<close>

fun pushes :: "nat \<Rightarrow> act list \<Rightarrow> event list" where
  "pushes i [] = []"
| "pushes i (Push k e # as) = (if k = i then e # pushes i as else pushes i as)"
| "pushes i (Close k # as) = pushes i as"

definition stream :: "subscriber \<Rightarrow> event list \<Rightarrow> event list" where
  "stream b coming =
     received b @ (case holding b of None \<Rightarrow> [] | Some e \<Rightarrow> [e]) @ queue b @ coming"

fun pushed_before_close :: "act list \<Rightarrow> nat \<Rightarrow> bool" where
  "pushed_before_close [] i = True"
| "pushed_before_close (Push k e # as) i = pushed_before_close as i"
| "pushed_before_close (Close k # as) i = ((k = i \<longrightarrow> pushes i as = []) \<and> pushed_before_close as i)"

lemma pushes_append [simp]: "pushes i (as @ bs) = pushes i as @ pushes i bs"
  by (induction i as rule: pushes.induct) auto

lemma pushes_acts_for:
  "distinct os \<Longrightarrow> pushes i (acts_for e os) = (if i \<in> set os then [e] else [])"
  unfolding acts_for_def by (induction os) auto

lemma close_in_acts: "Close i \<in> set (acts_for e os) \<longleftrightarrow> event_ends e \<and> i \<in> set os"
  by (auto simp: acts_for_def split: if_splits)

lemma pushed_before_acts: "distinct os \<Longrightarrow> pushed_before_close (acts_for e os) i"
proof (induction os)
  case Nil
  then show ?case by (simp add: acts_for_def)
next
  case (Cons k os)
  have "acts_for e (k # os) = (if event_ends e then [Push k e, Close k] else [Push k e]) @ acts_for e os"
    by (simp add: acts_for_def)
  with Cons show ?case by (auto simp: pushes_acts_for)
qed

lemma acts_for_obj: "Push k e' \<in> set (acts_for e os) \<or> Close k \<in> set (acts_for e os) \<Longrightarrow> k \<in> set os"
  by (auto simp: acts_for_def split: if_splits)

lemma pushes_subset: "set (pushes i as) = {e. Push i e \<in> set as}"
  by (induction i as rule: pushes.induct) auto

text \<open>
  The invariant of a job with one emitting goroutine \<open>t\<close>: every subscriber whose reader has not
  cancelled has, between received, held, queued and about to be pushed, exactly the log; and
  it is closed only once nothing is left to push to it.
\<close>

definition sub_ok :: "event list \<Rightarrow> bool \<Rightarrow> bool \<Rightarrow> act list \<Rightarrow> nat \<Rightarrow> subscriber \<Rightarrow> bool" where
  "sub_ok log over reg as i b \<longleftrightarrow>
     pushed_before_close as i \<and> (reg \<longrightarrow> Close i \<notin> set as) \<and>
     (\<not> abandoned b \<longrightarrow>
        stream b (pushes i as) = log \<and>
        (closed b \<longrightarrow> over \<and> pushes i as = []) \<and>
        (out_closed b \<longrightarrow> closed b \<and> queue b = [] \<and> holding b = None) \<and>
        (\<not> closed b \<longrightarrow> reg \<or> Close i \<in> set as))"

definition act_obj :: "act \<Rightarrow> nat" where
  "act_obj a = (case a of Push i e \<Rightarrow> i | Close i \<Rightarrow> i)"

definition delivery_inv :: "nat \<Rightarrow> sys \<Rightarrow> bool" where
  "delivery_inv t s \<longleftrightarrow>
     job_wf (jb s) \<and> subs s \<subseteq> {..<nobj s} \<and> (job_terminal (jb s) \<longrightarrow> subs s = {}) \<and>
     (\<forall>u. u \<noteq> t \<longrightarrow> pend s u = []) \<and>
     (\<forall>a\<in>set (pend s t). act_obj a < nobj s) \<and>
     (\<forall>i. Close i \<in> set (pend s t) \<longrightarrow> job_terminal (jb s)) \<and>
     (\<forall>i < nobj s. sub_ok (job_events (jb s)) (job_terminal (jb s)) (i \<in> subs s)
        (pend s t) i (objs s i))"

lemma delivery_init: "delivery_inv t (init_sys i)"
  by (simp add: delivery_inv_def init_sys_def)

lemma upd_simps [simp]:
  "jb (upd s i f) = jb s" "subs (upd s i f) = subs s" "nobj (upd s i f) = nobj s"
  "pend (upd s i f) = pend s" "objs (upd s i f) = (objs s)(i := f (objs s i))"
  by (simp_all add: upd_def)

lemma not_coming:
  "\<forall>a\<in>set as. act_obj a < n \<Longrightarrow> n \<le> i \<Longrightarrow> pushes i as = [] \<and> Close i \<notin> set as"
proof (induction as)
  case (Cons a as)
  then show ?case by (cases a) (auto simp: act_obj_def)
qed simp

lemma not_coming_before: "pushes i as = [] \<Longrightarrow> pushed_before_close as i"
  by (induction i as rule: pushes.induct) (auto split: if_splits)

lemma sstep_inv:
  assumes "sstep {t} s s'" "delivery_inv t s"
  shows "delivery_inv t s'"
  using assms
proof (induction rule: sstep.induct)
  case (emit u s step st d now j' os)
  then have [simp]: "u = t" and idle: "pend s t = []" by auto
  have ev: "job_events j' = job_events (jb s) @ [mk_event (jb s) step st d now]"
    "job_terminal j' = ends_job step st" "\<not> job_terminal (jb s)"
    using emit.hyps by (auto simp: job_emit_Some)
  have wf: "job_wf j'" using emit by (auto simp: delivery_inv_def job_emit_wf)
  have ok: "sub_ok (job_events j') (job_terminal j') (\<not> job_terminal j' \<and> i \<in> subs s)
      (acts_for (last (job_events j')) os) i (objs s i)" if "i < nobj s" for i
  proof -
    have "sub_ok (job_events (jb s)) False (i \<in> subs s) [] i (objs s i)"
      using emit.prems that idle ev(3) by (simp add: delivery_inv_def)
    then show ?thesis
      using emit.hyps ev
      by (auto simp: sub_ok_def stream_def pushes_acts_for close_in_acts pushed_before_acts)
  qed
  have rng: "\<forall>a\<in>set (acts_for e os). act_obj a < nobj s" for e
    using emit.prems emit.hyps
    by (auto simp: acts_for_def act_obj_def delivery_inv_def split: if_splits)
  show ?case
    using emit.prems emit.hyps wf ok rng ev
    by (auto simp: delivery_inv_def close_in_acts)
next
  case (push s u i e as)
  then have [simp]: "u = t" by (auto simp: delivery_inv_def)
  from push show ?case
    by (auto simp: delivery_inv_def sub_ok_def stream_def sub_push_def)
next
  case (close s u i as)
  then have [simp]: "u = t" by (auto simp: delivery_inv_def)
  from close show ?case
    by (auto simp: delivery_inv_def sub_ok_def stream_def sub_close_def)
next
  case (subscribe_live s)
  then have nc: "pushes (nobj s) (pend s t) = []" "Close (nobj s) \<notin> set (pend s t)"
    using not_coming [of "pend s t" "nobj s" "nobj s"] by (auto simp: delivery_inv_def)
  have "sub_ok (job_events (jb s)) False True (pend s t) (nobj s)
      (new_subscriber (job_events (jb s)))"
    using nc by (simp add: sub_ok_def stream_def new_subscriber_def not_coming_before)
  with subscribe_live show ?case
    by (auto simp: delivery_inv_def less_Suc_eq)
next
  case (subscribe_done s)
  then have nc: "pushes (nobj s) (pend s t) = []" "Close (nobj s) \<notin> set (pend s t)"
    using not_coming [of "pend s t" "nobj s" "nobj s"] by (auto simp: delivery_inv_def)
  have "sub_ok (job_events (jb s)) True False (pend s t) (nobj s)
      (sub_close (new_subscriber (job_events (jb s))))"
    using nc by (simp add: sub_ok_def stream_def new_subscriber_def sub_close_def not_coming_before)
  with subscribe_done show ?case
    by (auto simp: delivery_inv_def less_Suc_eq)
next
  case (unregister i s)
  then show ?case
    by (auto simp: delivery_inv_def sub_ok_def sub_abandon_def sub_close_def)
next
  case (fwd_take i s e q)
  then show ?case
    by (auto simp: delivery_inv_def sub_ok_def stream_def)
next
  case (fwd_send i s e)
  then show ?case
    by (auto simp: delivery_inv_def sub_ok_def stream_def)
next
  case (fwd_drop i s e)
  then show ?case
    by (auto simp: delivery_inv_def sub_ok_def)
next
  case (fwd_return i s)
  then show ?case
    by (auto simp: delivery_inv_def sub_ok_def stream_def)
qed

lemma reach_inv: "reach {t} i s \<Longrightarrow> delivery_inv t s"
  by (induction rule: reach.induct) (auto intro: delivery_init sstep_inv)

lemma stream_received: "prefix (received b) (stream b c)"
  by (simp add: stream_def)

text \<open>A run used below: one event ends the job, and a late reader then replays it.\<close>

definition done_event :: event where
  "done_event = mk_event (new_job ''j'') '''' StateSucceeded ''ok'' 1"

definition done_job :: job where
  "done_job = (new_job ''j'')\<lparr>job_events := [done_event], job_terminal := True\<rparr>"

definition done_sys :: "nat \<Rightarrow> subscriber \<Rightarrow> sys" where
  "done_sys n b = \<lparr>jb = done_job, subs = {}, objs = (\<lambda>i. if i = 0 \<and> n = 1 then b else new_subscriber []),
     nobj = n, pend = (\<lambda>_. [])\<rparr>"

definition late_reader :: subscriber where
  "late_reader = \<lparr>queue = [], closed = True, abandoned = False, holding = None,
     received = [done_event], out_closed = True\<rparr>"

lemma reach_done: "reach {0} ''j'' (done_sys 0 b)"
proof -
  have "job_emit (new_job ''j'') '''' StateSucceeded ''ok'' 1 = Some done_job"
    by (simp add: job_emit_def done_job_def done_event_def new_job_def)
  then have "sstep {0} (init_sys ''j'') (done_sys 0 b)"
    using sstep.emit [of 0 "{0}" "init_sys ''j''" "''''" StateSucceeded "''ok''" 1 done_job "[]"]
    by (simp add: init_sys_def done_sys_def done_job_def acts_for_def fun_upd_idem)
  then show ?thesis by (rule reach_step [OF reach_init])
qed

lemma upd_done_sys: "upd (done_sys 1 b) 0 f = done_sys 1 (f b)"
  by (auto simp: upd_def done_sys_def)

lemma reach_late_reader: "reach {0} ''j'' (done_sys 1 late_reader)"
proof -
  let ?b0 = "sub_close (new_subscriber [done_event])"
  let ?b1 = "?b0\<lparr>queue := [], holding := Some done_event\<rparr>"
  let ?b2 = "?b1\<lparr>holding := None, received := [done_event]\<rparr>"
  have "sstep {0} (done_sys 0 ?b0) (done_sys 1 ?b0)"
    using sstep.subscribe_done [of "done_sys 0 ?b0" "{0}"]
    by (simp add: done_sys_def done_job_def fun_upd_def cong: if_cong)
  with reach_done have r0: "reach {0} ''j'' (done_sys 1 ?b0)" by (rule reach_step)
  have "sstep {0} (done_sys 1 ?b0) (done_sys 1 ?b1)"
    using sstep.fwd_take [of 0 "done_sys 1 ?b0" done_event "[]" "{0}"] unfolding upd_done_sys
    by (simp add: done_sys_def new_subscriber_def sub_close_def)
  with r0 have r1: "reach {0} ''j'' (done_sys 1 ?b1)" by (rule reach_step)
  have "sstep {0} (done_sys 1 ?b1) (done_sys 1 ?b2)"
    using sstep.fwd_send [of 0 "done_sys 1 ?b1" done_event "{0}"] unfolding upd_done_sys
    by (simp add: done_sys_def new_subscriber_def sub_close_def)
  with r1 have r2: "reach {0} ''j'' (done_sys 1 ?b2)" by (rule reach_step)
  have "sstep {0} (done_sys 1 ?b2) (done_sys 1 (?b2\<lparr>out_closed := True\<rparr>))"
    using sstep.fwd_return [of 0 "done_sys 1 ?b2" "{0}"] unfolding upd_done_sys
    by (simp add: done_sys_def new_subscriber_def sub_close_def)
  with r2 have "reach {0} ''j'' (done_sys 1 (?b2\<lparr>out_closed := True\<rparr>))" by (rule reach_step)
  then show ?thesis by (simp add: late_reader_def new_subscriber_def sub_close_def)
qed

text \<open>
  A run with two emitting goroutines: the first records a step and is preempted before its push, the
  second ends the job and makes its pushes.
\<close>

definition race_job :: "event list \<Rightarrow> bool \<Rightarrow> job" where
  "race_job es b = \<lparr>job_id = ''j'', job_events = es, job_terminal = b\<rparr>"

definition race_step :: event where
  "race_step = mk_event (new_job ''j'') ''step'' StateStarted '''' 1"

definition race_sys :: "job \<Rightarrow> nat set \<Rightarrow> subscriber \<Rightarrow> act list \<Rightarrow> act list \<Rightarrow> sys" where
  "race_sys j reg b p0 p1 = \<lparr>jb = j, subs = reg,
     objs = (\<lambda>i. if i = 0 then b else new_subscriber []), nobj = 1,
     pend = (\<lambda>u. if u = 0 then p0 else if u = 1 then p1 else [])\<rparr>"

lemma upd_race_sys: "upd (race_sys j reg b p0 p1) 0 f = race_sys j reg (f b) p0 p1"
  by (auto simp: upd_def race_sys_def)

lemma race_emit:
  "(race_sys j reg b p0 p1)\<lparr>jb := j', subs := r',
     pend := (pend (race_sys j reg b p0 p1))(Suc 0 := q)\<rparr> = race_sys j' r' b p0 q"
  by (auto simp: race_sys_def)

lemma race_act:
  "(upd (race_sys j reg b p0 p1) 0 f)\<lparr>pend := (pend (race_sys j reg b p0 p1))(Suc 0 := q)\<rparr>
     = race_sys j reg (f b) p0 q"
  by (auto simp: upd_def race_sys_def)

lemma race_push: "sstep T (race_sys j reg b p0 (Push 0 e # as)) (race_sys j reg (sub_push e b) p0 as)"
proof -
  have "pend (race_sys j reg b p0 (Push 0 e # as)) (Suc 0) = Push 0 e # as"
    by (simp add: race_sys_def)
  from sstep.push [OF this, of T] show ?thesis unfolding race_act .
qed

lemma race_close: "sstep T (race_sys j reg b p0 (Close 0 # as)) (race_sys j reg (sub_close b) p0 as)"
proof -
  have "pend (race_sys j reg b p0 (Close 0 # as)) (Suc 0) = Close 0 # as"
    by (simp add: race_sys_def)
  from sstep.close [OF this, of T] show ?thesis unfolding race_act .
qed

lemma reach_race:
  "reach {0, 1} ''j'' (race_sys (race_job [race_step, done_event] True) {} late_reader
     [Push 0 race_step] [])"
proof -
  let ?j1 = "race_job [race_step] False" and ?j2 = "race_job [race_step, done_event] True"
  let ?b0 = "new_subscriber []" and ?p = "[Push 0 race_step]"
  let ?b1 = "sub_push done_event ?b0" and ?b2 = "sub_close (sub_push done_event ?b0)"
  let ?b3 = "?b2\<lparr>queue := [], holding := Some done_event\<rparr>"
  let ?b4 = "?b3\<lparr>holding := None, received := [done_event]\<rparr>"
  have "sstep {0, 1} (init_sys ''j'') (race_sys (new_job ''j'') {0} ?b0 [] [])"
    using sstep.subscribe_live [of "init_sys ''j''" "{0, 1}"]
    by (simp add: init_sys_def race_sys_def new_job_def fun_upd_idem cong: if_cong)
  then have r: "reach {0, 1} ''j'' (race_sys (new_job ''j'') {0} ?b0 [] [])"
    by (rule reach_step [OF reach_init])
  have "job_emit (new_job ''j'') ''step'' StateStarted '''' 1 = Some ?j1"
    by (simp add: job_emit_def race_job_def race_step_def new_job_def)
  then have "sstep {0, 1} (race_sys (new_job ''j'') {0} ?b0 [] []) (race_sys ?j1 {0} ?b0 ?p [])"
    using sstep.emit [of 0 "{0, 1}" "race_sys (new_job ''j'') {0} ?b0 [] []" "''step''"
        StateStarted "''''" 1 ?j1 "[0]"]
    by (simp add: race_sys_def race_job_def acts_for_def race_step_def fun_upd_def cong: if_cong)
  with r have r: "reach {0, 1} ''j'' (race_sys ?j1 {0} ?b0 ?p [])" by (rule reach_step)
  have "job_emit ?j1 '''' StateSucceeded ''ok'' 1 = Some ?j2"
    by (simp add: job_emit_def race_job_def done_event_def mk_event_def new_job_def)
  moreover have "event_ends done_event" by (simp add: done_event_def)
  ultimately have "sstep {0, 1} (race_sys ?j1 {0} ?b0 ?p [])
      (race_sys ?j2 {} ?b0 ?p [Push 0 done_event, Close 0])"
    using sstep.emit [of 1 "{0, 1}" "race_sys ?j1 {0} ?b0 ?p []" "''''" StateSucceeded "''ok''" 1 ?j2 "[0]"]
    by (simp add: race_emit) (simp add: race_sys_def race_job_def acts_for_def)
  with r have r: "reach {0, 1} ''j'' (race_sys ?j2 {} ?b0 ?p [Push 0 done_event, Close 0])"
    by (rule reach_step)
  have "sstep {0, 1} (race_sys ?j2 {} ?b0 ?p [Push 0 done_event, Close 0])
      (race_sys ?j2 {} ?b1 ?p [Close 0])"
    by (rule race_push)
  with r have r: "reach {0, 1} ''j'' (race_sys ?j2 {} ?b1 ?p [Close 0])" by (rule reach_step)
  have "sstep {0, 1} (race_sys ?j2 {} ?b1 ?p [Close 0]) (race_sys ?j2 {} ?b2 ?p [])"
    by (rule race_close)
  with r have r: "reach {0, 1} ''j'' (race_sys ?j2 {} ?b2 ?p [])" by (rule reach_step)
  have "sstep {0, 1} (race_sys ?j2 {} ?b2 ?p []) (race_sys ?j2 {} ?b3 ?p [])"
    using sstep.fwd_take [of 0 "race_sys ?j2 {} ?b2 ?p []" done_event "[]"] unfolding upd_race_sys
    by (simp add: race_sys_def new_subscriber_def sub_close_def sub_push_def)
  with r have r: "reach {0, 1} ''j'' (race_sys ?j2 {} ?b3 ?p [])" by (rule reach_step)
  have "sstep {0, 1} (race_sys ?j2 {} ?b3 ?p []) (race_sys ?j2 {} ?b4 ?p [])"
    using sstep.fwd_send [of 0 "race_sys ?j2 {} ?b3 ?p []" done_event] unfolding upd_race_sys
    by (simp add: race_sys_def new_subscriber_def sub_close_def sub_push_def)
  with r have r: "reach {0, 1} ''j'' (race_sys ?j2 {} ?b4 ?p [])" by (rule reach_step)
  have "sstep {0, 1} (race_sys ?j2 {} ?b4 ?p []) (race_sys ?j2 {} (?b4\<lparr>out_closed := True\<rparr>) ?p [])"
    using sstep.fwd_return [of 0 "race_sys ?j2 {} ?b4 ?p []"] unfolding upd_race_sys
    by (simp add: race_sys_def new_subscriber_def sub_close_def sub_push_def)
  with r have "reach {0, 1} ''j'' (race_sys ?j2 {} (?b4\<lparr>out_closed := True\<rparr>) ?p [])"
    by (rule reach_step)
  then show ?thesis by (simp add: late_reader_def new_subscriber_def sub_close_def sub_push_def)
qed

section \<open>Properties\<close>

text \<open>
  C19. With one emitting goroutine, whatever a subscriber has received at any moment is a prefix
  of the job's log, in order and with nothing skipped, however its attachment, its reads and the
  emitter's pushes interleave; and once its channel has closed without the reader cancelling, it
  has received the whole log of a job that has reached its terminal event.
\<close>

theorem subscriber_stream:
  assumes "reach {t} i s" "k < nobj s" "\<not> abandoned (objs s k)"
  shows "prefix (received (objs s k)) (job_events (jb s)) \<and>
    (out_closed (objs s k) \<longrightarrow> received (objs s k) = job_events (jb s) \<and> job_terminal (jb s))"
proof -
  have ok: "sub_ok (job_events (jb s)) (job_terminal (jb s)) (k \<in> subs s) (pend s t) k (objs s k)"
    using reach_inv [OF assms(1)] assms(2) by (simp add: delivery_inv_def)
  then have st: "stream (objs s k) (pushes k (pend s t)) = job_events (jb s)"
    using assms(3) by (simp add: sub_ok_def)
  moreover have "out_closed (objs s k) \<longrightarrow>
      received (objs s k) = job_events (jb s) \<and> job_terminal (jb s)"
    using ok assms(3) st by (auto simp: sub_ok_def stream_def)
  ultimately show ?thesis by (metis stream_received)
qed

lemma subscriber_stream_witness:
  "prefix (received late_reader) (job_events done_job) \<and> job_terminal done_job \<and>
   received late_reader = job_events done_job"
  using subscriber_stream [OF reach_late_reader, of 0] by (simp add: done_sys_def late_reader_def)

text \<open>
  No event is stranded: when the emitter of a finished job has no push left and a
  subscriber's queue is drained, the subscriber is closed, so its forwarder can return, and it
  has received the whole log.
\<close>

theorem drained_subscriber_complete:
  assumes "reach {t} i s" "k < nobj s" "\<not> abandoned (objs s k)" "job_terminal (jb s)"
    "pend s t = []" "queue (objs s k) = []" "holding (objs s k) = None"
  shows "received (objs s k) = job_events (jb s) \<and> closed (objs s k)"
proof -
  have "sub_ok (job_events (jb s)) True (k \<in> subs s) [] k (objs s k)" "subs s = {}"
    using reach_inv [OF assms(1)] assms by (auto simp: delivery_inv_def)
  then show ?thesis using assms by (auto simp: sub_ok_def stream_def)
qed

lemma drained_subscriber_complete_witness:
  "received late_reader = job_events done_job \<and> closed late_reader"
  using drained_subscriber_complete [OF reach_late_reader, of 0]
  by (simp add: done_sys_def done_job_def late_reader_def)

text \<open>
  Two emitting goroutines break the ordered delivery: there is a run in which a subscriber that
  never cancelled sees its channel closed having missed an event of the log, because a step's push
  comes after the terminal event's push and close.
\<close>

theorem concurrent_emit_loses_event:
  "\<exists>s. reach {0, 1} ''j'' s \<and> 0 < nobj s \<and> \<not> abandoned (objs s 0) \<and> out_closed (objs s 0) \<and>
     job_events (jb s) = [race_step, done_event] \<and> received (objs s 0) = [done_event]"
  using reach_race by (auto simp: race_sys_def race_job_def late_reader_def)

end
