(* ===== verification/Effects.thy ===== *)
theory Effects
  imports FileSys Events
begin

text \<open>
  How the sequencing code runs. A \<^emph>\<open>world\<close> is what the process acts on: an arbitrary type \<open>'w\<close>
  for everything outside it (hosts, services, databases) beside the local file system; an \<open>act\<close> is
  one operation of an interface on it, which returns an error or a value. A \<^emph>\<open>process\<close> adds the job
  whose events the operation emits, the clock and the random identifiers it reads, and \<open>trace\<close>, the
  calls it has made so far through the interfaces, in order; \<open>history\<close> keeps the world and the trace after
  every operation, so that a property can speak of the states a run went through. An \<open>io\<close> is a statement of the source: it
  succeeds, fails with an error, panics (an emit after the job's terminal event), or hangs (waits for
  the stream of a job that never ends).

  \<open>calm\<close> says a statement neither panics nor hangs nor ends the job it emits to, and only extends the
  log and the trace; \<open>completes\<close> says a job's whole run ends with exactly one terminal event, which
  reports its outcome; \<open>only_calls\<close> bounds the calls a statement can make. Each is closed under the
  combinators (\<open>calm_intros\<close>, \<open>calls_intros\<close>), so a component proves it by unfolding.
\<close>

named_theorems calm_intros "rules for calm"
named_theorems calls_intros "rules for only_calls"

section \<open>Worlds, contexts and calls\<close>

text \<open>A \<open>context.Context\<close>: the caller's, or one derived from it.\<close>

datatype ctx = Caller | WithTimeout ctx int | WithoutCancel ctx

record 'w world =
  ext :: 'w
  fs :: fsys
  ctxerr :: "'w \<Rightarrow> ctx \<Rightarrow> string option"

type_synonym ('w, 'a) act = "'w world \<Rightarrow> (error + 'a) \<times> 'w world"

datatype call = Call (iface: string) (call_ctx: ctx) (args: "string list")

record 'w proc =
  world :: "'w world"
  trace :: "call list"
  history :: "('w world \<times> call list) list"
  job :: job
  clock :: "nat \<Rightarrow> int"
  fresh :: "nat \<Rightarrow> string"
  ticks :: nat
  slept :: int

text \<open>
  What the process's clock shows: its reading at this tick, later by what the process has slept. A
  reading consumes a tick, so two readings may differ.
\<close>

abbreviation reading :: "'w proc \<Rightarrow> int" where
  "reading p \<equiv> clock p (ticks p) + slept p"

datatype 'a res = Ok 'a | Fail error | Panic string | Hang

type_synonym ('w, 'a) io = "'w proc \<Rightarrow> 'a res \<times> 'w proc"

text \<open>\<open>ctx.Err()\<close>: whether a context is done is up to the state outside.\<close>

definition ctx_err :: "ctx \<Rightarrow> 'w world \<Rightarrow> error option" where
  "ctx_err c w = map_option (\<lambda>m. Err m [CtxDone]) (ctxerr w (ext w) c)"

definition ctx_check :: "ctx \<Rightarrow> ('w, unit) act" where
  "ctx_check c w = (case ctx_err c w of None \<Rightarrow> (Inr (), w) | Some e \<Rightarrow> (Inl e, w))"

text \<open>Sequencing of acts.\<close>

definition abnd :: "('w, 'a) act \<Rightarrow> ('a \<Rightarrow> ('w, 'b) act) \<Rightarrow> ('w, 'b) act" where
  "abnd a k = (\<lambda>w. case a w of (Inl e, w') \<Rightarrow> (Inl e, w') | (Inr x, w') \<Rightarrow> k x w')"

definition ahandle :: "('w, 'a) act \<Rightarrow> (error \<Rightarrow> ('w, 'a) act) \<Rightarrow> ('w, 'a) act" where
  "ahandle a h = (\<lambda>w. case a w of (Inl e, w') \<Rightarrow> h e w' | rw \<Rightarrow> rw)"

definition aret :: "'a \<Rightarrow> ('w, 'a) act" where
  "aret x = (\<lambda>w. (Inr x, w))"

definition afail :: "error \<Rightarrow> ('w, 'a) act" where
  "afail e = (\<lambda>w. (Inl e, w))"

definition asum :: "error + 'a \<Rightarrow> ('w, 'a) act" where
  "asum r = (\<lambda>w. (r, w))"

lemma act_simps [simp]:
  "aret x w = (Inr x, w)" "afail e w = (Inl e, w)" "asum r w = (r, w)"
  by (simp_all add: aret_def afail_def asum_def)

lemma abnd_eq: "abnd a k w = (r, w') \<longleftrightarrow>
   (\<exists>x w1. a w = (Inr x, w1) \<and> k x w1 = (r, w')) \<or> (\<exists>e. a w = (Inl e, w') \<and> r = Inl e)"
  by (auto simp: abnd_def split: prod.splits sum.splits)

lemma ahandle_eq: "ahandle a h w = (r, w') \<longleftrightarrow>
   (\<exists>e w1. a w = (Inl e, w1) \<and> h e w1 = (r, w')) \<or> (\<exists>x. a w = (Inr x, w') \<and> r = Inr x)"
  by (auto simp: ahandle_def split: prod.splits sum.splits)

lemma abndE:
  assumes "abnd a k w = (r, w')"
  obtains (err) e where "a w = (Inl e, w')" "r = Inl e"
    | (ok) x w1 where "a w = (Inr x, w1)" "k x w1 = (r, w')"
  using assms by (auto simp: abnd_eq)

lemma ahandleE:
  assumes "ahandle a h w = (r, w')"
  obtains (err) e w1 where "a w = (Inl e, w1)" "h e w1 = (r, w')"
    | (ok) x where "a w = (Inr x, w')" "r = Inr x"
  using assms by (auto simp: ahandle_eq)

lemma ctx_checkE:
  assumes "ctx_check c w = (r, w')"
  obtains (err) e where "ctx_err c w = Some e" "r = Inl e" "w' = w"
    | (ok) "ctx_err c w = None" "r = Inr ()" "w' = w"
  using assms by (auto simp: ctx_check_def split: option.splits)

lemma ctx_err_sentinels: "ctx_err c w = Some e \<Longrightarrow> sentinels e = [CtxDone]"
  by (auto simp: ctx_err_def)

section \<open>Statements\<close>

definition ret :: "'a \<Rightarrow> ('w, 'a) io" where
  "ret x = (\<lambda>p. (Ok x, p))"

definition fail :: "error \<Rightarrow> ('w, 'a) io" where
  "fail e = (\<lambda>p. (Fail e, p))"

fun res_of :: "error + 'a \<Rightarrow> 'a res" where
  "res_of (Inl e) = Fail e"
| "res_of (Inr x) = Ok x"

definition of_sum :: "error + 'a \<Rightarrow> ('w, 'a) io" where
  "of_sum r = (\<lambda>p. (res_of r, p))"

definition bnd :: "('w, 'a) io \<Rightarrow> ('a \<Rightarrow> ('w, 'b) io) \<Rightarrow> ('w, 'b) io" where
  "bnd m k = (\<lambda>p. case m p of
     (Ok x, p') \<Rightarrow> k x p'
   | (Fail e, p') \<Rightarrow> (Fail e, p')
   | (Panic s, p') \<Rightarrow> (Panic s, p')
   | (Hang, p') \<Rightarrow> (Hang, p'))"

text \<open>\<open>if err != nil\<close> after a call: the handler sees the error, the rest sees the value.\<close>

definition handle :: "('w, 'a) io \<Rightarrow> (error \<Rightarrow> ('w, 'a) io) \<Rightarrow> ('w, 'a) io" where
  "handle m h = (\<lambda>p. case m p of (Fail e, p') \<Rightarrow> h e p' | rp \<Rightarrow> rp)"

text \<open>The outcome of a statement as a value, for code that looks at both.\<close>

definition attempt :: "('w, 'a) io \<Rightarrow> ('w, error + 'a) io" where
  "attempt m = (\<lambda>p. case m p of
     (Ok x, p') \<Rightarrow> (Ok (Inr x), p')
   | (Fail e, p') \<Rightarrow> (Ok (Inl e), p')
   | (Panic s, p') \<Rightarrow> (Panic s, p')
   | (Hang, p') \<Rightarrow> (Hang, p'))"

text \<open>\<open>defer c()\<close> before the body \<open>m\<close>, the result of \<open>c\<close> discarded.\<close>

definition deferred :: "('w, 'b) io \<Rightarrow> ('w, 'a) io \<Rightarrow> ('w, 'a) io" where
  "deferred c m = bnd (attempt m) (\<lambda>r. bnd (attempt c) (\<lambda>_. of_sum r))"

text \<open>The process after a call that left the world \<open>w\<close>.\<close>

abbreviation after_call :: "'w proc \<Rightarrow> 'w world \<Rightarrow> call \<Rightarrow> 'w proc" where
  "after_call p w k \<equiv> p\<lparr>world := w, trace := trace p @ [k], history := history p @ [(w, trace p @ [k])]\<rparr>"

text \<open>An interface call, recorded in the trace; and a local operation, which is not.\<close>

definition call :: "string \<Rightarrow> ctx \<Rightarrow> string list \<Rightarrow> ('w, 'a) act \<Rightarrow> ('w, 'a) io" where
  "call n c as a = (\<lambda>p. case a (world p) of
     (r, w) \<Rightarrow> (res_of r, after_call p w (Call n c as)))"

definition locally :: "('w, 'a) act \<Rightarrow> ('w, 'a) io" where
  "locally a = (\<lambda>p. case a (world p) of
     (r, w) \<Rightarrow> (res_of r, p\<lparr>world := w, history := history p @ [(w, trace p)]\<rparr>))"

definition on_fs :: "(fsys \<Rightarrow> (error + 'a) \<times> fsys) \<Rightarrow> ('w, 'a) act" where
  "on_fs f = (\<lambda>w. case f (fs w) of (r, s) \<Rightarrow> (r, w\<lparr>fs := s\<rparr>))"

definition emit :: "string \<Rightarrow> state \<Rightarrow> string \<Rightarrow> ('w, unit) io" where
  "emit step st detail = (\<lambda>p.
     case job_emit (job p) step st detail (reading p) of
       None \<Rightarrow> (Panic (''events: job '' @ job_id (job p) @ '': emit after terminal event''), p)
     | Some j \<Rightarrow> (Ok (), p\<lparr>job := j, ticks := Suc (ticks p)\<rparr>))"

abbreviation started :: "string \<Rightarrow> string \<Rightarrow> ('w, unit) io" where
  "started step detail \<equiv> emit step StateStarted detail"

abbreviation succeeded :: "string \<Rightarrow> string \<Rightarrow> ('w, unit) io" where
  "succeeded step detail \<equiv> emit step StateSucceeded detail"

abbreviation job_succeeded :: "string \<Rightarrow> ('w, unit) io" where
  "job_succeeded detail \<equiv> emit '''' StateSucceeded detail"

abbreviation job_failed :: "string \<Rightarrow> ('w, unit) io" where
  "job_failed detail \<equiv> emit '''' StateFailed detail"

text \<open>\<open>job.Emit(step, StateFailed, err.Error()); return err\<close>.\<close>

definition fail_step :: "string \<Rightarrow> error \<Rightarrow> ('w, 'a) io" where
  "fail_step step e = bnd (emit step StateFailed (msg e)) (\<lambda>_. fail e)"

definition now :: "('w, int) io" where
  "now = (\<lambda>p. (Ok (reading p), p\<lparr>ticks := Suc (ticks p)\<rparr>))"

text \<open>A loop over a slice that collects a result per element and stops at the first error.\<close>

fun collect :: "('a \<Rightarrow> ('w, 'b) io) \<Rightarrow> 'a list \<Rightarrow> ('w, 'b list) io" where
  "collect f [] = ret []"
| "collect f (x # xs) = bnd (f x) (\<lambda>y. bnd (collect f xs) (\<lambda>ys. ret (y # ys)))"

text \<open>
  Running a statement under a job of its own, whose step events a goroutine relays to the outer
  job while the statement runs and whose stream the caller then waits to see closed. The relayed
  events are the inner log without its whole-job events: by \<open>subscriber_stream\<close> a subscriber
  receives the log in order. A job that never reached its terminal event would never close it.
\<close>

fun relay :: "event list \<Rightarrow> ('w, unit) io" where
  "relay [] = ret ()"
| "relay (e # es) =
     (if ev_step e = '''' then relay es
      else bnd (emit (ev_step e) (ev_state e) (ev_detail e)) (\<lambda>_. relay es))"

definition with_job :: "job \<Rightarrow> 'w proc \<Rightarrow> 'w proc" where
  "with_job j p = p\<lparr>job := j\<rparr>"

definition subjob :: "('w, 'a) io \<Rightarrow> ('w, (error + 'a) \<times> event list) io" where
  "subjob m = (\<lambda>p.
     case attempt m (p\<lparr>job := new_job (fresh p (ticks p)), ticks := Suc (ticks p)\<rparr>) of
       (Ok r, p1) \<Rightarrow>
         (if job_terminal (job p1)
          then bnd (relay (job_events (job p1))) (\<lambda>_. ret (r, job_events (job p1)))
                 (with_job (job p) p1)
          else (Hang, with_job (job p) p1))
     | (Fail e, p1) \<Rightarrow> (Fail e, with_job (job p) p1)
     | (Panic s, p1) \<Rightarrow> (Panic s, with_job (job p) p1)
     | (Hang, p1) \<Rightarrow> (Hang, with_job (job p) p1))"

text \<open>
  A command's outer shell: run it, report the outcome as the job's terminal event, return it.
\<close>

definition as_job :: "('a \<Rightarrow> string) \<Rightarrow> ('w, 'a) io \<Rightarrow> ('w, 'a) io" where
  "as_job done_detail m =
     bnd (handle m (\<lambda>e. bnd (job_failed (msg e)) (\<lambda>_. fail e)))
       (\<lambda>x. bnd (job_succeeded (done_detail x)) (\<lambda>_. ret x))"

lemma on_fs_eq: "on_fs f w = (r, w') \<longleftrightarrow> (\<exists>s. f (fs w) = (r, s) \<and> w' = w\<lparr>fs := s\<rparr>)"
  by (auto simp: on_fs_def split: prod.splits)

lemma on_fsE:
  assumes "on_fs f w = (r, w')"
  obtains s where "f (fs w) = (r, s)" "w' = w\<lparr>fs := s\<rparr>"
  using assms by (auto simp: on_fs_eq)

section \<open>Running\<close>

lemma bnd_Ok: "m p = (Ok x, p') \<Longrightarrow> bnd m k p = k x p'"
  by (simp add: bnd_def)

lemma bnd_Fail: "m p = (Fail e, p') \<Longrightarrow> bnd m k p = (Fail e, p')"
  by (simp add: bnd_def)

lemma bnd_eq: "bnd m k p = (r, p') \<longleftrightarrow>
   (\<exists>x p1. m p = (Ok x, p1) \<and> k x p1 = (r, p')) \<or>
   (\<exists>e. m p = (Fail e, p') \<and> r = Fail e) \<or>
   (\<exists>s. m p = (Panic s, p') \<and> r = Panic s) \<or>
   (m p = (Hang, p') \<and> r = Hang)"
  by (auto simp: bnd_def split: prod.splits res.splits)

lemma bnd_assoc: "bnd (bnd m f) g = bnd m (\<lambda>x. bnd (f x) g)"
  by (rule ext) (auto simp: bnd_def split: prod.splits res.splits)

lemma bnd_OkE:
  assumes "bnd m k p = (Ok y, p')"
  obtains x p1 where "m p = (Ok x, p1)" "k x p1 = (Ok y, p')"
  using assms by (auto simp: bnd_eq)

lemma handle_eq: "handle m h p = (r, p') \<longleftrightarrow>
   (\<exists>e p1. m p = (Fail e, p1) \<and> h e p1 = (r, p')) \<or> ((\<nexists>e. r = Fail e) \<and> m p = (r, p')) \<or>
   False"
  by (cases r) (auto simp: handle_def split: prod.splits res.splits)

lemma ret_eq [simp]: "ret x p = (r, p') \<longleftrightarrow> r = Ok x \<and> p' = p"
  by (auto simp: ret_def)

lemma fail_eq [simp]: "fail e p = (r, p') \<longleftrightarrow> r = Fail e \<and> p' = p"
  by (auto simp: fail_def)

lemma of_sum_simps [simp]: "of_sum (Inl e) = fail e" "of_sum (Inr x) = ret x"
  by (simp_all add: of_sum_def fail_def ret_def)

lemma emit_live: "\<not> job_terminal (job p) \<Longrightarrow> emit step st d p =
   (Ok (), p\<lparr>job := (job p)\<lparr>job_events := job_events (job p)
        @ [mk_event (job p) step st d (reading p)],
      job_terminal := ends_job step st\<rparr>, ticks := Suc (ticks p)\<rparr>)"
  by (simp add: emit_def job_emit_def)

section \<open>Calm statements\<close>

definition orderly :: "'a res \<Rightarrow> bool" where
  "orderly r = (case r of Ok x \<Rightarrow> True | Fail e \<Rightarrow> True | _ \<Rightarrow> False)"

lemma orderly_simps [simp]: "orderly (Ok x)" "orderly (Fail e)" "\<not> orderly (Panic s)" "\<not> orderly Hang"
  by (simp_all add: orderly_def)

definition extends :: "'w proc \<Rightarrow> 'w proc \<Rightarrow> bool" where
  "extends p p' \<longleftrightarrow> prefix (trace p) (trace p') \<and> job_id (job p') = job_id (job p)
     \<and> prefix (job_events (job p)) (job_events (job p')) \<and> (job_wf (job p) \<longrightarrow> job_wf (job p'))
     \<and> clock p' = clock p \<and> ticks p \<le> ticks p' \<and> slept p \<le> slept p'"

lemma extends_refl [simp]: "extends p p"
  by (simp add: extends_def)

lemma extends_trans: "extends p q \<Longrightarrow> extends q r \<Longrightarrow> extends p r"
  by (auto simp: extends_def)

text \<open>\<open>calm_on I\<close> and \<open>completes_on I\<close> say it of the processes whose clock satisfies \<open>I\<close>.\<close>

definition calm_on :: "((nat \<Rightarrow> int) \<Rightarrow> bool) \<Rightarrow> ('w, 'a) io \<Rightarrow> bool" where
  "calm_on I m \<longleftrightarrow> (\<forall>p. \<not> job_terminal (job p) \<longrightarrow> I (clock p) \<longrightarrow>
     (case m p of (r, p') \<Rightarrow> orderly r \<and> \<not> job_terminal (job p') \<and> extends p p'))"

definition completes_on :: "((nat \<Rightarrow> int) \<Rightarrow> bool) \<Rightarrow> ('w, 'a) io \<Rightarrow> bool" where
  "completes_on I m \<longleftrightarrow> (\<forall>p. \<not> job_terminal (job p) \<longrightarrow> I (clock p) \<longrightarrow>
     (case m p of (r, p') \<Rightarrow> orderly r \<and> job_terminal (job p') \<and> extends p p' \<and>
        ev_state (last (job_events (job p'))) =
          (case r of Ok x \<Rightarrow> StateSucceeded | _ \<Rightarrow> StateFailed)))"

abbreviation calm :: "('w, 'a) io \<Rightarrow> bool" where
  "calm \<equiv> calm_on (\<lambda>_. True)"

abbreviation completes :: "('w, 'a) io \<Rightarrow> bool" where
  "completes \<equiv> completes_on (\<lambda>_. True)"

lemma calm_onD: "calm_on I m \<Longrightarrow> m p = (r, p') \<Longrightarrow> \<not> job_terminal (job p) \<Longrightarrow> I (clock p) \<Longrightarrow>
  orderly r \<and> \<not> job_terminal (job p') \<and> extends p p'"
  by (fastforce simp: calm_on_def)

lemma calmD: "calm m \<Longrightarrow> m p = (r, p') \<Longrightarrow> \<not> job_terminal (job p) \<Longrightarrow>
  orderly r \<and> \<not> job_terminal (job p') \<and> extends p p'"
  using calm_onD [of "\<lambda>_. True"] by blast

lemma calm_on_calm: "calm m \<Longrightarrow> calm_on I m"
  by (simp add: calm_on_def)

lemma completes_on_completes: "completes m \<Longrightarrow> completes_on I m"
  by (simp add: completes_on_def)

lemma extends_clock: "extends p p' \<Longrightarrow> clock p' = clock p"
  by (simp add: extends_def)

lemma calm_ret [calm_intros, simp]: "calm_on I (ret x)"
  by (simp add: calm_on_def ret_def)

lemma calm_fail [calm_intros, simp]: "calm_on I (fail e)"
  by (simp add: calm_on_def fail_def)

lemma calm_of_sum [calm_intros, simp]: "calm_on I (of_sum r)"
  by (cases r) simp_all

lemma calm_bnd [calm_intros]:
  assumes "calm_on I m" "\<And>x. calm_on I (k x)"
  shows "calm_on I (bnd m k)"
  unfolding calm_on_def
proof (intro allI impI)
  fix p :: "'a proc"
  assume live: "\<not> job_terminal (job p)" and clk: "I (clock p)"
  obtain r p1 where m: "m p = (r, p1)" by force
  with calm_onD [OF assms(1) m live clk] show "case bnd m k p of (r, p') \<Rightarrow>
      orderly r \<and> \<not> job_terminal (job p') \<and> extends p p'"
  proof (cases r)
    case (Ok x)
    obtain r' p2 where k: "k x p1 = (r', p2)" by force
    show ?thesis
      using calm_onD [OF assms(2) k] calm_onD [OF assms(1) m live clk] m k Ok clk
      by (auto simp: bnd_def extends_clock intro: extends_trans)
  qed (auto simp: bnd_def)
qed

lemma calm_attempt [calm_intros]: "calm_on I m \<Longrightarrow> calm_on I (attempt m)"
  by (fastforce simp: calm_on_def attempt_def split: prod.splits res.splits)

lemma calm_handle [calm_intros]:
  assumes "calm_on I m" "\<And>e. calm_on I (h e)"
  shows "calm_on I (handle m h)"
proof -
  have "handle m h = bnd (attempt m) (\<lambda>r. case r of Inl e \<Rightarrow> h e | Inr x \<Rightarrow> ret x)"
    by (rule ext) (auto simp: handle_def bnd_def attempt_def ret_def split: prod.splits res.splits)
  then show ?thesis
    using assms by (auto intro!: calm_intros split: sum.splits)
qed

lemma calm_deferred [calm_intros]: "calm_on I c \<Longrightarrow> calm_on I m \<Longrightarrow> calm_on I (deferred c m)"
  unfolding deferred_def by (intro calm_intros)

lemma extends_world [simp]: "extends p (p\<lparr>world := w, history := h\<rparr>)"
  by (simp add: extends_def)

lemma extends_emit:
  assumes "extends p q" "\<not> job_terminal (job q)" "b = ends_job step st" "ticks q \<le> n"
  shows "extends p (q\<lparr>job := (job q)\<lparr>job_events := job_events (job q) @ [mk_event (job q) step st d t],
      job_terminal := b\<rparr>, ticks := n\<rparr>)" (is "extends p ?q")
proof -
  have "job_emit (job q) step st d t = Some (job ?q)"
    using assms(2,3) by (simp add: job_emit_Some)
  then have "job_wf (job q) \<longrightarrow> job_wf (job ?q)"
    using job_emit_wf by blast
  moreover have "prefix (job_events (job q)) (job_events (job ?q))" by simp
  ultimately show ?thesis
    using assms(1,4) unfolding extends_def by (auto intro: prefix_order.trans)
qed

lemma calm_call [calm_intros]: "calm_on I (call n c as a)"
  by (auto simp: calm_on_def call_def extends_def orderly_def split: prod.splits elim: res_of.elims)
     (metis orderly_def orderly_simps(1,2) res_of.elims)+

lemma calm_locally [calm_intros]: "calm_on I (locally a)"
  by (auto simp: calm_on_def locally_def split: prod.splits)
     (metis orderly_simps(1,2) res_of.elims)

lemma calm_emit [calm_intros]:
  assumes "\<not> ends_job step st"
  shows "calm_on I (emit step st d)"
  unfolding calm_on_def
  using assms by (auto simp: emit_live intro!: extends_emit)

lemma calm_fail_step [calm_intros]: "step \<noteq> '''' \<Longrightarrow> calm_on I (fail_step step e)"
  unfolding fail_step_def by (intro calm_intros) simp

lemma calm_now [calm_intros, simp]: "calm_on I now"
  by (simp add: calm_on_def now_def extends_def)

lemma calm_collect [calm_intros]: "(\<And>x. calm_on I (f x)) \<Longrightarrow> calm_on I (collect f xs)"
  by (induction xs) (auto intro!: calm_intros)

lemma calm_relay [calm_intros, simp]: "calm_on I (relay es)"
  by (induction es) (auto intro!: calm_intros)

lemma calm_if [calm_intros]: "(b \<Longrightarrow> calm_on I m) \<Longrightarrow> (\<not> b \<Longrightarrow> calm_on I n) \<Longrightarrow> calm_on I (if b then m else n)"
  by simp

lemma calm_option [calm_intros]:
  "calm_on I m \<Longrightarrow> (\<And>x. calm_on I (f x)) \<Longrightarrow> calm_on I (case y of None \<Rightarrow> m | Some x \<Rightarrow> f x)"
  by (cases y) auto

lemma calm_sum [calm_intros]:
  "(\<And>e. calm_on I (g e)) \<Longrightarrow> (\<And>x. calm_on I (f x)) \<Longrightarrow> calm_on I (case y of Inl e \<Rightarrow> g e | Inr x \<Rightarrow> f x)"
  by (cases y) auto

lemma calm_prod [calm_intros]: "(\<And>a b. calm_on I (f a b)) \<Longrightarrow> calm_on I (case y of (a, b) \<Rightarrow> f a b)"
  by (cases y) auto

lemma calm_list [calm_intros]:
  "calm_on I m \<Longrightarrow> (\<And>x xs. calm_on I (f x xs)) \<Longrightarrow> calm_on I (case y of [] \<Rightarrow> m | x # xs \<Rightarrow> f x xs)"
  by (cases y) auto

text \<open>A command that ends its job makes a calm statement of the one that runs it under its own.\<close>

lemma with_job_simps [simp]: "job (with_job j p) = j" "trace (with_job j p) = trace p"
  by (simp_all add: with_job_def)

lemma calm_subjob [calm_intros]:
  assumes "completes_on I m"
  shows "calm_on I (subjob m)"
  unfolding calm_on_def
proof (intro allI impI)
  fix p :: "'a proc"
  assume live: "\<not> job_terminal (job p)" and clk: "I (clock p)"
  let ?p = "p\<lparr>job := new_job (fresh p (ticks p)), ticks := Suc (ticks p)\<rparr>"
  obtain r p1 where m: "m ?p = (r, p1)" by force
  then have c: "orderly r" "job_terminal (job p1)" "extends ?p p1"
    using assms clk by (auto simp: completes_on_def new_job_def dest!: spec [of _ ?p])
  from c(1) have "\<exists>r'. attempt m ?p = (Ok r', p1)"
    using m by (cases r) (auto simp: attempt_def)
  then obtain r' where a: "attempt m ?p = (Ok r', p1)" by blast
  have q: "calm_on I (bnd (relay (job_events (job p1))) (\<lambda>_. ret (r', job_events (job p1)))
      :: ('a, (error + 'b) \<times> event list) io)"
    by (intro calm_intros)
  have e: "extends p (with_job (job p) p1)"
    using c(3) by (simp add: extends_def with_job_def)
  with clk have "I (clock (with_job (job p) p1))" by (simp add: extends_clock)
  with e have "extends p (with_job (job p) p1) \<and> I (clock (with_job (job p) p1))" by simp
  then show "case subjob m p of (r, p') \<Rightarrow>
      orderly r \<and> \<not> job_terminal (job p') \<and> extends p p'"
    using c(2) live a calm_onD [OF q, of "with_job (job p) p1"]
    by (auto simp: subjob_def intro: extends_trans split: prod.splits)
qed

lemma completes_as_job:
  assumes "calm_on I m"
  shows "completes_on I (as_job d m)"
  unfolding completes_on_def
proof (intro allI impI)
  fix p :: "'a proc"
  assume live: "\<not> job_terminal (job p)" and clk: "I (clock p)"
  obtain r p1 where m: "m p = (r, p1)" by force
  note c = calm_onD [OF assms m live clk]
  then have live1: "\<not> job_terminal (job p1)" and "orderly r" "extends p p1" by auto
  show "case as_job d m p of (r, p') \<Rightarrow> orderly r \<and> job_terminal (job p') \<and> extends p p' \<and>
      ev_state (last (job_events (job p'))) =
        (case r of Ok x \<Rightarrow> StateSucceeded | _ \<Rightarrow> StateFailed)"
  proof (cases r)
    case (Ok x)
    with m live1 \<open>extends p p1\<close> show ?thesis
      by (auto simp: as_job_def handle_def bnd_def emit_live ret_def intro!: extends_emit)
  next
    case (Fail e)
    with m live1 \<open>extends p p1\<close> show ?thesis
      by (auto simp: as_job_def handle_def bnd_def emit_live fail_def intro!: extends_emit)
  qed (use \<open>orderly r\<close> in simp_all)
qed

section \<open>The calls a statement can make\<close>

text \<open>
  \<open>runs_to p q\<close>: \<open>q\<close> is a state the process reaches from \<open>p\<close>, its world and trace being the last ones of the
  history it adds to that of \<open>p\<close>.
\<close>

definition runs_to :: "'w proc \<Rightarrow> 'w proc \<Rightarrow> bool" where
  "runs_to p q \<longleftrightarrow> prefix (trace p) (trace q) \<and>
     (\<exists>hs. history q = history p @ hs \<and> (world q, trace q) = last ((world p, trace p) # hs))"

definition same_place :: "'w proc \<Rightarrow> 'w proc \<Rightarrow> bool" where
  "same_place p q \<longleftrightarrow> world q = world p \<and> trace q = trace p \<and> history q = history p"

lemma same_place_refl [simp]: "same_place p p"
  by (simp add: same_place_def)

lemma same_place_trans: "same_place p q \<Longrightarrow> same_place q r \<Longrightarrow> same_place p r"
  by (simp add: same_place_def)

lemma runs_to_same: "same_place p q \<Longrightarrow> runs_to p q"
  by (simp add: runs_to_def same_place_def)

lemma runs_to_like: "runs_to p q \<Longrightarrow> same_place p p' \<Longrightarrow> same_place q q' \<Longrightarrow> runs_to p' q'"
  by (simp add: runs_to_def same_place_def)

lemma runs_to_refl [simp]: "runs_to p p"
  by (simp add: runs_to_same)

lemma runs_to_trans:
  assumes "runs_to p q" "runs_to q r"
  shows "runs_to p r"
proof -
  from assms obtain hs gs where 1: "history q = history p @ hs" "(world q, trace q) = last ((world p, trace p) # hs)"
    "history r = history q @ gs" "(world r, trace r) = last ((world q, trace q) # gs)"
    unfolding runs_to_def by blast
  then have "(world r, trace r) = last ((world p, trace p) # hs @ gs)"
    by (cases "gs = []") (simp_all add: last_append)
  with 1 have "\<exists>hs. history r = history p @ hs \<and> (world r, trace r) = last ((world p, trace p) # hs)"
    by (intro exI [of _ "hs @ gs"]) simp
  moreover have "prefix (trace p) (trace r)"
    using assms unfolding runs_to_def by (blast intro: prefix_order.trans)
  ultimately show ?thesis unfolding runs_to_def by blast
qed

lemma runs_to_step:
  "runs_to p (p\<lparr>world := w, trace := trace p @ cs, history := history p @ [(w, trace p @ cs)]\<rparr>)"
  "runs_to p (p\<lparr>world := w, history := history p @ [(w, trace p)]\<rparr>)"
  by (simp_all add: runs_to_def)

definition only_calls :: "(call \<Rightarrow> bool) \<Rightarrow> ('w, 'a) io \<Rightarrow> bool" where
  "only_calls C m \<longleftrightarrow> (\<forall>p. case m p of (r, p') \<Rightarrow>
     runs_to p p' \<and> (\<exists>cs. trace p' = trace p @ cs \<and> (\<forall>c\<in>set cs. C c)))"

lemma only_callsI:
  assumes "\<And>p r p'. m p = (r, p') \<Longrightarrow> runs_to p p' \<and> (\<exists>cs. trace p' = trace p @ cs \<and> (\<forall>c\<in>set cs. C c))"
  shows "only_calls C m"
  unfolding only_calls_def by (auto split: prod.split dest: assms)

lemma only_callsD:
  assumes "only_calls C m" "m p = (r, p')"
  obtains cs where "trace p' = trace p @ cs" "\<forall>c\<in>set cs. C c"
proof -
  from assms have "\<exists>cs. trace p' = trace p @ cs \<and> (\<forall>c\<in>set cs. C c)"
    by (auto simp: only_calls_def dest!: spec [of _ p])
  then show thesis using that by blast
qed

lemma only_calls_runs: "only_calls C m \<Longrightarrow> m p = (r, p') \<Longrightarrow> runs_to p p'"
  by (auto simp: only_calls_def dest!: spec [of _ p])

lemma calls_like:
  assumes "only_calls C m" "\<And>p. \<exists>q. same_place p q \<and> same_place (snd (m q)) (snd (m' p))"
  shows "only_calls C m'"
proof (rule only_callsI)
  fix p r p'
  assume run: "m' p = (r, p')"
  obtain q where q: "same_place p q" "same_place (snd (m q)) (snd (m' p))" using assms(2) by blast
  obtain r1 q1 where m: "m q = (r1, q1)" by force
  obtain cs where "trace q1 = trace q @ cs" "\<forall>c\<in>set cs. C c" using only_callsD [OF assms(1) m] .
  moreover have s: "same_place q p" "same_place q1 p'" using q m run by (simp_all add: same_place_def)
  ultimately show "runs_to p p' \<and> (\<exists>cs. trace p' = trace p @ cs \<and> (\<forall>c\<in>set cs. C c))"
    using runs_to_like [OF only_calls_runs [OF assms(1) m] s] by (simp add: same_place_def)
qed

lemma calls_same:
  assumes "\<And>p. same_place p (snd (m p))"
  shows "only_calls C m"
proof (rule only_callsI)
  fix p r p'
  assume "m p = (r, p')"
  with assms [of p] have "same_place p p'" by simp
  then show "runs_to p p' \<and> (\<exists>cs. trace p' = trace p @ cs \<and> (\<forall>c\<in>set cs. C c))"
    by (simp add: runs_to_same) (simp add: same_place_def)
qed

lemma calls_ret [calls_intros]: "only_calls C (ret x)"
  by (rule calls_same) (simp add: ret_def same_place_def)

lemma calls_fail [calls_intros]: "only_calls C (fail e)"
  by (rule calls_same) (simp add: fail_def same_place_def)

lemma calls_of_sum [calls_intros]: "only_calls C (of_sum r)"
  by (rule calls_same) (simp add: of_sum_def same_place_def)

lemma calls_bnd [calls_intros]:
  assumes "only_calls C m" "\<And>x. only_calls C (k x)"
  shows "only_calls C (bnd m k)"
proof (rule only_callsI)
  fix p r p'
  assume run: "bnd m k p = (r, p')"
  obtain r1 p1 where m: "m p = (r1, p1)" by force
  obtain cs where cs: "trace p1 = trace p @ cs" "\<forall>c\<in>set cs. C c"
    using only_callsD [OF assms(1) m] .
  show "runs_to p p' \<and> (\<exists>cs. trace p' = trace p @ cs \<and> (\<forall>c\<in>set cs. C c))"
  proof (cases "\<exists>x. r1 = Ok x")
    case True
    then obtain x where x: "r1 = Ok x" by blast
    with run m have k: "k x p1 = (r, p')" by (simp add: bnd_Ok)
    obtain ds where "trace p' = trace p1 @ ds" "\<forall>c\<in>set ds. C c"
      using only_callsD [OF assms(2) k] .
    with cs runs_to_trans [OF only_calls_runs [OF assms(1) m] only_calls_runs [OF assms(2) k]] show ?thesis by auto
  next
    case False
    with run m have "p' = p1" by (auto simp: bnd_eq)
    with cs only_calls_runs [OF assms(1) m] show ?thesis by blast
  qed
qed

lemma attempt_snd: "snd (attempt m p) = snd (m p)"
  by (auto simp: attempt_def split: prod.splits res.splits)

lemma calls_attempt [calls_intros]: "only_calls C m \<Longrightarrow> only_calls C (attempt m)"
  by (erule calls_like) (metis attempt_snd same_place_refl)

lemma calls_handle [calls_intros]:
  assumes "only_calls C m" "\<And>e. only_calls C (h e)"
  shows "only_calls C (handle m h)"
proof -
  have "handle m h = bnd (attempt m) (\<lambda>r. case r of Inl e \<Rightarrow> h e | Inr x \<Rightarrow> ret x)"
    by (rule ext) (auto simp: handle_def bnd_def attempt_def ret_def split: prod.splits res.splits)
  then show ?thesis
    using assms by (auto intro!: calls_intros split: sum.splits)
qed

lemma calls_deferred [calls_intros]:
  "only_calls C c \<Longrightarrow> only_calls C m \<Longrightarrow> only_calls C (deferred c m)"
  unfolding deferred_def by (intro calls_intros)

lemma calls_call [calls_intros]: "C (Call n c as) \<Longrightarrow> only_calls C (call n c as a)"
proof (rule only_callsI)
  fix p r p'
  assume C: "C (Call n c as)" and "call n c as a p = (r, p')"
  then obtain w where "p' = p\<lparr>world := w, trace := trace p @ [Call n c as], history := history p @ [(w, trace p @ [Call n c as])]\<rparr>"
    by (auto simp: call_def split: prod.splits)
  with C show "runs_to p p' \<and> (\<exists>cs. trace p' = trace p @ cs \<and> (\<forall>c\<in>set cs. C c))" by (simp add: runs_to_step)
qed

lemma calls_locally [calls_intros]: "only_calls C (locally a)"
proof (rule only_callsI)
  fix p r p'
  assume "locally a p = (r, p')"
  then obtain w where "p' = p\<lparr>world := w, history := history p @ [(w, trace p)]\<rparr>" by (auto simp: locally_def split: prod.splits)
  then show "runs_to p p' \<and> (\<exists>cs. trace p' = trace p @ cs \<and> (\<forall>c\<in>set cs. C c))" by (simp add: runs_to_step)
qed

lemma emit_same: "same_place p (snd (emit step st d p))"
  by (simp add: emit_def same_place_def split: option.splits)

lemma calls_emit [calls_intros]: "only_calls C (emit step st d)"
  by (rule calls_same) (simp add: emit_same)

lemma calls_fail_step [calls_intros]: "only_calls C (fail_step step e)"
  unfolding fail_step_def by (intro calls_intros)

lemma calls_now [calls_intros]: "only_calls C now"
  by (rule calls_same) (simp add: now_def same_place_def)

lemma calls_collect [calls_intros]: "(\<And>x. only_calls C (f x)) \<Longrightarrow> only_calls C (collect f xs)"
  by (induction xs) (auto intro!: calls_intros)

lemma calls_relay [calls_intros]: "only_calls C (relay es)"
  by (induction es) (auto intro!: calls_intros)

lemma calls_if [calls_intros]:
  "(b \<Longrightarrow> only_calls C m) \<Longrightarrow> (\<not> b \<Longrightarrow> only_calls C n) \<Longrightarrow> only_calls C (if b then m else n)"
  by simp

lemma calls_option [calls_intros]:
  "only_calls C m \<Longrightarrow> (\<And>x. only_calls C (f x)) \<Longrightarrow>
   only_calls C (case y of None \<Rightarrow> m | Some x \<Rightarrow> f x)"
  by (cases y) auto

lemma calls_sum [calls_intros]:
  "(\<And>e. only_calls C (g e)) \<Longrightarrow> (\<And>x. only_calls C (f x)) \<Longrightarrow>
   only_calls C (case y of Inl e \<Rightarrow> g e | Inr x \<Rightarrow> f x)"
  by (cases y) auto

lemma calls_prod [calls_intros]:
  "(\<And>a b. only_calls C (f a b)) \<Longrightarrow> only_calls C (case y of (a, b) \<Rightarrow> f a b)"
  by (cases y) auto

lemma calls_list [calls_intros]:
  "only_calls C m \<Longrightarrow> (\<And>x xs. only_calls C (f x xs)) \<Longrightarrow>
   only_calls C (case y of [] \<Rightarrow> m | x # xs \<Rightarrow> f x xs)"
  by (cases y) auto

lemma relay_same: "same_place p (snd (relay es p))"
proof (induction es arbitrary: p)
  case (Cons e es)
  obtain r q where e: "emit (ev_step e) (ev_state e) (ev_detail e) p = (r, q)" by force
  with emit_same [of p "ev_step e" "ev_state e" "ev_detail e"] have "same_place p q" by simp
  with e Cons show ?case by (cases r) (auto simp: bnd_def intro: same_place_trans)
qed (simp add: ret_def)

lemma subjob_same:
  fixes m :: "('w, 'b) io"
  shows "same_place (snd (m (p\<lparr>job := new_job (fresh p (ticks p)), ticks := Suc (ticks p)\<rparr>))) (snd (subjob m p))"
proof -
  let ?p = "p\<lparr>job := new_job (fresh p (ticks p)), ticks := Suc (ticks p)\<rparr>"
  obtain r p1 where a: "attempt m ?p = (r, p1)" by force
  then have m: "snd (m ?p) = p1" by (metis attempt_snd snd_conv)
  have w: "same_place p1 (with_job (job p) p1)" by (simp add: with_job_def same_place_def)
  have "same_place (with_job (job p) p1) (snd (bnd (relay es) (\<lambda>_. ret (r', es)) (with_job (job p) p1)))" for es and r' :: "error + 'b"
    using relay_same [of "with_job (job p) p1" es]
    by (cases "relay es (with_job (job p) p1)"; cases "fst (relay es (with_job (job p) p1))") (auto simp: bnd_def ret_def)
  from a m w same_place_trans [OF w this] show ?thesis by (cases r) (simp_all add: subjob_def)
qed

lemma calls_subjob [calls_intros]: "only_calls C m \<Longrightarrow> only_calls C (subjob m)"
proof (erule calls_like)
  fix p
  show "\<exists>q. same_place p q \<and> same_place (snd (m q)) (snd (subjob m p))"
    using subjob_same [of m p] by (intro exI conjI) (auto simp: same_place_def)
qed

lemma calls_as_job [calls_intros]: "only_calls C m \<Longrightarrow> only_calls C (as_job d m)"
  unfolding as_job_def by (intro calls_intros)

lemma calls_weaken: "only_calls C m \<Longrightarrow> (\<And>c. C c \<Longrightarrow> D c) \<Longrightarrow> only_calls D m"
  by (rule only_callsI) (metis only_callsD only_calls_runs)

lemma only_calls_neither:
  assumes "only_calls (\<lambda>k. \<not> C k) m" "only_calls (\<lambda>k. \<not> D k) m"
  shows "only_calls (\<lambda>k. \<not> (C k \<or> D k)) m"
proof (rule only_callsI)
  fix p r p'
  assume m: "m p = (r, p')"
  obtain cs where "trace p' = trace p @ cs" "\<forall>c\<in>set cs. \<not> C c" using only_callsD [OF assms(1) m] .
  moreover obtain ds where "trace p' = trace p @ ds" "\<forall>c\<in>set ds. \<not> D c" using only_callsD [OF assms(2) m] .
  ultimately show "runs_to p p' \<and> (\<exists>cs. trace p' = trace p @ cs \<and> (\<forall>c\<in>set cs. \<not> (C c \<or> D c)))"
    using only_calls_runs [OF assms(1) m] by auto
qed

text \<open>\<open>return fmt.Errorf("p: %w", err)\<close> after a failed call.\<close>

definition orfail :: "('w, 'a) io \<Rightarrow> string \<Rightarrow> ('w, 'a) io" where
  "orfail m p = handle m (\<lambda>e. fail (wrapf p e))"

lemma calm_orfail [calm_intros]: "calm_on I m \<Longrightarrow> calm_on I (orfail m p)"
  unfolding orfail_def by (intro calm_intros)

lemma calls_orfail [calls_intros]: "only_calls C m \<Longrightarrow> only_calls C (orfail m p)"
  unfolding orfail_def by (intro calls_intros)

section \<open>The calls a statement makes in order\<close>

text \<open>
  \<open>follows m cs\<close>: the statement makes the calls \<open>cs\<close> in that order, stopping early only when it fails.
\<close>

definition follows :: "('w, 'a) io \<Rightarrow> call list \<Rightarrow> bool" where
  "follows m cs \<longleftrightarrow> (\<forall>p. case m p of (r, p') \<Rightarrow>
     \<exists>ds. trace p' = trace p @ ds \<and> prefix ds cs \<and> ((\<exists>x. r = Ok x) \<longrightarrow> ds = cs))"

lemma followsD:
  assumes "follows m cs" "m p = (r, p')"
  obtains ds where "trace p' = trace p @ ds" "prefix ds cs" "(\<exists>x. r = Ok x) \<Longrightarrow> ds = cs"
proof -
  from assms have "\<exists>ds. trace p' = trace p @ ds \<and> prefix ds cs \<and> ((\<exists>x. r = Ok x) \<longrightarrow> ds = cs)"
    by (auto simp: follows_def dest!: spec [of _ p])
  then show thesis using that by blast
qed

lemma follows_ret: "follows (ret x) []"
  by (simp add: follows_def ret_def)

lemma follows_fail: "follows (fail e) cs"
  by (simp add: follows_def fail_def)

lemma follows_of_sum: "follows (of_sum r) []"
  by (cases r) (simp_all add: follows_ret follows_fail)

lemma follows_of_sum_Inr: "follows (of_sum (Inr x)) []"
  by (simp add: follows_ret)

lemma bnd_orfail_Inr: "bnd (orfail (of_sum (Inr x)) t) k = k x"
  by (rule ext) (simp add: bnd_def orfail_def handle_def ret_def)

lemma follows_call: "follows (call n c as a) [Call n c as]"
  by (simp add: follows_def call_def split: prod.splits)

lemma follows_bnd:
  assumes "follows m cs" "\<And>x. follows (k x) ds"
  shows "follows (bnd m k) (cs @ ds)"
  unfolding follows_def
proof
  fix p :: "'a proc"
  obtain r p1 where m: "m p = (r, p1)" by force
  obtain as where as: "trace p1 = trace p @ as" "prefix as cs" "(\<exists>x. r = Ok x) \<Longrightarrow> as = cs"
    using followsD [OF assms(1) m] by blast
  show "case bnd m k p of (r, p') \<Rightarrow>
      \<exists>es. trace p' = trace p @ es \<and> prefix es (cs @ ds) \<and> ((\<exists>x. r = Ok x) \<longrightarrow> es = cs @ ds)"
  proof (cases r)
    case (Ok x)
    obtain r' p2 where k: "k x p1 = (r', p2)" by force
    obtain bs where "trace p2 = trace p1 @ bs" "prefix bs ds" "(\<exists>x. r' = Ok x) \<Longrightarrow> bs = ds"
      using followsD [OF assms(2) k] by blast
    with m k Ok as show ?thesis by (auto simp: bnd_def)
  qed (use m as in \<open>auto simp: bnd_def\<close>)
qed

lemma follows_orfail: "follows m cs \<Longrightarrow> follows (orfail m t) cs"
  by (fastforce simp: follows_def orfail_def handle_def fail_def split: prod.splits res.splits)

lemma follows_cong: "follows m cs \<Longrightarrow> cs = ds \<Longrightarrow> follows m ds"
  by simp

text \<open>A call of kind \<open>C\<close> made by a sequence whose first part makes none was made by the rest.\<close>

lemma bnd_past:
  assumes "bnd m f p = (r, p')" "trace p' = trace p @ cs" "k \<in> set cs" "C k"
    and "only_calls (\<lambda>k. \<not> C k) m" "\<And>x. only_calls (\<lambda>_. True) (f x)"
  obtains x p1 ds where "m p = (Ok x, p1)" "f x p1 = (r, p')" "trace p' = trace p1 @ ds" "k \<in> set ds"
proof -
  obtain r1 p1 where m: "m p = (r1, p1)" by force
  obtain as where as: "trace p1 = trace p @ as" "\<forall>k\<in>set as. \<not> C k" using only_callsD [OF assms(5) m] .
  have "\<exists>x. r1 = Ok x"
  proof (rule ccontr)
    assume "\<not> ?thesis"
    with m assms(1) have "p' = p1" by (auto simp: bnd_eq)
    with as assms(2,3,4) show False by auto
  qed
  then obtain x where x: "r1 = Ok x" by blast
  with m assms(1) have f: "f x p1 = (r, p')" by (simp add: bnd_Ok)
  obtain ds where ds: "trace p' = trace p1 @ ds" using only_callsD [OF assms(6) f] .
  with as assms(2,3,4) have "k \<in> set ds" by auto
  then show thesis using that m x f ds by blast
qed

lemma only_callsI_bound: "only_calls C m \<Longrightarrow> only_calls (\<lambda>_. True) m"
  by (erule calls_weaken) simp


section \<open>What has happened before a call is made\<close>

text \<open>
  \<open>checked G p p' t\<close>: on its way from \<open>p\<close> to \<open>p'\<close> the process went through states \<open>q\<close> and \<open>q'\<close> in which
  \<open>G q q'\<close>, a check that ran from \<open>q\<close> to \<open>q'\<close> with the outcome \<open>G\<close> names, when no more than the calls \<open>t\<close>
  had been made. \<open>preceded C G m\<close>: whenever \<open>m\<close> makes a call of kind \<open>C\<close>, such a check came before that call.
\<close>

definition checked :: "('w proc \<Rightarrow> 'w proc \<Rightarrow> bool) \<Rightarrow> 'w proc \<Rightarrow> 'w proc \<Rightarrow> call list \<Rightarrow> bool" where
  "checked G p p' t \<longleftrightarrow>
     (\<exists>q q'. runs_to p q \<and> runs_to q q' \<and> runs_to q' p' \<and> G q q' \<and> prefix (trace q') t)"

definition preceded :: "(call \<Rightarrow> bool) \<Rightarrow> ('w proc \<Rightarrow> 'w proc \<Rightarrow> bool) \<Rightarrow> ('w, 'a) io \<Rightarrow> bool" where
  "preceded C G m \<longleftrightarrow> (\<forall>p. case m p of (r, p') \<Rightarrow>
     \<forall>as k bs. trace p' = trace p @ as @ k # bs \<longrightarrow> C k \<longrightarrow> checked G p p' (trace p @ as))"

text \<open>\<open>passes m G\<close>: a statement that succeeds has made the check.\<close>

definition passes :: "('w, 'a) io \<Rightarrow> ('w proc \<Rightarrow> 'w proc \<Rightarrow> bool) \<Rightarrow> bool" where
  "passes m G \<longleftrightarrow> (\<forall>p x p'. m p = (Ok x, p') \<longrightarrow> checked G p p' (trace p'))"

lemma runs_to_trace: "runs_to p q \<Longrightarrow> prefix (trace p) (trace q)"
  by (simp add: runs_to_def)

lemma checked_at: "G p p' \<Longrightarrow> runs_to p p' \<Longrightarrow> checked G p p' (trace p')"
  unfolding checked_def by (intro exI [of _ p] exI [of _ p']) simp

lemma checked_later:
  assumes "checked G p p1 t" "runs_to p1 p'" "prefix t t'"
  shows "checked G p p' t'"
proof -
  from assms(1) obtain q q' where "runs_to p q" "runs_to q q'" "runs_to q' p1" "G q q'" "prefix (trace q') t"
    unfolding checked_def by blast
  with runs_to_trans [OF this(3) assms(2)] prefix_order.trans [OF this(5) assms(3)] show ?thesis
    unfolding checked_def by blast
qed

lemma checked_earlier:
  assumes "runs_to p p1" "checked G p1 p' t"
  shows "checked G p p' t"
  using assms runs_to_trans unfolding checked_def by blast

lemma checked_same: "checked G p p1 t \<Longrightarrow> same_place p1 p' \<Longrightarrow> checked G p p' t"
  by (erule checked_later) (simp_all add: runs_to_same)

lemma checked_mono: "checked G p p' t \<Longrightarrow> (\<And>q q'. G q q' \<Longrightarrow> H q q') \<Longrightarrow> checked H p p' t"
  unfolding checked_def by blast

lemma precededI:
  assumes "\<And>p r p' as k bs. m p = (r, p') \<Longrightarrow> trace p' = trace p @ as @ k # bs \<Longrightarrow> C k \<Longrightarrow> checked G p p' (trace p @ as)"
  shows "preceded C G m"
  unfolding preceded_def case_prod_beta
proof (intro allI impI)
  fix p as k bs
  show "trace (snd (m p)) = trace p @ as @ k # bs \<Longrightarrow> C k \<Longrightarrow> checked G p (snd (m p)) (trace p @ as)"
    by (rule assms [of p "fst (m p)"]) simp_all
qed

lemma precededD:
  assumes "preceded C G m" "m p = (r, p')" "trace p' = trace p @ as @ k # bs" "C k"
  shows "checked G p p' (trace p @ as)"
proof -
  have "\<forall>as k bs. trace p' = trace p @ as @ k # bs \<longrightarrow> C k \<longrightarrow> checked G p p' (trace p @ as)"
    using spec [OF assms(1) [unfolded preceded_def], of p] assms(2) by simp
  with assms(3,4) show ?thesis by blast
qed

lemma preceded_none:
  assumes "only_calls (\<lambda>k. \<not> C k) m"
  shows "preceded C G m"
proof (rule precededI)
  fix p r p' as k bs
  assume m: "m p = (r, p')" and k: "trace p' = trace p @ as @ k # bs" "C k"
  obtain cs where "trace p' = trace p @ cs" "\<forall>c\<in>set cs. \<not> C c" using only_callsD [OF assms m] .
  with k show "checked G p p' (trace p @ as)" by auto
qed

lemma preceded_weaken: "preceded D G m \<Longrightarrow> (\<And>k. C k \<Longrightarrow> D k) \<Longrightarrow> preceded C G m"
  by (rule precededI) (blast dest: precededD)

text \<open>Where a call of a sequence was made: in the first part, or past it.\<close>

lemma append_past: "xs @ ys = as @ k # bs \<Longrightarrow> k \<notin> set xs \<Longrightarrow> \<exists>as'. as = xs @ as' \<and> ys = as' @ k # bs"
  by (auto simp: append_eq_append_conv2 append_eq_Cons_conv)

lemma append_either: "xs @ ys = as @ k # bs \<Longrightarrow> (\<exists>bs'. xs = as @ k # bs') \<or> (\<exists>as'. as = xs @ as' \<and> ys = as' @ k # bs)"
  by (auto simp: append_eq_append_conv2 append_eq_Cons_conv)

lemma bnd_past_at:
  assumes "bnd m f p = (r, p')" "trace p' = trace p @ as @ k # bs" "C k"
    and "only_calls (\<lambda>k. \<not> C k) m" "\<And>x. only_calls (\<lambda>_. True) (f x)"
  obtains x p1 as' where "m p = (Ok x, p1)" "f x p1 = (r, p')" "runs_to p p1" "runs_to p1 p'"
    "trace p' = trace p1 @ as' @ k # bs" "trace p @ as = trace p1 @ as'"
proof -
  have "k \<in> set (as @ k # bs)" by simp
  then obtain x p1 ds where 1: "m p = (Ok x, p1)" "f x p1 = (r, p')" "trace p' = trace p1 @ ds"
    using bnd_past [OF assms(1,2) _ assms(3-5)] by blast
  obtain cs where cs: "trace p1 = trace p @ cs" "\<forall>c\<in>set cs. \<not> C c" using only_callsD [OF assms(4) 1(1)] .
  then have split: "cs @ ds = as @ k # bs" using 1(3) assms(2) by simp
  have "k \<notin> set cs" using cs(2) assms(3) by blast
  from append_past [OF split this] obtain as' where "as = cs @ as'" "ds = as' @ k # bs" by (elim exE conjE)
  then have "trace p' = trace p1 @ as' @ k # bs" "trace p @ as = trace p1 @ as'" using 1(3) cs(1) by (simp_all only: append_assoc)
  from that [OF 1(1,2) only_calls_runs [OF assms(4) 1(1)] only_calls_runs [OF assms(5) 1(2)] this] show thesis .
qed

text \<open>A first part that makes no call of the kind.\<close>

lemma preceded_bnd:
  assumes "only_calls (\<lambda>k. \<not> C k) m" "\<And>x. only_calls (\<lambda>_. True) (f x)"
    and "\<And>p x p1. m p = (Ok x, p1) \<Longrightarrow> preceded C G (f x)"
  shows "preceded C G (bnd m f)"
proof (rule precededI)
  fix p r p' as k bs
  assume "bnd m f p = (r, p')" "trace p' = trace p @ as @ k # bs" and C: "C k"
  then obtain x p1 as' where 1: "m p = (Ok x, p1)" "f x p1 = (r, p')" "runs_to p p1" "trace p' = trace p1 @ as' @ k # bs"
    "trace p @ as = trace p1 @ as'"
    by (rule bnd_past_at [OF _ _ _ assms(1,2)])
  from checked_earlier [OF 1(3) precededD [OF assms(3) [OF 1(1)] 1(2,4) C]] 1(5) show "checked G p p' (trace p @ as)" by simp
qed

text \<open>A first part that makes calls of the kind, each of them preceded.\<close>

lemma preceded_seq:
  assumes "preceded C G m" "\<And>x. preceded C G (f x)" "only_calls (\<lambda>_. True) m" "\<And>x. only_calls (\<lambda>_. True) (f x)"
  shows "preceded C G (bnd m f)"
proof (rule precededI)
  fix p r p' as k bs
  assume run: "bnd m f p = (r, p')" and k: "trace p' = trace p @ as @ k # bs" "C k"
  obtain r1 p1 where m: "m p = (r1, p1)" by force
  obtain cs where cs: "trace p1 = trace p @ cs" using only_callsD [OF assms(3) m] .
  show "checked G p p' (trace p @ as)"
  proof (cases "\<exists>x. r1 = Ok x")
    case True
    then obtain x where x: "r1 = Ok x" by blast
    with run m have f: "f x p1 = (r, p')" by (simp add: bnd_Ok)
    obtain ds where ds: "trace p' = trace p1 @ ds" using only_callsD [OF assms(4) f] .
    with cs k(1) have "cs @ ds = as @ k # bs" by simp
    from append_either [OF this] show ?thesis
    proof (elim disjE exE conjE)
      fix bs'
      assume "cs = as @ k # bs'"
      with cs have "trace p1 = trace p @ as @ k # bs'" by simp
      from precededD [OF assms(1) m this k(2)] only_calls_runs [OF assms(4) f] show ?thesis
        by (rule checked_later) simp
    next
      fix as'
      assume as': "as = cs @ as'" "ds = as' @ k # bs"
      with ds have "trace p' = trace p1 @ as' @ k # bs" by simp
      from checked_earlier [OF only_calls_runs [OF assms(3) m] precededD [OF assms(2) f this k(2)]] as'(1) cs
      show ?thesis by simp
    qed
  next
    case False
    with run m have "p' = p1" by (auto simp: bnd_eq)
    with precededD [OF assms(1) m] k show ?thesis by blast
  qed
qed

text \<open>
  A first part that is the check: it has been made when the first part succeeded, or what it found decides
  that the rest makes no such call, or that the rest is preceded itself.
\<close>

lemma preceded_check:
  assumes "only_calls (\<lambda>k. \<not> C k) m" "\<And>x. only_calls (\<lambda>_. True) (f x)"
    and "\<And>p x p1. m p = (Ok x, p1) \<Longrightarrow> checked G p p1 (trace p1) \<or> preceded C G (f x)"
  shows "preceded C G (bnd m f)"
proof (rule precededI)
  fix p r p' as k bs
  assume "bnd m f p = (r, p')" "trace p' = trace p @ as @ k # bs" and C: "C k"
  then obtain x p1 as' where 1: "m p = (Ok x, p1)" "f x p1 = (r, p')" "runs_to p p1" "runs_to p1 p'"
    "trace p' = trace p1 @ as' @ k # bs" "trace p @ as = trace p1 @ as'"
    by (rule bnd_past_at [OF _ _ _ assms(1,2)])
  from assms(3) [OF 1(1)] show "checked G p p' (trace p @ as)"
  proof
    assume "checked G p p1 (trace p1)"
    from checked_later [OF this 1(4)] 1(6) show ?thesis by simp
  next
    assume "preceded C G (f x)"
    from checked_earlier [OF 1(3) precededD [OF this 1(2,5) C]] 1(6) show ?thesis by simp
  qed
qed

lemma preceded_or:
  assumes "only_calls (\<lambda>k. \<not> C k) m" "\<And>x. only_calls (\<lambda>_. True) (f x)"
    and "\<And>p x p1. m p = (Ok x, p1) \<Longrightarrow> checked G p p1 (trace p1) \<or> only_calls (\<lambda>k. \<not> C k) (f x)"
  shows "preceded C G (bnd m f)"
  by (rule preceded_check [OF assms(1,2)]) (use assms(3) preceded_none in blast)

lemma preceded_by:
  assumes "only_calls (\<lambda>k. \<not> C k) m" "\<And>x. only_calls (\<lambda>_. True) (f x)" "passes m G"
  shows "preceded C G (bnd m f)"
  by (rule preceded_check [OF assms(1,2)]) (use assms(3) in \<open>auto simp: passes_def\<close>)

text \<open>A check that speaks of what the first part returned.\<close>

lemma preceded_from:
  assumes "only_calls (\<lambda>k. \<not> C k) m" "\<And>x. only_calls (\<lambda>_. True) (f x)" "\<And>x. preceded C (G x) (f x)"
    and "\<And>p x p1 q q'. m p = (Ok x, p1) \<Longrightarrow> runs_to p1 q \<Longrightarrow> G x q q' \<Longrightarrow> H p q'"
  shows "preceded C H (bnd m f)"
proof (rule precededI)
  fix p r p' as k bs
  assume "bnd m f p = (r, p')" "trace p' = trace p @ as @ k # bs" and C: "C k"
  then obtain x p1 as' where 1: "m p = (Ok x, p1)" "f x p1 = (r, p')" "runs_to p p1" "runs_to p1 p'"
    "trace p' = trace p1 @ as' @ k # bs" "trace p @ as = trace p1 @ as'"
    by (rule bnd_past_at [OF _ _ _ assms(1,2)])
  from precededD [OF assms(3) 1(2,5) C] obtain q q' where q: "runs_to p1 q" "runs_to q q'" "runs_to q' p'" "G x q q'"
    "prefix (trace q') (trace p1 @ as')"
    unfolding checked_def by blast
  have "runs_to p q'" by (rule runs_to_trans [OF 1(3) runs_to_trans [OF q(1,2)]])
  with assms(4) [OF 1(1) q(1,4)] q(3,5) 1(6) show "checked H p p' (trace p @ as)"
    unfolding checked_def by (intro exI [of _ p] exI [of _ q']) simp
qed

text \<open>A statement that changes the same things.\<close>

lemma preceded_like:
  assumes "preceded C G m" "\<And>p. \<exists>q. same_place p q \<and> same_place (snd (m q)) (snd (m' p))"
  shows "preceded C G m'"
proof (rule precededI)
  fix p r p' as k bs
  assume run: "m' p = (r, p')" and k: "trace p' = trace p @ as @ k # bs" "C k"
  obtain q where q: "same_place p q" "same_place (snd (m q)) (snd (m' p))" using assms(2) by blast
  obtain r1 q1 where m: "m q = (r1, q1)" by force
  have s: "same_place q1 p'" "same_place q p" "trace q = trace p" "trace q1 = trace p'"
    using q m run by (simp_all add: same_place_def)
  with precededD [OF assms(1) m _ k(2)] k(1) have "checked G q q1 (trace p @ as)" by simp
  from checked_earlier [OF runs_to_same [OF q(1)] checked_same [OF this s(1)]] show "checked G p p' (trace p @ as)" .
qed

lemma emit_stays: "emit st s d p = (r, p') \<Longrightarrow> same_place p p'"
  using emit_same [of p st s d] by simp

lemma as_job_same: "same_place (snd (m p)) (snd (as_job d m p))"
proof -
  obtain r1 p1 where m: "m p = (r1, p1)" by force
  show ?thesis
    by (cases r1) (auto simp: m as_job_def handle_def bnd_def fail_def ret_def emit_def same_place_def split: option.splits)
qed

lemma reported_same: "same_place (snd (m p)) (snd (handle m (fail_step st) p))"
proof -
  obtain r1 p1 where m: "m p = (r1, p1)" by force
  show ?thesis
    by (cases r1) (auto simp: m handle_def fail_step_def bnd_def fail_def emit_def same_place_def split: option.splits)
qed

lemma preceded_as_job: "preceded C G m \<Longrightarrow> preceded C G (as_job d m)"
  by (erule preceded_like) (use as_job_same in \<open>blast intro: same_place_refl\<close>)

lemma preceded_attempt: "preceded C G m \<Longrightarrow> preceded C G (attempt m)"
  by (erule preceded_like) (metis attempt_snd same_place_refl)

lemma preceded_reported: "preceded C G m \<Longrightarrow> preceded C G (handle m (fail_step st))"
  by (erule preceded_like) (use reported_same in \<open>blast intro: same_place_refl\<close>)

lemma preceded_subjob: "preceded C G m \<Longrightarrow> preceded C G (subjob m)"
proof (erule preceded_like)
  fix p
  show "\<exists>q. same_place p q \<and> same_place (snd (m q)) (snd (subjob m p))"
    using subjob_same [of m p] by (intro exI conjI) (auto simp: same_place_def)
qed

lemma preceded_prod: "(\<And>a b. preceded C G (f a b)) \<Longrightarrow> preceded C G (case y of (a, b) \<Rightarrow> f a b)"
  by (cases y) auto

lemma preceded_deferred:
  assumes "preceded C G m" "only_calls (\<lambda>_. True) m" "only_calls (\<lambda>k. \<not> C k) c"
  shows "preceded C G (deferred c m)"
  unfolding deferred_def
  by (intro preceded_seq preceded_attempt preceded_none calls_intros assms only_callsI_bound [OF assms(3)])

lemma emit_trace: "emit st s d p = (r, p') \<Longrightarrow> trace p' = trace p"
  by (auto simp: emit_def split: option.splits)

text \<open>What a statement that succeeded has done.\<close>

lemma fail_step_Ok: "fail_step st e p \<noteq> (Ok x, p')"
  by (auto simp: fail_step_def emit_def bnd_def fail_def split: option.splits)

lemma reported_Ok: "handle m (fail_step st) p = (Ok x, p') \<Longrightarrow> m p = (Ok x, p')"
  by (auto simp: handle_def fail_step_Ok split: prod.splits res.splits)

lemma orfail_Ok: "orfail m t p = (Ok x, p') \<Longrightarrow> m p = (Ok x, p')"
  by (auto simp: orfail_def handle_def fail_def split: prod.splits res.splits)

lemma locally_Ok:
  assumes "locally a p = (Ok x, p')"
  shows "a (world p) = (Inr x, world p')" "trace p' = trace p"
  using assms by (auto simp: locally_def split: prod.splits elim: res_of.elims)

lemma call_Ok:
  assumes "call n c as a p = (Ok x, p')"
  shows "a (world p) = (Inr x, world p')" "trace p' = trace p @ [Call n c as]"
  using assms by (auto simp: call_def split: prod.splits elim: res_of.elims)

lemma attempt_call_Ok:
  assumes "attempt (call n c as a) p = (Ok r, p')"
  shows "a (world p) = (r, world p')"
  using assms by (auto simp: attempt_def call_def split: prod.splits res.splits elim: res_of.elims)

lemma of_sum_Ok: "of_sum r p = (Ok x, p') \<Longrightarrow> r = Inr x \<and> p' = p"
  by (cases r) (auto simp: fail_def ret_def)

lemma emit_world: "emit st s d p = (r, p') \<Longrightarrow> world p' = world p"
  by (auto simp: emit_def split: option.splits)

lemma silentD:
  assumes "only_calls (\<lambda>_. False) m" "m p = (r, p')"
  shows "trace p' = trace p"
  using only_callsD [OF assms] by (metis append_Nil2 list.set_intros(1) neq_Nil_conv)

text \<open>What a step that ran an operation under a job of its own ran.\<close>

lemma subjob_ran:
  assumes "subjob m p = (Ok (r, evs), p')"
  obtains q q' where "attempt m q = (Ok r, q')" "evs = job_events (job q')" "same_place p q" "same_place q' p'"
proof -
  let ?q = "p\<lparr>job := new_job (fresh p (ticks p)), ticks := Suc (ticks p)\<rparr>"
  obtain r1 p1 where a: "attempt m ?q = (r1, p1)" by force
  with assms obtain r' where r': "r1 = Ok r'" "job_terminal (job p1)"
    by (auto simp: subjob_def split: res.splits if_splits)
  with assms a have b: "bnd (relay (job_events (job p1))) (\<lambda>_. ret (r', job_events (job p1))) (with_job (job p) p1) = (Ok (r, evs), p')"
    by (simp add: subjob_def)
  have "snd (m ?q) = p1" using attempt_snd [of m ?q] a by simp
  with subjob_same [of m p] assms have "same_place p1 p'" by simp
  moreover have "same_place p ?q" by (simp add: same_place_def)
  moreover from b have "r = r'" "evs = job_events (job p1)" by (auto simp: bnd_eq)
  ultimately show thesis using that a r' by blast
qed

lemma attempt_Ok: "attempt m q = (Ok (Inr x), q') \<Longrightarrow> m q = (Ok x, q')"
  by (auto simp: attempt_def split: prod.splits res.splits)

lemma as_job_Ok: "as_job d m p = (Ok x, p') \<Longrightarrow> \<exists>p1. m p = (Ok x, p1)"
  by (cases "m p"; cases "fst (m p)")
    (auto simp: as_job_def handle_def bnd_def emit_def fail_def ret_def split: option.splits)

lemma deferred_Ok: "deferred c m p = (Ok x, p') \<Longrightarrow> \<exists>p1. m p = (Ok x, p1)"
  by (cases "m p"; cases "fst (m p)")
    (auto simp: deferred_def attempt_def bnd_def fail_def ret_def split: prod.splits res.splits)

text \<open>Statements that pass a check.\<close>

lemma passesI: "(\<And>p x p'. m p = (Ok x, p') \<Longrightarrow> checked G p p' (trace p')) \<Longrightarrow> passes m G"
  by (auto simp: passes_def)

lemma passesD: "passes m G \<Longrightarrow> m p = (Ok x, p') \<Longrightarrow> checked G p p' (trace p')"
  by (auto simp: passes_def)

lemma passes_ok: "passes m G \<Longrightarrow> (\<And>p x p'. m' p = (Ok x, p') \<Longrightarrow> \<exists>y. m p = (Ok y, p')) \<Longrightarrow> passes m' G"
  by (rule passesI) (blast dest: passesD)

lemma passes_whole: "only_calls (\<lambda>_. True) m \<Longrightarrow> (\<And>p x p'. m p = (Ok x, p') \<Longrightarrow> G p p') \<Longrightarrow> passes m G"
  by (rule passesI) (blast intro: checked_at only_calls_runs)

lemma passes_subjob:
  assumes "passes m G"
  shows "passes (bnd (subjob m) (\<lambda>r. of_sum (fst r))) G"
proof (rule passesI)
  fix p x p'
  assume "bnd (subjob m) (\<lambda>r. of_sum (fst r)) p = (Ok x, p')"
  then obtain y p2 where y: "subjob m p = (Ok y, p2)" "of_sum (fst y) p2 = (Ok x, p')" by (rule bnd_OkE)
  from of_sum_Ok [OF y(2)] y(1) have "subjob m p = (Ok (Inr x, snd y), p')" by (cases y) simp
  then obtain q q' where q: "attempt m q = (Ok (Inr x), q')" "same_place p q" "same_place q' p'" by (rule subjob_ran)
  have "checked G p q' (trace q')"
    by (rule checked_earlier [OF runs_to_same [OF q(2)]], rule passesD [OF assms attempt_Ok [OF q(1)]])
  from checked_same [OF this q(3)] q(3) show "checked G p p' (trace p')" by (simp add: same_place_def)
qed

lemma passes_fail: "passes (fail e) G"
  by (rule passesI) simp

lemma passes_call:
  assumes "\<And>p p' x. a (world p) = (Inr x, world p') \<Longrightarrow> G p p'"
  shows "passes (call n c as a) G"
proof (rule passesI)
  fix p x p'
  assume run: "call n c as a p = (Ok x, p')"
  have "only_calls (\<lambda>_. True) (call n c as a)" by (intro calls_intros TrueI)
  from only_calls_runs [OF this] run have "runs_to p p'" by blast
  then show "checked G p p' (trace p')" by (intro checked_at assms [OF call_Ok(1) [OF run]])
qed

lemma passes_locally:
  assumes "\<And>p p' x. a (world p) = (Inr x, world p') \<Longrightarrow> G p p'"
  shows "passes (locally a) G"
proof (rule passesI)
  fix p x p'
  assume run: "locally a p = (Ok x, p')"
  show "checked G p p' (trace p')" by (intro checked_at assms [OF locally_Ok(1) [OF run]]) (rule only_calls_runs [OF calls_locally run])
qed

lemma passes_first:
  assumes "passes m G" "\<And>x. only_calls (\<lambda>_. True) (f x)"
  shows "passes (bnd m f) G"
proof (rule passesI)
  fix p y p'
  assume "bnd m f p = (Ok y, p')"
  then obtain x p1 where 1: "m p = (Ok x, p1)" "f x p1 = (Ok y, p')" by (rule bnd_OkE)
  from only_calls_runs [OF assms(2) 1(2)] have r: "runs_to p1 p'" .
  from checked_later [OF passesD [OF assms(1) 1(1)] r runs_to_trace [OF r]] show "checked G p p' (trace p')" .
qed

lemma passes_then:
  assumes "only_calls (\<lambda>_. True) m" "\<And>p x p1. m p = (Ok x, p1) \<Longrightarrow> passes (f x) G"
  shows "passes (bnd m f) G"
proof (rule passesI)
  fix p y p'
  assume "bnd m f p = (Ok y, p')"
  then obtain x p1 where 1: "m p = (Ok x, p1)" "f x p1 = (Ok y, p')" by (rule bnd_OkE)
  from checked_earlier [OF only_calls_runs [OF assms(1) 1(1)] passesD [OF assms(2) [OF 1(1)] 1(2)]]
  show "checked G p p' (trace p')" .
qed

text \<open>A local operation, and another on what it returned, with nothing between them.\<close>

lemma passes_local_pair:
  assumes "\<And>p x w y p'. a (world p) = (Inr x, w) \<Longrightarrow> b x w = (Inr y, world p') \<Longrightarrow> G p p'"
    and "\<And>x y. only_calls (\<lambda>_. True) (f x y)"
  shows "passes (bnd (handle (orfail (locally a) t) (fail_step st)) (\<lambda>x.
     bnd (handle (orfail (locally (b x)) t') (fail_step st')) (f x))) G"
proof (rule passesI)
  fix p z p'
  assume "bnd (handle (orfail (locally a) t) (fail_step st)) (\<lambda>x.
     bnd (handle (orfail (locally (b x)) t') (fail_step st')) (f x)) p = (Ok z, p')"
  then obtain x p1 y p2 where 1: "locally a p = (Ok x, p1)" "locally (b x) p1 = (Ok y, p2)" "f x y p2 = (Ok z, p')"
    by (elim bnd_OkE) (blast dest: orfail_Ok reported_Ok)
  have "runs_to p p2"
    by (rule runs_to_trans [OF only_calls_runs [OF calls_locally 1(1)] only_calls_runs [OF calls_locally 1(2)]])
  have "checked G p p2 (trace p2)"
    by (rule checked_at) (rule assms(1) [OF locally_Ok(1) [OF 1(1)] locally_Ok(1) [OF 1(2)]], fact)
  from checked_later [OF this] only_calls_runs [OF assms(2) 1(3)] show "checked G p p' (trace p')"
    by (blast intro: runs_to_trace)
qed

lemma passes_orfail: "passes m G \<Longrightarrow> passes (orfail m t) G"
  by (erule passes_ok) (blast dest: orfail_Ok)

lemma passes_reported: "passes m G \<Longrightarrow> passes (handle m (fail_step st)) G"
  by (erule passes_ok) (blast dest: reported_Ok)

lemma passes_sum: "(\<And>e. y = Inl e \<Longrightarrow> passes (g e) G) \<Longrightarrow> (\<And>x. y = Inr x \<Longrightarrow> passes (f x) G) \<Longrightarrow>
  passes (case y of Inl e \<Rightarrow> g e | Inr x \<Rightarrow> f x) G"
  by (cases y) auto

lemma passes_option: "(y = None \<Longrightarrow> passes m G) \<Longrightarrow> (\<And>x. y = Some x \<Longrightarrow> passes (f x) G) \<Longrightarrow>
  passes (case y of None \<Rightarrow> m | Some x \<Rightarrow> f x) G"
  by (cases y) auto

lemma passes_if: "(b \<Longrightarrow> passes m G) \<Longrightarrow> (\<not> b \<Longrightarrow> passes n G) \<Longrightarrow> passes (if b then m else n) G"
  by simp

text \<open>A check that looks at an outcome, success or not, and goes on only with what it accepts.\<close>

lemma passes_attempt_call:
  assumes "\<And>p p' r. a (world p) = (r, world p') \<Longrightarrow> G p p' \<or> passes (f r) G" "\<And>r. only_calls (\<lambda>_. True) (f r)"
  shows "passes (bnd (attempt (call n c as a)) f) G"
proof (rule passesI)
  fix p y p'
  assume "bnd (attempt (call n c as a)) f p = (Ok y, p')"
  then obtain r p1 where 1: "attempt (call n c as a) p = (Ok r, p1)" "f r p1 = (Ok y, p')" by (rule bnd_OkE)
  have "only_calls (\<lambda>_. True) (attempt (call n c as a))" by (intro calls_intros TrueI)
  from only_calls_runs [OF this 1(1)] have r: "runs_to p p1" .
  from only_calls_runs [OF assms(2) 1(2)] have r2: "runs_to p1 p'" .
  from assms(1) [OF attempt_call_Ok [OF 1(1)]] show "checked G p p' (trace p')"
  proof
    assume "G p p1"
    then have "checked G p p1 (trace p1)" using r by (rule checked_at)
    from checked_later [OF this r2 runs_to_trace [OF r2]] show ?thesis .
  next
    assume "passes (f r) G"
    from checked_earlier [OF r passesD [OF this 1(2)]] show ?thesis .
  qed
qed

end
