(* ===== verification/Keystore.thy ===== *)
theory Keystore
  imports Effects
begin

text \<open>
  \<open>internal/core/keystore\<close>: secrets and their redaction, driver configuration, the file and command
  drivers, and the rotation guard above every driver. \<open>keystore_laws\<close> states what a driver promises in
  terms of the keys a world holds; \<open>guarded_keystore\<close> adds what the guard promises on top: no write
  replaces key material that is not declared rotating. The file driver is an interpretation of the first
  and the guarded file driver, which \<open>New\<close> builds, of the second.
\<close>

section \<open>Secrets\<close>

datatype secret = Secret (reveal: string)

definition redacted :: string where
  "redacted = ''[redacted]''"

definition redact_all :: "string \<Rightarrow> string list \<Rightarrow> string" where
  "redact_all text values =
     fold (\<lambda>v t. if v = '''' then t else replace_all v redacted t) values text"

definition secret_string :: "secret \<Rightarrow> string" where
  "secret_string s = redacted"

definition secret_json :: "secret \<Rightarrow> string" where
  "secret_json s = CHR 0x22 # redacted @ [CHR 0x22]"

section \<open>Rotation registry\<close>

definition KeyTLSCertificate :: string where "KeyTLSCertificate = ''tls_certificate''"
definition KeyTLSPrivateKey :: string where "KeyTLSPrivateKey = ''tls_private_key''"

definition rotating :: "string \<Rightarrow> bool option" where
  "rotating = [KeyTLSCertificate \<mapsto> True, KeyTLSPrivateKey \<mapsto> True]"

definition rotates :: "string \<Rightarrow> bool" where
  "rotates k = (case rotating k of Some b \<Rightarrow> b | None \<Rightarrow> False)"

lemma rotates_iff: "rotates k \<longleftrightarrow> k = KeyTLSCertificate \<or> k = KeyTLSPrivateKey"
  by (auto simp: rotates_def rotating_def)

section \<open>Drivers\<close>

record 'w driver =
  resolve :: "ctx \<Rightarrow> string \<Rightarrow> ('w, secret) act"
  writer :: "(ctx \<Rightarrow> string \<Rightarrow> secret \<Rightarrow> ('w, unit) act) option"
  describer :: "(string \<Rightarrow> string) option"

definition target_of :: "'w driver \<Rightarrow> string \<Rightarrow> string" where
  "target_of d k = (case describer d of None \<Rightarrow> '''' | Some f \<Rightarrow> trim_space (f k))"

subsection \<open>The file driver\<close>

definition resolve_path :: "string \<Rightarrow> string \<Rightarrow> error + string" where
  "resolve_path path k =
     (if blank k then Inl (errorf ''keystore: file: key name is required'')
      else (let base = clean path; full = join2 base k
            in if full \<noteq> base \<and> \<not> prefix (base @ [slash]) full
               then Inl (errorf (''keystore: file: key name '' @ quote k @ '' escapes configured path''))
               else Inr full))"

definition file_resolve :: "string \<Rightarrow> ctx \<Rightarrow> string \<Rightarrow> ('w, secret) act" where
  "file_resolve path c k =
     abnd (ctx_check c) (\<lambda>_.
     abnd (asum (resolve_path path k)) (\<lambda>full.
     abnd (ahandle (on_fs (os_read_file full)) (\<lambda>e.
            if errors_is e NotExist
            then afail (Err (''keystore: file: key '' @ quote k @ '' not found at '' @ full
                              @ '': keystore: key not found'') [KeystoreNotFound])
            else afail (wrapf (''keystore: file: resolve key '' @ quote k @ '': '') e))) (\<lambda>data.
     if data = '''' then afail (errorf (''keystore: file: key '' @ quote k @ '' is empty at '' @ full))
     else aret (Secret data))))"

definition file_store :: "string \<Rightarrow> ctx \<Rightarrow> string \<Rightarrow> secret \<Rightarrow> ('w, unit) act" where
  "file_store path c k s =
     abnd (ctx_check c) (\<lambda>_.
     abnd (asum (resolve_path path k)) (\<lambda>full.
     abnd (ahandle (on_fs (os_mkdir_all (dir_of full))) (\<lambda>e.
            afail (wrapf (''keystore: file: create directory for key '' @ quote k @ '': '') e))) (\<lambda>_.
     ahandle (on_fs (os_write_file full (reveal s) 384)) (\<lambda>e.
       afail (wrapf (''keystore: file: store key '' @ quote k @ '': '') e)))))"

definition file_describe :: "string \<Rightarrow> string \<Rightarrow> string" where
  "file_describe path k = (case resolve_path path k of Inl e \<Rightarrow> '''' | Inr full \<Rightarrow> full)"

definition file_driver :: "string \<Rightarrow> 'w driver" where
  "file_driver path = \<lparr>resolve = file_resolve path, writer = Some (file_store path),
     describer = Some (file_describe path)\<rparr>"

subsection \<open>The command driver\<close>

text \<open>
  \<open>sh -c command\<close> with the key name in the environment and something on its standard input: outside
  the process, so a parameter. It returns how the run failed, if it did, and both outputs.
\<close>

type_synonym 'w shell =
  "ctx \<Rightarrow> string \<Rightarrow> string \<Rightarrow> string \<Rightarrow> 'w world \<Rightarrow> (string option \<times> string \<times> string) \<times> 'w world"

definition stderr_suffix :: "string \<Rightarrow> string" where
  "stderr_suffix stderr =
     (if blank stderr then '''' else '' (stderr: '' @ trim_space stderr @ '')'')"

definition command_resolve :: "'w shell \<Rightarrow> string \<Rightarrow> ctx \<Rightarrow> string \<Rightarrow> ('w, secret) act" where
  "command_resolve sh command c k =
     (if blank k then afail (errorf ''keystore: command: key name is required'')
      else (\<lambda>w. case sh c command k '''' w of
        ((Some err, stdout, stderr), w') \<Rightarrow>
          (case ctx_err c w' of
             Some e \<Rightarrow> (Inl (wrapf (''keystore: command: resolve key '' @ quote k @ '': '') e), w')
           | None \<Rightarrow> (Inl (errorf (''keystore: command: resolve key '' @ quote k @ '': '' @ err
                                    @ stderr_suffix stderr)), w'))
      | ((None, stdout, stderr), w') \<Rightarrow>
          (let secret = trim_right_set [CHR 0x0D, CHR 0x0A] stdout
           in if secret = ''''
              then (Inl (Err (''keystore: command: key '' @ quote k @ '' not found: the resolve command exited zero with no output: keystore: key not found'') [KeystoreNotFound]), w')
              else (Inr (Secret secret), w'))))"

definition command_store :: "'w shell \<Rightarrow> string \<Rightarrow> ctx \<Rightarrow> string \<Rightarrow> secret \<Rightarrow> ('w, unit) act" where
  "command_store sh command c k s =
     (if blank k then afail (errorf ''keystore: command: key name is required'')
      else (\<lambda>w. case sh c command k (reveal s) w of
        ((Some err, stdout, stderr), w') \<Rightarrow>
          (case ctx_err c w' of
             Some e \<Rightarrow> (Inl (wrapf (''keystore: command: store key '' @ quote k @ '': '') e), w')
           | None \<Rightarrow> (Inl (errorf (''keystore: command: store key '' @ quote k @ '': '' @ err
                                    @ stderr_suffix (redact_all stderr [reveal s]))), w'))
      | ((None, stdout, stderr), w') \<Rightarrow> (Inr (), w')))"

definition command_driver :: "'w shell \<Rightarrow> string \<Rightarrow> string option \<Rightarrow> 'w driver" where
  "command_driver sh command storeCommand =
     \<lparr>resolve = command_resolve sh command, writer = map_option (command_store sh) storeCommand,
      describer = None\<rparr>"

subsection \<open>The rotation guard\<close>

definition guarded_store ::
    "'w driver \<Rightarrow> (ctx \<Rightarrow> string \<Rightarrow> secret \<Rightarrow> ('w, unit) act) \<Rightarrow> ctx \<Rightarrow> string \<Rightarrow> secret \<Rightarrow> ('w, unit) act" where
  "guarded_store d st c k s =
     (if \<not> rotates k
      then (\<lambda>w. case resolve d c k w of
        (Inr _, w1) \<Rightarrow> (Inl (errorf (''keystore: key '' @ quote k
            @ '' already exists and is not declared rotating, refusing to overwrite'')), w1)
      | (Inl e, w1) \<Rightarrow>
          (if \<not> errors_is e KeystoreNotFound
           then (Inl (wrapf (''keystore: key '' @ quote k
              @ '': could not confirm no existing value before store: '') e), w1)
           else st c k s w1))
      else st c k s)"

definition guarded_describe :: "'w driver \<Rightarrow> string \<Rightarrow> string" where
  "guarded_describe d k = (case describer d of Some f \<Rightarrow> f k | None \<Rightarrow> '''')"

text \<open>The end of \<open>New\<close>: any driver that can write is returned behind the guard.\<close>

definition wrap_writer :: "'w driver \<Rightarrow> 'w driver" where
  "wrap_writer d =
     (case writer d of
        Some st \<Rightarrow> \<lparr>resolve = resolve d, writer = Some (guarded_store d st),
                    describer = Some (guarded_describe d)\<rparr>
      | None \<Rightarrow> d)"

section \<open>Configuration and construction\<close>

datatype any = AStr string | ABool bool | AInt int | AList "any list" | ANil

type_synonym config = "string \<rightharpoonup> any"

definition string_config :: "config \<Rightarrow> string \<Rightarrow> error + string" where
  "string_config cfg field =
     (case cfg field of
        None \<Rightarrow> Inl (errorf (''config.'' @ field @ '' is required''))
      | Some (AStr s) \<Rightarrow>
          (if blank s then Inl (errorf (''config.'' @ field @ '' must be a non-empty string'')) else Inr s)
      | Some _ \<Rightarrow> Inl (errorf (''config.'' @ field @ '' must be a non-empty string'')))"

definition optional_string_config :: "config \<Rightarrow> string \<Rightarrow> error + string option" where
  "optional_string_config cfg field =
     (if cfg field = None then Inr None
      else (case string_config cfg field of Inl e \<Rightarrow> Inl e | Inr s \<Rightarrow> Inr (Some s)))"

definition optional_bool_config :: "config \<Rightarrow> string \<Rightarrow> error + bool" where
  "optional_bool_config cfg field =
     (case cfg field of
        None \<Rightarrow> Inr False
      | Some (ABool b) \<Rightarrow> Inr b
      | Some _ \<Rightarrow> Inl (errorf (''config.'' @ field @ '' must be a boolean'')))"

fun string_list :: "any list \<Rightarrow> string list option" where
  "string_list [] = Some []"
| "string_list (AStr s # xs) = map_option ((#) s) (string_list xs)"
| "string_list (_ # xs) = None"

definition args_config :: "string \<Rightarrow> string \<Rightarrow> config \<Rightarrow> error + string list" where
  "args_config pkg name cfg =
     (let bad = Inl (errorf (pkg @ '': '' @ name @ '': config.args must be a list of strings''))
      in case cfg ''args'' of
           None \<Rightarrow> Inr []
         | Some (AList xs) \<Rightarrow> (case string_list xs of None \<Rightarrow> bad | Some ss \<Rightarrow> Inr ss)
         | Some _ \<Rightarrow> bad)"

definition new_file_driver :: "config \<Rightarrow> error + 'w driver" where
  "new_file_driver cfg =
     (case string_config cfg ''path'' of
        Inl e \<Rightarrow> Inl (wrapf ''keystore: file: '' e)
      | Inr path \<Rightarrow>
          (if \<not> is_abs path
           then Inl (errorf (''keystore: file: config.path must be an absolute path, got '' @ quote path
             @ '' '' @ em_dash @ '' a relative path resolves against whatever directory the current command happens to run from, which differs across machines and invocations''))
           else Inr (file_driver path)))"

definition new_command_driver :: "'w shell \<Rightarrow> config \<Rightarrow> error + 'w driver" where
  "new_command_driver sh cfg =
     (case string_config cfg ''command'' of
        Inl e \<Rightarrow> Inl (wrapf ''keystore: command: '' e)
      | Inr command \<Rightarrow>
          (case optional_string_config cfg ''storeCommand'' of
             Inl e \<Rightarrow> Inl (wrapf ''keystore: command: '' e)
           | Inr sc \<Rightarrow> Inr (command_driver sh command sc)))"

text \<open>
  An out-of-tree driver, run as an executable at a path with arguments and an optional store side:
  the driver it makes is a parameter.
\<close>

definition new_exec_driver ::
    "(string \<Rightarrow> string list \<Rightarrow> bool \<Rightarrow> 'w driver) \<Rightarrow> string \<Rightarrow> config \<Rightarrow> error + 'w driver" where
  "new_exec_driver mk name cfg =
     (case string_config cfg ''path'' of
        Inl e \<Rightarrow> Inl (Err (''keystore: '' @ name @ '': '' @ msg e
            @ '' (unrecognized driver name, treated as an out-of-tree exec driver)'') (sentinels e))
      | Inr path \<Rightarrow>
          (case args_config ''keystore'' name cfg of
             Inl e \<Rightarrow> Inl e
           | Inr as \<Rightarrow>
               (case optional_bool_config cfg ''store'' of
                  Inl e \<Rightarrow> Inl (wrapf (''keystore: '' @ name @ '': '') e)
                | Inr store \<Rightarrow> Inr (mk path as store))))"

definition new_driver ::
    "'w shell \<Rightarrow> (string \<Rightarrow> string list \<Rightarrow> bool \<Rightarrow> 'w driver) \<Rightarrow> string \<Rightarrow> config \<Rightarrow> error + 'w driver" where
  "new_driver sh mk name cfg =
     (if name = '''' then Inl (errorf ''keystore: driver name is required'')
      else if name = ''file'' then new_file_driver cfg
      else if name = ''command'' then new_command_driver sh cfg
      else new_exec_driver mk name cfg)"

definition keystore_new ::
    "'w shell \<Rightarrow> (string \<Rightarrow> string list \<Rightarrow> bool \<Rightarrow> 'w driver) \<Rightarrow> string \<Rightarrow> config \<Rightarrow> error + 'w driver" where
  "keystore_new sh mk name cfg =
     (case new_driver sh mk name cfg of Inl e \<Rightarrow> Inl e | Inr d \<Rightarrow> Inr (wrap_writer d))"

section \<open>What a driver promises\<close>

locale keystore_laws =
  fixes drv :: "'w driver"
    and holds :: "'w world \<Rightarrow> string \<Rightarrow> string option"
    and same :: "string \<Rightarrow> string \<Rightarrow> bool"
  assumes resolve_found: "resolve drv c k w = (Inr s, w') \<Longrightarrow> holds w k = Some (reveal s)"
    and resolve_absent: "resolve drv c k w = (Inl e, w') \<Longrightarrow> errors_is e KeystoreNotFound \<Longrightarrow>
          holds w k = None"
    and resolve_keeps: "resolve drv c k w = (rr, w') \<Longrightarrow> holds w' = holds w"
    and store_done: "writer drv = Some st \<Longrightarrow> st c k s w = (Inr u, w') \<Longrightarrow>
          holds w' k = Some (reveal s)"
    and store_frame: "writer drv = Some st \<Longrightarrow> st c k s w = (r, w') \<Longrightarrow> \<not> same k k' \<Longrightarrow>
          holds w' k' = holds w k'"
    and same_holds: "same k k' \<Longrightarrow> holds w k = holds w k'"

locale guarded_keystore = keystore_laws +
  assumes keeps_material: "writer drv = Some st \<Longrightarrow> st c k s w = (r, w') \<Longrightarrow>
      holds w k' = Some v \<Longrightarrow> \<not> (rotates k \<and> same k k') \<Longrightarrow> holds w' k' = Some v"
    and refuses: "writer drv = Some st \<Longrightarrow> st c k s w = (Inr u, w') \<Longrightarrow> \<not> rotates k \<Longrightarrow>
      holds w k = None"

context keystore_laws begin

lemma found_not_absent:
  "holds w k = Some v \<Longrightarrow> resolve drv c k w = (Inl e, w') \<Longrightarrow> \<not> errors_is e KeystoreNotFound"
  using resolve_absent by fastforce

lemma store_then_resolve:
  assumes "writer drv = Some st" "st c k s w = (Inr u, w1)" "resolve drv c' k w1 = (r, w2)"
  shows "case r of Inr s' \<Rightarrow> reveal s' = reveal s | Inl e \<Rightarrow> \<not> errors_is e KeystoreNotFound"
  using store_done [OF assms(1,2)] resolve_found assms(3) found_not_absent
  by (cases r) fastforce+

lemma guarded_store_cases:
  assumes "guarded_store drv st c k s w = (r, w')" "\<not> rotates k"
  shows "(holds w' = holds w \<and> (\<exists>e. r = Inl e)) \<or>
    (\<exists>w1. holds w1 = holds w \<and> holds w k = None \<and> st c k s w1 = (r, w'))"
  using assms unfolding guarded_store_def
  by (auto dest: resolve_keeps resolve_absent split: prod.splits sum.splits if_splits)

lemma wrap_guarded: "guarded_keystore (wrap_writer drv) holds same"
proof (cases "writer drv")
  case None
  then show ?thesis
    using resolve_found resolve_absent resolve_keeps same_holds
    by unfold_locales (auto simp: wrap_writer_def)
next
  case (Some st)
  note w = Some
  show ?thesis
  proof unfold_locales
    fix st' c k s w r w' k' v
    assume st': "writer (wrap_writer drv) = Some st'" and run: "st' c k s w = (r, w')"
      and had: "holds w k' = Some v" and ok: "\<not> (rotates k \<and> same k k')"
    have g: "guarded_store drv st c k s w = (r, w')"
      using st' run w by (simp add: wrap_writer_def)
    show "holds w' k' = Some v"
    proof (cases "rotates k")
      case True
      with g have "st c k s w = (r, w')" by (simp add: guarded_store_def)
      with True ok had store_frame [OF w] show ?thesis by fastforce
    next
      case False
      from guarded_store_cases [OF g False] show ?thesis
      proof (elim disjE exE conjE)
        fix w1
        assume eq: "holds w1 = holds w" "holds w k = None" "st c k s w1 = (r, w')"
        then have "\<not> same k k'" using same_holds had by fastforce
        with eq had store_frame [OF w] show ?thesis by fastforce
      qed (use had in simp)
    qed
  next
    fix st' c k s w u w'
    assume "writer (wrap_writer drv) = Some st'" "st' c k s w = (Inr u, w')" "\<not> rotates k"
    with w guarded_store_cases [of st c k s w "Inr u" w'] show "holds w k = None"
      by (auto simp: wrap_writer_def)
  next
    fix st' c k s w and u :: unit and w'
    assume a: "writer (wrap_writer drv) = Some st'" "st' c k s w = (Inr u, w')"
    show "holds w' k = Some (reveal s)"
    proof (cases "rotates k")
      case True
      with a w store_done [OF w] show ?thesis by (auto simp: wrap_writer_def guarded_store_def)
    next
      case False
      with a w guarded_store_cases [of st c k s w "Inr u" w'] store_done [OF w]
      show ?thesis by (auto simp: wrap_writer_def)
    qed
  next
    fix st' c k s w r w' k'
    assume a: "writer (wrap_writer drv) = Some st'" "st' c k s w = (r, w')" "\<not> same k k'"
    show "holds w' k' = holds w k'"
    proof (cases "rotates k")
      case True
      with a w store_frame [OF w] show ?thesis by (auto simp: wrap_writer_def guarded_store_def)
    next
      case False
      with a w guarded_store_cases [of st c k s w r w'] store_frame [OF w]
      show ?thesis by (fastforce simp: wrap_writer_def)
    qed
  qed (use w resolve_found resolve_absent resolve_keeps same_holds in
        \<open>auto simp: wrap_writer_def\<close>)
qed

end

section \<open>The file driver keeps its promises\<close>

definition file_part :: "node option \<Rightarrow> string option" where
  "file_part n = (case n of Some (File c m) \<Rightarrow> Some c | _ \<Rightarrow> None)"

definition file_holds :: "string \<Rightarrow> 'w world \<Rightarrow> string \<Rightarrow> string option" where
  "file_holds path w k =
     (case resolve_path path k of
        Inl e \<Rightarrow> None
      | Inr full \<Rightarrow> file_part (fnode (fs w) (place (fs w) full)))"

definition file_same :: "string \<Rightarrow> string \<Rightarrow> string \<Rightarrow> bool" where
  "file_same path k k' =
     (case resolve_path path k of Inl e \<Rightarrow> False | Inr full \<Rightarrow> resolve_path path k' = Inr full)"

lemma resolve_pathE:
  assumes "resolve_path path k = r"
  obtains (err) e where "r = Inl e" "sentinels e = []"
    | (ok) "r = Inr (join2 (clean path) k)" "join2 (clean path) k = clean path
        \<or> prefix (clean path @ [slash]) (join2 (clean path) k)" "\<not> blank k"
  using assms by (auto simp: resolve_path_def Let_def errorf_def split: if_splits)

lemma resolve_path_rooted:
  assumes "resolve_path path k = Inr full" "rooted path"
  shows "rooted full" "full = abs_path (comps full)" "prefix (comps path) (comps full)"
    "place s full = comps full"
proof -
  have b: "rooted (clean path)" "clean path = abs_path (comps path)"
    using assms(2) by (simp_all add: clean_rooted)
  from assms(1) have full: "full = join2 (clean path) k" "full = clean path
        \<or> prefix (clean path @ [slash]) full"
    by (auto elim: resolve_pathE)
  show f: "rooted full" "full = abs_path (comps full)"
    using b(1) full(1) join2_abs_path by (simp, blast)
  show "prefix (comps path) (comps full)"
  proof (cases "comps path = []")
    case False
    have "abs_path (comps full) = abs_path (comps path)
        \<or> prefix (abs_path (comps path) @ [slash]) (abs_path (comps full))"
      using full(2) unfolding f(2) [symmetric] b(2) [symmetric] .
    with False show ?thesis
      using contained_iff [of "comps path" "comps full"] comps_plain by blast
  qed simp
  show "place s full = comps full" using f(1) by (simp add: place_def)
qed

lemma file_holds_file:
  "file_holds path w k = Some v \<longleftrightarrow> (\<exists>full m. resolve_path path k = Inr full
     \<and> fnode (fs w) (place (fs w) full) = Some (File v m))"
  by (auto simp: file_holds_def file_part_def split: sum.splits option.splits node.splits)

lemma file_holds_None:
  "resolve_path path k = Inr full \<Longrightarrow> fnode (fs w) (place (fs w) full) = None \<Longrightarrow>
   file_holds path w k = None"
  by (simp add: file_holds_def file_part_def)

lemma file_holds_cong:
  assumes "cwd s = cwd (fs w)"
    "\<And>full. resolve_path path k = Inr full \<Longrightarrow>
      file_part (fnode s (place (fs w) full)) = file_part (fnode (fs w) (place (fs w) full))"
  shows "file_holds path (w\<lparr>fs := s\<rparr>) k = file_holds path w k"
  using assms place_cwd [OF assms(1)] by (simp add: file_holds_def split: sum.splits)

lemma file_read_holds:
  assumes "on_fs (os_read_file p) w = (r, w')"
  shows "file_holds path w' = file_holds path w"
proof -
  from assms obtain s where s: "os_read_file p (fs w) = (r, s)" "w' = w\<lparr>fs := s\<rparr>"
    by (rule on_fsE)
  then have "fnode s = fnode (fs w) \<and> cwd s = cwd (fs w)"
    by (cases r) (auto dest: os_read_file_Inr os_read_file_Inl)
  then show ?thesis
    unfolding s(2) by (intro ext file_holds_cong) simp_all
qed

text \<open>What a resolve and a store of the file driver come down to.\<close>

lemma file_resolve_eq:
  "file_resolve path c k w =
     (case ctx_err c w of Some e \<Rightarrow> (Inl e, w)
      | None \<Rightarrow> (case resolve_path path k of Inl e \<Rightarrow> (Inl e, w)
      | Inr full \<Rightarrow> (case os_read_file full (fs w) of
          (Inl e, s) \<Rightarrow> (Inl (if errors_is e NotExist
              then Err (''keystore: file: key '' @ quote k @ '' not found at '' @ full
                              @ '': keystore: key not found'') [KeystoreNotFound]
              else wrapf (''keystore: file: resolve key '' @ quote k @ '': '') e), w\<lparr>fs := s\<rparr>)
        | (Inr data, s) \<Rightarrow> (if data = '''' then Inl (errorf (''keystore: file: key '' @ quote k
              @ '' is empty at '' @ full)) else Inr (Secret data), w\<lparr>fs := s\<rparr>))))"
  by (simp add: file_resolve_def abnd_def ahandle_def ctx_check_def on_fs_def
      split: option.split sum.split prod.split)

lemma file_store_eq:
  "file_store path c k v w =
     (case ctx_err c w of Some e \<Rightarrow> (Inl e, w)
      | None \<Rightarrow> (case resolve_path path k of Inl e \<Rightarrow> (Inl e, w)
      | Inr full \<Rightarrow> (case os_mkdir_all (dir_of full) (fs w) of
          (Inl e, s) \<Rightarrow> (Inl (wrapf (''keystore: file: create directory for key '' @ quote k @ '': '') e),
             w\<lparr>fs := s\<rparr>)
        | (Inr u, s) \<Rightarrow> (case os_write_file full (reveal v) 384 s of
            (Inl e, t) \<Rightarrow> (Inl (wrapf (''keystore: file: store key '' @ quote k @ '': '') e), w\<lparr>fs := t\<rparr>)
          | (Inr u, t) \<Rightarrow> (Inr (), w\<lparr>fs := t\<rparr>)))))"
  by (simp add: file_store_def abnd_def ahandle_def ctx_check_def on_fs_def
      split: option.split sum.split prod.split)

lemma file_resolve_keeps:
  assumes "file_resolve path c k w = (r, w')"
  shows "file_holds path w' = file_holds path w"
proof (cases "w' = w")
  case False
  with assms obtain full r' where "on_fs (os_read_file full) w = (r', w')"
    by (auto simp: file_resolve_eq on_fs_eq split: option.splits sum.splits prod.splits)
  then show ?thesis by (rule file_read_holds)
qed simp

lemma file_resolve_found:
  assumes "file_resolve path c k w = (Inr s, w')"
  shows "file_holds path w k = Some (reveal s)"
proof -
  from assms obtain full t where "resolve_path path k = Inr full"
    "os_read_file full (fs w) = (Inr (reveal s), t)"
    by (auto simp: file_resolve_eq split: option.splits sum.splits prod.splits if_splits)
  then show ?thesis
    using os_read_file_Inr by (fastforce simp: file_holds_file)
qed

lemma file_resolve_absent:
  assumes "file_resolve path c k w = (Inl e, w')" "errors_is e KeystoreNotFound" "rooted path"
  shows "file_holds path w k = None"
proof -
  have 1: "\<not> errors_is e' KeystoreNotFound" if "ctx_err c w = Some e'" for e'
    using ctx_err_sentinels [OF that] by (simp add: errors_is_def)
  have 2: "\<not> errors_is e' KeystoreNotFound" if "resolve_path path k = Inl e'" for e'
    using that by (auto elim!: resolve_pathE simp: errors_is_def)
  have 3: "\<not> errors_is e' KeystoreNotFound" if "os_read_file p s = (Inl e', s')" for p s e' s'
    using fs_errors(1) [OF that] fs_errorD by blast
  obtain full e' t where full: "resolve_path path k = Inr full"
    and t: "os_read_file full (fs w) = (Inl e', t)" "errors_is e' NotExist"
    using assms(1,2) 1 2 3
    by (auto simp: file_resolve_eq split: option.splits sum.splits prod.splits if_splits)
  from full assms(3) have "rooted full" by (rule resolve_path_rooted)
  with os_read_file_Inl [OF t(1)] t(2) have "fnode (fs w) (place (fs w) full) = None" by auto
  with full show ?thesis by (rule file_holds_None)
qed

lemma file_mkdir_holds:
  assumes "os_mkdir_all p (fs w) = (r, s)"
  shows "file_holds path (w\<lparr>fs := s\<rparr>) = file_holds path w"
proof (intro ext file_holds_cong)
  show "file_part (fnode s q) = file_part (fnode (fs w) q)" for q
    using os_mkdir_all_frame [OF assms, of q]
    by (cases "fnode (fs w) q") (auto simp: file_part_def is_file_def split: option.splits node.splits)
qed (use os_mkdir_all_frame [OF assms] in simp)

lemma file_store_cases:
  assumes "file_store path c k v w = (r, w')"
  obtains (refused) e where "file_holds path w' = file_holds path w" "r = Inl e"
  | (wrote) full w1 r1 t where "resolve_path path k = Inr full"
       "file_holds path w1 = file_holds path w"
       "os_write_file full (reveal v) 384 (fs w1) = (r1, t)" "w' = w1\<lparr>fs := t\<rparr>"
       "r = Inr () \<Longrightarrow> r1 = Inr ()"
proof (cases "ctx_err c w")
  case None
  show thesis
  proof (cases "resolve_path path k")
    case (Inr full)
    obtain m s where m: "os_mkdir_all (dir_of full) (fs w) = (m, s)" by force
    note keep = file_mkdir_holds [OF m, of path]
    show thesis
    proof (cases m)
      case (Inl e)
      with assms None \<open>resolve_path path k = Inr full\<close> m keep show thesis
        by (intro refused) (auto simp: file_store_eq)
    next
      case (Inr u)
      obtain r1 t where t: "os_write_file full (reveal v) 384 s = (r1, t)" by force
      with assms None \<open>resolve_path path k = Inr full\<close> m Inr
      have "w' = w\<lparr>fs := t\<rparr>" "r = Inr () \<Longrightarrow> r1 = Inr ()"
        by (auto simp: file_store_eq split: sum.splits)
      with wrote [of full "w\<lparr>fs := s\<rparr>" r1 t] \<open>resolve_path path k = Inr full\<close> keep t
      show thesis by simp
    qed
  qed (use assms None in \<open>intro refused; auto simp: file_store_eq\<close>)
qed (use assms in \<open>intro refused; auto simp: file_store_eq\<close>)

lemma file_write_frame:
  assumes "os_write_file full v m (fs w) = (r, t)" "resolve_path path k = Inr full"
    "\<not> file_same path k k'" "rooted path"
  shows "file_holds path (w\<lparr>fs := t\<rparr>) k' = file_holds path w k'"
proof (intro file_holds_cong)
  show "cwd t = cwd (fs w)"
    using os_write_file_cwd [of full v m "fs w"] assms(1) by simp
next
  fix full'
  assume f': "resolve_path path k' = Inr full'"
  with assms(2,3) have "full' \<noteq> full" by (auto simp: file_same_def)
  then have "place (fs w) full' \<noteq> place (fs w) full"
    using resolve_path_rooted [OF f' assms(4)] resolve_path_rooted [OF assms(2,4)] by metis
  then show "file_part (fnode t (place (fs w) full')) = file_part (fnode (fs w) (place (fs w) full'))"
    using assms(1) os_write_file_Inl [of full v m "fs w" _ t]
      os_write_file_Inr [of full v m "fs w" _ t] by (cases r) auto
qed

lemma file_write_holds:
  assumes "os_write_file full v m (fs w) = (Inr (), t)" "resolve_path path k = Inr full"
  shows "file_holds path (w\<lparr>fs := t\<rparr>) k = Some v"
  using os_write_file_Inr [OF assms(1)] assms(2) place_cwd [of t "fs w"]
  by (simp add: file_holds_def file_part_def)

lemma rooted_slash [simp]: "rooted (slash # p)"
  by simp

interpretation file_ks: keystore_laws "file_driver (slash # p)" "file_holds (slash # p)"
    "file_same (slash # p)" for p
proof unfold_locales
  fix c k w s w'
  assume "resolve (file_driver (slash # p)) c k w = (Inr s, w')"
  then show "file_holds (slash # p) w k = Some (reveal s)"
    by (simp add: file_driver_def file_resolve_found)
next
  fix c k w e w'
  assume "resolve (file_driver (slash # p)) c k w = (Inl e, w')" "errors_is e KeystoreNotFound"
  then show "file_holds (slash # p) w k = None"
    by (simp add: file_driver_def file_resolve_absent)
next
  fix c k w r w'
  assume "resolve (file_driver (slash # p)) c k w = (r, w')"
  then show "file_holds (slash # p) w' = file_holds (slash # p) w"
    by (simp add: file_driver_def file_resolve_keeps)
next
  fix st c k s w u w'
  assume "writer (file_driver (slash # p)) = Some st" "st c k s w = (Inr u, w')"
  then have "file_store (slash # p) c k s w = (Inr (), w')" by (simp add: file_driver_def)
  then show "file_holds (slash # p) w' k = Some (reveal s)"
    by (cases rule: file_store_cases) (simp_all add: file_write_holds)
next
  fix st c k s w r w' k'
  assume a: "writer (file_driver (slash # p)) = Some st" "st c k s w = (r, w')"
    "\<not> file_same (slash # p) k k'"
  then have "file_store (slash # p) c k s w = (r, w')" by (simp add: file_driver_def)
  then show "file_holds (slash # p) w' k' = file_holds (slash # p) w k'"
  proof (cases rule: file_store_cases)
    case (wrote full w1 r1 t)
    then show ?thesis using file_write_frame [OF wrote(3) wrote(1) a(3) rooted_slash] by simp
  qed simp
next
  fix k k' w
  assume "file_same (slash # p) k k'"
  then show "file_holds (slash # p) w k = file_holds (slash # p) w k'"
    by (auto simp: file_same_def file_holds_def split: sum.splits)
qed

interpretation file_gd: guarded_keystore "wrap_writer (file_driver (slash # p))"
    "file_holds (slash # p)" "file_same (slash # p)" for p
  by (rule file_ks.wrap_guarded)

lemma keystore_new_file:
  assumes "keystore_new sh mk ''file'' cfg = Inr d" "cfg ''path'' = Some (AStr path)"
  shows "d = wrap_writer (file_driver path)" "rooted path"
  using assms
  by (auto simp: keystore_new_def new_driver_def new_file_driver_def string_config_def is_abs_def
      split: sum.splits if_splits)

lemma rootedE: "rooted p \<Longrightarrow> (\<And>q. p = slash # q \<Longrightarrow> thesis) \<Longrightarrow> thesis"
  by (cases p) auto

lemma join_mono: "\<exists>t. join sep (xs @ ys) = join sep xs @ t"
proof (induction sep xs rule: join.induct)
  case (2 sep w)
  then show ?case by (cases ys) auto
qed auto

section \<open>Properties\<close>

text \<open>
  C3. A keystore built by \<open>New\<close> over the file driver never replaces key material that is not
  declared rotating: whatever key is stored, with whatever outcome and whatever the file system does
  meanwhile (a torn write included), a value readable under any key name before the call is readable
  unchanged after it, unless the stored key rotates.
\<close>

theorem guard_keeps_material:
  assumes "keystore_new sh mk ''file'' cfg = Inr d" "cfg ''path'' = Some (AStr path)"
    "writer d = Some st" "\<not> rotates k" "st c k s w = (r, w')" "file_holds path w k' = Some v"
  shows "file_holds path w' k' = Some v"
  using keystore_new_file [OF assms(1,2)] assms(3-6)
  by (elim rootedE) (auto intro: file_gd.keeps_material)

definition sample_fs :: fsys where
  "sample_fs = \<lparr>nodes = [([''k''], Dir), ([''k'', ''a''], File ''old'' 384)], cwd = [],
     fault = (\<lambda>_. None), tmpname = (\<lambda>_. 1), fops = 0\<rparr>"

definition sample_world :: "unit world" where
  "sample_world = \<lparr>ext = (), fs = sample_fs, ctxerr = (\<lambda>_ _. None)\<rparr>"

definition idle_proc :: "unit proc" where
  "idle_proc = \<lparr>world = sample_world, trace = [], history = [], job = new_job ''j'', clock = (\<lambda>_. 0),
     fresh = (\<lambda>_. ''k''), ticks = 0, slept = 0\<rparr>"

lemma idle_live [simp]: "\<not> job_terminal (job idle_proc)"
  by (simp add: idle_proc_def new_job_def)

definition sample_cfg :: config where
  "sample_cfg = [''path'' \<mapsto> AStr ''/k'']"

definition sample_store :: "ctx \<Rightarrow> string \<Rightarrow> secret \<Rightarrow> (unit, unit) act" where
  "sample_store = guarded_store (file_driver ''/k'') (file_store ''/k'')"

lemma sample_new: "keystore_new sh mk ''file'' sample_cfg =
    Inr (wrap_writer (file_driver ''/k''))"
  "writer (wrap_writer (file_driver ''/k'')) = Some sample_store"
proof -
  have "\<not> blank ''/k''" by code_simp
  then show "keystore_new sh mk ''file'' sample_cfg = Inr (wrap_writer (file_driver ''/k''))"
    by (simp add: keystore_new_def new_driver_def new_file_driver_def string_config_def
        sample_cfg_def is_abs_def)
qed (simp add: wrap_writer_def file_driver_def sample_store_def)

lemma guard_keeps_material_witness:
  "file_holds ''/k'' (snd (sample_store Caller ''a'' (Secret ''new'') sample_world)) ''a'' = Some ''old''"
proof (rule guard_keeps_material [OF sample_new(1)])
  show "sample_store Caller ''a'' (Secret ''new'') sample_world =
      (fst (sample_store Caller ''a'' (Secret ''new'') sample_world),
       snd (sample_store Caller ''a'' (Secret ''new'') sample_world))" by simp
  show "file_holds ''/k'' sample_world ''a'' = Some ''old''" by code_simp
qed (simp_all add: sample_new sample_cfg_def rotates_iff KeyTLSCertificate_def KeyTLSPrivateKey_def)

text \<open>
  The guard fails closed: a store of a non-rotating key succeeds only when the keystore
  holds nothing under that name, so a lookup that failed for any reason other than the key being
  absent never lets the write through; and what it then holds is the value stored.
\<close>

theorem guard_fails_closed:
  assumes "keystore_new sh mk ''file'' cfg = Inr d" "cfg ''path'' = Some (AStr path)"
    "writer d = Some st" "\<not> rotates k" "st c k s w = (Inr (), w')"
  shows "file_holds path w k = None \<and> file_holds path w' k = Some (reveal s)"
  using keystore_new_file [OF assms(1,2)] assms(3-5)
  by (elim rootedE) (auto intro: file_gd.refuses file_gd.store_done)

lemma guard_fails_closed_witness:
  "file_holds ''/k'' sample_world ''b'' = None \<and>
   file_holds ''/k'' (snd (sample_store Caller ''b'' (Secret ''new'') sample_world)) ''b'' = Some ''new''"
proof -
  have "fst (sample_store Caller ''b'' (Secret ''new'') sample_world) = Inr ()" by code_simp
  then have "sample_store Caller ''b'' (Secret ''new'') sample_world =
      (Inr (), snd (sample_store Caller ''b'' (Secret ''new'') sample_world))"
    by (metis prod.collapse)
  then have "file_holds ''/k'' sample_world ''b'' = None \<and>
      file_holds ''/k'' (snd (sample_store Caller ''b'' (Secret ''new'') sample_world)) ''b''
        = Some (reveal (Secret ''new''))"
    by (intro guard_fails_closed [OF sample_new(1)])
      (simp_all add: sample_new sample_cfg_def rotates_iff KeyTLSCertificate_def KeyTLSPrivateKey_def)
  then show ?thesis by simp
qed

text \<open>
  Containment of key names: below an absolute path other than the root directory, the file
  driver accepts a non-blank key name exactly when the path it names, dot-dot elements resolved, lies
  at or below the configured directory, and then reads and writes that path.
\<close>

theorem key_path_contained:
  assumes "is_abs path" "comps path \<noteq> []" "\<not> blank k"
  shows "resolve_path path k = Inr full \<longleftrightarrow>
    full = join2 (clean path) k \<and> prefix (comps path) (comps full)"
proof
  assume r: "resolve_path path k = Inr full"
  with assms(1) resolve_path_rooted(3) [OF r] show
    "full = join2 (clean path) k \<and> prefix (comps path) (comps full)"
    by (auto simp: is_abs_def elim: resolve_pathE)
next
  let ?full = "join2 (clean path) k"
  assume a: "full = join2 (clean path) k \<and> prefix (comps path) (comps full)"
  have b: "clean path = abs_path (comps path)" "?full = abs_path (comps ?full)"
    using assms(1) join2_abs_path [of "clean path" k] by (simp_all add: clean_rooted is_abs_def)
  have "abs_path (comps ?full) = abs_path (comps path)
      \<or> prefix (abs_path (comps path) @ [slash]) (abs_path (comps ?full))"
    using a assms(2) by (subst contained_iff) (auto dest: comps_plain)
  then have "?full = clean path \<or> prefix (clean path @ [slash]) ?full"
    unfolding b(1) [symmetric] b(2) [symmetric] .
  then show "resolve_path path k = Inr full"
    using assms(3) a by (auto simp: resolve_path_def Let_def)
qed

lemma key_path_contained_witness:
  "resolve_path ''/srv/keys'' ''../keys/a/../b'' = Inr ''/srv/keys/b''"
proof -
  have "is_abs ''/srv/keys''" "comps ''/srv/keys'' \<noteq> []" "\<not> blank ''../keys/a/../b''"
    "''/srv/keys/b'' = join2 (clean ''/srv/keys'') ''../keys/a/../b''"
    "prefix (comps ''/srv/keys'') (comps ''/srv/keys/b'')"
    by code_simp+
  then show ?thesis using key_path_contained [of "''/srv/keys''"] by blast
qed

text \<open>
  The root directory is the exception: a file driver configured with the path \<open>/\<close> is
  accepted by \<open>New\<close>, but refuses every key name that names a file.
\<close>

theorem root_path_refuses_keys:
  assumes "comps k \<noteq> []"
  shows "new_file_driver [''path'' \<mapsto> AStr ''/''] = Inr (file_driver ''/'')
    \<and> (\<exists>e. resolve_path ''/'' k = Inl e)"
proof
  have nb: "\<not> blank ''/''" by code_simp
  then show "new_file_driver [''path'' \<mapsto> AStr ''/''] = Inr (file_driver ''/'')"
    by (simp add: new_file_driver_def string_config_def is_abs_def)
  have c: "clean ''/'' = ''/''" by code_simp
  have k: "comps (join2 ''/'' k) = comps k"
  proof -
    have "comps ''/'' = []" by code_simp
    then have "comps (join2 ''/'' k) = rev (foldl (push True) [] (split_on slash k))"
      using comps_join2 [of "''/''" k] by (simp del: push.simps)
    then show ?thesis by (simp add: comps_def elems_def del: push.simps)
  qed
  then have j: "join2 ''/'' k = abs_path (comps k)"
    using join2_abs_path [of "''/''" k] by simp
  have "\<not> prefix ''//'' (abs_path (comps k))" "abs_path (comps k) \<noteq> ''/''"
    using assms comps_plain [of _ k]
    by (cases "comps k"; cases "tl (comps k)"; fastforce simp: abs_path_def plain_elem_def prefix_def
        append_eq_Cons_conv)+
  then show "\<exists>e. resolve_path ''/'' k = Inl e"
    by (simp add: resolve_path_def Let_def c j)
qed

lemma root_path_refuses_keys_witness: "\<exists>e. resolve_path ''/'' ''age_key'' = Inl e"
proof -
  have "comps ''age_key'' \<noteq> []" by code_simp
  then show ?thesis using root_path_refuses_keys by blast
qed

end
