(* ===== verification/Blob.thy ===== *)
theory Blob
  imports Keystore
begin

text \<open>
  \<open>internal/core/blob\<close> and the prefix scoping of \<open>internal/core/backup/destination.go\<close>: the adapter
  interface blobs and snapshots are stored through, the local adapter, the scoped adapter, and the
  construction by driver name. \<open>blob_laws\<close> states what an adapter promises in terms of the objects a
  world holds; the local adapter is an interpretation of it, and scoping an adapter to a prefix keeps it.
  The S3 client and out-of-tree adapters are parameters of the construction.
\<close>

section \<open>The adapter interface\<close>

text \<open>\<open>omodified\<close> is \<open>None\<close> for the zero time, which means unknown.\<close>

record object =
  okey :: string
  osize :: int
  omodified :: "int option"

record 'w adapter =
  blist :: "ctx \<Rightarrow> string \<Rightarrow> ('w, object list) act"
  bget :: "ctx \<Rightarrow> string \<Rightarrow> ('w, reader) act"
  bput :: "ctx \<Rightarrow> string \<Rightarrow> reader \<Rightarrow> int \<Rightarrow> ('w, unit) act"

section \<open>The local adapter\<close>

definition local_resolve :: "string \<Rightarrow> string \<Rightarrow> error + string" where
  "local_resolve root key =
     (if blank key then Inl (errorf ''blob: local: key is required'')
      else (let cl = clean key
            in if is_abs cl \<or> cl = dotdot \<or> prefix (dotdot @ [slash]) cl
               then Inl (errorf (''blob: local: key '' @ quote key @ '' escapes root''))
               else Inr (join2 root cl)))"

text \<open>
  One visit per entry below the root, in lexical order; the context is consulted at each, the root
  first. \<open>mtime\<close> is a file's modification time.
\<close>

definition local_object :: "(fsys \<Rightarrow> string list \<Rightarrow> int) \<Rightarrow> string \<Rightarrow> fsys \<Rightarrow> string list \<Rightarrow> object" where
  "local_object mtime root s q =
     \<lparr>okey = rel_path (drop (length (place s root)) q),
      osize = (case fnode s q of Some (File c m) \<Rightarrow> int (length c) | _ \<Rightarrow> 0),
      omodified = Some (mtime s q)\<rparr>"

definition local_list ::
    "(fsys \<Rightarrow> string list \<Rightarrow> int) \<Rightarrow> string \<Rightarrow> ctx \<Rightarrow> string \<Rightarrow> ('w, object list) act" where
  "local_list mtime root c pre = (\<lambda>w.
     case os_stat root (fs w) of
       (Inl e, s) \<Rightarrow>
         (if errors_is e NotExist then Inr [] else Inl (wrapf ''blob: local: list: '' e), w\<lparr>fs := s\<rparr>)
     | (Inr isdir, s) \<Rightarrow>
         (case ctx_err c w of
            Some e \<Rightarrow> (Inl (wrapf ''blob: local: list: '' e), w\<lparr>fs := s\<rparr>)
          | None \<Rightarrow> (Inr (filter (\<lambda>ob. prefix pre (okey ob))
                (map (local_object mtime root s) (files_below s (place s root)))), w\<lparr>fs := s\<rparr>)))"

definition local_get :: "string \<Rightarrow> ctx \<Rightarrow> string \<Rightarrow> ('w, reader) act" where
  "local_get root c key =
     abnd (asum (local_resolve root key)) (\<lambda>path.
     ahandle (on_fs (os_open path)) (\<lambda>e.
       if errors_is e NotExist
       then afail (Err (''blob: local: get '' @ key @ '': blob: not found'') [BlobNotFound])
       else afail (wrapf (''blob: local: get '' @ key @ '': '') e)))"

text \<open>
  \<open>Put\<close>: parent directories, a temporary file beside the target, the copy, the close, and the rename
  that makes the object visible. Each failure removes the temporary file, its own failure ignored.
\<close>

definition put_error :: "string \<Rightarrow> error \<Rightarrow> error" where
  "put_error key e = wrapf (''blob: local: put '' @ key @ '': '') e"

definition discard :: "string \<Rightarrow> error \<Rightarrow> ('w, 'a) act" where
  "discard tmp e = (\<lambda>w. case os_remove tmp (fs w) of (_, s) \<Rightarrow> (Inl e, w\<lparr>fs := s\<rparr>))"

definition copy_to :: "string \<Rightarrow> reader \<Rightarrow> ('w, unit) act" where
  "copy_to tmp r =
     abnd (on_fs (os_write_file tmp (fst r) 384)) (\<lambda>_.
     case snd r of None \<Rightarrow> aret () | Some e \<Rightarrow> afail e)"

definition local_put :: "string \<Rightarrow> ctx \<Rightarrow> string \<Rightarrow> reader \<Rightarrow> int \<Rightarrow> ('w, unit) act" where
  "local_put root c key r n =
     abnd (asum (local_resolve root key)) (\<lambda>path.
     abnd (ahandle (on_fs (os_mkdir_all (dir_of path))) (\<lambda>e. afail (put_error key e))) (\<lambda>_.
     abnd (ahandle (on_fs (os_create_temp (dir_of path) ''.blob-'' ''.tmp''))
             (\<lambda>e. afail (put_error key e))) (\<lambda>tmp.
     abnd (ahandle (copy_to tmp r) (\<lambda>e. discard tmp (put_error key e))) (\<lambda>_.
     abnd (ahandle (on_fs os_close) (\<lambda>e. discard tmp (put_error key e))) (\<lambda>_.
     ahandle (on_fs (os_rename tmp path)) (\<lambda>e. discard tmp (put_error key e)))))))"

definition local_adapter :: "(fsys \<Rightarrow> string list \<Rightarrow> int) \<Rightarrow> string \<Rightarrow> 'w adapter" where
  "local_adapter mtime root =
     \<lparr>blist = local_list mtime root, bget = local_get root, bput = local_put root\<rparr>"

definition new_local :: "(fsys \<Rightarrow> string list \<Rightarrow> int) \<Rightarrow> string \<Rightarrow> ('w, 'w adapter) act" where
  "new_local mtime root =
     (if blank root then afail (errorf ''blob: local: root is required'')
      else if \<not> is_abs root
      then afail (errorf (''blob: local: root must be an absolute path, got '' @ quote root))
      else abnd (ahandle (on_fs (os_mkdir_all root)) (\<lambda>e.
                   afail (wrapf (''blob: local: create root '' @ root @ '': '') e))) (\<lambda>_.
           aret (local_adapter mtime root)))"

section \<open>Scoping to a prefix\<close>

definition prefixed_list :: "'w adapter \<Rightarrow> string \<Rightarrow> ctx \<Rightarrow> string \<Rightarrow> ('w, object list) act" where
  "prefixed_list inner pre c p =
     abnd (blist inner c (pre @ p)) (\<lambda>os.
     aret (map (\<lambda>ob. ob\<lparr>okey := trim_prefix (okey ob) pre\<rparr>) os))"

definition prefixed_get :: "'w adapter \<Rightarrow> string \<Rightarrow> ctx \<Rightarrow> string \<Rightarrow> ('w, reader) act" where
  "prefixed_get inner pre c key = bget inner c (pre @ key)"

definition prefixed_put :: "'w adapter \<Rightarrow> string \<Rightarrow> ctx \<Rightarrow> string \<Rightarrow> reader \<Rightarrow> int \<Rightarrow> ('w, unit) act" where
  "prefixed_put inner pre c key r n = bput inner c (pre @ key) r n"

definition prefixed_adapter :: "'w adapter \<Rightarrow> string \<Rightarrow> 'w adapter" where
  "prefixed_adapter inner pre =
     \<lparr>blist = prefixed_list inner pre, bget = prefixed_get inner pre, bput = prefixed_put inner pre\<rparr>"

section \<open>Construction\<close>

record s3config =
  s3_endpoint :: string
  s3_region :: string
  s3_bucket :: string
  s3_access_key :: string
  s3_secret_key :: string
  s3_ssl :: bool
  s3_path_style :: bool

text \<open>The S3 client library makes an adapter of a configuration: a parameter.\<close>

definition new_s3 :: "(s3config \<Rightarrow> error + 'w adapter) \<Rightarrow> s3config \<Rightarrow> error + 'w adapter" where
  "new_s3 minio cfg =
     (if s3_endpoint cfg = '''' then Inl (errorf ''blob: s3: endpoint is required'')
      else if s3_bucket cfg = '''' then Inl (errorf ''blob: s3: bucket is required'')
      else (case minio (cfg\<lparr>s3_region :=
                (if s3_region cfg = '''' then ''us-east-1'' else s3_region cfg)\<rparr>) of
              Inl e \<Rightarrow> Inl (wrapf ''blob: s3: '' e)
            | Inr a \<Rightarrow> Inr a))"

definition bool_config :: "config \<Rightarrow> string \<Rightarrow> bool \<Rightarrow> error + bool" where
  "bool_config cfg field dflt =
     (case cfg field of
        None \<Rightarrow> Inr dflt
      | Some (ABool b) \<Rightarrow> Inr b
      | Some _ \<Rightarrow> Inl (errorf (''blob: s3: config.'' @ field @ '' must be a boolean'')))"

definition new_s3_from_config ::
    "(s3config \<Rightarrow> error + 'w adapter) \<Rightarrow> (string \<Rightarrow> string) \<Rightarrow> config \<Rightarrow> error + 'w adapter" where
  "new_s3_from_config minio getenv cfg =
     (case string_config cfg ''bucket'' of Inl e \<Rightarrow> Inl (wrapf ''blob: s3: '' e) | Inr bucket \<Rightarrow>
     (case string_config cfg ''endpoint'' of Inl e \<Rightarrow> Inl (wrapf ''blob: s3: '' e) | Inr endpoint \<Rightarrow>
     (case bool_config cfg ''ssl'' True of Inl e \<Rightarrow> Inl e | Inr ssl \<Rightarrow>
     (case bool_config cfg ''pathStyle'' False of Inl e \<Rightarrow> Inl e | Inr style \<Rightarrow>
       (let ak = getenv ''AWS_ACCESS_KEY_ID''; sk = getenv ''AWS_SECRET_ACCESS_KEY''
        in if ak = '''' \<or> sk = ''''
           then Inl (errorf ''blob: s3: AWS_ACCESS_KEY_ID and AWS_SECRET_ACCESS_KEY must be set'')
           else new_s3 minio \<lparr>s3_endpoint = endpoint,
             s3_region = (case cfg ''region'' of Some (AStr r) \<Rightarrow> r | _ \<Rightarrow> ''''), s3_bucket = bucket,
             s3_access_key = ak, s3_secret_key = sk, s3_ssl = ssl, s3_path_style = style\<rparr>)))))"

definition new_local_from_config :: "(fsys \<Rightarrow> string list \<Rightarrow> int) \<Rightarrow> config \<Rightarrow> ('w, 'w adapter) act" where
  "new_local_from_config mtime cfg =
     (case string_config cfg ''path'' of
        Inl e \<Rightarrow> afail (wrapf ''blob: local: '' e)
      | Inr path \<Rightarrow> new_local mtime path)"

definition new_exec_from_config ::
    "(string \<Rightarrow> string list \<Rightarrow> 'w adapter) \<Rightarrow> string \<Rightarrow> config \<Rightarrow> error + 'w adapter" where
  "new_exec_from_config mk name cfg =
     (case string_config cfg ''path'' of
        Inl e \<Rightarrow> Inl (Err (''blob: '' @ name @ '': '' @ msg e
            @ '' (unrecognized driver name, treated as an out-of-tree exec driver)'') (sentinels e))
      | Inr path \<Rightarrow>
          (case args_config ''blob'' name cfg of Inl e \<Rightarrow> Inl e | Inr as \<Rightarrow> Inr (mk path as)))"

definition blob_new ::
    "(fsys \<Rightarrow> string list \<Rightarrow> int) \<Rightarrow> (s3config \<Rightarrow> error + 'w adapter) \<Rightarrow> (string \<Rightarrow> string) \<Rightarrow>
     (string \<Rightarrow> string list \<Rightarrow> 'w adapter) \<Rightarrow> string \<Rightarrow> config \<Rightarrow> ('w, 'w adapter) act" where
  "blob_new mtime minio getenv mk name cfg =
     (if name = '''' then afail (errorf ''blob: driver name is required'')
      else if name = ''local'' then new_local_from_config mtime cfg
      else if name = ''s3'' then asum (new_s3_from_config minio getenv cfg)
      else asum (new_exec_from_config mk name cfg))"

section \<open>What an adapter promises\<close>

text \<open>
  \<open>staged\<close> marks the keys an adapter may use for content on its way in: the promise that a failed
  put changes nothing, and that a put changes nothing but its own object, is about all other keys.
\<close>

locale blob_laws =
  fixes ad :: "'w adapter"
    and holds :: "'w world \<Rightarrow> string \<Rightarrow> string option"
    and same :: "string \<Rightarrow> string \<Rightarrow> bool"
    and staged :: "string \<Rightarrow> bool"
  assumes get_content: "bget ad c k w = (Inr (s, None), w') \<Longrightarrow> holds w k = Some s"
    and get_absent: "bget ad c k w = (Inl e, w') \<Longrightarrow> errors_is e BlobNotFound \<Longrightarrow> holds w k = None"
    and get_keeps: "bget ad c k w = (rd, w') \<Longrightarrow> holds w' = holds w"
    and list_keeps: "blist ad c p w = (ls, w') \<Longrightarrow> holds w' = holds w"
    and list_prefix: "blist ad c p w = (Inr os, w') \<Longrightarrow> ob \<in> set os \<Longrightarrow> prefix p (okey ob)"
    and put_done: "bput ad c k (s, None) n w = (Inr u, w') \<Longrightarrow> \<not> staged k \<Longrightarrow> holds w' k = Some s"
    and put_complete: "bput ad c k (s, Some e) n w = (res, w') \<Longrightarrow> \<exists>e'. res = Inl e'"
    and put_failed: "bput ad c k r n w = (Inl e, w') \<Longrightarrow> \<not> staged k' \<Longrightarrow> holds w' k' = holds w k'"
    and put_frame: "bput ad c k r n w = (res, w') \<Longrightarrow> \<not> same k k' \<Longrightarrow> \<not> staged k' \<Longrightarrow>
          holds w' k' = holds w k'"

context blob_laws begin

text \<open>A later get sees exactly what an earlier put stored, or an error that is not absence.\<close>

lemma put_get:
  assumes "bput ad c k (s, None) n w = (Inr u, w1)" "\<not> staged k" "bget ad c' k w1 = (r, w2)"
  shows "case r of Inr (t, None) \<Rightarrow> t = s | Inr (t, Some e) \<Rightarrow> True
      | Inl e \<Rightarrow> \<not> errors_is e BlobNotFound"
proof (cases r)
  case (Inl e)
  then show ?thesis using put_done [OF assms(1,2)] get_absent assms(3) by fastforce
next
  case (Inr td)
  then show ?thesis using put_done [OF assms(1,2)] get_content assms(3)
    by (cases td; cases "snd td") fastforce+
qed

text \<open>No put leaves an object with content the caller did not hand over whole.\<close>

lemma put_all_or_nothing:
  assumes "bput ad c k r n w = (res, w')" "\<not> staged k"
  shows "holds w' k = holds w k \<or> (snd r = None \<and> holds w' k = Some (fst r))"
proof (cases res)
  case (Inl e)
  with assms put_failed show ?thesis by blast
next
  case (Inr u)
  with assms put_complete [of c k "fst r"] put_done [of c k "fst r"] show ?thesis
    by (cases r; cases "snd r") fastforce+
qed

lemma prefixed_laws:
  "blob_laws (prefixed_adapter ad pre) (\<lambda>w k. holds w (pre @ k)) (\<lambda>k k'. same (pre @ k) (pre @ k'))
     (\<lambda>k. staged (pre @ k))"
proof
  fix c p w os w' ob
  assume a: "blist (prefixed_adapter ad pre) c p w = (Inr os, w')" and ob: "ob \<in> set os"
  from a obtain os' where os: "blist ad c (pre @ p) w = (Inr os', w')"
    and "os = map (\<lambda>ob. ob\<lparr>okey := trim_prefix (okey ob) pre\<rparr>) os'"
    by (auto simp: prefixed_adapter_def prefixed_list_def abnd_eq)
  with ob obtain ob' where ob': "ob' \<in> set os'" "okey ob = trim_prefix (okey ob') pre" by auto
  from list_prefix [OF os ob'(1)] obtain t where "okey ob' = pre @ p @ t" by (auto simp: prefix_def)
  with ob'(2) show "prefix p (okey ob)" by simp
qed (use get_content get_absent get_keeps list_keeps put_done put_complete put_failed put_frame in
      \<open>auto simp: prefixed_adapter_def prefixed_get_def prefixed_put_def prefixed_list_def abnd_eq fun_eq_iff\<close>)

end

section \<open>The local adapter keeps its promises\<close>

definition local_holds :: "string \<Rightarrow> 'w world \<Rightarrow> string \<Rightarrow> string option" where
  "local_holds root w k =
     (case local_resolve root k of
        Inl e \<Rightarrow> None
      | Inr full \<Rightarrow> file_part (fnode (fs w) (place (fs w) full)))"

definition local_same :: "string \<Rightarrow> string \<Rightarrow> string \<Rightarrow> bool" where
  "local_same root k k' =
     (case local_resolve root k of Inl e \<Rightarrow> False | Inr full \<Rightarrow> local_resolve root k' = Inr full)"

definition staged_name :: "string \<Rightarrow> bool" where
  "staged_name e \<longleftrightarrow> prefix ''.blob-'' e \<and> suffix ''.tmp'' e"

definition local_staged :: "string \<Rightarrow> string \<Rightarrow> bool" where
  "local_staged root k =
     (case local_resolve root k of
        Inl e \<Rightarrow> False
      | Inr full \<Rightarrow> comps full \<noteq> [] \<and> staged_name (last (comps full)))"

lemma rel_path_dotdot:
  assumes "rel_path (dotdot # es) \<noteq> dotdot"
  shows "prefix (dotdot @ [slash]) (rel_path (dotdot # es))"
  using assms by (cases es) (auto simp: rel_path_def)

text \<open>A key that is accepted names a path of plain elements below the root.\<close>

lemma local_resolve_below:
  assumes "local_resolve root k = Inr full" "rooted root"
  obtains es where "\<forall>e\<in>set es. plain_elem e" "full = abs_path (comps root @ es)"
    "clean k = rel_path es" "rooted full" "comps full = comps root @ es" "elems False k = es"
    "\<not> rooted k"
proof -
  from assms(1) have cl: "\<not> rooted (clean k)" "clean k \<noteq> dotdot"
      "\<not> prefix (dotdot @ [slash]) (clean k)" and full: "full = join2 root (clean k)"
    by (auto simp: local_resolve_def Let_def is_abs_def split: if_splits)
  from cl(1) have k: "\<not> rooted k" by (auto simp: clean_rooted)
  obtain es n where sh: "elems False k = replicate n dotdot @ es" "\<forall>e\<in>set es. plain_elem e"
    using elems_unrooted_shape [of k] by blast
  have "n = 0"
  proof (rule ccontr)
    assume "n \<noteq> 0"
    then obtain es' where "elems False k = dotdot # es'" using sh(1) by (cases n) auto
    with k have "clean k = rel_path (dotdot # es')" by (simp add: clean_def)
    with cl rel_path_dotdot show False by metis
  qed
  with sh(1) have el: "elems False k = es" by simp
  with k have c: "clean k = rel_path es" by (simp add: clean_def)
  have comps: "comps full = comps root @ es"
    using comps_join2_rel [OF assms(2) sh(2)] full c by simp
  have "full = abs_path (comps full)" "rooted full"
    using full assms(2) join2_abs_path by (blast, simp)
  with comps c sh(2) el k that show thesis by metis
qed

lemma local_place:
  assumes "local_resolve root k = Inr full" "rooted root"
  shows "place s full = comps full" "\<forall>e\<in>set (comps full). plain_elem e"
    "rooted (dir_of full)" "comps (dir_of full) = butlast (comps full)" "full = abs_path (comps full)"
proof -
  obtain es where es: "full = abs_path (comps root @ es)" "rooted full" "comps full = comps root @ es"
    using local_resolve_below [OF assms] by metis
  then show "place s full = comps full" "full = abs_path (comps full)"
    by (simp_all add: place_def)
  show pl: "\<forall>e\<in>set (comps full). plain_elem e" by (simp add: comps_plain)
  have "full = abs_path (comps full)" using es by simp
  then show "rooted (dir_of full)" "comps (dir_of full) = butlast (comps full)"
    using dir_of_abs_path [OF pl] by simp_all
qed

lemma local_distinct:
  assumes "local_resolve root k = Inr full" "local_resolve root k' = Inr full'" "rooted root"
    "\<not> local_same root k k'"
  shows "comps full' \<noteq> comps full"
proof
  assume "comps full' = comps full"
  then have "full' = full"
    using arg_cong [of "comps full'" "comps full" abs_path] local_place(5) [OF assms(1,3)]
      local_place(5) [OF assms(2,3)] by argo
  with assms(1,2,4) show False by (simp add: local_same_def)
qed

text \<open>Two file systems hold the same files, except at the places in \<open>T\<close>.\<close>

definition files_but :: "string list set \<Rightarrow> fsys \<Rightarrow> fsys \<Rightarrow> bool" where
  "files_but T s s' \<longleftrightarrow> cwd s' = cwd s \<and>
     (\<forall>q. q \<notin> T \<longrightarrow> file_part (fnode s' q) = file_part (fnode s q))"

lemma files_but_refl [simp]: "files_but T s s"
  by (simp add: files_but_def)

lemma files_but_trans: "files_but T s s' \<Longrightarrow> files_but T s' s'' \<Longrightarrow> files_but T s s''"
  by (simp add: files_but_def)

lemma files_but_mono: "files_but T s s' \<Longrightarrow> T \<subseteq> T' \<Longrightarrow> files_but T' s s'"
  by (auto simp: files_but_def)

lemma files_but_fnode: "fnode s' = fnode s \<Longrightarrow> cwd s' = cwd s \<Longrightarrow> files_but T s s'"
  by (simp add: files_but_def)

lemma files_but_mkdir: "os_mkdir_all p s = (r, s') \<Longrightarrow> files_but {} s s'"
proof -
  assume m: "os_mkdir_all p s = (r, s')"
  have "file_part (fnode s' q) = file_part (fnode s q)" for q
    using os_mkdir_all_frame [OF m, of q]
    by (cases "fnode s q") (auto simp: file_part_def is_file_def split: option.splits node.splits)
  then show ?thesis using os_mkdir_all_frame [OF m] by (simp add: files_but_def)
qed

lemma files_but_write: "os_write_file p c m s = (r, s') \<Longrightarrow> files_but {place s p} s s'"
proof -
  assume w: "os_write_file p c m s = (r, s')"
  have "cwd s' = cwd s" using os_write_file_cwd [of p c m s] w by simp
  moreover have "fnode s' q = fnode s q" if "q \<noteq> place s p" for q
    using os_write_file_Inl [of p c m s _ s' q] os_write_file_Inr [of p c m s _ s'] w that
    by (cases r) auto
  ultimately show ?thesis by (auto simp: files_but_def)
qed

lemma files_but_remove: "os_remove p s = (r, s') \<Longrightarrow> files_but {place s p} s s'"
proof -
  assume r: "os_remove p s = (r, s')"
  show ?thesis using os_remove_frame [OF r] os_remove_cwd [OF r] by (simp add: files_but_def)
qed

lemma local_holds_but:
  assumes "files_but T (fs w) (fs w')" "rooted root"
    "\<And>full. local_resolve root k = Inr full \<Longrightarrow> comps full \<notin> T"
  shows "local_holds root w' k = local_holds root w k"
  using assms local_place(1) [OF _ assms(2)]
  by (auto simp: local_holds_def files_but_def split: sum.splits)

definition staged_places :: "string list set" where
  "staged_places = {q. q \<noteq> [] \<and> staged_name (last q)}"

lemma tmp_place:
  assumes "p = join2 d (''.blob-'' @ nat_str n @ ''.tmp'')" "rooted d"
  shows "place s p \<in> staged_places" "rooted p"
proof -
  let ?e = "''.blob-'' @ nat_str n @ ''.tmp''"
  have "plain_elem ?e" using nat_str_no_slash [of n] by (simp add: plain_elem_def)
  then have "comps p = comps d @ [?e]" using assms join2_plain by blast
  moreover show "rooted p" using assms by simp
  moreover have "staged_name ?e" by (simp add: staged_name_def suffix_def)
  ultimately show "place s p \<in> staged_places" by (simp add: place_def staged_places_def)
qed

lemma files_but_staged: "files_but {q} s s' \<Longrightarrow> q \<in> staged_places \<Longrightarrow> files_but staged_places s s'"
  by (erule files_but_mono) simp

lemma discard_eq: "discard tmp e w = (Inl e, w\<lparr>fs := snd (os_remove tmp (fs w))\<rparr>)"
  by (simp add: discard_def split: prod.split)

lemma discard_files:
  assumes "discard tmp e w = (res, w')" "place (fs w) tmp \<in> staged_places"
  shows "res = Inl e" "files_but staged_places (fs w) (fs w')"
proof -
  obtain rr s where r: "os_remove tmp (fs w) = (rr, s)" by force
  with assms(1) show "res = Inl e" by (auto simp: discard_def)
  from r assms(1) have "fs w' = s" by (auto simp: discard_def)
  with files_but_staged [OF files_but_remove [OF r] assms(2)]
  show "files_but staged_places (fs w) (fs w')" by simp
qed

lemma copy_to_files:
  assumes "copy_to tmp r w = (res, w')" "place (fs w) tmp \<in> staged_places"
  shows "files_but staged_places (fs w) (fs w')"
    "res = Inr () \<Longrightarrow> snd r = None \<and> (\<exists>m. fnode (fs w') (place (fs w) tmp) = Some (File (fst r) m))"
proof -
  obtain u s where wr: "os_write_file tmp (fst r) 384 (fs w) = (u, s)" by force
  have w': "fs w' = s" and res: "res = Inr () \<Longrightarrow> snd r = None \<and> u = Inr ()"
    using assms(1) wr
    by (auto simp: copy_to_def abnd_def on_fs_def split: sum.splits option.splits)
  show "files_but staged_places (fs w) (fs w')"
    using files_but_staged [OF files_but_write [OF wr] assms(2)] w' by simp
  show "res = Inr () \<Longrightarrow> snd r = None \<and> (\<exists>m. fnode (fs w') (place (fs w) tmp) = Some (File (fst r) m))"
    using res wr w' os_write_file_Inr by (cases u) fastforce+
qed

text \<open>After the temporary file is made: the copy, the close and the rename.\<close>

definition put_tail :: "string \<Rightarrow> string \<Rightarrow> string \<Rightarrow> reader \<Rightarrow> ('w, unit) act" where
  "put_tail key path tmp r =
     abnd (ahandle (copy_to tmp r) (\<lambda>e. discard tmp (put_error key e))) (\<lambda>_.
     abnd (ahandle (on_fs os_close) (\<lambda>e. discard tmp (put_error key e))) (\<lambda>_.
     ahandle (on_fs (os_rename tmp path)) (\<lambda>e. discard tmp (put_error key e))))"

lemma put_tail_files:
  assumes "put_tail key path tmp r w = (res, w')" "rooted tmp" "place (fs w) tmp \<in> staged_places"
    "rooted path"
  shows "(\<exists>e. res = Inl e \<and> files_but staged_places (fs w) (fs w')) \<or>
    (res = Inr () \<and> snd r = None \<and> (\<exists>m. fnode (fs w') (comps path) = Some (File (fst r) m)) \<and>
     files_but (insert (comps path) staged_places) (fs w) (fs w'))"
proof -
  have pl: "place s tmp = comps tmp" "place s path = comps path" for s
    using assms(2,4) by (simp_all add: place_def)
  from assms(3) have st: "comps tmp \<in> staged_places" by (simp add: pl)
  then have st': "place s tmp \<in> staged_places" for s by (simp add: pl)
  obtain r1 w1 where c: "copy_to tmp r w = (r1, w1)" by force
  note c1 = copy_to_files(1) [OF c assms(3)]
  show ?thesis
  proof (cases r1)
    case (Inl e)
    then have "discard tmp (put_error key e) w1 = (res, w')"
      using assms(1) c by (simp add: put_tail_def abnd_def ahandle_def discard_eq)
    from discard_files [OF this st'] show ?thesis using c1 files_but_trans by blast
  next
    case (Inr u)
    obtain m where snd: "snd r = None" and tmp: "fnode (fs w1) (comps tmp) = Some (File (fst r) m)"
      using copy_to_files(2) [OF c assms(3)] Inr by (auto simp: pl)
    obtain r2 s2 where cl: "os_close (fs w1) = (r2, s2)" by force
    note keep = os_close_keeps [OF cl]
    have c2: "files_but staged_places (fs w) s2"
      using files_but_trans [OF c1] files_but_fnode [OF keep] by blast
    show ?thesis
    proof (cases r2)
      case (Inl e)
      then have "discard tmp (put_error key e) (w1\<lparr>fs := s2\<rparr>) = (res, w')"
        using assms(1) c Inr cl
        by (simp add: put_tail_def abnd_def ahandle_def on_fs_def discard_eq)
      from discard_files [OF this st'] c2 show ?thesis using files_but_trans by fastforce
    next
      case r2: (Inr u2)
      obtain r3 s3 where rn: "os_rename tmp path s2 = (r3, s3)" by force
      show ?thesis
      proof (cases r3)
        case (Inl e)
        then have d: "discard tmp (put_error key e) (w1\<lparr>fs := s3\<rparr>) = (res, w')"
          using assms(1) c \<open>r1 = Inr u\<close> cl r2 rn
          by (simp add: put_tail_def abnd_def ahandle_def on_fs_def discard_eq)
        have "files_but staged_places s2 s3"
          using os_rename_Inl [of tmp path s2 e s3] rn Inl by (simp add: files_but_fnode)
        with c2 have "files_but staged_places (fs w) s3" by (rule files_but_trans)
        with discard_files [OF d st'] show ?thesis using files_but_trans by fastforce
      next
        case (Inr u3)
        then have eq: "res = Inr ()" "fs w' = s3"
          using assms(1) c \<open>r1 = Inr u\<close> cl r2 rn
          by (auto simp: put_tail_def abnd_def ahandle_def on_fs_def)
        have t2: "fnode s2 (place s2 tmp) = Some (File (fst r) m)" using tmp keep by (simp add: pl)
        note f = os_rename_file [OF rn [unfolded Inr] t2]
        have "files_but (insert (comps path) staged_places) s2 s3"
          unfolding files_but_def pl using f(2,3) st unfolding pl by (metis insertCI)
        with c2 have "files_but (insert (comps path) staged_places) (fs w) s3"
          by (meson files_but_mono files_but_trans subset_insertI)
        with f(1) eq snd show ?thesis by (auto simp: pl)
      qed
    qed
  qed
qed

lemma local_put_files:
  assumes "local_put root c key r n w = (res, w')" "rooted root"
  shows "(\<exists>e. res = Inl e \<and> files_but staged_places (fs w) (fs w')) \<or>
    (\<exists>full m. res = Inr () \<and> local_resolve root key = Inr full \<and> snd r = None \<and>
       fnode (fs w') (comps full) = Some (File (fst r) m) \<and>
       files_but (insert (comps full) staged_places) (fs w) (fs w'))"
proof (cases "local_resolve root key")
  case (Inl e)
  then show ?thesis using assms(1) by (auto simp: local_put_def abnd_def)
next
  case (Inr full)
  note pl = local_place [OF Inr assms(2)]
  obtain r1 s1 where mk: "os_mkdir_all (dir_of full) (fs w) = (r1, s1)" by force
  have m1: "files_but staged_places (fs w) s1"
    using files_but_mono [OF files_but_mkdir [OF mk]] by simp
  obtain r2 s2 where ct: "os_create_temp (dir_of full) ''.blob-'' ''.tmp'' s1 = (r2, s2)" by force
  consider "\<exists>e. r1 = Inl e" | "\<exists>e. r1 = Inr () \<and> r2 = Inl e" | tmp where "r1 = Inr ()" "r2 = Inr tmp"
    by (cases r1; cases r2) auto
  then show ?thesis
  proof cases
    case 1
    then show ?thesis
      using assms(1) Inr mk m1 by (auto simp: local_put_def abnd_def ahandle_def on_fs_def)
  next
    case 2
    then have "files_but staged_places s1 s2"
      using os_create_temp_Inl [of "dir_of full" _ _ s1 _ s2] ct by (auto intro: files_but_fnode)
    with 2 show ?thesis
      using assms(1) Inr mk ct m1 files_but_trans
      by (fastforce simp: local_put_def abnd_def ahandle_def on_fs_def)
  next
    case (3 tmp)
    note t = os_create_temp_Inr [OF ct [unfolded 3(2)]]
    obtain k where k: "tmp = join2 (dir_of full) (''.blob-'' @ nat_str k @ ''.tmp'')" using t(1) by blast
    note tp = tmp_place [OF k pl(3)]
    have "files_but {place s1 tmp} s1 s2" using t(3,4) by (simp add: files_but_def)
    then have m2: "files_but staged_places (fs w) s2"
      using files_but_staged tp m1 files_but_trans by blast
    have tail: "put_tail key full tmp r (w\<lparr>fs := s2\<rparr>) = (res, w')"
      using assms(1) Inr mk ct 3
      by (simp add: local_put_def put_tail_def abnd_def ahandle_def on_fs_def)
    have rf: "rooted full" using pl(5) rooted_abs_path by metis
    have "place (fs (w\<lparr>fs := s2\<rparr>)) tmp \<in> staged_places" by (rule tp)
    from put_tail_files [OF tail tp(2) this rf] show ?thesis
    proof (elim disjE exE conjE)
      fix e
      assume "res = Inl e" "files_but staged_places (fs (w\<lparr>fs := s2\<rparr>)) (fs w')"
      with m2 files_but_trans show ?thesis by fastforce
    next
      fix m
      assume a: "res = Inr ()" "snd r = None" "fnode (fs w') (comps full) = Some (File (fst r) m)"
        "files_but (insert (comps full) staged_places) (fs (w\<lparr>fs := s2\<rparr>)) (fs w')"
      have "files_but (insert (comps full) staged_places) (fs w) s2"
        using files_but_mono [OF m2] by blast
      with a files_but_trans Inr show ?thesis by fastforce
    qed
  qed
qed

text \<open>The laws of the local adapter.\<close>

lemma local_staged_iff:
  assumes "local_resolve root k = Inr full"
  shows "local_staged root k \<longleftrightarrow> comps full \<in> staged_places"
  using assms by (simp add: local_staged_def staged_places_def)

lemma local_put_done:
  assumes "local_put root c k (s, None) n w = (Inr u, w')" "rooted root"
  shows "local_holds root w' k = Some s"
  using local_put_files [OF assms] local_place(1) [OF _ assms(2)]
  by (auto simp: local_holds_def file_part_def)

lemma local_put_frame:
  assumes "local_put root c k r n w = (res, w')" "rooted root" "\<not> local_staged root k'"
    "(\<exists>e. res = Inl e) \<or> \<not> local_same root k k'"
  shows "local_holds root w' k' = local_holds root w k'"
  using local_put_files [OF assms(1,2)]
proof (elim disjE exE conjE)
  fix e
  assume "files_but staged_places (fs w) (fs w')"
  then show ?thesis
    using assms(3) local_staged_iff by (intro local_holds_but [OF _ assms(2)]) auto
next
  fix full m
  assume a: "res = Inr ()" "local_resolve root k = Inr full"
    "files_but (insert (comps full) staged_places) (fs w) (fs w')"
  show ?thesis
  proof (rule local_holds_but [OF a(3) assms(2)])
    fix full'
    assume f': "local_resolve root k' = Inr full'"
    have "\<not> local_same root k k'" using assms(4) a(1) by simp
    with local_distinct [OF a(2) f' assms(2)] assms(3) local_staged_iff [OF f']
    show "comps full' \<notin> insert (comps full) staged_places" by simp
  qed
qed

lemma local_get_eq:
  "local_get root c k w = (case local_resolve root k of Inl e \<Rightarrow> (Inl e, w)
     | Inr path \<Rightarrow> (case os_open path (fs w) of
         (Inr rd, s) \<Rightarrow> (Inr rd, w\<lparr>fs := s\<rparr>)
       | (Inl e, s) \<Rightarrow> (Inl (if errors_is e NotExist
            then Err (''blob: local: get '' @ k @ '': blob: not found'') [BlobNotFound]
            else wrapf (''blob: local: get '' @ k @ '': '') e), w\<lparr>fs := s\<rparr>)))"
  by (simp add: local_get_def abnd_def ahandle_def on_fs_def split: sum.split prod.split)

lemma local_get_keeps:
  assumes "local_get root c k w = (rd, w')" "rooted root"
  shows "local_holds root w' = local_holds root w"
proof
  fix k'
  have "files_but {} (fs w) (fs w')"
    using assms(1) os_open_keeps
    by (auto simp: local_get_eq split: sum.splits prod.splits intro!: files_but_fnode)
  then show "local_holds root w' k' = local_holds root w k'"
    by (rule local_holds_but [OF _ assms(2)]) simp
qed

lemma os_open_fs_error: "os_open p s = (Inl e, s') \<Longrightarrow> fs_error e"
  by (auto simp: os_open_def Let_def split: option.splits node.splits if_splits prod.splits)

lemma local_get_absent:
  assumes "local_get root c k w = (Inl e, w')" "errors_is e BlobNotFound" "rooted root"
  shows "local_holds root w k = None"
proof (cases "local_resolve root k")
  case (Inr full)
  have rf: "rooted full" using local_place(5) [OF Inr assms(3)] rooted_abs_path by metis
  obtain r s where o: "os_open full (fs w) = (r, s)" by force
  with assms(1,2) Inr obtain e' where e': "r = Inl e'" "errors_is e' NotExist"
    using os_open_fs_error [of full "fs w" _ s] fs_errorD [of _ BlobNotFound]
    by (auto simp: local_get_eq split: sum.splits if_splits)
  from os_open_Inl [OF o [unfolded e'(1)] e'(2) rf] Inr show ?thesis
    by (simp add: local_holds_def file_part_def)
qed (simp add: local_holds_def)

lemma local_get_content:
  assumes "local_get root c k w = (Inr (s, None), w')"
  shows "local_holds root w k = Some s"
proof -
  obtain full t where "local_resolve root k = Inr full" "os_open full (fs w) = (Inr (s, None), t)"
    using assms by (auto simp: local_get_eq split: sum.splits prod.splits if_splits)
  then show ?thesis
    using os_open_Inr [of full "fs w" s t] by (auto simp: local_holds_def file_part_def)
qed

lemma local_list_keeps:
  assumes "local_list mtime root c p w = (r, w')" "rooted root"
  shows "local_holds root w' = local_holds root w"
proof
  fix k
  obtain u s where st: "os_stat root (fs w) = (u, s)" by force
  then have "fnode s = fnode (fs w) \<and> cwd s = cwd (fs w)"
    by (cases u) (auto simp: os_stat_def with_fault_Inr dest!: with_fault_Inl
        split: option.splits if_splits)
  moreover have "fs w' = s"
    using assms(1) st by (auto simp: local_list_def split: sum.splits option.splits)
  ultimately have "files_but {} (fs w) (fs w')" by (simp add: files_but_fnode)
  then show "local_holds root w' k = local_holds root w k"
    by (rule local_holds_but [OF _ assms(2)]) simp
qed

lemma local_list_prefix:
  "local_list mtime root c p w = (Inr os, w') \<Longrightarrow> ob \<in> set os \<Longrightarrow> prefix p (okey ob)"
  by (auto simp: local_list_def split: prod.splits sum.splits option.splits if_splits)

interpretation local_blob: blob_laws "local_adapter mtime (slash # p)" "local_holds (slash # p)"
    "local_same (slash # p)" "local_staged (slash # p)" for mtime p
proof
  fix c k s e n w res w'
  assume "bput (local_adapter mtime (slash # p)) c k (s, Some e) n w = (res, w')"
  then show "\<exists>e'. res = Inl e'"
    using local_put_files [of "slash # p" c k "(s, Some e)" n w res w']
    by (auto simp: local_adapter_def)
qed (auto simp: local_adapter_def dest: local_get_content local_get_absent local_get_keeps
      local_list_keeps local_list_prefix local_put_done local_put_frame)

text \<open>A bundle's share of a bucket: the local adapter scoped to a prefix.\<close>

interpretation scoped_blob: blob_laws "prefixed_adapter (local_adapter mtime (slash # p)) pre"
    "\<lambda>w k. local_holds (slash # p) w (pre @ k)" "\<lambda>k k'. local_same (slash # p) (pre @ k) (pre @ k')"
    "\<lambda>k. local_staged (slash # p) (pre @ k)" for mtime p pre
  by (rule local_blob.prefixed_laws)

section \<open>Properties\<close>

text \<open>
  C21. The local adapter's put is all or nothing. Whatever fails (the source stream, a torn write, the
  close, the rename, the clean-up), every object whose key is not a temporary name still has its old
  content, except that a put that succeeds gives its own object exactly the whole stream.
\<close>

theorem local_put_atomic:
  assumes "is_abs root" "bput (local_adapter mtime root) c k r n w = (res, w')"
    "\<not> local_staged root k'"
  shows "local_holds root w' k' = local_holds root w k' \<or>
    (res = Inr () \<and> local_same root k k' \<and> snd r = None \<and> local_holds root w' k' = Some (fst r))"
proof -
  from assms(1) obtain p where p: "root = slash # p" by (auto simp: is_abs_def elim: rootedE)
  have put: "local_put root c k r n w = (res, w')" using assms(2) by (simp add: local_adapter_def)
  show ?thesis
  proof (cases "(\<exists>e. res = Inl e) \<or> \<not> local_same root k k'")
    case True
    with local_put_frame [OF put _ assms(3)] p show ?thesis by simp
  next
    case False
    then obtain full where same: "local_resolve root k = Inr full" "local_resolve root k' = Inr full"
      by (auto simp: local_same_def split: sum.splits)
    from False have res: "res = Inr ()" by (cases res) auto
    with local_put_files [OF put] p have sn: "snd r = None" by auto
    with local_put_done [of root c k "fst r" n w "()" w'] put res p
    have "local_holds root w' k = Some (fst r)" by (cases r) auto
    with same res sn False show ?thesis by (simp add: local_holds_def)
  qed
qed

lemma local_put_atomic_witness:
  "local_holds ''/k'' (snd (bput (local_adapter (\<lambda>_ _. 0) ''/k'') Caller ''a'' (''ne'', Some (errorf ''cut''))
     3 sample_world)) ''a'' = Some ''old''"
proof -
  let ?run = "bput (local_adapter (\<lambda>_ _. 0) ''/k'') Caller ''a'' (''ne'', Some (errorf ''cut'')) 3 sample_world"
  have s: "\<not> local_staged ''/k'' ''a''" "local_holds ''/k'' sample_world ''a'' = Some ''old''"
    "is_abs ''/k''"
    by code_simp+
  have "?run = (fst ?run, snd ?run)" by simp
  from local_put_atomic [OF s(3) this s(1)] s(2) show ?thesis by simp
qed

lemma rel_path_plain:
  assumes "\<forall>e\<in>set es. plain_elem e"
  shows "\<not> rooted (rel_path es)" "rel_path es \<noteq> dotdot" "\<not> prefix (dotdot @ [slash]) (rel_path es)"
proof -
  show "\<not> rooted (rel_path es)"
    using assms by (cases es; cases "tl es"; cases "hd es") (auto simp: rel_path_def plain_elem_def)
  have "split_on slash dotdot = [dotdot]" "split_on slash (dotdot @ slash # t) = dotdot # split_on slash t" for t
    by simp_all
  moreover have "dotdot \<notin> set (split_on slash (rel_path es))"
    using assms by (auto simp: split_rel_path plain_elem_def)
  ultimately show "rel_path es \<noteq> dotdot" "\<not> prefix (dotdot @ [slash]) (rel_path es)"
    by (auto simp: prefix_def simp del: split_on.simps)
qed

text \<open>
  Containment of object keys: the local adapter accepts a non-blank key exactly when, read as
  a relative path with its dot-dot elements resolved, it climbs to no parent of the root; and the path
  it then uses is the root's path extended by the key's own, plain elements.
\<close>

theorem local_key_contained:
  assumes "is_abs root" "\<not> blank k"
  shows "case local_resolve root k of
      Inl e \<Rightarrow> rooted k \<or> dotdot \<in> set (elems False k)
    | Inr full \<Rightarrow> \<not> rooted k \<and> full = abs_path (comps root @ elems False k) \<and>
        (\<forall>e\<in>set (elems False k). plain_elem e)"
proof (cases "local_resolve root k")
  case (Inr full)
  have "rooted root" using assms(1) by (simp add: is_abs_def)
  with Inr show ?thesis by (auto elim!: local_resolve_below)
next
  case (Inl e)
  have "rooted k \<or> dotdot \<in> set (elems False k)"
  proof (rule ccontr)
    assume a: "\<not> (rooted k \<or> dotdot \<in> set (elems False k))"
    obtain es n where sh: "elems False k = replicate n dotdot @ es" "\<forall>e\<in>set es. plain_elem e"
      using elems_unrooted_shape [of k] by blast
    with a have "n = 0" by auto
    with a sh have "clean k = rel_path es" by (simp add: clean_def)
    with Inl assms(2) rel_path_plain [OF sh(2)] show False
      by (simp add: local_resolve_def Let_def is_abs_def)
  qed
  with Inl show ?thesis by simp
qed

lemma local_key_contained_witness: "local_resolve ''/srv'' ''a/../b'' = Inr ''/srv/b''"
proof -
  have *: "is_abs ''/srv''" "\<not> blank ''a/../b''" "elems False ''a/../b'' = [''b'']"
    "abs_path (comps ''/srv'' @ [''b'']) = ''/srv/b''" "\<not> rooted ''a/../b''"
    by code_simp+
  from local_key_contained [OF *(1,2)] show ?thesis
    by (cases "local_resolve ''/srv'' ''a/../b''") (simp_all only: sum.case *, simp_all)
qed

end
