(* ===== verification/Manifest.thy ===== *)
theory Manifest
  imports Blob
begin

text \<open>
  \<open>internal/core/bundle\<close>: the bundle manifest (\<open>manifest.go\<close>) with its defaults, the URLs, clone
  URLs and host-key pins rendered from it, its validation, and the bundle directory (\<open>bundle.go\<close>) with
  its staged save and its load. The YAML codec is a parameter. A Go map is an association list with
  distinct keys, in the order its iteration takes.
\<close>

section \<open>The manifest\<close>

definition DefaultChecksumAlgorithm :: string where "DefaultChecksumAlgorithm = ''sha256''"
definition DefaultGitSSHPort :: int where "DefaultGitSSHPort = 2222"
definition DefaultNamedWebPort :: int where "DefaultNamedWebPort = 443"
definition DefaultNamelessWebPort :: int where "DefaultNamelessWebPort = 8222"
definition DefaultActionsJobImage :: string where
  "DefaultActionsJobImage = ''docker.io/library/node:22-bookworm''"
definition standardHTTPSPort :: int where "standardHTTPSPort = 443"
definition standardHTTPPort :: int where "standardHTTPPort = 80"
definition maxPort :: int where "maxPort = 65535"
definition ManifestFile :: string where "ManifestFile = ''farrier.yaml''"
definition ComposeDir :: string where "ComposeDir = ''compose''"

definition AllStateKinds :: "string list" where
  "AllStateKinds = [''git'', ''database'', ''blobs'', ''keys'']"

record driver_ref =
  dr_driver :: string
  dr_config :: config

record driver_config =
  dc_keystore :: driver_ref
  dc_dns :: driver_ref
  dc_blob :: driver_ref

record acme_config =
  ac_provider :: string
  ac_email :: string
  ac_directory :: string

record actions_config =
  aa_colocated :: "bool option"
  aa_job_image :: string

record manifest =
  Domain :: string
  GitSSHPort :: int
  WebPort :: int
  PublicWebPort :: int
  SSHHostKeyPublic :: string
  Images :: "(string \<times> string) list"
  Drivers :: driver_config
  ACME :: acme_config
  Actions :: actions_config
  State :: "string list"
  ChecksumAlgorithm :: string

definition acme_is_zero :: "acme_config \<Rightarrow> bool" where
  "acme_is_zero c \<longleftrightarrow> blank (ac_provider c) \<and> blank (ac_email c) \<and> blank (ac_directory c)"

definition named :: "manifest \<Rightarrow> bool" where
  "named m \<longleftrightarrow> \<not> blank (Domain m)"

definition git_ssh_port :: "manifest \<Rightarrow> int" where
  "git_ssh_port m = (if GitSSHPort m = 0 then DefaultGitSSHPort else GitSSHPort m)"

definition web_port :: "manifest \<Rightarrow> int" where
  "web_port m =
     (if WebPort m \<noteq> 0 then WebPort m
      else if named m then DefaultNamedWebPort else DefaultNamelessWebPort)"

definition public_web_port :: "manifest \<Rightarrow> int" where
  "public_web_port m = (if PublicWebPort m \<noteq> 0 then PublicWebPort m else web_port m)"

definition web_scheme :: "manifest \<Rightarrow> string" where
  "web_scheme m = (if named m then ''https'' else ''http'')"

definition web_url :: "manifest \<Rightarrow> string \<Rightarrow> int \<Rightarrow> string" where
  "web_url m host port =
     (let h = trim_space host; scheme = web_scheme m
      in if (scheme = ''https'' \<and> port = standardHTTPSPort) \<or> (scheme = ''http'' \<and> port = standardHTTPPort)
         then scheme @ ''://'' @ h @ ''/''
         else scheme @ ''://'' @ h @ '':'' @ int_str port @ ''/'')"

definition public_url_at :: "manifest \<Rightarrow> string \<Rightarrow> string" where
  "public_url_at m host = web_url m host (public_web_port m)"

definition public_url :: "manifest \<Rightarrow> string" where
  "public_url m = public_url_at m (Domain m)"

definition git_ssh_clone_url_at :: "manifest \<Rightarrow> string \<Rightarrow> string \<Rightarrow> string \<Rightarrow> string" where
  "git_ssh_clone_url_at m host owner repo =
     (if git_ssh_port m = 22 \<and> \<not> prefix ''['' host
      then ''git@'' @ host @ '':'' @ owner @ ''/'' @ repo @ ''.git''
      else ''ssh://git@'' @ host @ '':'' @ int_str (git_ssh_port m) @ ''/'' @ owner @ ''/'' @ repo @ ''.git'')"

definition git_ssh_clone_url :: "manifest \<Rightarrow> string \<Rightarrow> string \<Rightarrow> string" where
  "git_ssh_clone_url m owner repo = git_ssh_clone_url_at m (Domain m) owner repo"

definition unbracket_host :: "string \<Rightarrow> string" where
  "unbracket_host h =
     (if prefix ''['' h \<and> suffix '']'' h then take (length h - 2) (drop 1 h) else h)"

definition known_hosts_host_at :: "manifest \<Rightarrow> string \<Rightarrow> string" where
  "known_hosts_host_at m host =
     (let h = unbracket_host host
      in if git_ssh_port m = 22 then h else ''['' @ h @ '']:'' @ int_str (git_ssh_port m))"

definition known_hosts_host :: "manifest \<Rightarrow> string" where
  "known_hosts_host m = known_hosts_host_at m (Domain m)"

definition split_ssh_public_key :: "string \<Rightarrow> error + string \<times> string" where
  "split_ssh_public_key line =
     (case str_fields (trim_space line) of
        t # b # rest \<Rightarrow> Inr (t, b)
      | _ \<Rightarrow> Inl (errorf (''is not an openssh public key: want '' @ quote ''<type> <base64> [comment]'')))"

definition known_hosts_line_at :: "manifest \<Rightarrow> string \<Rightarrow> string \<Rightarrow> error + string" where
  "known_hosts_line_at m host key =
     (case split_ssh_public_key key of
        Inl e \<Rightarrow> Inl e
      | Inr (t, b) \<Rightarrow> Inr (known_hosts_host_at m host @ '' '' @ t @ '' '' @ b @ nl))"

definition known_hosts_line :: "manifest \<Rightarrow> string \<Rightarrow> error + string" where
  "known_hosts_line m key = known_hosts_line_at m (Domain m) key"

section \<open>Domain grammar\<close>

text \<open>
  The regular expression's parts between dots: labels of letters, digits and inner hyphens, at most
  63 characters, then a last label of two letters or more.
\<close>

definition is_letter :: "char \<Rightarrow> bool" where
  "is_letter c = (let n = (of_char c :: nat) in (65 \<le> n \<and> n \<le> 90) \<or> (97 \<le> n \<and> n \<le> 122))"

definition is_digit :: "char \<Rightarrow> bool" where
  "is_digit c = (let n = (of_char c :: nat) in 48 \<le> n \<and> n \<le> 57)"

definition is_alnum :: "char \<Rightarrow> bool" where
  "is_alnum c \<longleftrightarrow> is_letter c \<or> is_digit c"

definition domain_label :: "string \<Rightarrow> bool" where
  "domain_label l \<longleftrightarrow> l \<noteq> [] \<and> length l \<le> 63 \<and> is_alnum (hd l) \<and> is_alnum (last l) \<and>
     list_all (\<lambda>c. is_alnum c \<or> c = CHR ''-'') l"

definition top_label :: "string \<Rightarrow> bool" where
  "top_label l \<longleftrightarrow> 2 \<le> length l \<and> list_all is_letter l"

definition domain_pattern :: "string \<Rightarrow> bool" where
  "domain_pattern d =
     (let ls = split_on CHR ''.'' d
      in 2 \<le> length ls \<and> list_all domain_label (butlast ls) \<and> top_label (last ls))"

definition validate_domain :: "string \<Rightarrow> error + unit" where
  "validate_domain domain =
     (let d = trim_space domain
      in if d = '''' then Inl (errorf ''bundle: domain is required'')
         else if \<not> domain_pattern d
         then Inl (errorf (''bundle: domain '' @ quote domain @ '' is not a valid DNS name''))
         else Inr ())"

section \<open>Validation\<close>

definition validate_git_ssh_port :: "int \<Rightarrow> error + unit" where
  "validate_git_ssh_port port =
     (if port < 0 \<or> port > maxPort
      then Inl (errorf (''bundle: git-over-ssh port '' @ int_str port @ '' is not a valid TCP port''))
      else Inr ())"

definition validate_web_port :: "int \<Rightarrow> error + unit" where
  "validate_web_port port =
     (if port < 0 \<or> port > maxPort
      then Inl (errorf (''bundle: web port '' @ int_str port @ '' is not a valid TCP port''))
      else Inr ())"

abbreviation check_then :: "error + unit \<Rightarrow> error + 'a \<Rightarrow> error + 'a" where
  "check_then c r \<equiv> (case c of Inl e \<Rightarrow> Inl e | Inr u \<Rightarrow> r)"

definition validate_web_ports :: "manifest \<Rightarrow> error + unit" where
  "validate_web_ports m =
     check_then (validate_web_port (WebPort m))
     (check_then (validate_web_port (PublicWebPort m))
     (if \<not> named m \<or> PublicWebPort m \<noteq> 0 then Inr ()
      else if web_port m \<noteq> DefaultNamedWebPort
      then Inl (errorf (''bundle: this bundle publishes its web port on '' @ int_str (web_port m)
        @ '' rather than '' @ int_str DefaultNamedWebPort @ '', so set publicWebPort in '' @ ManifestFile
        @ '' to say which port clients connect to: '' @ int_str DefaultNamedWebPort
        @ '' if something on the host forwards to Farrier, or '' @ int_str (web_port m)
        @ '' if nothing does and clients reach it directly''))
      else Inr ()))"

definition colocated_runner_enabled :: "manifest \<Rightarrow> bool" where
  "colocated_runner_enabled m = (case aa_colocated (Actions m) of None \<Rightarrow> True | Some b \<Rightarrow> b)"

definition colocated_runner_declared :: "manifest \<Rightarrow> bool" where
  "colocated_runner_declared m \<longleftrightarrow> aa_colocated (Actions m) \<noteq> None"

definition actions_job_image :: "manifest \<Rightarrow> string" where
  "actions_job_image m =
     (if blank (aa_job_image (Actions m)) then DefaultActionsJobImage else aa_job_image (Actions m))"

definition validate_actions_job_image :: "string \<Rightarrow> error + unit" where
  "validate_actions_job_image img =
     (if blank img then Inr ()
      else if contains_any img [CHR '' '', CHR 0x09, CHR 0x0D, CHR 0x0A]
      then Inl (errorf (''bundle: actions job image '' @ quote img @ '' must not contain whitespace''))
      else Inr ())"

definition new_manifest ::
    "string \<Rightarrow> (string \<times> string) list \<Rightarrow> driver_config \<Rightarrow> acme_config \<Rightarrow> manifest" where
  "new_manifest domain images drivers acmeCfg =
     \<lparr>Domain = domain, GitSSHPort = 0, WebPort = 0, PublicWebPort = 0, SSHHostKeyPublic = '''',
      Images = images, Drivers = drivers, ACME = acmeCfg,
      Actions = \<lparr>aa_colocated = None, aa_job_image = ''''\<rparr>, State = AllStateKinds,
      ChecksumAlgorithm = DefaultChecksumAlgorithm\<rparr>"

definition is_lower_hex :: "char \<Rightarrow> bool" where
  "is_lower_hex c = (let n = (of_char c :: nat) in (48 \<le> n \<and> n \<le> 57) \<or> (97 \<le> n \<and> n \<le> 102))"

definition digest_pinned :: "string \<Rightarrow> bool" where
  "digest_pinned r =
     (let t = drop (length r - 72) r
      in length r \<ge> 72 \<and> take 8 t = ''@sha256:'' \<and> list_all is_lower_hex (drop 8 t))"

definition validate_name :: "manifest \<Rightarrow> error + unit" where
  "validate_name m =
     (if \<not> named m
      then (if \<not> acme_is_zero (ACME m)
            then Inl (errorf ''bundle: acme config is set but there is no domain; a nameless bundle proves no zone and issues no certificate'')
            else Inr ())
      else if blank (ac_provider (ACME m))
      then Inl (errorf (''bundle: acme dns-01 provider is required for domain '' @ quote (Domain m)))
      else Inr ())"

text \<open>The two loops of \<open>validateState\<close>; \<open>seen\<close> is the set of kinds met so far.\<close>

fun state_seen :: "string list \<Rightarrow> string set \<Rightarrow> error + string set" where
  "state_seen [] seen = Inr seen"
| "state_seen (k # ks) seen =
     (if k \<in> seen then Inl (errorf (''bundle: state kind '' @ quote k @ '' declared more than once''))
      else state_seen ks (insert k seen))"

definition validate_state :: "string list \<Rightarrow> error + unit" where
  "validate_state declared =
     (case state_seen declared {} of
        Inl e \<Rightarrow> Inl e
      | Inr seen \<Rightarrow>
          (case filter (\<lambda>k. k \<notin> seen) AllStateKinds of
             k # ks \<Rightarrow> Inl (errorf (''bundle: state kind '' @ quote k @ '' must be declared''))
           | [] \<Rightarrow>
               (if length declared \<noteq> length AllStateKinds
                then Inl (errorf (''bundle: state must declare exactly the four kinds, got ''
                       @ nat_str (length declared)))
                else Inr ())))"

definition validate_images :: "(string \<times> string) list \<Rightarrow> error + unit" where
  "validate_images images =
     (if images = [] then Inl (errorf ''bundle: at least one image is required'')
      else (case filter (\<lambda>x. \<not> digest_pinned (snd x)) images of
              [] \<Rightarrow> Inr ()
            | (c, r) # rest \<Rightarrow> Inl (errorf (''bundle: image '' @ quote c
                @ '' must be pinned by digest (@sha256:...), got '' @ quote r))))"

definition validate :: "manifest \<Rightarrow> error + unit" where
  "validate m =
     check_then (validate_name m)
     (check_then (validate_images (Images m))
     (check_then (validate_git_ssh_port (GitSSHPort m))
     (check_then (validate_actions_job_image (aa_job_image (Actions m)))
     (check_then (validate_web_ports m)
     (check_then (if blank (SSHHostKeyPublic m) then Inr ()
        else (case split_ssh_public_key (SSHHostKeyPublic m) of
                Inl e \<Rightarrow> Inl (wrapf ''bundle: ssh host public key '' e) | Inr p \<Rightarrow> Inr ()))
     (if blank (dr_driver (dc_keystore (Drivers m)))
      then Inl (errorf ''bundle: keystore driver is required'')
      else if blank (dr_driver (dc_blob (Drivers m)))
      then Inl (errorf ''bundle: blob driver is required'')
      else check_then (validate_state (State m))
        (if blank (ChecksumAlgorithm m) then Inl (errorf ''bundle: checksum algorithm is required'')
         else Inr ())))))))"

section \<open>The bundle directory\<close>

record bundle_data =
  b_manifest :: manifest
  b_compose :: "(string \<times> string) list"

definition dir_for :: "string \<Rightarrow> string" where
  "dir_for project = join2 project ''.farrier''"

text \<open>The entries of a directory, sorted by name, with whether each is a directory.\<close>

definition os_read_dir :: "string \<Rightarrow> fsys \<Rightarrow> (error + (string \<times> bool) list) \<times> fsys" where
  "os_read_dir p =
     with_fault no_torn (\<lambda>s.
       let q = place s p
       in case fnode s q of
            None \<Rightarrow> (Inl (missing s q), s)
          | Some (File c m) \<Rightarrow> (Inl (errorf ''not a directory''), s)
          | Some Dir \<Rightarrow>
              (Inr (map (\<lambda>n. (n, fnode s (q @ [n]) = Some Dir))
                 (sort (remdups (map (last \<circ> fst)
                    (filter (\<lambda>x. fst x \<noteq> [] \<and> butlast (fst x) = q) (nodes s)))))), s))"

fun exists_any :: "string list \<Rightarrow> ('w, bool) act" where
  "exists_any [] = aret False"
| "exists_any (p # ps) = (\<lambda>w.
     case os_stat p (fs w) of
       (Inr _, s) \<Rightarrow> (Inr True, w\<lparr>fs := s\<rparr>)
     | (Inl e, s) \<Rightarrow>
         (if \<not> errors_is e NotExist
          then (Inl (wrapf (''bundle: check '' @ p @ '': '') e), w\<lparr>fs := s\<rparr>)
          else exists_any ps (w\<lparr>fs := s\<rparr>)))"

definition bundle_exists :: "string \<Rightarrow> ('w, bool) act" where
  "bundle_exists dir = exists_any [join2 dir ManifestFile, join2 dir ComposeDir]"

fun read_entries :: "string \<Rightarrow> (string \<times> bool) list \<Rightarrow> ('w, (string \<times> string) list) act" where
  "read_entries dir [] = aret []"
| "read_entries dir ((n, isdir) # es) =
     (if isdir then read_entries dir es
      else abnd (ahandle (on_fs (os_read_file (join2 dir n))) (\<lambda>e.
                   afail (wrapf (''bundle: read '' @ join2 ComposeDir n @ '': '') e))) (\<lambda>content.
           abnd (read_entries dir es) (\<lambda>rest. aret ((n, content) # rest))))"

definition read_compose_dir :: "string \<Rightarrow> ('w, (string \<times> string) list) act" where
  "read_compose_dir dir =
     abnd (ahandle (on_fs (os_read_dir dir)) (\<lambda>e.
             if errors_is e NotExist
             then afail (errorf (''bundle: '' @ ComposeDir @ '': no rendered Compose files''))
             else afail (wrapf (''bundle: read '' @ ComposeDir @ '': '') e))) (\<lambda>entries.
     abnd (read_entries dir entries) (\<lambda>compose.
     if compose = [] then afail (errorf (''bundle: '' @ ComposeDir @ '': no rendered Compose files''))
     else aret compose))"

definition bundle_load :: "(string \<Rightarrow> error + manifest) \<Rightarrow> string \<Rightarrow> ('w, bundle_data) act" where
  "bundle_load unmarshal dir =
     abnd (ahandle (on_fs (os_read_file (join2 dir ManifestFile))) (\<lambda>e.
             afail (wrapf ''bundle: read manifest: '' e))) (\<lambda>raw.
     abnd (ahandle (asum (unmarshal raw)) (\<lambda>e. afail (wrapf ''bundle: parse manifest: '' e))) (\<lambda>m.
     abnd (asum (validate m)) (\<lambda>_.
     abnd (read_compose_dir (join2 dir ComposeDir)) (\<lambda>compose.
     aret \<lparr>b_manifest = m, b_compose = compose\<rparr>))))"

definition write_file :: "string \<Rightarrow> string \<Rightarrow> ('w, unit) act" where
  "write_file path content =
     abnd (ahandle (on_fs (os_write_file (path @ ''.tmp'') content 420)) (\<lambda>e.
             afail (wrapf (''bundle: write '' @ path @ '': '') e))) (\<lambda>_.
     ahandle (on_fs (os_rename (path @ ''.tmp'') path)) (\<lambda>e.
       afail (wrapf (''bundle: write '' @ path @ '': '') e)))"

fun write_all :: "string \<Rightarrow> (string \<times> string) list \<Rightarrow> ('w, unit) act" where
  "write_all dir [] = aret ()"
| "write_all dir ((n, c) # rest) = abnd (write_file (join2 dir n) c) (\<lambda>_. write_all dir rest)"

definition save_compose :: "string \<Rightarrow> (string \<times> string) list \<Rightarrow> ('w, unit) act" where
  "save_compose composeDir compose =
     (let staging = composeDir @ ''.tmp''
      in abnd (ahandle (on_fs (os_remove_all staging)) (\<lambda>e.
                 afail (wrapf (''bundle: clear '' @ staging @ '': '') e))) (\<lambda>_.
         abnd (ahandle (on_fs (os_mkdir_all staging)) (\<lambda>e.
                 afail (wrapf (''bundle: create '' @ staging @ '': '') e))) (\<lambda>_.
         abnd (write_all staging (sort_key fst compose)) (\<lambda>_.
         abnd (ahandle (on_fs (os_remove_all composeDir)) (\<lambda>e.
                 afail (wrapf (''bundle: clear '' @ ComposeDir @ '': '') e))) (\<lambda>_.
         ahandle (on_fs (os_rename staging composeDir)) (\<lambda>e.
                 afail (wrapf (''bundle: install '' @ ComposeDir @ '': '') e)))))))"

definition bundle_save :: "(manifest \<Rightarrow> error + string) \<Rightarrow> bundle_data \<Rightarrow> string \<Rightarrow> ('w, unit) act" where
  "bundle_save marshal b dir =
     abnd (asum (validate (b_manifest b))) (\<lambda>_.
     if b_compose b = [] then afail (errorf ''bundle: at least one rendered Compose file is required'')
     else abnd (ahandle (asum (marshal (b_manifest b))) (\<lambda>e.
                  afail (wrapf ''bundle: encode manifest: '' e))) (\<lambda>raw.
     abnd (save_compose (join2 dir ComposeDir) (b_compose b)) (\<lambda>_.
     write_file (join2 dir ManifestFile) raw)))"

section \<open>Facts about validation\<close>

lemma check_then_Inr: "check_then c r = Inr x \<longleftrightarrow> c = Inr () \<and> r = Inr x"
  by (cases c) auto

lemma validate_Inr:
  assumes "validate m = Inr ()"
  shows "validate_name m = Inr ()" "validate_images (Images m) = Inr ()"
    "validate_git_ssh_port (GitSSHPort m) = Inr ()" "validate_web_ports m = Inr ()"
    "validate_state (State m) = Inr ()"
  using assms by (auto simp: validate_def check_then_Inr split: if_splits)

lemma state_seen_Inr:
  "state_seen ks seen = Inr t \<longleftrightarrow> distinct ks \<and> set ks \<inter> seen = {} \<and> t = seen \<union> set ks"
  by (induction ks arbitrary: seen) auto

lemma git_ssh_port_range:
  "validate_git_ssh_port (GitSSHPort m) = Inr () \<Longrightarrow> 1 \<le> git_ssh_port m \<and> git_ssh_port m \<le> maxPort"
  by (auto simp: validate_git_ssh_port_def git_ssh_port_def DefaultGitSSHPort_def maxPort_def
      split: if_splits)

lemma validate_web_ports_Inr:
  assumes "validate_web_ports m = Inr ()"
  shows "0 \<le> WebPort m \<and> WebPort m \<le> maxPort" "0 \<le> PublicWebPort m \<and> PublicWebPort m \<le> maxPort"
    "named m \<Longrightarrow> PublicWebPort m = 0 \<Longrightarrow> web_port m = DefaultNamedWebPort"
  using assms by (auto simp: validate_web_ports_def validate_web_port_def check_then_Inr split: if_splits)

section \<open>Facts about saving\<close>

lemma files_but_fs: "files_but T s s' \<Longrightarrow> files_but T s' s'' \<Longrightarrow> T \<subseteq> T' \<Longrightarrow> files_but T' s s''"
  using files_but_mono files_but_trans by blast

lemma files_but_rename:
  "os_rename p p' s = (r, s') \<Longrightarrow> files_but {q. prefix (place s p) q \<or> prefix (place s p') q} s s'"
proof -
  assume r: "os_rename p p' s = (r, s')"
  show ?thesis using os_rename_frame [OF r] by (simp add: files_but_def)
qed

lemma files_but_remove_all:
  "os_remove_all p s = (r, s') \<Longrightarrow> files_but {q. prefix (place s p) q} s s'"
proof -
  assume r: "os_remove_all p s = (r, s')"
  show ?thesis using os_remove_all_frame [OF r] by (simp add: files_but_def)
qed

text \<open>An act that leaves every file outside \<open>T\<close> as it is, and its composition.\<close>

definition stays :: "string list set \<Rightarrow> ('w, 'a) act \<Rightarrow> bool" where
  "stays T a \<longleftrightarrow> (\<forall>w. files_but T (fs w) (fs (snd (a w))))"

lemma staysD: "stays T a \<Longrightarrow> a w = (r, w') \<Longrightarrow> files_but T (fs w) (fs w')"
  by (metis stays_def snd_conv)

lemma stays_pure [simp]: "stays T (aret x)" "stays T (afail e)" "stays T (asum r)"
  by (simp_all add: stays_def)

lemma stays_abnd: "stays T a \<Longrightarrow> (\<And>x. stays T (k x)) \<Longrightarrow> stays T (abnd a k)"
  unfolding stays_def abnd_def
  by (auto split: prod.split sum.split) (metis files_but_trans snd_conv)+

lemma stays_ahandle: "stays T a \<Longrightarrow> (\<And>e. stays T (h e)) \<Longrightarrow> stays T (ahandle a h)"
  unfolding stays_def ahandle_def
  by (auto split: prod.split sum.split) (metis files_but_trans snd_conv)+

lemma stays_on_fs:
  assumes "\<And>s r s'. f s = (r, s') \<Longrightarrow> files_but T s s'"
  shows "stays T (on_fs f)"
  unfolding stays_def on_fs_def by (auto split: prod.split dest: assms)

lemma stays_mono: "stays T a \<Longrightarrow> T \<subseteq> T' \<Longrightarrow> stays T' a"
  unfolding stays_def using files_but_mono by blast

lemma stays_write_file:
  assumes "rooted path" "rooted (path @ ''.tmp'')" "comps path \<in> T" "comps (path @ ''.tmp'') \<in> T"
    "\<And>q q'. q \<in> T \<Longrightarrow> prefix q q' \<Longrightarrow> q' \<in> T"
  shows "stays T (write_file path c)"
proof -
  have pl: "place s path = comps path" "place s (path @ ''.tmp'') = comps (path @ ''.tmp'')" for s
    using assms(1,2) by (simp_all add: place_def)
  have w: "files_but T s s'" if "os_write_file (path @ ''.tmp'') c 420 s = (r, s')" for s r s'
    using files_but_mono [OF files_but_write [OF that]] assms(4) by (simp add: pl)
  have r: "files_but T s s'" if "os_rename (path @ ''.tmp'') path s = (r, s')" for s r s'
    by (rule files_but_mono [OF files_but_rename [OF that]]) (use assms(3-5) in \<open>auto simp: pl\<close>)
  show ?thesis
    unfolding write_file_def by (intro stays_abnd stays_ahandle stays_on_fs) (auto intro: w r)
qed

lemma stays_write_all:
  assumes "\<And>n c. (n, c) \<in> set cs \<Longrightarrow> stays T (write_file (join2 dir n) c :: ('w, unit) act)"
  shows "stays T (write_all dir cs :: ('w, unit) act)"
  using assms
proof (induction cs)
  case (Cons nc cs)
  obtain n c where nc: "nc = (n, c)" by force
  with Cons have "stays T (write_file (join2 dir n) c :: ('w, unit) act)"
    "stays T (write_all dir cs :: ('w, unit) act)" by auto
  then show ?case by (simp add: nc stays_abnd)
qed simp

text \<open>Everything a save stages or swaps is below \<open>compose\<close> or \<open>compose.tmp\<close>.\<close>

definition below :: "string list \<Rightarrow> string list set" where
  "below p = {q. prefix p q}"

lemma below_up: "q \<in> below p \<Longrightarrow> prefix q q' \<Longrightarrow> q' \<in> below p"
  by (auto simp: below_def)

lemma save_compose_stays:
  assumes "rooted dir" "\<forall>x\<in>set cs. plain_elem (fst x)"
  shows "stays (below (comps dir @ [''compose'']) \<union> below (comps dir @ [''compose.tmp'']))
    (save_compose (join2 dir ComposeDir) cs)" (is "stays ?T _")
proof -
  let ?c = "comps dir @ [''compose'']" and ?t = "comps dir @ [''compose.tmp'']"
  have pe: "plain_elem ''compose''" "plain_elem ''compose.tmp''" by (simp_all add: plain_elem_def)
  have dir: "\<forall>e\<in>set (comps dir). plain_elem e" by (simp add: comps_plain)
  have j: "join2 dir ComposeDir = abs_path ?c"
    using join2_plain_path [OF assms(1) pe(1)] by (simp add: ComposeDir_def)
  have t: "abs_path ?c @ ''.tmp'' = abs_path ?t" by (simp add: abs_path_append)
  have pl: "place s (abs_path ?c) = ?c" "place s (abs_path ?t) = ?t" for s
    using dir pe by (simp_all add: place_def)
  have up: "\<And>q q'. q \<in> ?T \<Longrightarrow> prefix q q' \<Longrightarrow> q' \<in> ?T" by (auto simp: below_def)
  have wr: "stays ?T (write_file (join2 (abs_path ?t) n) c)" if "(n, c) \<in> set (sort_key fst cs)" for n c
  proof -
    have n: "plain_elem n" using that assms(2) by auto
    then have n': "plain_elem (n @ ''.tmp'')" by (auto simp: plain_elem_def)
    have ct: "comps (abs_path ?t) = ?t" using dir pe by simp
    have jn: "join2 (abs_path ?t) n = abs_path (?t @ [n])"
      using join2_plain_path [OF _ n, of "abs_path ?t"] ct by simp
    have jt: "abs_path (?t @ [n]) @ ''.tmp'' = abs_path (?t @ [n @ ''.tmp''])"
      by (rule abs_path_append)
    have "comps (abs_path (?t @ [n])) \<in> ?T" "comps (abs_path (?t @ [n @ ''.tmp''])) \<in> ?T"
      using dir pe n n' by (auto simp: below_def)
    with up show ?thesis unfolding jn by (intro stays_write_file) (simp_all only: jt rooted_abs_path)
  qed
  have ra: "stays ?T (on_fs (os_remove_all (abs_path ?c)))" "stays ?T (on_fs (os_remove_all (abs_path ?t)))"
    by (intro stays_on_fs, rule files_but_mono [OF files_but_remove_all], assumption,
        simp add: pl below_def)+
  have mk: "stays ?T (on_fs (os_mkdir_all (abs_path ?t)))"
    by (intro stays_on_fs, rule files_but_mono [OF files_but_mkdir], assumption) simp
  have rn: "stays ?T (on_fs (os_rename (abs_path ?t) (abs_path ?c)))"
    by (intro stays_on_fs, rule files_but_mono [OF files_but_rename], assumption)
       (auto simp: pl below_def)
  show ?thesis
    unfolding save_compose_def j t Let_def
    by (intro stays_abnd stays_ahandle ra mk rn stays_write_all wr stays_pure)
qed

lemma write_file_content:
  assumes "write_file path c w = (r, w')" "rooted path" "rooted (path @ ''.tmp'')"
    "comps (path @ ''.tmp'') \<noteq> comps path" "\<not> prefix (comps (path @ ''.tmp'')) (comps path)"
  shows "file_part (fnode (fs w') (comps path)) = file_part (fnode (fs w) (comps path)) \<and> (\<exists>e. r = Inl e)
    \<or> file_part (fnode (fs w') (comps path)) = Some c \<and> r = Inr ()"
proof -
  have pl: "place s path = comps path" "place s (path @ ''.tmp'') = comps (path @ ''.tmp'')" for s
    using assms(2,3) by (simp_all add: place_def)
  obtain r1 s1 where wr: "os_write_file (path @ ''.tmp'') c 420 (fs w) = (r1, s1)" by force
  have same: "file_part (fnode s1 (comps path)) = file_part (fnode (fs w) (comps path))"
    using files_but_write [OF wr] assms(4) by (simp add: files_but_def pl)
  show ?thesis
  proof (cases r1)
    case (Inl e)
    with assms(1) wr same show ?thesis
      by (auto simp: write_file_def abnd_def ahandle_def on_fs_def)
  next
    case (Inr u)
    obtain m where tmp: "fnode s1 (place s1 (path @ ''.tmp'')) = Some (File c m)"
      using os_write_file_Inr [OF wr [unfolded Inr]] by (auto simp: pl)
    obtain r2 s2 where rn: "os_rename (path @ ''.tmp'') path s1 = (r2, s2)" by force
    show ?thesis
    proof (cases r2)
      case (Inl e)
      with os_rename_Inl [of "path @ ''.tmp''" path s1 e s2] rn same assms(1) wr \<open>r1 = Inr u\<close>
      show ?thesis by (auto simp: write_file_def abnd_def ahandle_def on_fs_def)
    next
      case (Inr u2)
      from os_rename_file(1) [OF rn [unfolded Inr] tmp] assms(1) wr rn \<open>r1 = Inr u\<close> Inr
      show ?thesis by (auto simp: write_file_def abnd_def ahandle_def on_fs_def pl file_part_def)
    qed
  qed
qed

section \<open>Properties\<close>

text \<open>
  C36. State declarations: a manifest's list is accepted exactly when it declares each of the four
  kinds once and nothing else, in any order.
\<close>

theorem validate_state_iff:
  "validate_state ks = Inr () \<longleftrightarrow> distinct ks \<and> set ks = set AllStateKinds"
proof -
  have len: "length ks = length AllStateKinds \<longleftrightarrow> card (set ks) = 4" if "distinct ks"
    using distinct_card [OF that] by (simp add: AllStateKinds_def numeral_eq_Suc)
  have four: "card (set AllStateKinds) = 4" by (simp add: AllStateKinds_def)
  have eq: "set AllStateKinds \<subseteq> set ks \<and> card (set ks) = 4 \<longleftrightarrow> set ks = set AllStateKinds"
    using four card_subset_eq [of "set ks" "set AllStateKinds"] by auto
  show ?thesis
  proof (cases "distinct ks")
    case False
    then show ?thesis
      using state_seen_Inr [of ks "{}"]
      by (cases "state_seen ks {}") (auto simp: validate_state_def)
  next
    case True
    then have s: "state_seen ks {} = Inr (set ks)" by (simp add: state_seen_Inr)
    have f: "filter (\<lambda>k. k \<notin> set ks) AllStateKinds = [] \<longleftrightarrow> set AllStateKinds \<subseteq> set ks"
      by (auto simp: filter_empty_conv)
    show ?thesis
      unfolding validate_state_def s sum.case
      using f len [OF True] eq True
      by (cases "filter (\<lambda>k. k \<notin> set ks) AllStateKinds") auto
  qed
qed

text \<open>
  C28. Ports of an accepted manifest: every resolved port is a TCP port, and a named bundle's public
  web port, the one its URLs carry, is 443 unless the operator stated it.
\<close>

theorem valid_manifest_ports:
  assumes "validate m = Inr ()"
  shows "git_ssh_port m \<in> {1..65535} \<and> web_port m \<in> {1..65535} \<and> public_web_port m \<in> {1..65535} \<and>
    (named m \<longrightarrow> PublicWebPort m = 0 \<longrightarrow> public_url m = ''https://'' @ trim_space (Domain m) @ ''/'')"
  using validate_Inr(3,4) [OF assms] git_ssh_port_range [of m] validate_web_ports_Inr [of m]
  by (auto simp: web_port_def public_web_port_def DefaultNamedWebPort_def DefaultNamelessWebPort_def
      maxPort_def public_url_def public_url_at_def web_url_def web_scheme_def standardHTTPSPort_def Let_def)

definition sample_manifest :: manifest where
  "sample_manifest = (new_manifest ''git.example.com''
     [(''forge'', ''forge@sha256:0123456789abcdef0123456789abcdef0123456789abcdef0123456789abcdef'')]
     \<lparr>dc_keystore = \<lparr>dr_driver = ''file'', dr_config = (\<lambda>_. None)\<rparr>,
      dc_dns = \<lparr>dr_driver = '''', dr_config = (\<lambda>_. None)\<rparr>,
      dc_blob = \<lparr>dr_driver = ''local'', dr_config = (\<lambda>_. None)\<rparr>\<rparr>
     \<lparr>ac_provider = ''manual'', ac_email = '''', ac_directory = ''''\<rparr>)"

lemma sample_manifest_valid: "validate sample_manifest = Inr ()"
  by code_simp

lemma valid_manifest_ports_witness:
  "git_ssh_port sample_manifest \<in> {1..65535} \<and> public_url sample_manifest = ''https://git.example.com/''"
proof -
  have n: "named sample_manifest" "PublicWebPort sample_manifest = 0"
    "trim_space (Domain sample_manifest) = ''git.example.com''"
    by code_simp+
  from valid_manifest_ports [OF sample_manifest_valid] show ?thesis using n by simp
qed

text \<open>
  C22. Saving a bundle replaces the manifest atomically: whatever fails on the way, the manifest file
  afterwards holds what it held before, or, when the save reports success, the whole new manifest; and
  an invalid manifest is refused with nothing touched.
\<close>

theorem save_manifest_atomic:
  assumes "is_abs dir" "\<forall>x\<in>set (b_compose b). plain_elem (fst x)"
    "bundle_save marshal b dir w = (r, w')"
  shows "let f = (\<lambda>v. file_part (fnode (fs v) (place (fs v) (join2 dir ManifestFile))))
    in (r = Inr () \<longrightarrow> (\<exists>raw. validate (b_manifest b) = Inr () \<and> marshal (b_manifest b) = Inr raw \<and> f w' = Some raw))
     \<and> (r \<noteq> Inr () \<longrightarrow> f w' = f w) \<and> (validate (b_manifest b) \<noteq> Inr () \<longrightarrow> w' = w)"
proof -
  have rd: "rooted dir" using assms(1) by (simp add: is_abs_def)
  have dir: "\<forall>e\<in>set (comps dir). plain_elem e" by (simp add: comps_plain)
  let ?m = "comps dir @ [''farrier.yaml'']" and ?t = "comps dir @ [''farrier.yaml.tmp'']"
  have pe: "plain_elem ''farrier.yaml''" "plain_elem ''farrier.yaml.tmp''" by (simp_all add: plain_elem_def)
  have j: "join2 dir ManifestFile = abs_path ?m"
    using join2_plain_path [OF rd pe(1)] by (simp add: ManifestFile_def)
  have t: "abs_path ?m @ ''.tmp'' = abs_path ?t" by (simp add: abs_path_append)
  have cm: "comps (abs_path ?m) = ?m" "comps (abs_path ?t) = ?t" using dir pe by simp_all
  have pl: "place s (abs_path ?m) = ?m" for s using cm by (simp add: place_def)
  let ?f = "\<lambda>v. file_part (fnode (fs v) ?m)"
  show ?thesis
  proof (cases "validate (b_manifest b) = Inr () \<and> b_compose b \<noteq> [] \<and> (\<exists>raw. marshal (b_manifest b) = Inr raw)")
    case False
    then show ?thesis
      using assms(3) by (cases "validate (b_manifest b)"; cases "marshal (b_manifest b)")
        (auto simp: bundle_save_def abnd_def ahandle_def split: if_splits)
  next
    case True
    then obtain raw where raw: "marshal (b_manifest b) = Inr raw" by blast
    obtain r1 w1 where sc: "save_compose (join2 dir ComposeDir) (b_compose b) w = (r1, w1)" by force
    from staysD [OF save_compose_stays [OF rd assms(2)] sc]
    have keep: "?f w1 = ?f w" by (auto simp: files_but_def below_def)
    show ?thesis
    proof (cases r1)
      case (Inl e)
      with assms(3) True raw sc keep show ?thesis
        by (auto simp: bundle_save_def abnd_def ahandle_def j pl Let_def)
    next
      case (Inr u)
      with assms(3) True raw sc have wf: "write_file (abs_path ?m) raw w1 = (r, w')"
        by (simp add: bundle_save_def abnd_def ahandle_def j)
      have "?f w' = ?f w1 \<and> (\<exists>e. r = Inl e) \<or> ?f w' = Some raw \<and> r = Inr ()"
        using write_file_content [OF wf] unfolding t cm by simp
      with True raw keep show ?thesis unfolding j pl Let_def by auto
    qed
  qed
qed

definition sample_bundle :: bundle_data where
  "sample_bundle = \<lparr>b_manifest = sample_manifest, b_compose = [(''docker-compose.yml'', ''services'')]\<rparr>"

lemma save_manifest_atomic_witness:
  "file_part (fnode (fs (snd (bundle_save (\<lambda>m. Inr ''raw'') sample_bundle ''/k'' sample_world)))
     [''k'', ''farrier.yaml'']) = Some ''raw''"
proof -
  let ?run = "bundle_save (\<lambda>m. Inr ''raw'') sample_bundle ''/k'' sample_world"
  have ok: "fst ?run = Inr ()" by code_simp
  have h: "is_abs ''/k''" "\<forall>x\<in>set (b_compose sample_bundle). plain_elem (fst x)"
    by (simp_all add: is_abs_def sample_bundle_def plain_elem_def)
  have pl: "place s (join2 ''/k'' ManifestFile) = [''k'', ''farrier.yaml'']" for s
  proof -
    have "rooted (join2 ''/k'' ManifestFile)" "comps (join2 ''/k'' ManifestFile) = [''k'', ''farrier.yaml'']"
      by code_simp+
    then show ?thesis by (simp add: place_def)
  qed
  have "?run = (fst ?run, snd ?run)" by simp
  from save_manifest_atomic [OF h this] ok show ?thesis by (auto simp: Let_def pl)
qed

lemma label_chars:
  "domain_label l \<Longrightarrow> list_all (\<lambda>c. is_alnum c \<or> c = CHR ''-'') l"
  "top_label l \<Longrightarrow> list_all (\<lambda>c. is_alnum c \<or> c = CHR ''-'') l"
  by (auto simp: domain_label_def top_label_def is_alnum_def list_all_iff)

text \<open>
  A name accepted by the front-door check is safe to interpolate: it consists of letters, digits,
  hyphens and dots, so it carries no separator of a URL, a Caddyfile or a configuration line, and it
  has at least two labels.
\<close>

theorem valid_domain_characters:
  assumes "validate_domain d = Inr ()"
  shows "list_all (\<lambda>c. is_alnum c \<or> c = CHR ''-'' \<or> c = CHR ''.'') (trim_space d) \<and>
    CHR ''.'' \<in> set (trim_space d)"
proof -
  let ?d = "trim_space d" and ?ls = "split_on CHR ''.'' (trim_space d)"
  have p: "2 \<le> length ?ls" "list_all domain_label (butlast ?ls)" "top_label (last ?ls)"
  proof -
    have "domain_pattern ?d"
      using assms by (simp add: validate_domain_def Let_def split: if_splits)
    then show "2 \<le> length ?ls" "list_all domain_label (butlast ?ls)" "top_label (last ?ls)"
      by (simp_all only: domain_pattern_def Let_def)
  qed
  have ok: "list_all (\<lambda>c. is_alnum c \<or> c = CHR ''-'') l" if "l \<in> set ?ls" for l
  proof -
    obtain xs x where x: "?ls = xs @ [x]" by (metis rev_exhaust split_on_ne)
    from that have "l \<in> set (butlast ?ls) \<or> l = last ?ls" unfolding x by auto
    then show ?thesis
        using p(2,3) label_chars unfolding list_all_iff by blast
  qed
  have chars: "set (join [s] ws) \<subseteq> insert s (\<Union>(set ` set ws))" for s :: char and ws
  proof (induction ws)
    case (Cons w ws)
    then show ?case by (cases ws) auto
  qed simp
  have "list_all (\<lambda>c. is_alnum c \<or> c = CHR ''-'' \<or> c = CHR ''.'') ?d"
  proof -
    have "set ?d \<subseteq> insert CHR ''.'' (\<Union>(set ` set ?ls))"
      using chars [of "CHR ''.''" ?ls] by (simp only: join_split_on)
    then show ?thesis using ok unfolding list_all_iff by blast
  qed
  moreover have "CHR ''.'' \<in> set ?d"
  proof (rule ccontr)
    assume "CHR ''.'' \<notin> set ?d"
    then have "?ls = [?d]" by (rule split_on_notin)
    with p(1) show False by (simp only: list.size)
  qed
  ultimately show ?thesis by simp
qed

lemma valid_domain_characters_witness: "CHR ''.'' \<in> set (trim_space '' git.example.com'')"
proof -
  have "validate_domain '' git.example.com'' = Inr ()" by code_simp
  from valid_domain_characters [OF this] show ?thesis by blast
qed

end
