(* ===== verification/Codec.thy ===== *)
theory Codec
  imports Prelude "HOL-Library.Word"
begin

text \<open>
  The standard-library codecs the core computes with: base64 (\<open>encoding/base64\<close>, standard alphabet with
  padding), lower-case hexadecimal, SHA-256 (\<open>crypto/sha256\<close>) over 32-bit words, the POSIX shell quoting
  the packages write commands with, and UTC calendar formatting of a Unix time (\<open>time.Time.Format\<close>).
  Base64 is shown to round-trip and shell quoting to be read back by a POSIX shell's single-quote rules.
\<close>

unbundle bit_operations_syntax

section \<open>Base64\<close>

definition b64_char :: "nat \<Rightarrow> char" where
  "b64_char n = char_of (if n < 26 then n + 65 else if n < 52 then n + 71 else if n < 62 then n - 4
     else if n = 62 then 43 else 47)"

fun b64_encode :: "string \<Rightarrow> string" where
  "b64_encode [] = []"
| "b64_encode [a] =
     (let n = of_char a * 16
      in [b64_char (n div 64), b64_char (n mod 64), CHR ''='', CHR ''=''])"
| "b64_encode [a, b] =
     (let n = (of_char a * 256 + of_char b) * 4
      in [b64_char (n div 4096), b64_char (n div 64 mod 64), b64_char (n mod 64), CHR ''=''])"
| "b64_encode (a # b # c # s) =
     (let n = (of_char a * 256 + of_char b) * 256 + of_char c
      in [b64_char (n div 262144), b64_char (n div 4096 mod 64), b64_char (n div 64 mod 64),
          b64_char (n mod 64)] @ b64_encode s)"

definition b64_value :: "char \<Rightarrow> nat option" where
  "b64_value c = (let n = of_char c in
     if 65 \<le> n \<and> n \<le> 90 then Some (n - 65) else if 97 \<le> n \<and> n \<le> 122 then Some (n - 71)
     else if 48 \<le> n \<and> n \<le> 57 then Some (n + 4) else if n = 43 then Some 62
     else if n = 47 then Some 63 else None)"

text \<open>\<open>DecodeString\<close>: line breaks are skipped before the quanta are read; trailing bits are ignored.\<close>

fun b64_quanta :: "string \<Rightarrow> string option" where
  "b64_quanta [] = Some []"
| "b64_quanta [a, b, c, d] =
     (case (b64_value a, b64_value b) of
        (Some x, Some y) \<Rightarrow>
          (case (b64_value c, b64_value d) of
             (Some z, Some t) \<Rightarrow>
               (let n = ((x * 64 + y) * 64 + z) * 64 + t
                in Some [char_of (n div 65536), char_of (n div 256), char_of n])
           | (Some z, None) \<Rightarrow>
               (if d = CHR ''=''
                then (let n = (x * 64 + y) * 64 + z in Some [char_of (n div 1024), char_of (n div 4)])
                else None)
           | (None, _) \<Rightarrow>
               (if c = CHR ''='' \<and> d = CHR ''='' then Some [char_of ((x * 64 + y) div 16)] else None))
      | _ \<Rightarrow> None)"
| "b64_quanta (a # b # c # d # s) =
     (case (b64_value a, b64_value b, b64_value c, b64_value d) of
        (Some x, Some y, Some z, Some t) \<Rightarrow>
          (let n = ((x * 64 + y) * 64 + z) * 64 + t
           in map_option (\<lambda>r. char_of (n div 65536) # char_of (n div 256) # char_of n # r) (b64_quanta s))
      | _ \<Rightarrow> None)"
| "b64_quanta s = None"

definition b64_decode :: "string \<Rightarrow> string option" where
  "b64_decode s = b64_quanta (filter (\<lambda>c. c \<noteq> CHR 0x0A \<and> c \<noteq> CHR 0x0D) s)"

section \<open>Hexadecimal and SHA-256\<close>

definition hex_byte :: "nat \<Rightarrow> string" where
  "hex_byte n = [hex_digit (n div 16), hex_digit (n mod 16)]"

definition hex_encode :: "string \<Rightarrow> string" where
  "hex_encode s = concat (map (\<lambda>c. hex_byte (of_char c)) s)"

type_synonym w32 = "32 word"

definition rotr :: "nat \<Rightarrow> w32 \<Rightarrow> w32" where
  "rotr n x = word_rotr n x"

text \<open>
  The round constants are the first thirty-two fractional bits of the cube roots of the first sixty-four
  primes, the initial state those of the square roots of the first eight: \<open>root_from j k n r\<close> extends the
  root \<open>r\<close> of \<open>n\<close> bit by bit from bit \<open>j - 1\<close> down.
\<close>

fun root_from :: "nat \<Rightarrow> nat \<Rightarrow> nat \<Rightarrow> nat \<Rightarrow> nat" where
  "root_from 0 k n r = r"
| "root_from (Suc j) k n r = root_from j k n (if (r + 2 ^ j) ^ k \<le> n then r + 2 ^ j else r)"

definition small_primes :: "nat list" where
  "small_primes = filter (\<lambda>p. list_all (\<lambda>d. p mod d \<noteq> 0) [2..<p]) [2..<312]"

definition root_fraction :: "nat \<Rightarrow> nat \<Rightarrow> w32" where
  "root_fraction k p = of_nat (root_from 40 k (p * 2 ^ (32 * k)) 0)"

definition sha_k :: "w32 list" where
  "sha_k = map (root_fraction 3) small_primes"

definition sha_init :: "w32 list" where
  "sha_init = map (root_fraction 2) (take 8 small_primes)"

definition sha_pad :: "nat list \<Rightarrow> nat list" where
  "sha_pad bs =
     (let n = length bs; z = (119 - n mod 64) mod 64; bits = 8 * n
      in bs @ 128 # replicate z 0 @ map (\<lambda>i. bits div 256 ^ (7 - i) mod 256) [0..<8])"

fun be_words :: "nat list \<Rightarrow> w32 list" where
  "be_words (a # b # c # d # bs) = of_nat (((a * 256 + b) * 256 + c) * 256 + d) # be_words bs"
| "be_words _ = []"

text \<open>The schedule is built newest first: of the last sixteen words, the ones 2, 7, 15 and 16 back.\<close>

fun sha_extend :: "nat \<Rightarrow> w32 list \<Rightarrow> w32 list" where
  "sha_extend 0 ws = ws"
| "sha_extend (Suc n) ws =
     (let s0 = rotr 7 (ws ! 14) XOR rotr 18 (ws ! 14) XOR drop_bit 3 (ws ! 14);
          s1 = rotr 17 (ws ! 1) XOR rotr 19 (ws ! 1) XOR drop_bit 10 (ws ! 1)
      in sha_extend n ((ws ! 15 + s0 + ws ! 6 + s1) # ws))"

fun sha_round :: "w32 list \<Rightarrow> w32 \<times> w32 \<Rightarrow> w32 list" where
  "sha_round [a, b, c, d, e, f, g, h] (k, w) =
     (let s1 = rotr 6 e XOR rotr 11 e XOR rotr 25 e;
          ch = (e AND f) XOR (NOT e AND g);
          t1 = h + s1 + ch + k + w;
          s0 = rotr 2 a XOR rotr 13 a XOR rotr 22 a;
          maj = (a AND b) XOR (a AND c) XOR (b AND c);
          t2 = s0 + maj
      in [t1 + t2, a, b, c, d + t1, e, f, g])"
| "sha_round st kw = st"

definition sha_block :: "w32 list \<Rightarrow> w32 list \<Rightarrow> w32 list" where
  "sha_block st blk =
     map2 (+) st (foldl sha_round st (zip sha_k (rev (sha_extend 48 (rev blk)))))"

fun sha_blocks :: "nat \<Rightarrow> w32 list \<Rightarrow> w32 list \<Rightarrow> w32 list" where
  "sha_blocks 0 st ws = st"
| "sha_blocks (Suc n) st ws = sha_blocks n (sha_block st (take 16 ws)) (drop 16 ws)"

definition word_hex :: "w32 \<Rightarrow> string" where
  "word_hex w = concat (map (\<lambda>i. hex_byte (unat w div 256 ^ (3 - i) mod 256)) [0..<4])"

definition sha256_hex :: "string \<Rightarrow> string" where
  "sha256_hex s =
     (let bs = sha_pad (map of_char s)
      in concat (map word_hex (sha_blocks (length bs div 64) sha_init (be_words bs))))"

section \<open>Shell quoting\<close>

definition squote :: char where "squote = CHR 0x27"

definition shell_quote :: "string \<Rightarrow> string" where
  "shell_quote s =
     squote # replace_all [squote] [squote, CHR 0x5C, squote, squote] s @ [squote]"

text \<open>
  How a POSIX shell reads one word of single-quoted spans and backslash-escaped characters; \<open>None\<close> when
  the text is not a single such word.
\<close>

fun shell_read :: "bool \<Rightarrow> string \<Rightarrow> string option" where
  "shell_read quoted [] = (if quoted then None else Some [])"
| "shell_read True (c # s) =
     (if c = squote then shell_read False s else map_option ((#) c) (shell_read True s))"
| "shell_read False [c] = (if c = squote then None else None)"
| "shell_read False (c # d # s) =
     (if c = squote then shell_read True (d # s)
      else if c = CHR 0x5C then map_option ((#) d) (shell_read False s)
      else None)"

section \<open>Calendar\<close>

text \<open>The civil date of a day number since 1970-01-01 (proleptic Gregorian calendar).\<close>

definition civil :: "int \<Rightarrow> int \<times> int \<times> int" where
  "civil day =
     (let z = day + 719468; era = z div 146097; doe = z mod 146097;
          yoe = (doe - doe div 1460 + doe div 36524 - doe div 146096) div 365;
          doy = doe - (365 * yoe + yoe div 4 - yoe div 100);
          mp = (5 * doy + 2) div 153;
          d = doy - (153 * mp + 2) div 5 + 1;
          m = (if mp < 10 then mp + 3 else mp - 9)
      in (yoe + era * 400 + (if m \<le> 2 then 1 else 0), m, d))"

definition pad_num :: "nat \<Rightarrow> int \<Rightarrow> string" where
  "pad_num n i = (let s = int_str i in replicate (n - length s) CHR ''0'' @ s)"

text \<open>\<open>t.UTC().Format("20060102T150405Z")\<close> of a time in nanoseconds.\<close>

definition format_stamp :: "int \<Rightarrow> string" where
  "format_stamp ns =
     (let secs = ns div 1000000000; tod = secs mod 86400
      in (case civil (secs div 86400) of (y, m, d) \<Rightarrow>
           pad_num 4 y @ pad_num 2 m @ pad_num 2 d @ ''T'' @ pad_num 2 (tod div 3600)
           @ pad_num 2 (tod div 60 mod 60) @ pad_num 2 (tod mod 60) @ ''Z''))"

text \<open>\<open>time.Duration.String\<close>: nanoseconds in the largest units, the fraction without trailing zeros.\<close>

definition fraction :: "nat \<Rightarrow> nat \<Rightarrow> string" where
  "fraction prec v =
     (let f = rev (dropWhile (\<lambda>c. c = CHR ''0'') (rev (pad_num prec (int v))))
      in if v = 0 then '''' else CHR ''.'' # f)"

definition duration_abs :: "nat \<Rightarrow> string" where
  "duration_abs u =
     (if u = 0 then ''0s''
      else if u < 1000 then nat_str u @ ''ns''
      else if u < 1000000 then nat_str (u div 1000) @ fraction 3 (u mod 1000) @ [CHR 0xC2, CHR 0xB5] @ ''s''
      else if u < 1000000000 then nat_str (u div 1000000) @ fraction 6 (u mod 1000000) @ ''ms''
      else (let secs = u div 1000000000; frac = fraction 9 (u mod 1000000000);
                s = nat_str (secs mod 60) @ frac @ ''s''
            in if secs < 60 then s
               else if secs < 3600 then nat_str (secs div 60) @ ''m'' @ s
               else nat_str (secs div 3600) @ ''h'' @ nat_str (secs div 60 mod 60) @ ''m'' @ s))"

definition duration_str :: "int \<Rightarrow> string" where
  "duration_str d = (if d < 0 then ''-'' @ duration_abs (nat (- d)) else duration_abs (nat d))"

section \<open>Facts\<close>

lemma of_char_less_256: "of_char (c :: char) < (256 :: nat)"
  by simp


lemma replace_all_single:
  "replace_all [c] new s = concat (map (\<lambda>x. if x = c then new else [x]) s)"
proof (induction s)
  case Nil
  then show ?case by (subst replace_all.simps) simp
next
  case (Cons x s)
  then show ?case by (subst replace_all.simps) auto
qed

lemma shell_read_open: "t \<noteq> [] \<Longrightarrow> shell_read False (squote # t) = shell_read True t"
  by (cases t) (simp_all add: squote_def)

lemma shell_read_quoted:
  "shell_read True (concat (map (\<lambda>x. if x = squote then [squote, CHR 0x5C, squote, squote] else [x]) s)
     @ [squote]) = Some s"
proof (induction s)
  case (Cons x s)
  then show ?case
    by (cases "x = squote") (simp_all add: shell_read_open, simp add: squote_def)
qed (simp add: squote_def)

text \<open>A POSIX shell reads a quoted string back as one word, whatever bytes it holds.\<close>

lemma shell_read_shell_quote: "shell_read False (shell_quote s) = Some s"
  unfolding shell_quote_def replace_all_single
  by (simp add: shell_read_open shell_read_quoted)

lemma b64_value_char: "n < 64 \<Longrightarrow> b64_value (b64_char n) = Some n"
  by (auto simp: b64_value_def b64_char_def Let_def)

lemma b64_char_plain: "n < 64 \<Longrightarrow> b64_char n \<noteq> CHR 0x0A \<and> b64_char n \<noteq> CHR 0x0D"
  by (auto simp: b64_char_def char_of_eq_iff take_bit_eq_mod)

lemma b64_value_pad [simp]: "b64_value CHR ''='' = None"
  by (simp add: b64_value_def)

lemma b64_quad:
  assumes "b64_value a = Some x" "b64_value b = Some y" "b64_value c = Some z" "b64_value d = Some t"
  shows "b64_quanta (a # b # c # d # s) =
    (let n = ((x * 64 + y) * 64 + z) * 64 + t
     in map_option (\<lambda>r. char_of (n div 65536) # char_of (n div 256) # char_of n # r) (b64_quanta s))"
  using assms by (cases s) (simp_all add: Let_def)

lemma char_of_modI: "n mod 256 = of_char c \<Longrightarrow> char_of n = c" for n :: nat
  by (metis char_of_char char_of_mod_256)

lemma small_sextets:
  "x < 256 \<Longrightarrow> x * 16 div 64 < 64" "x < 256 \<Longrightarrow> y < 256 \<Longrightarrow> (x * 256 + y) * 4 div 4096 < 64"
  "x < 256 \<Longrightarrow> y < 256 \<Longrightarrow> z < 256 \<Longrightarrow> ((x * 256 + y) * 256 + z) div 262144 < 64" for x y z :: nat
  by simp_all

lemmas sextets = small_sextets [OF of_char_less_256] small_sextets(2) [OF of_char_less_256 of_char_less_256]
  small_sextets(3) [OF of_char_less_256 of_char_less_256 of_char_less_256]

lemma bytes:
  "y < 256 \<Longrightarrow> z < 256 \<Longrightarrow> ((x * 256 + y) * 256 + z) div 65536 = x"
  "z < 256 \<Longrightarrow> ((x * 256 + y) * 256 + z) div 256 = x * 256 + y" for x y z :: nat
  by (auto intro!: div_nat_eqI)

lemma six_bits: "((n div 262144) * 64 + n div 4096 mod 64) * 64 + n div 64 mod 64 = n div 64"
  "(n div 4096) * 64 + n div 64 mod 64 = n div 64" "(n div 64) * 64 + n mod 64 = n" for n :: nat
proof -
  show a: "(n div 4096) * 64 + n div 64 mod 64 = n div 64"
    using div_mult_mod_eq [of "n div 64" 64] by (simp add: div_mult2_eq [of n 64 64, simplified])
  have "(n div 262144) * 64 + n div 4096 mod 64 = n div 4096"
    using div_mult_mod_eq [of "n div 4096" 64] by (simp add: div_mult2_eq [of n 4096 64, simplified])
  with a show "((n div 262144) * 64 + n div 4096 mod 64) * 64 + n div 64 mod 64 = n div 64" by simp
qed simp

lemma b64_roundtrip: "b64_quanta (b64_encode s) = Some s"
proof (induction s rule: b64_encode.induct)
  case (2 a)
  let ?n = "of_char a * 16 :: nat"
  have n: "?n div 64 < 64" "?n mod 64 < 64" by (rule sextets) simp
  have q: "b64_quanta [b64_char x, b64_char y, CHR ''='', CHR ''=''] = Some [char_of ((x * 64 + y) div 16)]"
    if "x < 64" "y < 64" for x y
    using that by (simp add: b64_value_char)
  have e: "?n div 64 * 64 + ?n mod 64 = ?n" by (simp only: six_bits)
  show ?case
    unfolding b64_encode.simps Let_def q [OF n] e by (simp add: char_of_modI)
next
  case (3 a b)
  let ?n = "(of_char a * 256 + of_char b) * 4 :: nat"
  have n: "?n div 4096 < 64" "?n div 64 mod 64 < 64" "?n mod 64 < 64"
    by (rule sextets, simp_all)
  have e: "(?n div 4096 * 64 + ?n div 64 mod 64) * 64 + ?n mod 64 = ?n" by (simp only: six_bits)
  show ?case
    unfolding b64_encode.simps Let_def
    using n e by (simp add: b64_value_char Let_def char_of_modI)
next
  case (4 a b c s)
  let ?n = "(of_char a * 256 + of_char b) * 256 + of_char c :: nat"
  have n: "?n div 262144 < 64" "?n div 4096 mod 64 < 64" "?n div 64 mod 64 < 64" "?n mod 64 < 64"
    by (rule sextets, simp_all)
  have e: "((?n div 262144 * 64 + ?n div 4096 mod 64) * 64 + ?n div 64 mod 64) * 64 + ?n mod 64 = ?n"
    by (simp only: six_bits)
  have c: "char_of (?n div 65536) = a" "char_of (?n div 256) = b" "char_of ?n = c"
  proof -
    have "?n div 65536 = of_char a" "?n div 256 = of_char a * 256 + of_char b"
      using of_char_less_256 [of b] of_char_less_256 [of c] by (intro bytes; simp)+
    moreover have "?n mod 256 = of_char c" by (subst mod_mult_self3) simp
    ultimately show "char_of (?n div 65536) = a" "char_of (?n div 256) = b" "char_of ?n = c"
      by (simp_all add: char_of_modI)
  qed
  show ?case
    unfolding b64_encode.simps Let_def append.simps
    using 4 n e c by (simp add: b64_quad b64_value_char Let_def)
qed simp

lemma b64_encode_plain: "c \<in> set (b64_encode s) \<Longrightarrow> c \<noteq> CHR 0x0A \<and> c \<noteq> CHR 0x0D"
proof (induction s rule: b64_encode.induct)
  case (2 a)
  with sextets(1) [of a] show ?case by (auto simp: Let_def b64_char_plain simp del: div_mult_mult2)
next
  case (3 a b)
  with sextets(4) [of a b] show ?case by (auto simp: Let_def b64_char_plain)
next
  case (4 a b c' s)
  with sextets(5) [of a b c'] show ?case by (auto simp: Let_def b64_char_plain)
qed simp

lemma b64_decode_encode: "b64_decode (b64_encode s) = Some s"
proof -
  have "filter (\<lambda>c. c \<noteq> CHR 0x0A \<and> c \<noteq> CHR 0x0D) (b64_encode s) = b64_encode s"
    using b64_encode_plain by (simp add: filter_id_conv)
  then show ?thesis by (simp add: b64_decode_def b64_roundtrip)
qed

lemma b64_char_no_space: "n < 64 \<Longrightarrow> \<forall>q\<in>set space_seqs. b64_char n \<notin> set q"
proof -
  have "\<forall>n\<in>set [0..<64]. \<forall>q\<in>set space_seqs. b64_char n \<notin> set q" by code_simp
  then show "n < 64 \<Longrightarrow> ?thesis" by simp
qed

lemma b64_encode_not_blank: "s \<noteq> '''' \<Longrightarrow> \<not> blank (b64_encode s)"
proof (induction s rule: b64_encode.induct)
  case (2 a)
  then show ?case unfolding b64_encode.simps Let_def by (intro not_blank_Cons b64_char_no_space sextets)
next
  case (3 a b)
  then show ?case unfolding b64_encode.simps Let_def by (intro not_blank_Cons b64_char_no_space sextets)
next
  case (4 a b c s)
  then show ?case
    unfolding b64_encode.simps Let_def append.simps by (intro not_blank_Cons b64_char_no_space sextets)
qed simp

end
