(* ===== verification/Snapshot.thy ===== *)
theory Snapshot
  imports Manifest Codec "HOL-Library.Multiset"
begin

text \<open>
  The snapshot side of \<open>internal/core/backup\<close>: the snapshot manifest, the checksummed files it lists
  (\<open>checksum.go\<close>, \<open>manifest.go\<close>), verification (\<open>verify.go\<close>), the archive's unpacking
  (\<open>orchestrate.go\<close>) and packing (\<open>git.go\<close>), and the destination's lookups (\<open>destination.go\<close>).
  Encryption (age), the tar and JSON codecs and the SQLite engine are the parameters of \<open>codec\<close>.
\<close>

section \<open>Parameters\<close>

text \<open>
  A database as the SQL driver shows it: whether it opens, and per query either an error or its rows,
  each a scan error or its columns, with the error the iteration ends in.
\<close>

record dbview =
  db_ping :: "string option"
  db_query :: "string \<Rightarrow> string + (string + string list) list \<times> string option"

datatype tar_kind = TarDir | TarReg | TarOther

record tar_entry =
  te_name :: string
  te_kind :: tar_kind
  te_data :: reader

record component =
  Kind :: string
  Name :: string
  Path :: string
  Checksum :: string

record snapshot =
  ForgejoVersion :: string
  Timestamp :: int
  SnapAlgorithm :: string
  Components :: "component list"

record ('w, 'k) codec =
  age_encrypt :: "'k \<Rightarrow> string \<Rightarrow> error + string"
  age_decrypt :: "'k \<Rightarrow> reader \<Rightarrow> error + reader"
  age_parse :: "string \<Rightarrow> error + 'k"
  tar_encode :: "tar_entry list \<Rightarrow> string"
  tar_decode :: "reader \<Rightarrow> tar_entry list \<times> error option"
  json_encode :: "snapshot \<Rightarrow> error + string"
  json_decode :: "string \<Rightarrow> error + snapshot"
  sqlite :: "ctx \<Rightarrow> string \<Rightarrow> 'w world \<Rightarrow> dbview"

definition KindGit :: string where "KindGit = ''git''"
definition KindDatabase :: string where "KindDatabase = ''database''"
definition KindBlobs :: string where "KindBlobs = ''blobs''"
definition KindKeys :: string where "KindKeys = ''keys''"

definition databaseFile :: string where "databaseFile = ''db.sqlite''"
definition SnapshotManifestFile :: string where "SnapshotManifestFile = ''snapshot-manifest.json''"

section \<open>Files of a snapshot\<close>

definition write_checksummed :: "string \<Rightarrow> reader \<Rightarrow> ('w, string) act" where
  "write_checksummed dest r =
     abnd (ahandle (on_fs (os_mkdir_all (dir_of dest))) (\<lambda>e.
             afail (wrapf (''create directory for '' @ dest @ '': '') e))) (\<lambda>_.
     abnd (ahandle (on_fs (os_write_file dest '''' 384)) (\<lambda>e. afail (wrapf (''create '' @ dest @ '': '') e))) (\<lambda>_.
     (\<lambda>w. case copy_to dest r w of (cp, w1) \<Rightarrow>
           (case on_fs os_close w1 of (cl, w2) \<Rightarrow>
             (case cp of
                Inl e \<Rightarrow> (Inl (wrapf (''write '' @ dest @ '': '') e), w2)
              | Inr _ \<Rightarrow>
                  (case cl of
                     Inl e \<Rightarrow> (Inl (wrapf (''write '' @ dest @ '': '') e), w2)
                   | Inr _ \<Rightarrow> (Inr (sha256_hex (fst r)), w2)))))))"

definition write_manifest :: "('w, 'k) codec \<Rightarrow> string \<Rightarrow> snapshot \<Rightarrow> ('w, unit) act" where
  "write_manifest cd dir m =
     abnd (ahandle (asum (json_encode cd m)) (\<lambda>e. afail (wrapf ''backup: marshal manifest: '' e))) (\<lambda>data.
     ahandle (on_fs (os_write_file (join2 dir SnapshotManifestFile) data 384)) (\<lambda>e.
       afail (wrapf ''backup: write manifest: '' e)))"

definition read_manifest :: "('w, 'k) codec \<Rightarrow> string \<Rightarrow> ('w, snapshot) act" where
  "read_manifest cd dir =
     abnd (ahandle (on_fs (os_read_file (join2 dir SnapshotManifestFile))) (\<lambda>e.
             afail (wrapf ''backup: read manifest: '' e))) (\<lambda>data.
     ahandle (asum (json_decode cd data)) (\<lambda>e. afail (wrapf ''backup: parse manifest: '' e)))"

section \<open>Verification\<close>

record defect =
  dCheck :: string
  dSubject :: string
  dDetail :: string

definition defect_string :: "defect \<Rightarrow> string" where
  "defect_string d =
     (if dSubject d = '''' then dCheck d @ '': '' @ dDetail d
      else dCheck d @ '': '' @ dSubject d @ '': '' @ dDetail d)"

definition verify_error :: "defect list \<Rightarrow> error" where
  "verify_error ds =
     errorf (nat_str (length ds) @ '' defect(s) found: '' @ join ''; '' (map defect_string ds))"

definition mk_defect :: "string \<Rightarrow> string \<Rightarrow> string \<Rightarrow> defect" where
  "mk_defect c s d = \<lparr>dCheck = c, dSubject = s, dDetail = d\<rparr>"

definition verify_completeness :: "snapshot \<Rightarrow> string list \<Rightarrow> defect list" where
  "verify_completeness m keyNames =
     (let dbCount = length (filter (\<lambda>c. Kind c = KindDatabase) (Components m));
          haveKey = (\<lambda>k. list_ex (\<lambda>c. Kind c = KindKeys \<and> Name c = k) (Components m))
      in (if SnapAlgorithm m \<noteq> DefaultChecksumAlgorithm
          then [mk_defect ''completeness'' '''' (''manifest checksum algorithm is '' @ quote (SnapAlgorithm m)
                  @ '', want '' @ quote DefaultChecksumAlgorithm)] else [])
       @ (if dbCount \<noteq> 1
          then [mk_defect ''completeness'' '''' (''manifest has '' @ nat_str dbCount
                  @ '' database component(s), want exactly 1'')] else [])
       @ map (\<lambda>k. mk_defect ''completeness'' k ''key material missing from snapshot manifest'')
           (filter (\<lambda>k. \<not> haveKey k) keyNames))"

definition checksum_file :: "string \<Rightarrow> fsys \<Rightarrow> (error + string) \<times> fsys" where
  "checksum_file p s =
     (case os_open p s of
        (Inl e, s') \<Rightarrow> (Inl e, s')
      | (Inr (data, None), s') \<Rightarrow> (Inr (sha256_hex data), s')
      | (Inr (data, Some e), s') \<Rightarrow> (Inl e, s'))"

fun verify_checksums :: "string \<Rightarrow> component list \<Rightarrow> fsys \<Rightarrow> defect list \<times> fsys" where
  "verify_checksums dir [] s = ([], s)"
| "verify_checksums dir (c # cs) s =
     (case checksum_file (join2 dir (Path c)) s of (got, s1) \<Rightarrow>
       (case verify_checksums dir cs s1 of (ds, s2) \<Rightarrow>
         (case got of
            Inl e \<Rightarrow> (mk_defect ''checksum'' (Path c) (''read component: '' @ msg e) # ds, s2)
          | Inr g \<Rightarrow>
              (if g \<noteq> Checksum c
               then (mk_defect ''checksum'' (Path c) (''checksum mismatch: manifest says '' @ Checksum c
                       @ '', computed '' @ g) # ds, s2)
               else (ds, s2)))))"

definition has_refs :: "snapshot \<Rightarrow> string \<Rightarrow> bool" where
  "has_refs m full = list_ex (\<lambda>c. Kind c = KindGit \<and> suffix ''.refs.tar'' (Path c) \<and> Name c = full) (Components m)"

definition has_objects :: "snapshot \<Rightarrow> string \<Rightarrow> bool" where
  "has_objects m full = list_ex (\<lambda>c. Kind c = KindGit \<and> \<not> suffix ''.refs.tar'' (Path c)
     \<and> suffix ''.tar'' (Path c) \<and> Name c = full) (Components m)"

definition cc_defect :: "string \<Rightarrow> string \<Rightarrow> defect" where
  "cc_defect s d = mk_defect ''cross-consistency'' s d"

text \<open>The loop over a query's rows: what a row contributes, then the error of the iteration.\<close>

definition row_defects ::
    "string \<Rightarrow> (string list \<Rightarrow> defect list) \<Rightarrow> (string + string list) list \<times> string option \<Rightarrow> defect list" where
  "row_defects subject f rows =
     concat (map (\<lambda>r. case r of Inl e \<Rightarrow> [cc_defect subject (''scan row: '' @ e)] | Inr cols \<Rightarrow> f cols) (fst rows))
     @ (case snd rows of None \<Rightarrow> [] | Some e \<Rightarrow> [cc_defect subject (''iterate rows: '' @ e)])"

definition verify_repository_references :: "dbview \<Rightarrow> snapshot \<Rightarrow> defect list" where
  "verify_repository_references db m =
     (case db_query db ''SELECT owner_name, lower_name FROM repository'' of
        Inl e \<Rightarrow> [cc_defect ''repository'' (''query repository table: '' @ e)]
      | Inr rows \<Rightarrow> row_defects ''repository'' (\<lambda>cols.
          let full = cols ! 0 @ ''/'' @ cols ! 1
          in (if \<not> has_objects m full
              then [cc_defect full ''repository row has no matching captured object archive''] else [])
           @ (if \<not> has_refs m full
              then [cc_defect full ''repository row has no matching captured ref state''] else [])) rows)"

definition any_contains :: "string list \<Rightarrow> string \<Rightarrow> bool" where
  "any_contains names sub = list_ex (\<lambda>n. sublist sub n) names"

definition verify_blob_references :: "dbview \<Rightarrow> string \<Rightarrow> string \<Rightarrow> snapshot \<Rightarrow> defect list" where
  "verify_blob_references db table column m =
     (let blobNames = map Name (filter (\<lambda>c. Kind c = KindBlobs) (Components m))
      in case db_query db (''SELECT '' @ column @ '' FROM '' @ table) of
           Inl e \<Rightarrow> [cc_defect table (''query '' @ table @ '' table: '' @ e)]
         | Inr rows \<Rightarrow> row_defects table (\<lambda>cols.
             let i = cols ! 0
             in if i = '''' \<or> any_contains blobNames i then []
                else [cc_defect (table @ ''.'' @ column @ ''='' @ i) ''no captured blob matches this reference'']) rows)"

definition verify_cross_consistency :: "dbview \<Rightarrow> snapshot \<Rightarrow> defect list" where
  "verify_cross_consistency db m =
     (case db_ping db of
        Some e \<Rightarrow> [cc_defect databaseFile (''open captured database: '' @ e)]
      | None \<Rightarrow> verify_repository_references db m
          @ verify_blob_references db ''lfs_meta_object'' ''oid'' m
          @ verify_blob_references db ''attachment'' ''uuid'' m)"

definition verify ::
    "('w, 'k) codec \<Rightarrow> ctx \<Rightarrow> string \<Rightarrow> snapshot \<Rightarrow> string list \<Rightarrow> ('w, unit) act" where
  "verify cd c dir m keyNames = (\<lambda>w.
     case verify_checksums dir (Components m) (fs w) of (ds, s) \<Rightarrow>
       (let w' = w\<lparr>fs := s\<rparr>;
            defects = verify_completeness m keyNames @ ds
              @ verify_cross_consistency (sqlite cd c (join2 dir databaseFile) w') m
        in if defects = [] then (Inr (), w') else (Inl (verify_error defects), w')))"

section \<open>Archives\<close>

text \<open>
  \<open>untar\<close>: the entries the tar reader yields one after another, and how its stream ends.
\<close>

fun untar_loop :: "ctx \<Rightarrow> string \<Rightarrow> tar_entry list \<Rightarrow> error option \<Rightarrow> ('w, unit) act" where
  "untar_loop c root [] fin =
     abnd (ctx_check c) (\<lambda>_. case fin of None \<Rightarrow> aret () | Some e \<Rightarrow> afail e)"
| "untar_loop c root (h # hs) fin =
     abnd (ctx_check c) (\<lambda>_.
       let target = join2 root (te_name h)
       in if target \<noteq> root \<and> \<not> prefix (root @ [slash]) target
          then afail (errorf (''tar entry '' @ quote (te_name h) @ '' escapes destination''))
          else abnd
            (case te_kind h of
               TarDir \<Rightarrow> on_fs (os_mkdir_all target)
             | TarReg \<Rightarrow>
                 abnd (on_fs (os_mkdir_all (dir_of target))) (\<lambda>_.
                 abnd (on_fs (os_write_file target '''' 384)) (\<lambda>_.
                 (\<lambda>w. case copy_to target (te_data h) w of
                    (Inl e, w1) \<Rightarrow> (Inl e, snd (on_fs os_close w1))
                  | (Inr u, w1) \<Rightarrow> on_fs os_close w1)))
             | TarOther \<Rightarrow> aret ())
            (\<lambda>_. untar_loop c root hs fin))"

definition untar :: "('w, 'k) codec \<Rightarrow> ctx \<Rightarrow> reader \<Rightarrow> string \<Rightarrow> ('w, unit) act" where
  "untar cd c r destDir =
     (case tar_decode cd r of (hs, fin) \<Rightarrow> untar_loop c (clean destDir) hs fin)"

definition decrypt_archive :: "('w, 'k) codec \<Rightarrow> ctx \<Rightarrow> string \<Rightarrow> string \<Rightarrow> 'k \<Rightarrow> ('w, unit) act" where
  "decrypt_archive cd c archive destDir identity =
     abnd (on_fs (os_open archive)) (\<lambda>f.
     abnd (ahandle (asum (age_decrypt cd identity f)) (\<lambda>e. afail (wrapf ''age decrypt: '' e))) (\<lambda>r.
     untar cd c r destDir))"

text \<open>
  \<open>tarWalk\<close>: every node below \<open>start\<close> in the order a walk visits them, named relative to the root.
\<close>

fun walk_entries :: "ctx \<Rightarrow> nat \<Rightarrow> string list list \<Rightarrow> ('w, tar_entry list) act" where
  "walk_entries c n [] = aret []"
| "walk_entries c n (q # qs) =
     abnd (ctx_check c) (\<lambda>_.
     let rel = rel_path (drop n q)
     in if rel = dot then walk_entries c n qs
        else abnd (\<lambda>w. case fnode (fs w) q of
               Some (File d m) \<Rightarrow>
                 (case on_fs (os_open (abs_path q)) w of
                    (Inl e, w') \<Rightarrow> (Inl e, w')
                  | (Inr (data, Some e), w') \<Rightarrow> (Inl e, w')
                  | (Inr (data, None), w') \<Rightarrow>
                      (Inr \<lparr>te_name = rel, te_kind = TarReg, te_data = (data, None)\<rparr>, w'))
             | _ \<Rightarrow> (Inr \<lparr>te_name = rel @ [slash], te_kind = TarDir, te_data = ('''', None)\<rparr>, w)) (\<lambda>h.
             abnd (walk_entries c n qs) (\<lambda>hs. aret (h # hs))))"

definition nodes_below :: "fsys \<Rightarrow> string list \<Rightarrow> string list list" where
  "nodes_below s q = sort (remdups (filter (prefix q) (q # map fst (nodes s))))"

definition tar_walk :: "ctx \<Rightarrow> string \<Rightarrow> string \<Rightarrow> ('w, tar_entry list) act" where
  "tar_walk c root start = (\<lambda>w.
     case fnode (fs w) (place (fs w) start) of
       None \<Rightarrow> (Inl (missing (fs w) (place (fs w) start)), w)
     | Some _ \<Rightarrow>
         walk_entries c (length (place (fs w) root)) (nodes_below (fs w) (place (fs w) start)) w)"

definition tar_dir :: "('w, 'k) codec \<Rightarrow> ctx \<Rightarrow> string \<Rightarrow> ('w, string) act" where
  "tar_dir cd c root = abnd (tar_walk c root root) (\<lambda>hs. aret (tar_encode cd hs))"

section \<open>The destination\<close>

fun put_in :: "('a \<Rightarrow> 'a \<Rightarrow> bool) \<Rightarrow> 'a \<Rightarrow> 'a list \<Rightarrow> 'a list" where
  "put_in lt x [] = [x]"
| "put_in lt x (y # ys) = (if lt y x then y # put_in lt x ys else x # y # ys)"

text \<open>\<open>sort.Slice\<close>, with the elements its order leaves tied in their original order.\<close>

definition sort_slice :: "('a \<Rightarrow> 'a \<Rightarrow> bool) \<Rightarrow> 'a list \<Rightarrow> 'a list" where
  "sort_slice lt xs = foldr (put_in lt) xs []"

text \<open>The zero \<open>time.Time\<close> is January 1 of year 1; \<open>Time.Sub\<close> saturates at 64 bits.\<close>

definition zero_time :: int where "zero_time = - 62135596800000000000"

definition mod_time :: "object \<Rightarrow> int" where
  "mod_time ob = (case omodified ob of None \<Rightarrow> zero_time | Some t \<Rightarrow> t)"

definition max_duration :: int where "max_duration = 9223372036854775807"

definition time_sub :: "int \<Rightarrow> int \<Rightarrow> int" where
  "time_sub a b = max (- max_duration - 1) (min max_duration (a - b))"

definition clamp0 :: "int \<Rightarrow> int" where
  "clamp0 d = (if d < 0 then 0 else d)"

definition snapshot_key :: "int \<Rightarrow> string" where
  "snapshot_key t = format_stamp t @ ''.age''"

definition latest_snapshot_key :: "ctx \<Rightarrow> 'w adapter option \<Rightarrow> ('w, string) act" where
  "latest_snapshot_key c dest =
     (case dest of
        None \<Rightarrow> afail (errorf ''backup: latest snapshot: destination is required'')
      | Some ad \<Rightarrow>
          abnd (ahandle (blist ad c '''') (\<lambda>e. afail (wrapf ''backup: latest snapshot: list destination: '' e))) (\<lambda>obs.
          case sort_slice (\<lambda>a b. mod_time a > mod_time b) obs of
            [] \<Rightarrow> afail (errorf ''backup: latest snapshot: destination has no snapshots'')
          | ob # rest \<Rightarrow> aret (okey ob)))"

definition snapshot_age :: "ctx \<Rightarrow> 'w adapter option \<Rightarrow> string \<Rightarrow> int \<Rightarrow> ('w, string \<times> int) act" where
  "snapshot_age c dest key tnow =
     (case dest of
        None \<Rightarrow> afail (errorf ''backup: snapshot age: destination is required'')
      | Some ad \<Rightarrow>
          abnd (if blank key then latest_snapshot_key c dest else aret key) (\<lambda>resolved.
          abnd (ahandle (blist ad c resolved) (\<lambda>e.
                  afail (wrapf ''backup: snapshot age: list destination: '' e))) (\<lambda>obs.
          case filter (\<lambda>ob. okey ob = resolved) obs of
            [] \<Rightarrow> afail (errorf (''backup: snapshot age: '' @ resolved @ '': not found in destination''))
          | ob # rest \<Rightarrow> aret (resolved, clamp0 (time_sub tnow (mod_time ob))))))"

record snapshot_info =
  si_key :: string
  si_size :: int
  si_modified :: int
  si_age :: int

definition snapshot_less :: "snapshot_info \<Rightarrow> snapshot_info \<Rightarrow> bool" where
  "snapshot_less a b =
     (if si_modified a = si_modified b then si_key b < si_key a else si_modified a > si_modified b)"

definition history :: "ctx \<Rightarrow> 'w adapter option \<Rightarrow> int \<Rightarrow> ('w, snapshot_info list) act" where
  "history c dest tnow =
     (case dest of
        None \<Rightarrow> afail (errorf ''backup: history: destination is required'')
      | Some ad \<Rightarrow>
          abnd (ahandle (blist ad c '''') (\<lambda>e. afail (wrapf ''backup: history: list destination: '' e))) (\<lambda>obs.
          aret (sort_slice snapshot_less
            (map (\<lambda>ob. \<lparr>si_key = okey ob, si_size = osize ob, si_modified = mod_time ob,
               si_age = clamp0 (time_sub tnow (mod_time ob))\<rparr>) obs))))"

definition fetch :: "ctx \<Rightarrow> 'w adapter option \<Rightarrow> string \<Rightarrow> string \<Rightarrow> ('w, unit) act" where
  "fetch c dest key localPath =
     (case dest of
        None \<Rightarrow> afail (errorf ''backup: fetch: destination is required'')
      | Some ad \<Rightarrow>
          if blank key then afail (errorf ''backup: fetch: key is required'')
          else abnd (ahandle (bget ad c key) (\<lambda>e. afail (wrapf (''backup: fetch: get '' @ key @ '': '') e))) (\<lambda>rc.
          abnd (ahandle (on_fs (os_write_file localPath '''' 384)) (\<lambda>e.
                  afail (wrapf (''backup: fetch: create '' @ localPath @ '': '') e))) (\<lambda>_.
          abnd (\<lambda>w. case copy_to localPath rc w of
                 (Inl e, w1) \<Rightarrow> (Inl (wrapf (''backup: fetch: write '' @ localPath @ '': '') e), snd (on_fs os_close w1))
               | (Inr u, w1) \<Rightarrow> (Inr u, w1)) (\<lambda>_.
          on_fs os_close))))"

text \<open>
  \<open>OpenDestination\<close>. What \<open>url.Parse\<close> makes of an address is a parameter: an error, or its host, its
  path and its query's first value per name.
\<close>

type_synonym url_parser = "string \<Rightarrow> error + string \<times> string \<times> (string \<Rightarrow> string)"

definition parse_bool :: "string \<Rightarrow> bool option" where
  "parse_bool s =
     (if s \<in> {''1'', ''t'', ''T'', ''TRUE'', ''true'', ''True''} then Some True
      else if s \<in> {''0'', ''f'', ''F'', ''FALSE'', ''false'', ''False''} then Some False else None)"

definition query_bool :: "string \<Rightarrow> string \<Rightarrow> string \<Rightarrow> bool \<Rightarrow> error + bool" where
  "query_bool uri name v dflt =
     (if v = '''' then Inr dflt
      else (case parse_bool v of
              Some b \<Rightarrow> Inr b
            | None \<Rightarrow> Inl (errorf (''backup: destination: '' @ quote uri @ '': '' @ name
                @ '': strconv.ParseBool: parsing '' @ quote v @ '': invalid syntax''))))"

definition open_s3_destination ::
    "url_parser \<Rightarrow> (s3config \<Rightarrow> error + 'w adapter) \<Rightarrow> (string \<Rightarrow> string) \<Rightarrow> string \<Rightarrow> error + 'w adapter" where
  "open_s3_destination parse minio getenv uri =
     (case parse uri of
        Inl e \<Rightarrow> Inl (wrapf (''backup: destination: parse '' @ quote uri @ '': '') e)
      | Inr (host, path, query) \<Rightarrow>
          if host = '''' then Inl (errorf (''backup: destination: '' @ quote uri @ '': bucket is required (s3://<bucket>/...)''))
          else if query ''endpoint'' = ''''
          then Inl (errorf (''backup: destination: '' @ quote uri @ '': endpoint query parameter is required''))
          else (case query_bool uri ''ssl'' (query ''ssl'') True of Inl e \<Rightarrow> Inl e | Inr ssl \<Rightarrow>
               (case query_bool uri ''pathStyle'' (query ''pathStyle'') False of Inl e \<Rightarrow> Inl e | Inr style \<Rightarrow>
               (let ak = getenv ''AWS_ACCESS_KEY_ID''; sk = getenv ''AWS_SECRET_ACCESS_KEY'';
                    pre = trim_set [slash] path
                in if ak = '''' \<or> sk = ''''
                   then Inl (errorf ''backup: destination: AWS_ACCESS_KEY_ID and AWS_SECRET_ACCESS_KEY must be set for an s3:// destination'')
                   else (case new_s3 minio \<lparr>s3_endpoint = query ''endpoint'', s3_region = query ''region'',
                            s3_bucket = host, s3_access_key = ak, s3_secret_key = sk, s3_ssl = ssl,
                            s3_path_style = style\<rparr> of
                       Inl e \<Rightarrow> Inl (wrapf ''backup: destination: '' e)
                     | Inr ad \<Rightarrow> Inr (if pre = '''' then ad else prefixed_adapter ad (pre @ [slash])))))))"

definition open_destination ::
    "(fsys \<Rightarrow> string list \<Rightarrow> int) \<Rightarrow> url_parser \<Rightarrow> (s3config \<Rightarrow> error + 'w adapter) \<Rightarrow> (string \<Rightarrow> string) \<Rightarrow>
     string \<Rightarrow> ('w, 'w adapter) act" where
  "open_destination mtime parse minio getenv uri =
     (if blank uri then afail (errorf ''backup: destination: uri is required'')
      else if \<not> prefix ''s3://'' uri then new_local mtime uri
      else asum (open_s3_destination parse minio getenv uri))"

definition resolve_optional_destination ::
    "(fsys \<Rightarrow> string list \<Rightarrow> int) \<Rightarrow> url_parser \<Rightarrow> (s3config \<Rightarrow> error + 'w adapter) \<Rightarrow> (string \<Rightarrow> string) \<Rightarrow>
     string \<Rightarrow> ('w, 'w adapter option) act" where
  "resolve_optional_destination mtime parse minio getenv uri =
     (if blank uri then aret None
      else abnd (open_destination mtime parse minio getenv uri) (\<lambda>ad. aret (Some ad)))"

section \<open>Facts about sorting\<close>

lemma put_in_mset [simp]: "mset (put_in lt x ys) = add_mset x (mset ys)"
  by (induction ys) auto

lemma sort_slice_mset [simp]: "mset (sort_slice lt xs) = mset xs"
  by (induction xs) (simp_all add: sort_slice_def)

lemma sort_slice_set [simp]: "set (sort_slice lt xs) = set xs"
  by (metis set_mset_mset sort_slice_mset)

lemma put_in_sorted:
  assumes tr: "\<And>a b c. \<not> lt b a \<Longrightarrow> \<not> lt c b \<Longrightarrow> \<not> lt c a" and as: "\<And>a b. lt a b \<Longrightarrow> \<not> lt b a"
    and s: "sorted_wrt (\<lambda>a b. \<not> lt b a) ys"
  shows "sorted_wrt (\<lambda>a b. \<not> lt b a) (put_in lt x ys)"
  using s
proof (induction ys)
  case (Cons y ys)
  have set: "set (put_in lt x ys) = insert x (set ys)"
    by (metis put_in_mset set_mset_add_mset_insert set_mset_mset)
  show ?case
  proof (cases "lt y x")
    case True
    with Cons set show ?thesis by (auto dest: as)
  next
    case False
    with Cons show ?thesis by (auto dest: tr)
  qed
qed simp

lemma sort_slice_sorted:
  assumes "\<And>a b c. \<not> lt b a \<Longrightarrow> \<not> lt c b \<Longrightarrow> \<not> lt c a" "\<And>a b. lt a b \<Longrightarrow> \<not> lt b a"
  shows "sorted_wrt (\<lambda>a b. \<not> lt b a) (sort_slice lt xs)"
  by (induction xs) (simp_all add: sort_slice_def put_in_sorted [of lt, OF assms])

lemma sort_slice_hd:
  assumes "\<And>a b c. \<not> lt b a \<Longrightarrow> \<not> lt c b \<Longrightarrow> \<not> lt c a" "\<And>a b. lt a b \<Longrightarrow> \<not> lt b a"
    "sort_slice lt xs = y # ys" "x \<in> set xs"
  shows "\<not> lt x y"
proof -
  have "x \<in> insert y (set ys)" using assms(3,4) sort_slice_set [of lt xs] by auto
  moreover have "sorted_wrt (\<lambda>a b. \<not> lt b a) (y # ys)"
    using sort_slice_sorted [of lt xs] assms(1,2) unfolding assms(3) by blast
  ultimately show ?thesis using assms(2) by auto
qed

lemma snapshot_less_order:
  "\<not> snapshot_less b a \<Longrightarrow> \<not> snapshot_less c b \<Longrightarrow> \<not> snapshot_less c a"
  "snapshot_less a b \<Longrightarrow> \<not> snapshot_less b a"
  by (auto simp: snapshot_less_def split: if_splits)

section \<open>Facts about unpacking\<close>

subsection \<open>Where a cleaned relative path leads\<close>

lemma push_cases:
  "e = '''' \<or> e = dot \<Longrightarrow> push r st e = st" "e \<notin> {'''', dot, dotdot} \<Longrightarrow> push r st e = e # st"
  "push True [] dotdot = []" "push False [] dotdot = [dotdot]" "push r (dotdot # ts) dotdot = dotdot # dotdot # ts"
  "t \<noteq> dotdot \<Longrightarrow> push r (t # ts) dotdot = ts"
  by auto

lemma push_elem: "e \<in> set (push r st x) \<Longrightarrow> e \<in> set st \<or> e \<noteq> '''' \<and> e \<noteq> dot"
  by (cases st) (auto split: if_splits)

lemma push_kept: "e \<in> set (foldl (push False) [] xs) \<Longrightarrow> e \<noteq> '''' \<and> e \<noteq> dot"
proof (induction xs rule: rev_induct)
  case (snoc x xs)
  then have "e \<in> set (push False (foldl (push False) [] xs) x)" by (simp del: push.simps)
  from push_elem [OF this] snoc.IH show ?case by blast
qed simp

text \<open>Cleaning a relative path does not change where it leads.\<close>

lemma push_through: "foldl (push True) st (rev (foldl (push False) [] xs)) = foldl (push True) st xs"
proof (induction xs rule: rev_induct)
  case (snoc x xs)
  let ?ys = "foldl (push False) [] xs"
  consider "x = '''' \<or> x = dot" | "x = dotdot" "?ys = []" | ts where "x = dotdot" "?ys = dotdot # ts"
    | t ts where "x = dotdot" "?ys = t # ts" "t \<noteq> dotdot" | "x \<notin> {'''', dot, dotdot}"
    by (cases ?ys) auto
  then show ?case
  proof cases
    case (4 t ts)
    then have "t \<noteq> ''''" "t \<noteq> dot" using push_kept [of t xs] by auto
    with 4 have "push True (foldl (push True) st (rev ts)) t = t # foldl (push True) st (rev ts)"
      by (intro push_cases(2)) simp
    with 4(2) snoc.IH have S: "foldl (push True) st xs = t # foldl (push True) st (rev ts)"
      by (simp del: push.simps)
    show ?thesis by (simp add: S push_cases 4 del: push.simps)
  qed (use snoc.IH in \<open>simp_all add: push_cases del: push.simps\<close>)
qed simp

definition place_in :: "string list \<Rightarrow> string \<Rightarrow> string list" where
  "place_in cw p = (if rooted p then comps p else comps (abs_path cw @ slash # p))"

lemma place_in: "place s = place_in (cwd s)"
  by (simp add: place_def place_in_def fun_eq_iff)

lemma elems_no_slash: "e \<in> set (elems False p) \<Longrightarrow> slash \<notin> set e \<and> e \<noteq> '''' \<and> e \<noteq> dot"
proof -
  assume e: "e \<in> set (elems False p)"
  obtain ms k where "elems False p = replicate k dotdot @ ms" "\<forall>e\<in>set ms. plain_elem e"
    using elems_unrooted_shape by blast
  with e have "e = dotdot \<or> plain_elem e" by (auto simp del: replicate_append_same)
  then show ?thesis by (auto simp: plain_elem_def)
qed

lemma split_elems: "split_on slash (rel_path (elems False p)) = (if elems False p = [] then [dot] else elems False p)"
  using elems_no_slash [of _ p] by (simp add: rel_path_def split_on_join)

lemma rel_path_unrooted: "\<not> rooted (rel_path (elems False p))" "rel_path (elems False p) \<noteq> ''''"
proof -
  have "\<not> rooted (rel_path (elems False p)) \<and> rel_path (elems False p) \<noteq> ''''"
  proof (cases "elems False p")
    case (Cons e es)
    with elems_no_slash [of e p] obtain a as where "e = a # as" "a \<noteq> slash" by (cases e) auto
    with Cons show ?thesis by (cases es) (auto simp: rel_path_def)
  qed (simp add: rel_path_def)
  then show "\<not> rooted (rel_path (elems False p))" "rel_path (elems False p) \<noteq> ''''" by simp_all
qed

lemma place_in_elems:
  assumes "\<not> rooted p"
  shows "place_in cw p = rev (foldl (push True) (rev (comps (abs_path cw))) (elems False p))"
    and "place_in cw (rel_path (elems False p)) = place_in cw p"
proof -
  let ?st = "rev (comps (abs_path cw))"
  show *: "place_in cw p = rev (foldl (push True) ?st (elems False p))"
    using assms by (simp add: place_in_def comps_append_slash elems_def push_through)
  show "place_in cw (rel_path (elems False p)) = place_in cw p"
    unfolding * using rel_path_unrooted [of p] by (simp add: place_in_def comps_append_slash split_elems)
qed

text \<open>
  A destination that is relative and cleans to dot-dots alone: the prefix check of \<open>untar\<close> does not hold
  it, since further dot-dots have its name as a prefix.
\<close>

definition climbs :: "string \<Rightarrow> bool" where
  "climbs p \<longleftrightarrow> \<not> rooted p \<and> elems False p \<noteq> [] \<and> last (elems False p) = dotdot"

lemma past_plain:
  assumes "replicate j dotdot @ ms = as @ x # us" "x \<noteq> dotdot" "\<forall>e\<in>set ms. plain_elem e"
  shows "\<forall>e\<in>set us. plain_elem e"
  using assms(1)
proof (induction j arbitrary: as)
  case 0
  with assms(3) show ?case by auto
next
  case (Suc j)
  with assms(2) show ?case by (cases as) auto
qed

lemma rel_contained:
  assumes "\<not> rooted dir" "\<not> climbs dir" "target = join2 (clean dir) n"
    and "target = clean dir \<or> prefix (clean dir @ [slash]) target"
  shows "place_in cw target \<in> below (place_in cw dir)"
proof -
  let ?rs = "elems False dir" let ?st = "rev (comps (abs_path cw))"
  have root: "clean dir = rel_path ?rs" using assms(1) by (simp add: clean_def)
  show ?thesis
  proof (cases "target = clean dir")
    case True
    with root place_in_elems(2) [OF assms(1)] show ?thesis by (simp add: below_def)
  next
    case False
    with assms(4) obtain t where t: "target = rel_path ?rs @ slash # t" by (auto simp: root prefix_def)
    let ?j = "rel_path ?rs @ slash # n" let ?ts = "elems False ?j"
    have j: "\<not> rooted ?j" using rel_path_unrooted [of dir] by (cases "rel_path ?rs") auto
    have "target = clean ?j" by (simp add: assms(3) root join2_def rel_path_unrooted(2))
    with j have "target = rel_path ?ts" by (simp add: clean_def)
    with t have "rel_path ?ts = rel_path ?rs @ slash # t" by simp
    then have "split_on slash (rel_path ?ts) = split_on slash (rel_path ?rs) @ split_on slash t"
      by (simp only: split_on_append_sep)
    then have eq: "(if ?ts = [] then [dot] else ?ts) = (if ?rs = [] then [dot] else ?rs) @ split_on slash t"
      using split_elems [of ?j] split_elems [of dir] by argo
    have ne: "?rs \<noteq> []" "?ts \<noteq> []"
      using eq elems_no_slash [of dot ?j] split_on_ne [of slash t] by (auto simp: Cons_eq_append_conv split: if_splits)
    with eq have ts: "?ts = ?rs @ split_on slash t" by simp
    obtain ms k where shape: "?ts = replicate k dotdot @ ms" "\<forall>e\<in>set ms. plain_elem e"
      using elems_unrooted_shape by blast
    have "last ?rs \<noteq> dotdot" using assms(1,2) ne(1) by (simp add: climbs_def)
    moreover have "replicate k dotdot @ ms = butlast ?rs @ last ?rs # split_on slash t"
      using shape(1) ts ne(1) by (metis append.assoc append_Cons append_Nil append_butlast_last_id)
    ultimately have plain: "\<forall>e\<in>set (split_on slash t). plain_elem e" using past_plain shape(2) by blast
    have "place_in cw target = rev (foldl (push True) ?st ?ts)"
      unfolding \<open>target = rel_path ?ts\<close> place_in_elems(2) [OF j] by (rule place_in_elems(1) [OF j])
    also have "\<dots> = place_in cw dir @ split_on slash t"
      unfolding ts foldl_append foldl_push_plain [OF plain] place_in_elems(1) [OF assms(1)] by simp
    finally show ?thesis by (simp add: below_def)
  qed
qed

lemma untar_target:
  assumes "\<not> climbs dir" "target = join2 (clean dir) n" "target = clean dir \<or> prefix (clean dir @ [slash]) target"
  shows "place_in cw target \<in> below (place_in cw dir)"
proof (cases "rooted dir")
  case True
  have r: "rooted (clean dir)" "clean dir = abs_path (comps dir)" using True by (simp_all add: clean_rooted)
  have t: "rooted target" using r(1) assms(2) by simp
  have t': "target = abs_path (comps target)" using assms(2) r(1) join2_abs_path by simp
  have "comps target \<in> below (comps dir)"
  proof (cases "comps dir = []")
    case False
    have "abs_path (comps target) = abs_path (comps dir)
        \<or> prefix (abs_path (comps dir) @ [slash]) (abs_path (comps target))"
      using assms(3) unfolding t' [symmetric] r(2) [symmetric] .
    with False have "prefix (comps dir) (comps target)"
      by (subst (asm) contained_iff) (auto dest: comps_plain)
    then show ?thesis by (simp add: below_def)
  qed (simp add: below_def)
  with t True show ?thesis by (simp add: place_in_def)
next
  case False
  from rel_contained [OF this assms] show ?thesis .
qed

subsection \<open>What unpacking changes\<close>

text \<open>\<open>stays_from cw T a\<close>: run in the working directory \<open>cw\<close>, the act changes no file outside \<open>T\<close>.\<close>

definition stays_from :: "string list \<Rightarrow> string list set \<Rightarrow> ('w, 'a) act \<Rightarrow> bool" where
  "stays_from cw T a \<longleftrightarrow> (\<forall>w. cwd (fs w) = cw \<longrightarrow> files_but T (fs w) (fs (snd (a w))))"

lemma stays_fromD: "stays_from cw T a \<Longrightarrow> a w = (r, w') \<Longrightarrow> cwd (fs w) = cw \<Longrightarrow> files_but T (fs w) (fs w')"
  by (metis stays_from_def snd_conv)

lemma stays_from_stays: "stays T a \<Longrightarrow> stays_from cw T a"
  by (simp add: stays_def stays_from_def)

lemma from_abnd:
  assumes "stays_from cw T a" "\<And>x. stays_from cw T (k x)"
  shows "stays_from cw T (abnd a k)"
  unfolding stays_from_def
proof (intro allI impI)
  fix w :: "'a world"
  assume cw: "cwd (fs w) = cw"
  obtain r w1 where a: "a w = (r, w1)" by force
  note f = stays_fromD [OF assms(1) a cw]
  show "files_but T (fs w) (fs (snd (abnd a k w)))"
  proof (cases r)
    case (Inr x)
    obtain r' w2 where k: "k x w1 = (r', w2)" by force
    have "cwd (fs w1) = cw" using f cw by (simp add: files_but_def)
    from files_but_trans [OF f stays_fromD [OF assms(2) k this]] show ?thesis by (simp add: abnd_def a Inr k)
  qed (use f in \<open>simp add: abnd_def a\<close>)
qed

lemma from_pure: "stays_from cw T (aret x)" "stays_from cw T (afail e)"
  by (simp_all add: stays_from_def)

lemma copy_to_from: "place_in cw p \<in> T \<Longrightarrow> stays_from cw T (copy_to p r)"
  unfolding copy_to_def
  by (intro from_abnd) (auto simp: stays_from_def on_fs_def place_in from_pure [unfolded stays_from_def]
      split: option.split prod.split dest!: files_but_write intro: files_but_mono)

lemma write_from: "place_in cw p \<in> T \<Longrightarrow> stays_from cw T (on_fs (os_write_file p c m))"
  by (auto simp: stays_from_def on_fs_def place_in split: prod.split dest!: files_but_write intro: files_but_mono)

lemma close_stays: "stays T (on_fs os_close)"
  by (intro stays_on_fs) (auto intro: files_but_fnode dest: os_close_keeps)

lemma mkdir_stays: "stays T (on_fs (os_mkdir_all p))"
  by (intro stays_on_fs) (auto intro: files_but_mono [OF files_but_mkdir])

lemma ctx_check_stays: "stays T (ctx_check c)"
  by (simp add: stays_def ctx_check_def split: option.split)

lemma from_then_close:
  assumes "stays_from cw T a"
  shows "stays_from cw T (\<lambda>w. case a w of (Inl e, w1) \<Rightarrow> (Inl e, snd (on_fs os_close w1)) | (Inr u, w1) \<Rightarrow> on_fs os_close w1)"
  unfolding stays_from_def
proof (intro allI impI)
  fix w :: "'a world"
  assume cw: "cwd (fs w) = cw"
  obtain r w1 where a: "a w = (r, w1)" by force
  obtain r2 w2 where c: "on_fs os_close w1 = (r2, w2)" by force
  have "files_but T (fs w) (fs w2)"
    using stays_fromD [OF assms a cw] staysD [OF close_stays c] files_but_trans by blast
  then show "files_but T (fs w) (fs (snd (case a w of (Inl e, w1) \<Rightarrow> (Inl e, snd (on_fs os_close w1))
      | (Inr u, w1) \<Rightarrow> on_fs os_close w1)))"
    using a c by (simp split: sum.split)
qed

lemmas from_mkdir = stays_from_stays [OF mkdir_stays]
lemmas from_check = stays_from_stays [OF ctx_check_stays]

lemma untar_loop_stays:
  assumes "\<not> climbs dir"
  shows "stays_from cw (below (place_in cw dir)) (untar_loop c (clean dir) hs fin)"
proof (induction hs)
  case Nil
  then show ?case
    unfolding untar_loop.simps by (intro from_abnd from_check) (simp add: from_pure split: option.split)
next
  case (Cons h hs)
  let ?t = "join2 (clean dir) (te_name h)" let ?T = "below (place_in cw dir)"
  show ?case
  proof (cases "?t = clean dir \<or> prefix (clean dir @ [slash]) ?t")
    case True
    note at = untar_target [OF assms refl True]
    have reg: "stays_from cw ?T (abnd (on_fs (os_mkdir_all (dir_of ?t))) (\<lambda>_.
                 abnd (on_fs (os_write_file ?t '''' 384)) (\<lambda>_.
                 (\<lambda>w. case copy_to ?t (te_data h) w of
                    (Inl e, w1) \<Rightarrow> (Inl e, snd (on_fs os_close w1))
                  | (Inr u, w1) \<Rightarrow> on_fs os_close w1))))"
      by (intro from_abnd from_mkdir write_from from_then_close copy_to_from at)
    from True Cons show ?thesis
      unfolding untar_loop.simps Let_def
      by (intro from_abnd from_check)
         (auto intro!: from_abnd from_mkdir reg from_pure split: tar_kind.split)
  next
    case False
    then show ?thesis
      unfolding untar_loop.simps Let_def by (intro from_abnd from_check) (simp add: from_pure)
  qed
qed

section \<open>Facts about verification\<close>

lemma row_defects_Nil:
  "row_defects subject f rows = [] \<longleftrightarrow>
     snd rows = None \<and> (\<forall>r\<in>set (fst rows). \<exists>cols. r = Inr cols \<and> f cols = [])"
  by (auto simp: row_defects_def split: option.splits sum.splits) (metis obj_sumE)

lemma verify_checksums_Nil:
  assumes "verify_checksums dir cs s = ([], s')" "rooted dir" "c \<in> set cs"
  shows "\<exists>d. file_part (fnode s (place s (join2 dir (Path c)))) = Some d \<and> sha256_hex d = Checksum c"
  using assms(1,3)
proof (induction cs arbitrary: s)
  case (Cons c' cs)
  obtain got s1 where g: "checksum_file (join2 dir (Path c')) s = (got, s1)" by force
  obtain ds s2 where r: "verify_checksums dir cs s1 = (ds, s2)" by force
  from Cons.prems g r have got: "got = Inr (Checksum c')" "ds = []" "s2 = s'"
    by (auto split: sum.splits if_splits)
  obtain d where o: "os_open (join2 dir (Path c')) s = (Inr (d, None), s1)" "sha256_hex d = Checksum c'"
    using g got(1) by (auto simp: checksum_file_def split: prod.splits sum.splits option.splits)
  note keep = os_open_keeps [OF o(1)]
  show ?case
  proof (cases "c = c'")
    case True
    with os_open_Inr [OF o(1)] o(2) show ?thesis by (auto simp: file_part_def)
  next
    case False
    with Cons.prems(2) have "c \<in> set cs" by simp
    with Cons.IH [of s1] r got(2,3)
    have "\<exists>d. file_part (fnode s1 (place s1 (join2 dir (Path c)))) = Some d \<and> sha256_hex d = Checksum c"
      by simp
    moreover have "place s1 = place s" by (rule place_cwd) (rule keep(2))
    ultimately show ?thesis by (simp add: keep(1))
  qed
qed simp

lemma verify_InrD:
  assumes "verify cd c dir m names w = (Inr (), w')"
  shows "\<exists>s. verify_checksums dir (Components m) (fs w) = ([], s) \<and> w' = w\<lparr>fs := s\<rparr> \<and>
    verify_completeness m names = [] \<and>
    verify_cross_consistency (sqlite cd c (join2 dir databaseFile) w') m = []"
  using assms by (auto simp: verify_def Let_def split: prod.splits if_splits)

section \<open>Properties\<close>

text \<open>The whole of a query's rows is read, and each row satisfies \<open>P\<close>.\<close>

definition every_row :: "dbview \<Rightarrow> string \<Rightarrow> (string list \<Rightarrow> bool) \<Rightarrow> bool" where
  "every_row db q P \<longleftrightarrow> (\<exists>rows. db_query db q = Inr rows \<and> snd rows = None \<and>
     (\<forall>r\<in>set (fst rows). \<exists>cols. r = Inr cols \<and> P cols))"

lemma repository_rows:
  assumes "verify_repository_references db m = []"
  shows "every_row db ''SELECT owner_name, lower_name FROM repository''
    (\<lambda>cols. has_objects m (cols ! 0 @ ''/'' @ cols ! 1) \<and> has_refs m (cols ! 0 @ ''/'' @ cols ! 1))"
proof -
  let ?q = "''SELECT owner_name, lower_name FROM repository''"
  from assms obtain rows where q: "db_query db ?q = Inr rows"
    by (cases "db_query db ?q") (auto simp: verify_repository_references_def)
  with assms have "snd rows = None \<and> (\<forall>r\<in>set (fst rows). \<exists>cols. r = Inr cols \<and>
      has_objects m (cols ! 0 @ ''/'' @ cols ! 1) \<and> has_refs m (cols ! 0 @ ''/'' @ cols ! 1))"
    unfolding verify_repository_references_def q sum.case row_defects_Nil Let_def
    by (fastforce split: if_splits)
  with q show ?thesis unfolding every_row_def by blast
qed

text \<open>A reference to a blob is none, or is contained in the name of a captured one.\<close>

definition blob_captured :: "snapshot \<Rightarrow> string \<Rightarrow> bool" where
  "blob_captured m i \<longleftrightarrow> i = '''' \<or> (\<exists>x\<in>set (Components m). Kind x = KindBlobs \<and> sublist i (Name x))"

lemma blob_rows:
  assumes "verify_blob_references db table column m = []"
  shows "every_row db (''SELECT '' @ column @ '' FROM '' @ table) (\<lambda>cols. blob_captured m (cols ! 0))"
proof -
  let ?q = "''SELECT '' @ column @ '' FROM '' @ table"
  from assms obtain rows where q: "db_query db ?q = Inr rows"
    by (cases "db_query db ?q") (auto simp: verify_blob_references_def)
  have any: "any_contains (map Name (filter (\<lambda>c. Kind c = KindBlobs) (Components m))) i \<longleftrightarrow>
      (\<exists>x\<in>set (Components m). Kind x = KindBlobs \<and> sublist i (Name x))" for i
    by (auto simp: any_contains_def list_ex_iff)
  from assms have "snd rows = None \<and> (\<forall>r\<in>set (fst rows). \<exists>cols. r = Inr cols \<and> blob_captured m (cols ! 0))"
    unfolding verify_blob_references_def Let_def q sum.case row_defects_Nil blob_captured_def any
    by (fastforce split: if_splits)
  with q show ?thesis unfolding every_row_def by blast
qed

text \<open>
  C23. A snapshot that verifies is restorable as the manifest says: it names exactly one database and
  every key asked for, every file it lists is there with the recorded checksum, the database opens, its
  repository, LFS and attachment tables can be read to the end, and every row has its captured
  counterpart: a repository row both its archives, and an LFS object's \<open>oid\<close> and an attachment's \<open>uuid\<close>
  a blob whose name contains it, unless it is empty.
\<close>

theorem verify_sound:
  assumes "verify cd c dir m names w = (Inr (), w')" "is_abs dir"
  shows "SnapAlgorithm m = DefaultChecksumAlgorithm \<and>
    length (filter (\<lambda>x. Kind x = KindDatabase) (Components m)) = 1 \<and>
    (\<forall>k\<in>set names. \<exists>x\<in>set (Components m). Kind x = KindKeys \<and> Name x = k) \<and>
    (\<forall>x\<in>set (Components m). \<exists>d. file_part (fnode (fs w) (place (fs w) (join2 dir (Path x)))) = Some d
       \<and> sha256_hex d = Checksum x) \<and>
    (let db = sqlite cd c (join2 dir databaseFile) w' in db_ping db = None \<and>
       every_row db ''SELECT owner_name, lower_name FROM repository''
         (\<lambda>cols. has_objects m (cols ! 0 @ ''/'' @ cols ! 1) \<and> has_refs m (cols ! 0 @ ''/'' @ cols ! 1)) \<and>
       every_row db ''SELECT oid FROM lfs_meta_object'' (\<lambda>cols. blob_captured m (cols ! 0)) \<and>
       every_row db ''SELECT uuid FROM attachment'' (\<lambda>cols. blob_captured m (cols ! 0)))"
proof -
  obtain s where s: "verify_checksums dir (Components m) (fs w) = ([], s)" "w' = w\<lparr>fs := s\<rparr>"
    "verify_completeness m names = []"
    "verify_cross_consistency (sqlite cd c (join2 dir databaseFile) w') m = []"
    using verify_InrD [OF assms(1)] by blast
  from s(3) have comp: "SnapAlgorithm m = DefaultChecksumAlgorithm"
    "length (filter (\<lambda>x. Kind x = KindDatabase) (Components m)) = 1"
    "\<forall>k\<in>set names. \<exists>x\<in>set (Components m). Kind x = KindKeys \<and> Name x = k"
    by (auto simp: verify_completeness_def Let_def filter_empty_conv list_ex_iff split: if_splits)
  have sums: "\<forall>x\<in>set (Components m). \<exists>d.
      file_part (fnode (fs w) (place (fs w) (join2 dir (Path x)))) = Some d \<and> sha256_hex d = Checksum x"
    using verify_checksums_Nil [OF s(1)] assms(2) by (simp add: is_abs_def)
  let ?db = "sqlite cd c (join2 dir databaseFile) w'"
  from s(4) have p: "db_ping ?db = None" and r: "verify_repository_references ?db m = []"
    "verify_blob_references ?db ''lfs_meta_object'' ''oid'' m = []" "verify_blob_references ?db ''attachment'' ''uuid'' m = []"
    by (auto simp: verify_cross_consistency_def split: option.splits)
  from comp sums p repository_rows [OF r(1)] blob_rows [OF r(2)] blob_rows [OF r(3)] show ?thesis
    by (simp add: Let_def)
qed

definition empty_db :: dbview where
  "empty_db = \<lparr>db_ping = None, db_query = (\<lambda>q. Inr ([], None))\<rparr>"

definition sample_codec :: "(unit, string) codec" where
  "sample_codec = \<lparr>age_encrypt = (\<lambda>k s. Inr (k @ s)), age_decrypt = (\<lambda>k r. Inr (drop (length k) (fst r), snd r)),
     age_parse = (\<lambda>s. Inr s), tar_encode = (\<lambda>es. concat (map te_name es)), tar_decode = (\<lambda>r. ([], snd r)),
     json_encode = (\<lambda>m. Inr ''manifest''), json_decode = (\<lambda>s. Inl (errorf ''bad'')),
     sqlite = (\<lambda>c p w. empty_db)\<rparr>"

definition sample_snapshot :: snapshot where
  "sample_snapshot = \<lparr>ForgejoVersion = ''v'', Timestamp = 0, SnapAlgorithm = ''sha256'',
     Components = [\<lparr>Kind = ''database'', Name = ''db.sqlite'', Path = ''a'', Checksum = sha256_hex ''old''\<rparr>]\<rparr>"

lemma sample_verify:
  "\<exists>w'. verify sample_codec Caller ''/k'' sample_snapshot [] sample_world = (Inr (), w')"
proof -
  have p: "place sample_fs (join2 ''/k'' ''a'') = [''k'', ''a'']" "join2 ''/k'' ''a'' \<noteq> ''''"
    by code_simp+
  have o: "os_open (join2 ''/k'' ''a'') sample_fs = (Inr (''old'', None), sample_fs\<lparr>fops := 1\<rparr>)"
    using p by (simp add: os_open_def Let_def) (simp add: sample_fs_def fnode_def)
  show ?thesis
    by (simp add: verify_def sample_snapshot_def sample_world_def checksum_file_def o Let_def
        verify_completeness_def DefaultChecksumAlgorithm_def KindDatabase_def
        verify_cross_consistency_def verify_repository_references_def verify_blob_references_def
        row_defects_def sample_codec_def empty_db_def)
qed

lemma verify_sound_witness:
  "length (filter (\<lambda>x. Kind x = KindDatabase) (Components sample_snapshot)) = 1"
  using sample_verify verify_sound [of sample_codec Caller "''/k''" sample_snapshot "[]" sample_world]
  by (auto simp: is_abs_def)

text \<open>
  C20. Unpacking an archive stays inside its destination: whatever entries a snapshot's tar stream
  holds, dot-dot names and absolute names included, and wherever it fails, no file outside the
  destination directory is created, changed or removed. The destination may be absolute or relative to the
  working directory, but not a relative path that cleans to dot-dots alone (\<open>untar_climbs_out\<close>).
\<close>

theorem untar_contained:
  assumes "\<not> climbs dest" "untar cd c r dest w = (res, w')" "\<not> prefix (place (fs w) dest) q"
  shows "file_part (fnode (fs w') q) = file_part (fnode (fs w) q)"
proof -
  have "stays_from (cwd (fs w)) (below (place (fs w) dest)) (untar cd c r dest)"
    unfolding untar_def place_in by (auto split: prod.split intro: untar_loop_stays [OF assms(1)])
  from stays_fromD [OF this assms(2) refl] assms(3) show ?thesis by (auto simp: files_but_def below_def)
qed

definition evil_codec :: "(unit, string) codec" where
  "evil_codec = sample_codec\<lparr>tar_decode :=
     (\<lambda>r. ([\<lparr>te_name = ''../k/a'', te_kind = TarReg, te_data = (''x'', None)\<rparr>], None))\<rparr>"

lemma untar_contained_witness:
  "file_part (fnode (fs (snd (untar evil_codec Caller ('''', None) ''/d'' sample_world))) [''k'', ''a'']) = Some ''old'' \<and>
   file_part (fnode (fs (snd (untar evil_codec Caller ('''', None) ''d'' sample_world))) [''k'', ''a'']) = Some ''old''"
proof -
  have "file_part (fnode (fs sample_world) [''k'', ''a'']) = Some ''old''" "\<not> climbs ''/d''" "\<not> climbs ''d''"
    "\<not> prefix (place (fs sample_world) ''/d'') [''k'', ''a'']" "\<not> prefix (place (fs sample_world) ''d'') [''k'', ''a'']"
    by code_simp+
  then show ?thesis
    using untar_contained [of "''/d''" evil_codec Caller "('''', None)" sample_world _ _ "[''k'', ''a'']"]
      untar_contained [of "''d''" evil_codec Caller "('''', None)" sample_world _ _ "[''k'', ''a'']"]
    by (metis prod.collapse)
qed

text \<open>
  The destination \<open>..\<close> is not held by the check: from the working directory \<open>/w/v\<close> it is \<open>/w\<close>, and an
  entry \<open>../x\<close>, whose target \<open>../../x\<close> has \<open>../\<close> as a prefix, is written to \<open>/x\<close>.
\<close>

definition climbing_codec :: "(unit, string) codec" where
  "climbing_codec = sample_codec\<lparr>tar_decode :=
     (\<lambda>r. ([\<lparr>te_name = ''../x'', te_kind = TarReg, te_data = (''x'', None)\<rparr>], None))\<rparr>"

theorem untar_climbs_out:
  "climbs ''..'' \<and>
   (let w = sample_world\<lparr>fs := (fs sample_world)\<lparr>cwd := [''w'', ''v'']\<rparr>\<rparr>
    in place (fs w) ''..'' = [''w''] \<and> fnode (fs w) [''x''] = None \<and>
       (case untar climbing_codec Caller ('''', None) ''..'' w of
          (res, w') \<Rightarrow> res = Inr () \<and> file_part (fnode (fs w') [''x'']) = Some ''x''))"
  by code_simp

text \<open>
  The backup history is the destination's whole listing, newest first: it has one entry per
  listed object, no later entry precedes an earlier one in the order of the code, and the head, when
  there is one, is at least as new as every object.
\<close>

theorem history_sorted:
  assumes "history c (Some ad) tnow w = (Inr hs, w')"
  shows "\<exists>obs w1. blist ad c '''' w = (Inr obs, w1) \<and> mset (map si_key hs) = mset (map okey obs) \<and>
    sorted_wrt (\<lambda>a b. \<not> snapshot_less b a) hs \<and> (\<forall>h\<in>set hs. 0 \<le> si_age h) \<and>
    (\<forall>h rest ob. hs = h # rest \<longrightarrow> ob \<in> set obs \<longrightarrow> mod_time ob \<le> si_modified h)"
proof -
  let ?f = "\<lambda>ob. \<lparr>si_key = okey ob, si_size = osize ob, si_modified = mod_time ob,
               si_age = clamp0 (time_sub tnow (mod_time ob))\<rparr>"
  from assms obtain obs w1 where l: "blist ad c '''' w = (Inr obs, w1)"
    and hs: "hs = sort_slice snapshot_less (map ?f obs)"
    by (auto simp: history_def abnd_eq ahandle_eq)
  have "mset (map si_key hs) = image_mset si_key (mset (map ?f obs))" by (simp add: hs)
  also have "\<dots> = mset (map okey obs)" by (simp add: image_mset.compositionality comp_def)
  finally have m: "mset (map si_key hs) = mset (map okey obs)" .
  have s: "sorted_wrt (\<lambda>a b. \<not> snapshot_less b a) hs"
    unfolding hs by (rule sort_slice_sorted [OF snapshot_less_order])
  have a: "0 \<le> si_age h" if "h \<in> set hs" for h
    using that by (auto simp: hs clamp0_def)
  have n: "mod_time ob \<le> si_modified h" if "hs = h # rest" "ob \<in> set obs" for h rest ob
  proof -
    have "\<not> snapshot_less (?f ob) h"
      using sort_slice_hd [where lt = snapshot_less and xs = "map ?f obs" and y = h and ys = rest
          and x = "?f ob", OF snapshot_less_order] that hs by auto
    then show ?thesis by (auto simp: snapshot_less_def split: if_splits)
  qed
  show ?thesis using l m s a n by blast
qed

definition sample_adapter :: "object list \<Rightarrow> unit adapter" where
  "sample_adapter obs = \<lparr>blist = (\<lambda>c p. aret obs), bget = (\<lambda>c k. aret (''data'', None)),
     bput = (\<lambda>c k r n. aret ())\<rparr>"

definition sample_object :: "string \<Rightarrow> int option \<Rightarrow> object" where
  "sample_object k t = \<lparr>okey = k, osize = 1, omodified = t\<rparr>"

lemma history_sorted_witness:
  "\<exists>hs w'. history Caller (Some (sample_adapter [sample_object ''a'' (Some 1), sample_object ''b'' (Some 2)])) 5
     sample_world = (Inr hs, w') \<and> sorted_wrt (\<lambda>a b. \<not> snapshot_less b a) hs \<and> length hs = 2"
proof -
  let ?obs = "[sample_object ''a'' (Some 1), sample_object ''b'' (Some 2)]"
  let ?r = "history Caller (Some (sample_adapter ?obs)) 5 sample_world"
  obtain hs w' where h: "?r = (Inr hs, w')"
    by (auto simp: history_def sample_adapter_def abnd_def ahandle_def)
  from history_sorted [OF this] have "sorted_wrt (\<lambda>a b. \<not> snapshot_less b a) hs"
    and "mset (map si_key hs) = mset (map okey ?obs)"
    by (auto simp: sample_adapter_def)
  then show ?thesis using h by (metis length_map list.size(3,4) size_mset One_nat_def Suc_1 add.commute plus_1_eq_Suc)
qed

text \<open>
  An object whose modification time is unknown (an adapter that does not report one) is aged at
  the longest duration there is: the history presents it as the oldest snapshot possible.
\<close>

theorem unknown_time_aged_maximally:
 assumes "blist ad c '''' w = (Inr obs, wl)" "ob \<in> set obs" "omodified ob = None" "0 \<le> tnow"
  shows "\<exists>hs w' h. history c (Some ad) tnow w = (Inr hs, w') \<and> h \<in> set hs \<and> si_key h = okey ob \<and>
    si_age h = max_duration"
proof -
  have age: "clamp0 (time_sub tnow (mod_time ob)) = max_duration"
    using assms(3,4) by (simp add: mod_time_def zero_time_def time_sub_def max_duration_def clamp0_def)
  show ?thesis
    using assms(1,2) age
    by (force simp: history_def abnd_def ahandle_def intro!: bexI [of _ ob])
qed

lemma unknown_time_aged_maximally_witness:
  "\<exists>hs w' h. history Caller (Some (sample_adapter [sample_object ''a'' None])) 0 sample_world = (Inr hs, w') \<and>
    h \<in> set hs \<and> si_key h = okey (sample_object ''a'' None) \<and> si_age h = max_duration"
  by (rule unknown_time_aged_maximally [where obs = "[sample_object ''a'' None]" and wl = sample_world])
     (simp_all add: sample_adapter_def sample_object_def)

text \<open>
  The latest snapshot is one: the key resolved is that of an object of the listing, and no listed
  object is newer.
\<close>

theorem latest_is_newest:
  assumes "latest_snapshot_key c (Some ad) w = (Inr k, w')"
  shows "\<exists>obs w1 ob. blist ad c '''' w = (Inr obs, w1) \<and> ob \<in> set obs \<and> k = okey ob \<and>
    (\<forall>x\<in>set obs. mod_time x \<le> mod_time ob)"
proof -
  let ?lt = "\<lambda>a b. mod_time a > mod_time b"
  from assms obtain obs w1 where b: "blist ad c '''' w = (Inr obs, w1)"
    and cs: "(case sort_slice ?lt obs of
            [] \<Rightarrow> afail (errorf ''backup: latest snapshot: destination has no snapshots'')
          | ob # rest \<Rightarrow> aret (okey ob)) w1 = (Inr k, w')"
    by (auto simp: latest_snapshot_key_def abnd_eq ahandle_eq)
  obtain ob rest where l: "blist ad c '''' w = (Inr obs, w1)" "sort_slice ?lt obs = ob # rest" "k = okey ob"
    using b cs by (cases "sort_slice ?lt obs") auto
  have "ob \<in> set obs" using l(2) sort_slice_set [of ?lt obs] by auto
  moreover have "\<forall>x\<in>set obs. mod_time x \<le> mod_time ob"
    using sort_slice_hd [of ?lt, OF _ _ l(2)] by fastforce
  ultimately show ?thesis using l by blast
qed

lemma latest_is_newest_witness:
  "fst (latest_snapshot_key Caller (Some (sample_adapter [sample_object ''a'' (Some 1), sample_object ''b'' (Some 2)]))
     sample_world) = Inr ''b''"
proof -
  let ?a = "sample_adapter [sample_object ''a'' (Some 1), sample_object ''b'' (Some 2)]"
  let ?r = "latest_snapshot_key Caller (Some ?a) sample_world"
  obtain k w' where k: "?r = (Inr k, w')"
    by (simp add: latest_snapshot_key_def sample_adapter_def abnd_def ahandle_def sort_slice_def
        sample_object_def mod_time_def)
  from latest_is_newest [OF this] have "k = ''b''"
    by (auto simp: sample_adapter_def sample_object_def mod_time_def)
  with k show ?thesis by simp
qed

end
