(* ===== verification/Backup.thy ===== *)
theory Backup
  imports Snapshot
begin

text \<open>
  Taking a backup (\<open>backup.go\<close>, \<open>capture.go\<close>, \<open>pushhold.go\<close>, \<open>encrypt.go\<close>, \<open>write.go\<close>,
  \<open>orchestrate.go\<close> of \<open>internal/core/backup\<close>, and the interfaces of \<open>internal/core/state\<close> it
  captures through). \<open>run\<close> captures a plain snapshot: the database and the refs under the push hold,
  everything else after it is released. \<open>backup\<close> wraps it: encrypt, decrypt again, verify what was
  decrypted, and only then write to the destination. Each interface call is recorded in the trace under
  its interface's name, so the order of captures and of the hold is a property of the trace.
\<close>

section \<open>Interfaces\<close>

record remote =
  rName :: string
  rURL :: string

record 'w capturer =
  cap_archive :: "ctx \<Rightarrow> remote \<Rightarrow> ('w, reader) act"
  cap_refs :: "ctx \<Rightarrow> remote \<Rightarrow> ('w, reader) act"

record 'w key_exporter =
  key_names :: "string list"
  key_resolve :: "ctx \<Rightarrow> string \<Rightarrow> ('w, secret) act"

record 'w push_hold =
  hold_engage :: "ctx \<Rightarrow> ('w, unit) act"
  hold_release :: "ctx \<Rightarrow> ('w, unit) act"

record 'w params =
  pDir :: string
  pVersion :: string
  pGit :: "(ctx \<Rightarrow> ('w, remote list) act) option"
  pCapturer :: "'w capturer option"
  pDatabase :: "(ctx \<Rightarrow> ('w, reader) act) option"
  pBlobs :: "'w adapter option"
  pKeys :: "'w key_exporter option"
  pHold :: "'w push_hold option"
  pCeiling :: int

definition keyNames :: "string list" where
  "keyNames = [''forgejo_secret_key'', ''forgejo_internal_token'', ''forgejo_lfs_jwt_secret'', ''forgejo_runner_secret'',
     KeyTLSCertificate, KeyTLSPrivateKey, ''ssh_host_key'', ''ssh_host_key.pub'']"

definition keystore_resolve :: "'w driver option \<Rightarrow> ctx \<Rightarrow> string \<Rightarrow> ('w, secret) act" where
  "keystore_resolve drv c name =
     (case drv of
        None \<Rightarrow> afail (errorf ''state: key exporter: driver is required'')
      | Some d \<Rightarrow>
          if blank name then afail (errorf ''state: key exporter: name is required'')
          else ahandle (resolve d c name) (\<lambda>e.
            afail (wrapf (''state: key exporter: resolve '' @ name @ '': '') e)))"

definition keystore_key_exporter :: "'w driver option \<Rightarrow> 'w key_exporter" where
  "keystore_key_exporter drv = \<lparr>key_names = keyNames, key_resolve = keystore_resolve drv\<rparr>"

section \<open>Captures\<close>

definition mk_component :: "string \<Rightarrow> string \<Rightarrow> string \<Rightarrow> string \<Rightarrow> component" where
  "mk_component k n p s = \<lparr>Kind = k, Name = n, Path = p, Checksum = s\<rparr>"

definition capture_database :: "ctx \<Rightarrow> string \<Rightarrow> (ctx \<Rightarrow> ('w, reader) act) \<Rightarrow> ('w, component) io" where
  "capture_database c dir exporter =
     bnd (orfail (call ''database'' c [''snapshot''] (exporter c)) ''backup: capture database: '') (\<lambda>rc.
     bnd (orfail (locally (write_checksummed (join2 dir databaseFile) rc)) ''backup: capture database: '') (\<lambda>sum.
     ret (mk_component KindDatabase databaseFile databaseFile sum)))"

definition refs_path :: "string \<Rightarrow> string" where
  "refs_path name = join_path [''repos'', name @ ''.refs.tar'']"

definition archive_path :: "string \<Rightarrow> string" where
  "archive_path name = join_path [''repos'', name @ ''.tar'']"

definition capture_one_repo_refs ::
    "ctx \<Rightarrow> string \<Rightarrow> 'w capturer \<Rightarrow> remote \<Rightarrow> ('w, component) io" where
  "capture_one_repo_refs c dir cap r =
     (let p = ''backup: capture git: refs '' @ rName r @ '': ''
      in bnd (orfail (call ''git-refs'' c [rName r] (cap_refs cap c r)) p) (\<lambda>rc.
         bnd (orfail (locally (write_checksummed (join2 dir (refs_path (rName r))) rc)) p) (\<lambda>sum.
         ret (mk_component KindGit (rName r) (refs_path (rName r)) sum))))"

definition capture_one_repo ::
    "ctx \<Rightarrow> string \<Rightarrow> 'w capturer \<Rightarrow> remote \<Rightarrow> ('w, component) io" where
  "capture_one_repo c dir cap r =
     (let p = ''backup: capture git: archive '' @ rName r @ '': ''
      in bnd (orfail (call ''git-archive'' c [rName r] (cap_archive cap c r)) p) (\<lambda>rc.
         bnd (orfail (locally (write_checksummed (join2 dir (archive_path (rName r))) rc)) p) (\<lambda>sum.
         ret (mk_component KindGit (rName r) (archive_path (rName r)) sum))))"

definition capture_git_refs ::
    "ctx \<Rightarrow> string \<Rightarrow> 'w capturer \<Rightarrow> remote list \<Rightarrow> ('w, component list) io" where
  "capture_git_refs c dir cap rs =
     collect (\<lambda>r. bnd (locally (ctx_check c)) (\<lambda>_. capture_one_repo_refs c dir cap r)) rs"

definition capture_git_objects ::
    "ctx \<Rightarrow> string \<Rightarrow> 'w capturer \<Rightarrow> remote list \<Rightarrow> ('w, component list) io" where
  "capture_git_objects c dir cap rs =
     collect (\<lambda>r. bnd (locally (ctx_check c)) (\<lambda>_. capture_one_repo c dir cap r)) rs"

definition capture_one_blob :: "ctx \<Rightarrow> string \<Rightarrow> 'w adapter \<Rightarrow> string \<Rightarrow> ('w, component) io" where
  "capture_one_blob c dir ad key =
     (let p = ''backup: capture blobs: get '' @ key @ '': ''; rel = join_path [''blobs'', key]
      in bnd (orfail (call ''blobs'' c [''get'', key] (bget ad c key)) p) (\<lambda>rc.
         bnd (orfail (locally (write_checksummed (join2 dir rel) rc)) p) (\<lambda>sum.
         ret (mk_component KindBlobs key rel sum))))"

definition capture_blobs :: "ctx \<Rightarrow> string \<Rightarrow> 'w adapter \<Rightarrow> ('w, component list) io" where
  "capture_blobs c dir ad =
     bnd (orfail (call ''blobs'' c [''list''] (blist ad c '''')) ''backup: capture blobs: list: '') (\<lambda>obs.
     collect (\<lambda>ob. bnd (locally (ctx_check c)) (\<lambda>_. capture_one_blob c dir ad (okey ob)))
       (sort_slice (\<lambda>a b. okey a < okey b) obs))"

definition capture_one_key :: "ctx \<Rightarrow> string \<Rightarrow> 'w key_exporter \<Rightarrow> string \<Rightarrow> ('w, component) io" where
  "capture_one_key c dir ks name =
     (let p = ''backup: capture keys: resolve '' @ name @ '': ''; rel = join_path [''keys'', name]
      in bnd (orfail (call ''keys'' c [''resolve'', name] (key_resolve ks c name)) p) (\<lambda>s.
         bnd (orfail (locally (write_checksummed (join2 dir rel) (reveal s, None))) p) (\<lambda>sum.
         ret (mk_component KindKeys name rel sum))))"

definition capture_keys :: "ctx \<Rightarrow> string \<Rightarrow> 'w key_exporter \<Rightarrow> ('w, component list) io" where
  "capture_keys c dir ks =
     collect (\<lambda>n. bnd (locally (ctx_check c)) (\<lambda>_. capture_one_key c dir ks n)) (key_names ks)"

section \<open>The plain snapshot\<close>

definition default_push_hold_ceiling :: int where
  "default_push_hold_ceiling = 30000000000"

definition push_hold_ceiling :: "'w params \<Rightarrow> int" where
  "push_hold_ceiling ps = (if pCeiling ps > 0 then pCeiling ps else default_push_hold_ceiling)"

definition validate_params :: "'w params \<Rightarrow> error + unit" where
  "validate_params ps =
     (if blank (pDir ps) then Inl (errorf ''backup: snapshot directory is required'')
      else if blank (pVersion ps) then Inl (errorf ''backup: forgejo version is required'')
      else if pGit ps = None then Inl (errorf ''backup: git exporter is required'')
      else if pCapturer ps = None then Inl (errorf ''backup: git capturer is required'')
      else if pDatabase ps = None then Inl (errorf ''backup: database exporter is required'')
      else if pBlobs ps = None then Inl (errorf ''backup: blob exporter is required'')
      else if pKeys ps = None then Inl (errorf ''backup: key exporter is required'')
      else if pHold ps = None then Inl (errorf ''backup: push hold is required'')
      else Inr ())"

text \<open>What runs while pushes are held.\<close>

definition held_captures ::
    "ctx \<Rightarrow> 'w params \<Rightarrow> ('w, component \<times> component list \<times> remote list) io" where
  "held_captures hc ps =
     bnd (started ''capture-database'' ''capturing database'') (\<lambda>_.
     bnd (handle (capture_database hc (pDir ps) (the (pDatabase ps))) (fail_step ''capture-database'')) (\<lambda>db.
     bnd (succeeded ''capture-database'' ''database captured'') (\<lambda>_.
     bnd (started ''record-refs'' ''recording repository refs'') (\<lambda>_.
     bnd (handle (orfail (call ''git'' hc [''remotes''] (the (pGit ps) hc))
            ''backup: capture git: list repositories: '') (fail_step ''record-refs'')) (\<lambda>rs.
     bnd (handle (capture_git_refs hc (pDir ps) (the (pCapturer ps)) rs) (fail_step ''record-refs'')) (\<lambda>refs.
     bnd (succeeded ''record-refs'' (''recorded refs for '' @ nat_str (length rs) @ '' repository(ies)'')) (\<lambda>_.
     ret (db, refs, rs))))))))"

text \<open>
  The deferred release: under a context that neither the caller's cancellation nor the hold's deadline
  reaches. Its failure is the result, or is appended to the failure that came first.
\<close>

definition release_hold ::
    "ctx \<Rightarrow> 'w params \<Rightarrow> error + 'a \<Rightarrow> ('w, 'a) io" where
  "release_hold c ps r =
     bnd (attempt (call ''push-hold'' (WithTimeout (WithoutCancel c) (push_hold_ceiling ps)) [''release'']
            (hold_release (the (pHold ps)) (WithTimeout (WithoutCancel c) (push_hold_ceiling ps))))) (\<lambda>rel.
     (case rel of
        Inr _ \<Rightarrow> bnd (succeeded ''push-hold'' ''pushes released'') (\<lambda>_. of_sum r)
      | Inl e \<Rightarrow>
          (let re = wrapf ''backup: release push hold: '' e
           in bnd (emit ''push-hold'' StateFailed (msg re)) (\<lambda>_.
              (case r of
                 Inl e1 \<Rightarrow> fail (Err (msg e1 @ '' (also failed to release push hold: '' @ msg re @ '')'')
                   (sentinels e1))
               | Inr x \<Rightarrow> fail re)))))"

definition capture_under_hold ::
    "ctx \<Rightarrow> 'w params \<Rightarrow> ('w, component \<times> component list \<times> remote list) io" where
  "capture_under_hold c ps =
     bnd (started ''push-hold'' ''holding git pushes'') (\<lambda>_.
     bnd (handle (orfail (call ''push-hold'' c [''engage''] (hold_engage (the (pHold ps)) c))
            ''backup: engage push hold: '') (fail_step ''push-hold'')) (\<lambda>_.
     bnd (attempt (held_captures (WithTimeout c (push_hold_ceiling ps)) ps)) (release_hold c ps)))"

definition captured :: "nat \<Rightarrow> string \<Rightarrow> string" where
  "captured n what = ''captured '' @ nat_str n @ '' '' @ what"

definition after_hold ::
    "('w, 'k) codec \<Rightarrow> ctx \<Rightarrow> 'w params \<Rightarrow> component \<times> component list \<times> remote list \<Rightarrow> ('w, snapshot) io" where
  "after_hold cd c ps held =
     (case held of (db, refs, rs) \<Rightarrow>
     bnd (started ''capture-git'' ''capturing git repositories'') (\<lambda>_.
     bnd (handle (capture_git_objects c (pDir ps) (the (pCapturer ps)) rs) (fail_step ''capture-git'')) (\<lambda>git.
     bnd (succeeded ''capture-git'' (captured (length git) ''repository(ies)'')) (\<lambda>_.
     bnd (started ''capture-blobs'' ''capturing blobs'') (\<lambda>_.
     bnd (handle (capture_blobs c (pDir ps) (the (pBlobs ps))) (fail_step ''capture-blobs'')) (\<lambda>blobs.
     bnd (succeeded ''capture-blobs'' (captured (length blobs) ''blob(s)'')) (\<lambda>_.
     bnd (started ''capture-keys'' ''capturing key material'') (\<lambda>_.
     bnd (handle (capture_keys c (pDir ps) (the (pKeys ps))) (fail_step ''capture-keys'')) (\<lambda>keys.
     bnd (succeeded ''capture-keys'' (captured (length keys) ''key(s)'')) (\<lambda>_.
     bnd (started ''write-manifest'' ''writing snapshot manifest'') (\<lambda>_.
     bnd now (\<lambda>t.
     let m = \<lparr>ForgejoVersion = pVersion ps, Timestamp = t, SnapAlgorithm = DefaultChecksumAlgorithm,
              Components = db # refs @ git @ blobs @ keys\<rparr>
     in bnd (handle (locally (write_manifest cd (pDir ps) m)) (fail_step ''write-manifest'')) (\<lambda>_.
        bnd (succeeded ''write-manifest'' (''manifest written with '' @ nat_str (length (Components m))
               @ '' component(s)'')) (\<lambda>_.
        bnd (started ''verify'' ''verifying snapshot'') (\<lambda>_.
        bnd (handle (orfail (locally (verify cd c (pDir ps) m (key_names (the (pKeys ps)))))
               ''backup: verify snapshot: '') (fail_step ''verify'')) (\<lambda>_.
        bnd (succeeded ''verify'' ''snapshot verified'') (\<lambda>_.
        ret m)))))))))))))))))"

definition run_steps :: "('w, 'k) codec \<Rightarrow> ctx \<Rightarrow> 'w params \<Rightarrow> ('w, snapshot) io" where
  "run_steps cd c ps =
     bnd (started ''validate'' ''checking snapshot parameters'') (\<lambda>_.
     bnd (handle (of_sum (validate_params ps)) (fail_step ''validate'')) (\<lambda>_.
     bnd (handle (orfail (locally (on_fs (os_mkdir_all (pDir ps)))) ''backup: create snapshot directory: '')
            (fail_step ''validate'')) (\<lambda>_.
     bnd (succeeded ''validate'' ''snapshot parameters are valid'') (\<lambda>_.
     bnd (capture_under_hold c ps) (after_hold cd c ps)))))"

definition run :: "('w, 'k) codec \<Rightarrow> ctx \<Rightarrow> 'w params \<Rightarrow> ('w, snapshot) io" where
  "run cd c ps = as_job (\<lambda>_. ''snapshot written to '' @ pDir ps) (run_steps cd c ps)"

section \<open>The encrypted backup\<close>

record ('w, 'k) options =
  oWorkDir :: string
  oVersion :: string
  oDestination :: string
  oIdentity :: "'k option"
  oGit :: "(ctx \<Rightarrow> ('w, remote list) act) option"
  oCapturer :: "'w capturer option"
  oDatabase :: "(ctx \<Rightarrow> ('w, reader) act) option"
  oBlobs :: "'w adapter option"
  oKeys :: "'w key_exporter option"
  oHold :: "'w push_hold option"
  oCeiling :: int

definition validate_options :: "('w, 'k) options \<Rightarrow> error + unit" where
  "validate_options os =
     (if blank (oWorkDir os) then Inl (errorf ''backup: work directory is required'')
      else if oIdentity os = None then Inl (errorf ''backup: age identity is required'')
      else Inr ())"

definition encrypt_to :: "('w, 'k) codec \<Rightarrow> ctx \<Rightarrow> string \<Rightarrow> string \<Rightarrow> 'k \<Rightarrow> ('w, unit) act" where
  "encrypt_to cd c f dir recipient =
     abnd (ahandle (tar_dir cd c dir) (\<lambda>e. afail (wrapf ''archive snapshot: '' e))) (\<lambda>plain.
     abnd (ahandle (asum (age_encrypt cd recipient plain)) (\<lambda>e. afail (wrapf ''finalize encryption: '' e))) (\<lambda>data.
     on_fs (os_write_file f data 384)))"

definition encrypt_body :: "('w, 'k) codec \<Rightarrow> ctx \<Rightarrow> string \<Rightarrow> string \<Rightarrow> 'k \<Rightarrow> ('w, unit) act" where
  "encrypt_body cd c dir dest recipient =
     (if blank dir then afail (errorf ''backup: encrypt: snapshot directory is required'')
      else if blank dest then afail (errorf ''backup: encrypt: destination path is required'')
      else abnd (ahandle (on_fs (os_mkdir_all (dir_of dest))) (\<lambda>e.
                   afail (wrapf ''backup: encrypt: create destination directory: '' e))) (\<lambda>_.
           abnd (ahandle (on_fs (os_write_file dest '''' 384)) (\<lambda>e.
                   afail (wrapf (''backup: encrypt: create '' @ dest @ '': '') e))) (\<lambda>_.
           abnd (ahandle (encrypt_to cd c dest dir recipient) (\<lambda>e.
                   discard dest (wrapf ''backup: encrypt: '' e))) (\<lambda>_.
           ahandle (on_fs os_close) (\<lambda>e. discard dest (wrapf (''backup: encrypt: '' @ dest @ '': '') e))))))"

definition encrypt :: "('w, 'k) codec \<Rightarrow> ctx \<Rightarrow> string \<Rightarrow> string \<Rightarrow> 'k \<Rightarrow> ('w, unit) io" where
  "encrypt cd c dir dest recipient =
     bnd (started ''encrypt'' ''encrypting snapshot'') (\<lambda>_.
     bnd (handle (locally (encrypt_body cd c dir dest recipient)) (fail_step ''encrypt'')) (\<lambda>_.
     succeeded ''encrypt'' (''snapshot encrypted to '' @ dest)))"

definition verify_encrypted ::
    "('w, 'k) codec \<Rightarrow> ctx \<Rightarrow> string \<Rightarrow> string \<Rightarrow> 'k \<Rightarrow> snapshot \<Rightarrow> string list \<Rightarrow> ('w, unit) io" where
  "verify_encrypted cd c archive dest identity m names =
     bnd (started ''verify-encrypted'' ''verifying encrypted snapshot'') (\<lambda>_.
     bnd (handle (orfail (locally (decrypt_archive cd c archive dest identity))
            ''backup: decrypt snapshot for verification: '') (fail_step ''verify-encrypted'')) (\<lambda>_.
     bnd (handle (orfail (locally (verify cd c dest m names)) ''backup: verify encrypted snapshot: '')
            (fail_step ''verify-encrypted'')) (\<lambda>_.
     succeeded ''verify-encrypted'' ''encrypted snapshot verified'')))"

text \<open>\<open>Write\<close>: the archive's bytes go to the destination under the key of the manifest's time.\<close>

definition write_snapshot :: "ctx \<Rightarrow> 'w adapter option \<Rightarrow> string \<Rightarrow> int \<Rightarrow> ('w, string) io" where
  "write_snapshot c dest archive t =
     bnd (started ''write'' ''writing snapshot to destination'') (\<lambda>_.
     bnd (handle
       (case dest of
          None \<Rightarrow> fail (errorf ''backup: write: destination is required'')
        | Some ad \<Rightarrow>
            if blank archive then fail (errorf ''backup: write: archive path is required'')
            else bnd (orfail (locally (on_fs (os_open archive))) (''backup: write: open '' @ archive @ '': '')) (\<lambda>f.
                 bnd (orfail (locally (on_fs (os_stat archive))) (''backup: write: stat '' @ archive @ '': '')) (\<lambda>_.
                 orfail (call ''destination'' c [''put'', snapshot_key t]
                     (bput ad c (snapshot_key t) f (int (length (fst f)))))
                   (''backup: write: put '' @ snapshot_key t @ '': ''))))
       (fail_step ''write'')) (\<lambda>_.
     bnd (succeeded ''write'' (''snapshot written to '' @ snapshot_key t)) (\<lambda>_.
     ret (snapshot_key t))))"

definition run_capture :: "('w, 'k) codec \<Rightarrow> ctx \<Rightarrow> string \<Rightarrow> ('w, 'k) options \<Rightarrow> ('w, snapshot) io" where
  "run_capture cd c dir os =
     bnd (subjob (run cd c \<lparr>pDir = dir, pVersion = oVersion os, pGit = oGit os, pCapturer = oCapturer os,
            pDatabase = oDatabase os, pBlobs = oBlobs os, pKeys = oKeys os, pHold = oHold os,
            pCeiling = oCeiling os\<rparr>)) (\<lambda>r.
     of_sum (fst r))"

definition backup_body ::
    "('w, 'k) codec \<Rightarrow> (string \<Rightarrow> ('w, 'w adapter) act) \<Rightarrow> ctx \<Rightarrow> ('w, 'k) options \<Rightarrow> ('w, string) io" where
  "backup_body cd open_dest c os =
     bnd (started ''resolve-destination'' ''resolving backup destination'') (\<lambda>_.
     bnd (handle (locally (open_dest (oDestination os))) (fail_step ''resolve-destination'')) (\<lambda>dest.
     bnd (succeeded ''resolve-destination'' ''destination resolved'') (\<lambda>_.
     bnd (run_capture cd c (join2 (oWorkDir os) ''snapshot'') os) (\<lambda>m.
     bnd (encrypt cd c (join2 (oWorkDir os) ''snapshot'') (join2 (oWorkDir os) ''snapshot.age'')
            (the (oIdentity os))) (\<lambda>_.
     bnd (verify_encrypted cd c (join2 (oWorkDir os) ''snapshot.age'') (join2 (oWorkDir os) ''verify'')
            (the (oIdentity os)) m (key_names (the (oKeys os)))) (\<lambda>_.
     write_snapshot c (Some dest) (join2 (oWorkDir os) ''snapshot.age'') (Timestamp m)))))))"

definition backup_steps ::
    "('w, 'k) codec \<Rightarrow> (string \<Rightarrow> ('w, 'w adapter) act) \<Rightarrow> ctx \<Rightarrow> ('w, 'k) options \<Rightarrow> ('w, string) io" where
  "backup_steps cd open_dest c os =
     bnd (of_sum (validate_options os)) (\<lambda>_.
     deferred (locally (on_fs (os_remove_all (oWorkDir os)))) (backup_body cd open_dest c os))"

definition backup ::
    "('w, 'k) codec \<Rightarrow> (string \<Rightarrow> ('w, 'w adapter) act) \<Rightarrow> ctx \<Rightarrow> ('w, 'k) options \<Rightarrow> ('w, string) io" where
  "backup cd open_dest c os = as_job (\<lambda>k. ''backup written to '' @ k) (backup_steps cd open_dest c os)"

definition resolve_identity :: "('w, 'k) codec \<Rightarrow> ctx \<Rightarrow> 'w driver \<Rightarrow> ('w, 'k) act" where
  "resolve_identity cd c drv =
     abnd (ahandle (resolve drv c ''age_backup_key'') (\<lambda>e.
             afail (wrapf ''backup: resolve age backup key: '' e))) (\<lambda>s.
     ahandle (asum (age_parse cd (reveal s))) (\<lambda>e. afail (wrapf ''backup: parse age backup key: '' e)))"

section \<open>Facts\<close>

lemma calm_under [calm_intros]: "calm m \<Longrightarrow> step \<noteq> '''' \<Longrightarrow> calm (handle m (fail_step step))"
  by (intro calm_handle calm_fail_step)

lemma calls_under [calls_intros]: "only_calls C m \<Longrightarrow> only_calls C (handle m (fail_step step))"
  by (intro calls_handle calls_fail_step)

lemma captures_calm:
  "calm (capture_database c dir ex)" "calm (capture_git_refs c dir cap rs)"
  "calm (capture_git_objects c dir cap rs)" "calm (capture_blobs c dir ad)" "calm (capture_keys c dir ks)"
  unfolding capture_database_def capture_git_refs_def capture_git_objects_def capture_blobs_def
    capture_keys_def capture_one_repo_refs_def capture_one_repo_def capture_one_blob_def
    capture_one_key_def Let_def
  by (intro calm_intros)+

lemma held_captures_calm: "calm (held_captures hc ps)"
  unfolding held_captures_def
  by (intro calm_intros captures_calm; simp)

lemma release_hold_calm: "calm (release_hold c ps r)"
  unfolding release_hold_def Let_def by (intro calm_intros; simp)

lemma capture_under_hold_calm: "calm (capture_under_hold c ps)"
  unfolding capture_under_hold_def
  by (intro calm_intros held_captures_calm release_hold_calm; simp)

lemma after_hold_calm: "calm (after_hold cd c ps held)"
  unfolding after_hold_def Let_def
  by (intro calm_intros captures_calm; simp)

lemma run_steps_calm: "calm (run_steps cd c ps)"
  unfolding run_steps_def
  by (intro calm_intros capture_under_hold_calm after_hold_calm; simp)

lemma encrypt_calm: "calm (encrypt cd c dir dest recipient)"
  unfolding encrypt_def by (intro calm_intros; simp)

lemma verify_encrypted_calm: "calm (verify_encrypted cd c archive dest i m names)"
  unfolding verify_encrypted_def by (intro calm_intros; simp)

lemma write_snapshot_calm: "calm (write_snapshot c dest archive t)"
  unfolding write_snapshot_def by (intro calm_intros; simp)

lemma run_capture_calm: "calm (run_capture cd c dir os)"
  unfolding run_capture_def run_def by (intro calm_intros completes_as_job run_steps_calm)

lemma backup_steps_calm: "calm (backup_steps cd od c os)"
  unfolding backup_steps_def backup_body_def
  by (intro calm_intros run_capture_calm encrypt_calm verify_encrypted_calm write_snapshot_calm; simp)

text \<open>The calls each part can make.\<close>

definition held_call :: "ctx \<Rightarrow> call \<Rightarrow> bool" where
  "held_call hc k \<longleftrightarrow> iface k \<in> {''database'', ''git'', ''git-refs''} \<and> call_ctx k = hc"

definition later_call :: "ctx \<Rightarrow> call \<Rightarrow> bool" where
  "later_call c k \<longleftrightarrow> iface k \<in> {''git-archive'', ''blobs'', ''keys''} \<and> call_ctx k = c"

lemma held_captures_calls: "only_calls (held_call hc) (held_captures hc ps)"
  unfolding held_captures_def capture_database_def capture_git_refs_def capture_one_repo_refs_def Let_def
  by (intro calls_intros; simp add: held_call_def)

lemma after_hold_calls: "only_calls (later_call c) (after_hold cd c ps held)"
  unfolding after_hold_def capture_git_objects_def capture_one_repo_def capture_blobs_def
    capture_one_blob_def capture_keys_def capture_one_key_def Let_def
  by (intro calls_intros; simp add: later_call_def)

definition engage_call :: "ctx \<Rightarrow> call" where
  "engage_call c = Call ''push-hold'' c [''engage'']"

definition release_call :: "ctx \<Rightarrow> 'w params \<Rightarrow> call" where
  "release_call c ps = Call ''push-hold'' (WithTimeout (WithoutCancel c) (push_hold_ceiling ps)) [''release'']"

lemma attempt_calm:
  assumes "calm m" "m p = (r, p')" "\<not> job_terminal (job p)"
  obtains r' where "attempt m p = (Ok r', p')" "(r' = Inr x) = (r = Ok x)" "(r' = Inl e) = (r = Fail e)"
proof -
  have "orderly r" using calmD [OF assms] by simp
  then show thesis
    using assms(2) that by (cases r) (auto simp: attempt_def orderly_def)
qed

lemma call_step_trace:
  assumes "handle (orfail (call n c as a) pre) (fail_step st) p = (r, p')" "\<not> job_terminal (job p)" "st \<noteq> ''''"
  shows "trace p' = trace p @ [Call n c as]" "orderly r"
proof -
  have "calm (handle (orfail (call n c as a) pre) (fail_step st))"
    using assms(3) by (intro calm_intros)
  from calmD [OF this assms(1,2)] show "orderly r" by simp
  have q: "trace q' = trace q" if "fail_step st e q = (r, q')" for q q' e
    by (rule silentD [OF calls_fail_step that])
  show "trace p' = trace p @ [Call n c as]"
  proof (cases "a (world p)")
    case (Pair ra w)
    then show ?thesis
      using assms(1) by (cases ra) (auto simp: handle_def orfail_def call_def fail_def dest!: q)
  qed
qed

lemma release_hold_trace:
  assumes "release_hold c ps r p = (r', p')" "\<not> job_terminal (job p)"
  shows "trace p' = trace p @ [release_call c ps]" "r' = Ok x \<Longrightarrow> r = Inr x"
proof -
  let ?rc = "WithTimeout (WithoutCancel c) (push_hold_ceiling ps)"
  obtain ra w where a: "hold_release (the (pHold ps)) ?rc (world p) = (ra, w)" by force
  let ?p = "after_call p w (release_call c ps)"
  have "attempt (call ''push-hold'' ?rc [''release''] (hold_release (the (pHold ps)) ?rc)) p = (Ok ra, ?p)"
    using a by (cases ra) (simp_all add: attempt_def call_def release_call_def)
  then have r: "release_hold c ps r p = (case ra of
        Inr _ \<Rightarrow> bnd (succeeded ''push-hold'' ''pushes released'') (\<lambda>_. of_sum r)
      | Inl e \<Rightarrow>
          (let re = wrapf ''backup: release push hold: '' e
           in bnd (emit ''push-hold'' StateFailed (msg re)) (\<lambda>_.
              (case r of
                 Inl e1 \<Rightarrow> fail (Err (msg e1 @ '' (also failed to release push hold: '' @ msg re @ '')'')
                   (sentinels e1))
               | Inr x \<Rightarrow> fail re)))) ?p"
    by (simp add: release_hold_def bnd_def)
  have live: "\<not> job_terminal (job ?p)" using assms(2) by simp
  show "trace p' = trace p @ [release_call c ps]"
    using assms(1) unfolding r
    by (cases ra; cases r) (auto simp: Let_def bnd_def emit_live [OF live])
  show "r' = Ok x \<Longrightarrow> r = Inr x"
    using assms(1) unfolding r
    by (cases ra; cases r) (auto simp: Let_def bnd_def emit_live [OF live])
qed

lemma capture_under_hold_trace:
  assumes "capture_under_hold c ps p = (r, p')" "\<not> job_terminal (job p)"
  shows "(trace p' = trace p @ [engage_call c] \<and> (\<exists>e. r = Fail e)) \<or>
    (\<exists>body. trace p' = trace p @ engage_call c # body @ [release_call c ps] \<and>
       (\<forall>k\<in>set body. held_call (WithTimeout c (push_hold_ceiling ps)) k))"
proof -
  let ?hc = "WithTimeout c (push_hold_ceiling ps)"
  obtain p1 where p1: "started ''push-hold'' ''holding git pushes'' p = (Ok (), p1)"
    "trace p1 = trace p" "\<not> job_terminal (job p1)"
    using assms(2) by (simp add: emit_live)
  let ?eng = "handle (orfail (call ''push-hold'' c [''engage''] (hold_engage (the (pHold ps)) c))
            ''backup: engage push hold: '') (fail_step ''push-hold'')"
  obtain r2 p2 where e: "?eng p1 = (r2, p2)" by force
  have t2: "trace p2 = trace p @ [engage_call c]" "orderly r2"
    using call_step_trace [OF e p1(3)] p1(2) by (simp_all add: engage_call_def)
  have "calm ?eng" by (intro calm_intros) simp
  from calmD [OF this e p1(3)] have live2: "\<not> job_terminal (job p2)" by simp
  have eq: "capture_under_hold c ps p =
      bnd ?eng (\<lambda>_. bnd (attempt (held_captures ?hc ps)) (release_hold c ps)) p1"
    unfolding capture_under_hold_def by (simp add: bnd_def [of "started _ _"] p1(1))
  show ?thesis
  proof (cases r2)
    case (Fail err)
    with assms(1) eq e t2 show ?thesis by (auto simp: bnd_def)
  next
    case (Ok u)
    obtain r3 p3 where h: "held_captures ?hc ps p2 = (r3, p3)" by force
    have live3: "\<not> job_terminal (job p3)" using calmD [OF held_captures_calm h live2] by simp
    obtain body where body: "trace p3 = trace p2 @ body" "\<forall>k\<in>set body. held_call ?hc k"
      using only_callsD [OF held_captures_calls h] .
    obtain s where a: "attempt (held_captures ?hc ps) p2 = (Ok s, p3)"
      using attempt_calm [OF held_captures_calm h live2] by metis
    from assms(1) eq e Ok a have "release_hold c ps s p3 = (r, p')" by (simp add: bnd_def)
    from release_hold_trace(1) [OF this live3] body t2 show ?thesis by auto
  qed (use t2 in simp_all)
qed

lemma as_job_run:
  assumes "calm m" "as_job d m p = (r, p')" "\<not> job_terminal (job p)"
  obtains p1 where "m p = (r, p1)" "trace p' = trace p1" "world p' = world p1"
proof -
  obtain r1 p1 where m: "m p = (r1, p1)" by force
  note c = calmD [OF assms(1) m assms(3)]
  then have live: "\<not> job_terminal (job p1)" and "orderly r1" by simp_all
  then show thesis
    using assms(2) m that
    by (cases r1) (auto simp: as_job_def handle_def bnd_def emit_live [OF live] ret_def fail_def)
qed

lemma bnd_started:
  assumes "\<not> job_terminal (job p)" "step \<noteq> ''''"
  obtains p1 where "bnd (emit step st d) k p = k () p1" "trace p1 = trace p"
    "world p1 = world p" "\<not> job_terminal (job p1)"
  using assms by (auto simp: bnd_def emit_live)

text \<open>A first part whose calls are known, and then the rest or nothing.\<close>

lemma bnd_split:
  assumes "bnd m k p = (r, p')" "calm m" "\<not> job_terminal (job p)"
  obtains (stop) e where "m p = (Fail e, p')" "r = Fail e"
    | (go) x p1 where "m p = (Ok x, p1)" "k x p1 = (r, p')" "\<not> job_terminal (job p1)"
proof -
  obtain r1 p1 where m: "m p = (r1, p1)" by force
  from calmD [OF assms(2) m assms(3)] have "orderly r1" "\<not> job_terminal (job p1)" by simp_all
  then show thesis using assms(1) m stop go by (cases r1) (auto simp: bnd_def)
qed

lemma silent_bnd:
  assumes "bnd m k p = (r, p')" "calm m" "\<not> job_terminal (job p)" "only_calls (\<lambda>_. False) m"
  obtains (stop) e where "r = Fail e" "trace p' = trace p"
    | (go) x p1 where "k x p1 = (r, p')" "\<not> job_terminal (job p1)" "trace p1 = trace p"
  using assms(1-3)
proof (cases rule: bnd_split)
  case (stop e)
  then show thesis using that(1) silentD [OF assms(4)] by blast
next
  case (go x p1)
  then show thesis using that(2) silentD [OF assms(4)] by blast
qed

section \<open>Properties\<close>

text \<open>
  Taking a plain snapshot ends its job exactly once and in order: it never emits after the
  terminal event, never hangs, and the terminal event is a success exactly when \<open>Run\<close> returns a
  manifest.
\<close>

theorem run_completes: "completes (run cd c ps)"
  unfolding run_def by (intro completes_as_job run_steps_calm)

text \<open>
  C31. The same of the whole encrypted backup, whose inner capture runs under a job of its own that
  is relayed and awaited.
\<close>

theorem backup_completes: "completes (backup cd od c os)"
  unfolding backup_def by (intro completes_as_job backup_steps_calm)

text \<open>The checks before the capture, which make no call.\<close>

abbreviation checked_first :: "'w params \<Rightarrow> ('w, unit) io" where
  "checked_first ps \<equiv>
     bnd (started ''validate'' ''checking snapshot parameters'') (\<lambda>_.
     bnd (handle (of_sum (validate_params ps)) (fail_step ''validate'')) (\<lambda>_.
     bnd (handle (orfail (locally (on_fs (os_mkdir_all (pDir ps)))) ''backup: create snapshot directory: '')
            (fail_step ''validate'')) (\<lambda>_.
     succeeded ''validate'' ''snapshot parameters are valid'')))"

lemma run_steps_checked: "run_steps cd c ps = bnd (checked_first ps) (\<lambda>_. bnd (capture_under_hold c ps) (after_hold cd c ps))"
  by (simp add: run_steps_def bnd_assoc)

lemma checked_first_silent: "only_calls (\<lambda>_. False) (checked_first ps)"
  by (intro calls_intros)

lemma checked_first_calm: "calm (checked_first ps)"
  by (intro calm_intros; simp)

text \<open>
  C4. The push hold. Once pushes are held they are released again, whatever the captures do: every
  run's calls are none; or a failed engage alone; or an engage, then only captures of the database and
  of refs, all under the hold's deadline, then the release, under a context the caller cannot have
  cancelled, and only then the object archives, blobs and keys.
\<close>

theorem hold_released:
  assumes "run cd c ps p = (r, p')" "\<not> job_terminal (job p)"
  shows "trace p' = trace p \<or>
    (trace p' = trace p @ [engage_call c] \<and> (\<exists>e. r = Fail e)) \<or>
    (\<exists>body tail. trace p' = trace p @ engage_call c # body @ release_call c ps # tail \<and>
       (\<forall>k\<in>set body. held_call (WithTimeout c (push_hold_ceiling ps)) k) \<and>
       (\<forall>k\<in>set tail. later_call c k))"
proof -
  obtain q where q: "run_steps cd c ps p = (r, q)" "trace p' = trace q"
    using as_job_run [OF run_steps_calm assms(1) [unfolded run_def] assms(2)] by metis
  from q(1) [unfolded run_steps_checked] checked_first_calm assms(2) checked_first_silent
  show ?thesis
  proof (cases rule: silent_bnd)
    case stop
    with q show ?thesis by simp
  next
    case first: (go x p1)
    from first(1) capture_under_hold_calm first(2) show ?thesis
    proof (cases rule: bnd_split)
      case (stop e)
      from capture_under_hold_trace [OF stop(1) first(2)] q(2) first(3) stop(2) show ?thesis
        by (metis append.left_neutral append_Cons append_assoc empty_iff list.set(1))
    next
      case (go held p5)
      obtain tail where tail: "trace q = trace p5 @ tail" "\<forall>k\<in>set tail. later_call c k"
        using only_callsD [OF after_hold_calls go(2)] .
      from capture_under_hold_trace [OF go(1) first(2)] obtain body where
        body: "trace p5 = trace p1 @ engage_call c # body @ [release_call c ps]"
        "\<forall>k\<in>set body. held_call (WithTimeout c (push_hold_ceiling ps)) k" by auto
      with first(3) tail q(2) show ?thesis
        by (intro disjI2 exI [of _ body] exI [of _ tail]) simp
    qed
  qed
qed

definition sample_params :: "unit params" where
  "sample_params = \<lparr>pDir = ''/k/snap'', pVersion = ''v'', pGit = Some (\<lambda>c. aret []),
     pCapturer = Some \<lparr>cap_archive = (\<lambda>c r. aret ('''', None)), cap_refs = (\<lambda>c r. aret ('''', None))\<rparr>,
     pDatabase = Some (\<lambda>c. afail (errorf ''locked'')), pBlobs = Some (sample_adapter []),
     pKeys = Some \<lparr>key_names = [], key_resolve = (\<lambda>c n. aret (Secret ''s''))\<rparr>,
     pHold = Some \<lparr>hold_engage = (\<lambda>c. aret ()), hold_release = (\<lambda>c. aret ())\<rparr>, pCeiling = 0\<rparr>"

text \<open>A run whose database capture fails under the hold: the release is still made.\<close>

lemma sample_run_trace:
  "length (trace (snd (run sample_codec Caller sample_params idle_proc))) = 3"
  by code_simp

lemma hold_released_witness:
  "\<exists>body tail. trace (snd (run sample_codec Caller sample_params idle_proc)) =
     engage_call Caller # body @ release_call Caller sample_params # tail"
proof -
  let ?p' = "snd (run sample_codec Caller sample_params idle_proc)"
  have "run sample_codec Caller sample_params idle_proc
      = (fst (run sample_codec Caller sample_params idle_proc), ?p')" by simp
  from hold_released [OF this idle_live] sample_run_trace show ?thesis
    by (auto simp: idle_proc_def)
qed

text \<open>
  A capture that returned a manifest, and then an archive of the work directory that decrypted and verified
  against it.
\<close>

definition archive_verified ::
    "('w, 'k) codec \<Rightarrow> ctx \<Rightarrow> ('w, 'k) options \<Rightarrow> string \<Rightarrow> 'w proc \<Rightarrow> 'w proc \<Rightarrow> bool" where
  "archive_verified cd c os key q q' \<longleftrightarrow> (\<exists>m q1 q2 w.
     run_capture cd c (join2 (oWorkDir os) ''snapshot'') os q = (Ok m, q1) \<and> runs_to q1 q2 \<and>
     snapshot_key (Timestamp m) = key \<and>
     decrypt_archive cd c (join2 (oWorkDir os) ''snapshot.age'') (join2 (oWorkDir os) ''verify'')
       (the (oIdentity os)) (world q2) = (Inr (), w) \<and>
     verify cd c (join2 (oWorkDir os) ''verify'') m (key_names (the (oKeys os))) w = (Inr (), world q'))"

lemma verify_encrypted_passes:
  "passes (verify_encrypted cd c a d i m names) (\<lambda>q q'. \<exists>w. decrypt_archive cd c a d i (world q) = (Inr (), w) \<and>
     verify cd c d m names w = (Inr (), world q'))"
  unfolding verify_encrypted_def
  by (intro passes_then [of "started _ _"] passes_local_pair calls_intros) auto

abbreviation puts_under :: "string \<Rightarrow> call \<Rightarrow> bool" where
  "puts_under key k \<equiv> iface k = ''destination'' \<and> args k = [''put'', key]"

lemma write_puts: "snapshot_key t \<noteq> key \<Longrightarrow> only_calls (\<lambda>k. \<not> puts_under key k) (write_snapshot c d a t)"
  unfolding write_snapshot_def by (intro calls_intros; simp)

lemma write_snapshot_any: "only_calls (\<lambda>_. True) (write_snapshot c d a t)"
  unfolding write_snapshot_def by (intro calls_intros; simp)

lemma archive_calls: "only_calls C (verify_encrypted cd c a d i m names)" "only_calls C (encrypt cd c dir dest i)"
  unfolding verify_encrypted_def encrypt_def by (intro calls_intros)+

lemma run_capture_puts: "only_calls (\<lambda>k. \<not> puts_under key k) (run_capture cd c dir os)"
proof -
  have "only_calls (\<lambda>k. \<not> puts_under key k) (capture_under_hold c ps)" for ps
    unfolding capture_under_hold_def release_hold_def Let_def
    by (intro calls_intros calls_weaken [OF held_captures_calls]; simp add: held_call_def) auto
  then show ?thesis
    unfolding run_capture_def run_def run_steps_def
    by (intro calls_intros calls_weaken [OF after_hold_calls]) (auto simp: later_call_def)
qed

text \<open>The archive decrypted and verified against a manifest of the key's time.\<close>

definition verified_as :: "('w, 'k) codec \<Rightarrow> ctx \<Rightarrow> ('w, 'k) options \<Rightarrow> string \<Rightarrow> snapshot \<Rightarrow> 'w proc \<Rightarrow> 'w proc \<Rightarrow> bool" where
  "verified_as cd c os key m q q' \<longleftrightarrow> snapshot_key (Timestamp m) = key \<and>
     (\<exists>w. decrypt_archive cd c (join2 (oWorkDir os) ''snapshot.age'') (join2 (oWorkDir os) ''verify'')
       (the (oIdentity os)) (world q) = (Inr (), w) \<and>
     verify cd c (join2 (oWorkDir os) ''verify'') m (key_names (the (oKeys os))) w = (Inr (), world q'))"

lemma verified_put:
  "preceded (puts_under key) (verified_as cd c os key m) (bnd (verify_encrypted cd c (join2 (oWorkDir os) ''snapshot.age'')
      (join2 (oWorkDir os) ''verify'') (the (oIdentity os)) m (key_names (the (oKeys os))))
      (\<lambda>_. write_snapshot c d a (Timestamp m)))"
proof (cases "snapshot_key (Timestamp m) = key")
  case True
  then have "verified_as cd c os key m = (\<lambda>q q'. \<exists>w. decrypt_archive cd c (join2 (oWorkDir os) ''snapshot.age'')
      (join2 (oWorkDir os) ''verify'') (the (oIdentity os)) (world q) = (Inr (), w) \<and>
     verify cd c (join2 (oWorkDir os) ''verify'') m (key_names (the (oKeys os))) w = (Inr (), world q'))"
    by (intro ext) (simp add: verified_as_def)
  then show ?thesis using preceded_by [OF archive_calls(1) write_snapshot_any verify_encrypted_passes] by simp
next
  case False
  show ?thesis by (intro preceded_none calls_intros archive_calls write_puts False)
qed

lemma captured_put:
  "preceded (puts_under key) (archive_verified cd c os key) (bnd (run_capture cd c (join2 (oWorkDir os) ''snapshot'') os) (\<lambda>m.
     bnd (encrypt cd c dir dest i) (\<lambda>_. bnd (verify_encrypted cd c (join2 (oWorkDir os) ''snapshot.age'')
      (join2 (oWorkDir os) ''verify'') (the (oIdentity os)) m (key_names (the (oKeys os))))
      (\<lambda>_. write_snapshot c d a (Timestamp m)))))"
proof (rule preceded_from [OF run_capture_puts])
  fix m
  show "preceded (puts_under key) (verified_as cd c os key m) (bnd (encrypt cd c dir dest i) (\<lambda>_.
      bnd (verify_encrypted cd c (join2 (oWorkDir os) ''snapshot.age'') (join2 (oWorkDir os) ''verify'') (the (oIdentity os)) m
        (key_names (the (oKeys os)))) (\<lambda>_. write_snapshot c d a (Timestamp m))))"
    by (intro preceded_bnd [OF archive_calls(2)] verified_put calls_intros archive_calls write_snapshot_any)
qed (auto simp: archive_verified_def verified_as_def intro: calls_intros archive_calls write_snapshot_any)

text \<open>
  C1. Nothing reaches the destination unverified: a backup puts an object under a key only after the
  encrypted archive was decrypted again and the decrypted snapshot verified against the manifest it was
  captured with, which is the one the key names.
\<close>

theorem put_only_verified:
  "preceded (\<lambda>k. iface k = ''destination'' \<and> args k = [''put'', key]) (archive_verified cd c os key) (backup cd od c os)"
proof -
  note any = write_snapshot_any only_callsI_bound [OF run_capture_puts] archive_calls
  have body: "preceded (puts_under key) (archive_verified cd c os key) (backup_body cd od c os)"
    unfolding backup_body_def by (intro preceded_bnd captured_put) (intro calls_intros any)+
  have "only_calls (\<lambda>_. True) (backup_body cd od c os)"
    unfolding backup_body_def by (intro calls_intros any)
  with body show ?thesis
    unfolding backup_def backup_steps_def
    by (intro preceded_as_job preceded_bnd preceded_deferred) (intro calls_intros | assumption)+
qed

end
