(* ===== verification/Host.thy ===== *)
theory Host
  imports Effects Codec
begin

text \<open>
  Reaching a host (\<open>orchestrate\<close>: \<open>orchestrate.go\<close>, \<open>client.go\<close>, \<open>dockerpath.go\<close>, \<open>remotedir.go\<close>,
  \<open>shell.go\<close>, and \<open>deploy.Host\<close>): the interface every deploying package drives a host through, and
  the SSH client that implements it. What one SSH session does with a command is a parameter
  (\<open>golang.org/x/crypto/ssh\<close> and the shell behind it).
\<close>

section \<open>The interface\<close>

text \<open>\<open>Run\<close> hands over what it wrote to standard output and error beside its error.\<close>

record 'w host =
  h_output :: "ctx \<Rightarrow> string \<Rightarrow> ('w, string) act"
  h_write :: "ctx \<Rightarrow> string \<Rightarrow> string \<Rightarrow> nat \<Rightarrow> ('w, unit) act"
  h_run :: "ctx \<Rightarrow> string \<Rightarrow> string option \<Rightarrow> 'w world \<Rightarrow> (error option \<times> string \<times> string) \<times> 'w world"
  h_check :: "ctx \<Rightarrow> ('w, unit) act"

text \<open>The calls of the deploying code, each in the trace with its command or path.\<close>

definition host_output :: "'w host \<Rightarrow> ctx \<Rightarrow> string \<Rightarrow> ('w, string) io" where
  "host_output h c cmd = call ''host'' c [''output'', cmd] (h_output h c cmd)"

definition host_write :: "'w host \<Rightarrow> ctx \<Rightarrow> string \<Rightarrow> string \<Rightarrow> nat \<Rightarrow> ('w, unit) io" where
  "host_write h c path content mode = call ''host'' c [''write'', path, content] (h_write h c path content mode)"

definition host_run :: "'w host \<Rightarrow> ctx \<Rightarrow> string \<Rightarrow> ('w, error option \<times> string \<times> string) io" where
  "host_run h c cmd = call ''host'' c [''run'', cmd] (\<lambda>w. case h_run h c cmd None w of (r, w') \<Rightarrow> (Inr r, w'))"

definition host_check :: "'w host \<Rightarrow> ctx \<Rightarrow> ('w, unit) io" where
  "host_check h c = call ''host'' c [''check''] (h_check h c)"

lemma host_calm [calm_intros]:
  "calm_on I (host_output h c cmd)" "calm_on I (host_write h c path x m)" "calm_on I (host_run h c cmd)" "calm_on I (host_check h c)"
  unfolding host_output_def host_write_def host_run_def host_check_def by (intro calm_intros)+

text \<open>What a call of the trace does to the host.\<close>

definition host_call :: "call \<Rightarrow> bool" where
  "host_call k \<longleftrightarrow> iface k = ''host''"

definition writes_host :: "call \<Rightarrow> bool" where
  "writes_host k \<longleftrightarrow> iface k = ''host'' \<and> args k \<noteq> [] \<and> hd (args k) = ''write''"

lemma host_calls [calls_intros]:
  "C (Call ''host'' c [''output'', cmd]) \<Longrightarrow> only_calls C (host_output h c cmd)"
  "C (Call ''host'' c [''write'', path, x]) \<Longrightarrow> only_calls C (host_write h c path x m)"
  "C (Call ''host'' c [''run'', cmd]) \<Longrightarrow> only_calls C (host_run h c cmd)"
  "C (Call ''host'' c [''check'']) \<Longrightarrow> only_calls C (host_check h c)"
  unfolding host_output_def host_write_def host_run_def host_check_def by (intro calls_intros; assumption)+

lemma host_follows:
  "follows (host_output h c cmd) [Call ''host'' c [''output'', cmd]]"
  "follows (host_write h c path x m) [Call ''host'' c [''write'', path, x]]"
  "follows (host_run h c cmd) [Call ''host'' c [''run'', cmd]]"
  "follows (host_check h c) [Call ''host'' c [''check'']]"
  unfolding host_output_def host_write_def host_run_def host_check_def by (rule follows_call)+

section \<open>The SSH client\<close>

record target =
  tUser :: string
  tHost :: string
  tPort :: string

text \<open>\<open>net.JoinHostPort\<close>.\<close>

definition join_host_port :: "string \<Rightarrow> string \<Rightarrow> string" where
  "join_host_port h p =
     (if CHR '':'' \<in> set h \<or> CHR ''%'' \<in> set h then ''['' @ h @ '']:'' @ p else h @ '':'' @ p)"

definition target_string :: "target \<Rightarrow> string" where
  "target_string t = ''ssh://'' @ tUser t @ ''@'' @ join_host_port (tHost t) (tPort t)"

definition docker_search_path :: "string list" where
  "docker_search_path = [''$HOME/.docker/bin'', ''/usr/local/bin'', ''/opt/homebrew/bin'', ''/snap/bin'']"

definition docker_path_preamble :: string where
  \<open>docker_path_preamble = ''command -v docker >/dev/null 2>&1 || PATH="$PATH:''
     @ join '':'' docker_search_path @ ''"'' @ nl\<close>

definition with_docker_path :: "string \<Rightarrow> string" where
  "with_docker_path command = docker_path_preamble @ command"

definition invokes_docker :: "string \<Rightarrow> bool" where
  "invokes_docker command = contains_str command ''docker ''"

definition is_command_not_found :: "error \<Rightarrow> bool" where
  "is_command_not_found e = errors_is e (ExitCode 127)"

definition docker_missing_hint :: "string \<Rightarrow> error \<Rightarrow> string" where
  "docker_missing_hint command e =
     (if \<not> invokes_docker command \<or> \<not> is_command_not_found e then ''''
      else '': docker was not found on this host. An SSH command session is''
        @ '' non-interactive and non-login, so it reads neither .zshrc nor .bash_profile '' @ em_dash
        @ '' a docker that works in your terminal can still be invisible here. Farrier also''
        @ '' looked in '' @ join '', '' docker_search_path
        @ ''. If docker lives somewhere else, put it on the non-interactive PATH''
        @ '' (on macOS, add it to ~/.zshenv) or link it into /usr/local/bin'')"

definition DefaultRemoteDir :: string where "DefaultRemoteDir = ''/opt/farrier''"

definition path_writing_commands :: "string list" where
  "path_writing_commands = [''mkdir '', ''touch '', ''cat >'', ''tar -C '']"

definition writes_path :: "string \<Rightarrow> bool" where
  "writes_path command = list_ex (contains_str command) path_writing_commands"

definition refused_access :: "string \<Rightarrow> bool" where
  "refused_access stderr =
     list_ex (contains_str (to_lower stderr))
       [''permission denied'', ''operation not permitted'', ''read-only file system'']"

definition remote_dir_hint :: "string \<Rightarrow> string \<Rightarrow> string" where
  "remote_dir_hint command stderr =
     (if \<not> writes_path command \<or> \<not> refused_access stderr then ''''
      else '': the host refused to create or write that path. Farrier deploys into '' @ DefaultRemoteDir
        @ '' unless told otherwise,''
        @ '' and on most hosts that directory belongs to root '' @ em_dash
        @ '' an ordinary SSH user cannot create it. Either create it on the host''
        @ '' and give it to the user in your target, or pass -remote-dir an absolute path that user can already write, such as''
        @ '' /home/you/farrier (on macOS, keep it under /Users so Docker can share it). Whichever you choose, pass the same''
        @ '' -remote-dir to every later command against this host'')"

definition session_suffix :: "string \<Rightarrow> string" where
  "session_suffix stderr =
     (let s = trim_space stderr in if s = '''' then '''' else '' (stderr: '' @ s @ '')'')"

text \<open>
  What a session does with a command and its standard input: it cannot be opened, the command does not
  start, the context ends first, or the command finishes with an error (and its exit status, if it has
  one) or none; and what it wrote.
\<close>

datatype outcome =
  NoSession string | NotStarted string | CtxEnded string | Finished "(string \<times> nat option) option"

type_synonym 'w ssh =
  "ctx \<Rightarrow> string \<Rightarrow> string option \<Rightarrow> 'w world \<Rightarrow> (outcome \<times> string \<times> string) \<times> 'w world"

definition stderr_tap_limit :: nat where "stderr_tap_limit = 4096"

definition client_error :: "target \<Rightarrow> string \<Rightarrow> string \<Rightarrow> outcome \<Rightarrow> error option" where
  "client_error t command stderr r =
     (case r of
        NoSession m \<Rightarrow> Some (errorf (''orchestrate: '' @ target_string t @ '': open session: '' @ m))
      | NotStarted m \<Rightarrow>
          Some (errorf (''orchestrate: '' @ target_string t @ '': start '' @ quote command @ '': '' @ m))
      | CtxEnded m \<Rightarrow>
          Some (Err (''orchestrate: '' @ target_string t @ '': '' @ quote command @ '': '' @ m) [CtxDone])
      | Finished None \<Rightarrow> None
      | Finished (Some (m, st)) \<Rightarrow>
          (let e = Err m (case st of None \<Rightarrow> [] | Some n \<Rightarrow> [ExitCode n])
           in Some (suffixf (wrapf (''orchestrate: '' @ target_string t @ '': '' @ quote command @ '': '') e)
                (docker_missing_hint command e @ remote_dir_hint command (take stderr_tap_limit stderr)))))"

definition client_run ::
    "target \<Rightarrow> 'w ssh \<Rightarrow> ctx \<Rightarrow> string \<Rightarrow> string option \<Rightarrow> 'w world \<Rightarrow> (error option \<times> string \<times> string) \<times> 'w world" where
  "client_run t ssh c command stdin = (\<lambda>w.
     case ssh c (with_docker_path command) stdin w of
       ((r, out, err), w') \<Rightarrow> ((client_error t command err r, out, err), w'))"

definition client_output :: "target \<Rightarrow> 'w ssh \<Rightarrow> ctx \<Rightarrow> string \<Rightarrow> ('w, string) act" where
  "client_output t ssh c command = (\<lambda>w.
     case client_run t ssh c command None w of
       ((Some e, out, err), w') \<Rightarrow> (Inl (suffixf e (session_suffix err)), w')
     | ((None, out, err), w') \<Rightarrow> (Inr out, w'))"

text \<open>\<open>strconv.FormatUint(mode, 8)\<close>.\<close>

fun oct_str :: "nat \<Rightarrow> string" where
  "oct_str n = (if n < 8 then [digit_char n] else oct_str (n div 8) @ [digit_char (n mod 8)])"

declare oct_str.simps [simp del]

definition write_command :: "string \<Rightarrow> nat \<Rightarrow> string" where
  "write_command path mode =
     (let tmp = path @ ''.tmp''
      in ''mkdir -p '' @ shell_quote (dir_of path) @ '' && cat > '' @ shell_quote tmp @ '' && chmod ''
         @ oct_str mode @ '' '' @ shell_quote tmp @ '' && mv '' @ shell_quote tmp @ '' '' @ shell_quote path)"

definition client_write :: "target \<Rightarrow> 'w ssh \<Rightarrow> ctx \<Rightarrow> string \<Rightarrow> string \<Rightarrow> nat \<Rightarrow> ('w, unit) act" where
  "client_write t ssh c path content mode = (\<lambda>w.
     case client_run t ssh c (write_command path mode) (Some content) w of
       ((Some e, out, err), w') \<Rightarrow>
         (Inl (suffixf (wrapf (''orchestrate: '' @ target_string t @ '': write '' @ path @ '': '') e)
                (session_suffix err)), w')
     | ((None, out, err), w') \<Rightarrow> (Inr (), w'))"

definition docker_version_command :: string where
  \<open>docker_version_command = ''docker version --format '' @ [squote] @ ''{{.Server.Version}}'' @ [squote]\<close>

definition client_check :: "target \<Rightarrow> 'w ssh \<Rightarrow> ctx \<Rightarrow> ('w, unit) act" where
  "client_check t ssh c = (\<lambda>w.
     case client_run t ssh c docker_version_command None w of
       ((Some e, out, err), w') \<Rightarrow>
         (let m = trim_space err
          in if m \<noteq> ''''
             then (Inl (errorf (''orchestrate: '' @ target_string t @ '': Docker not usable over SSH: '' @ m
                     @ docker_missing_hint docker_version_command e)), w')
             else (Inl (wrapf (''orchestrate: '' @ target_string t @ '': Docker not usable over SSH: '') e), w'))
     | ((None, out, err), w') \<Rightarrow> (Inr (), w'))"

definition client_host :: "target \<Rightarrow> 'w ssh \<Rightarrow> 'w host" where
  "client_host t ssh =
     \<lparr>h_output = client_output t ssh, h_write = client_write t ssh, h_run = client_run t ssh,
      h_check = client_check t ssh\<rparr>"

end
