(* ===== verification/Compose.thy ===== *)
theory Compose
  imports Host Manifest
begin

text \<open>
  The rendered Compose files and their convergence onto a host (\<open>orchestrate\<close>: \<open>render.go\<close>,
  \<open>mount.go\<close>, \<open>service.go\<close>, \<open>network.go\<close>, \<open>compose_command.go\<close>, \<open>converge.go\<close>). A set of files is the
  list of its names and contents in the order a Go map iteration visits them, which is arbitrary: the
  theorems hold for every order. YAML documents are values of a datatype; the encoder and the parser of
  the library are parameters.
\<close>

section \<open>Documents\<close>

datatype yaml = YNull | YScalar string | YStr string | YList "yaml list" | YMap "(string \<times> yaml) list"

type_synonym ymap = "(string \<times> yaml) list"

type_synonym files = "(string \<times> string) list"

record yaml_codec =
  yaml_parse :: "string \<Rightarrow> error + ymap"
  yaml_encode :: "ymap \<Rightarrow> error + string"

text \<open>Assigning a key of a map keeps its place, or adds it.\<close>

definition yget :: "ymap \<Rightarrow> string \<Rightarrow> yaml" where
  "yget m k = (case map_of m k of None \<Rightarrow> YNull | Some v \<Rightarrow> v)"

fun put_key :: "'k \<Rightarrow> 'v \<Rightarrow> ('k \<times> 'v) list \<Rightarrow> ('k \<times> 'v) list" where
  "put_key k v [] = [(k, v)]"
| "put_key k v ((k', v') # m) = (if k' = k then (k, v) # m else (k', v') # put_key k v m)"

text \<open>The type assertions \<open>v, _ := x.(T)\<close>: the zero value on a mismatch.\<close>

fun as_map :: "yaml \<Rightarrow> ymap" where
  "as_map (YMap m) = m"
| "as_map _ = []"

fun as_list :: "yaml \<Rightarrow> yaml list" where
  "as_list (YList xs) = xs"
| "as_list _ = []"

section \<open>Editing a service\<close>

text \<open>
  The loop all the \<open>With\<close> functions share: the first file, in iteration order, that declares the
  service has the service's map replaced and is encoded again.
\<close>

definition set_service :: "ymap \<Rightarrow> string \<Rightarrow> ymap \<Rightarrow> ymap" where
  "set_service doc service svc =
     put_key ''services'' (YMap (put_key service (YMap svc) (as_map (yget doc ''services'')))) doc"

definition find_service :: "ymap \<Rightarrow> string \<Rightarrow> ymap option" where
  "find_service doc service =
     (case yget (as_map (yget doc ''services'')) service of YMap svc \<Rightarrow> Some svc | _ \<Rightarrow> None)"

fun edit_service ::
    "yaml_codec \<Rightarrow> string \<Rightarrow> string \<Rightarrow> (ymap \<Rightarrow> error + ymap) \<Rightarrow> files \<Rightarrow> files \<Rightarrow> error + files" where
  "edit_service y op service f files [] =
     Inl (errorf (''orchestrate: '' @ op @ '': no Compose file declares service '' @ quote service))"
| "edit_service y op service f files ((name, raw) # rest) =
     (case yaml_parse y raw of
        Inl e \<Rightarrow> Inl (wrapf (''orchestrate: '' @ op @ '': parse '' @ name @ '': '') e)
      | Inr doc \<Rightarrow>
          (case find_service doc service of
             None \<Rightarrow> edit_service y op service f files rest
           | Some svc \<Rightarrow>
               (case f svc of
                  Inl e \<Rightarrow> Inl (wrapf (''orchestrate: '' @ op @ '': service '' @ quote service @ '': '') e)
                | Inr svc' \<Rightarrow>
                    (case yaml_encode y (set_service doc service svc') of
                       Inl e \<Rightarrow> Inl (wrapf (''orchestrate: '' @ op @ '': encode '' @ name @ '': '') e)
                     | Inr out \<Rightarrow> Inr (put_key name out files)))))"

definition with_service_list_entry ::
    "yaml_codec \<Rightarrow> files \<Rightarrow> string \<Rightarrow> string \<Rightarrow> string \<Rightarrow> string \<Rightarrow> error + files" where
  "with_service_list_entry y files op service field entry =
     edit_service y op service
       (\<lambda>svc. Inr (put_key field (YList (as_list (yget svc field) @ [YStr entry])) svc)) files files"

definition with_bind_mount :: "yaml_codec \<Rightarrow> files \<Rightarrow> string \<Rightarrow> string \<Rightarrow> string \<Rightarrow> error + files" where
  "with_bind_mount y files service hostPath containerPath =
     with_service_list_entry y files ''with bind mount'' service ''volumes'' (hostPath @ '':'' @ containerPath)"

definition with_ports :: "yaml_codec \<Rightarrow> files \<Rightarrow> string \<Rightarrow> string \<Rightarrow> string \<Rightarrow> error + files" where
  "with_ports y files service hostPort containerPort =
     with_service_list_entry y files ''with ports'' service ''ports'' (hostPort @ '':'' @ containerPort)"

definition LoopbackAddress :: string where "LoopbackAddress = ''127.0.0.1''"

definition with_loopback_ports :: "yaml_codec \<Rightarrow> files \<Rightarrow> string \<Rightarrow> string \<Rightarrow> string \<Rightarrow> error + files" where
  "with_loopback_ports y files service hostPort containerPort =
     with_service_list_entry y files ''with loopback ports'' service ''ports''
       (LoopbackAddress @ '':'' @ hostPort @ '':'' @ containerPort)"

definition with_env :: "yaml_codec \<Rightarrow> files \<Rightarrow> string \<Rightarrow> string \<Rightarrow> string \<Rightarrow> error + files" where
  "with_env y files service key value =
     edit_service y ''with env'' service
       (\<lambda>svc. Inr (put_key ''environment''
          (YMap (put_key key (YStr value) (as_map (yget svc ''environment'')))) svc)) files files"

definition with_service_field ::
    "yaml_codec \<Rightarrow> files \<Rightarrow> string \<Rightarrow> string \<Rightarrow> string \<Rightarrow> yaml \<Rightarrow> error + files" where
  "with_service_field y files op service field value =
     edit_service y op service (\<lambda>svc. Inr (put_key field value svc)) files files"

definition with_command :: "yaml_codec \<Rightarrow> files \<Rightarrow> string \<Rightarrow> string list \<Rightarrow> error + files" where
  "with_command y files service command =
     (if command = [] then Inl (errorf ''orchestrate: with command: command is required'')
      else with_service_field y files ''with command'' service ''command'' (YList (map YStr command)))"

definition with_user :: "yaml_codec \<Rightarrow> files \<Rightarrow> string \<Rightarrow> string \<Rightarrow> error + files" where
  "with_user y files service user =
     (if user = '''' then Inl (errorf ''orchestrate: with user: user is required'')
      else with_service_field y files ''with user'' service ''user'' (YStr user))"

text \<open>\<open>WithoutService\<close> visits every file; \<open>delete\<close> removes the one entry of the key.\<close>

fun without_loop :: "yaml_codec \<Rightarrow> string \<Rightarrow> files \<Rightarrow> files \<Rightarrow> error + files" where
  "without_loop y service [] res = Inr res"
| "without_loop y service ((name, raw) # rest) res =
     (case yaml_parse y raw of
        Inl e \<Rightarrow> Inl (wrapf (''orchestrate: without service: parse '' @ name @ '': '') e)
      | Inr doc \<Rightarrow>
          (let services = as_map (yget doc ''services'')
           in if map_of services service = None then without_loop y service rest res
              else (case yaml_encode y (put_key ''services''
                       (YMap (filter (\<lambda>x. fst x \<noteq> service) services)) doc) of
                      Inl e \<Rightarrow> Inl (wrapf (''orchestrate: without service: encode '' @ name @ '': '') e)
                    | Inr out \<Rightarrow> without_loop y service rest (put_key name out res))))"

definition without_service :: "yaml_codec \<Rightarrow> files \<Rightarrow> string \<Rightarrow> error + files" where
  "without_service y files service = without_loop y service files files"

text \<open>The verb \<open>%v\<close> of a document value; a map prints its keys in order.\<close>

fun show_yaml :: "yaml \<Rightarrow> string" where
  "show_yaml YNull = ''<nil>''"
| "show_yaml (YScalar t) = t"
| "show_yaml (YStr t) = t"
| "show_yaml (YList xs) = ''['' @ join '' '' (map show_yaml xs) @ '']''"
| "show_yaml (YMap m) = ''map['' @ join '' '' (map (\<lambda>(k, v). k @ '':'' @ v)
     (sort_key fst (map (\<lambda>(k, v). (k, show_yaml v)) m))) @ '']''"

definition default_network :: string where "default_network = ''default''"

fun list_networks :: "yaml list \<Rightarrow> string \<Rightarrow> ymap \<Rightarrow> error + ymap" where
  "list_networks [] alias out = Inr out"
| "list_networks (YStr name # es) alias out =
     list_networks es alias (put_key name (YMap [(''aliases'', YList [YStr alias])]) out)"
| "list_networks (e # es) alias out = Inl (errorf (''network entry '' @ show_yaml e @ '' is not a name''))"

definition networks_with_alias :: "yaml \<Rightarrow> string \<Rightarrow> error + ymap" where
  "networks_with_alias existing alias =
     (case (case existing of
              YList es \<Rightarrow> list_networks es alias []
            | YMap ns \<Rightarrow> Inr (map (\<lambda>(name, opts). (name, YMap (put_key ''aliases''
                (YList (as_list (yget (as_map opts) ''aliases'') @ [YStr alias])) (as_map opts)))) ns)
            | YNull \<Rightarrow> Inr [(default_network, YMap [(''aliases'', YList [YStr alias])])]
            | _ \<Rightarrow> Inl (errorf ''networks key is neither a list nor a mapping'')) of
        Inl e \<Rightarrow> Inl e
      | Inr out \<Rightarrow> (if out = [] then Inl (errorf ''joins no network to alias on'') else Inr out))"

definition with_network_alias :: "yaml_codec \<Rightarrow> files \<Rightarrow> string \<Rightarrow> string \<Rightarrow> error + files" where
  "with_network_alias y files service alias =
     (if alias = '''' then Inl (errorf ''orchestrate: with network alias: alias is required'')
      else edit_service y ''with network alias'' service
        (\<lambda>svc. case networks_with_alias (yget svc ''networks'') alias of
           Inl e \<Rightarrow> Inl e | Inr ns \<Rightarrow> Inr (put_key ''networks'' (YMap ns) svc)) files files)"

section \<open>Rendering\<close>

definition ComposeFile :: string where "ComposeFile = ''docker-compose.yml''"
definition network_name :: string where "network_name = ''farrier''"

record compose_service =
  cs_image :: string
  cs_container_name :: string
  cs_restart :: string
  cs_networks :: "string list"
  cs_environment :: "(string \<times> string) list"

text \<open>How the struct tags encode a service; the empty \<open>omitempty\<close> fields are left out.\<close>

definition service_yaml :: "compose_service \<Rightarrow> yaml" where
  "service_yaml s = YMap
     ([(''image'', YStr (cs_image s)), (''container_name'', YStr (cs_container_name s)),
       (''restart'', YStr (cs_restart s)), (''networks'', YList (map YStr (cs_networks s)))]
      @ (if cs_environment s = [] then []
         else [(''environment'', YMap (map (\<lambda>(k, v). (k, YStr v)) (cs_environment s)))]))"

definition render_service :: "manifest \<Rightarrow> string \<Rightarrow> string \<Rightarrow> compose_service" where
  "render_service m cname img =
     \<lparr>cs_image = img, cs_container_name = ''farrier-'' @ cname, cs_restart = ''unless-stopped'',
      cs_networks = [network_name],
      cs_environment = (if named m then [(''FARRIER_DOMAIN'', Domain m)] else [])\<rparr>"

definition render :: "yaml_codec \<Rightarrow> manifest option \<Rightarrow> error + files" where
  "render y mo =
     (case mo of
        None \<Rightarrow> Inl (errorf ''orchestrate: render: manifest is required'')
      | Some m \<Rightarrow>
          (case validate m of
             Inl e \<Rightarrow> Inl (wrapf ''orchestrate: render: '' e)
           | Inr _ \<Rightarrow>
               (case yaml_encode y
                  [(''services'', YMap (map (\<lambda>(cname, img). (cname, service_yaml (render_service m cname img))) (Images m))),
                   (''networks'', YMap [(network_name, YMap [(''name'', YStr network_name)])])] of
                  Inl e \<Rightarrow> Inl (wrapf ''orchestrate: render: encode compose: '' e)
                | Inr out \<Rightarrow> Inr [(ComposeFile, out)])))"

section \<open>The Compose project\<close>

definition LegacyProjectName :: string where "LegacyProjectName = ''farrier''"
definition ProjectFile :: string where "ProjectFile = ''compose-project''"
definition max_project_slug :: nat where "max_project_slug = 40"

definition project_path :: "string \<Rightarrow> string" where
  "project_path remoteDir = join2 remoteDir ProjectFile"

text \<open>
  The loop of \<open>projectSlug\<close>: \<open>out\<close> is what has been written, newest first. It runs over bytes; the bytes
  of a rune beyond ASCII are all separators, and adjacent separators write one hyphen.
\<close>

definition slug_char :: "char \<Rightarrow> bool" where
  "slug_char c \<longleftrightarrow> (CHR ''a'' \<le> c \<and> c \<le> CHR ''z'') \<or> (CHR ''0'' \<le> c \<and> c \<le> CHR ''9'')"

fun slug_loop :: "string \<Rightarrow> string \<Rightarrow> bool \<Rightarrow> string" where
  "slug_loop [] out dash = rev out"
| "slug_loop (c # s) out dash =
     (let (out', dash') =
        (if slug_char c then (c # out, False)
         else if \<not> dash \<and> out \<noteq> [] then (CHR ''-'' # out, True) else (out, dash))
      in if length out' \<ge> max_project_slug then rev out' else slug_loop s out' dash')"

definition project_slug :: "string \<Rightarrow> string" where
  "project_slug s = trim_set ''-'' (slug_loop (to_lower s) [] False)"

definition project_name_for :: "string \<Rightarrow> bundle_data option \<Rightarrow> string" where
  "project_name_for remoteDir b =
     (let domain = (case b of None \<Rightarrow> '''' | Some bd \<Rightarrow> trim_space (Domain (b_manifest bd)));
          digest = take 8 (sha256_hex (domain @ CHR 0x00 # clean remoteDir));
          slug = project_slug domain
      in if slug = '''' then LegacyProjectName @ ''-'' @ digest
         else LegacyProjectName @ ''-'' @ slug @ ''-'' @ digest)"

definition pin_script :: "string \<Rightarrow> bundle_data option \<Rightarrow> string" where
  \<open>pin_script remoteDir b =
     (let record = shell_quote (project_path remoteDir);
          shipped = shell_quote (join2 remoteDir ComposeDir);
          derived = shell_quote (project_name_for remoteDir b);
          legacy = shell_quote LegacyProjectName;
          fmt = squote # ''%s'' @ [CHR 0x5C] @ ''n'' @ [squote]
      in ''if [ ! -s '' @ record @ '' ]; then if [ -d '' @ shipped @ '' ]; then printf '' @ fmt @ '' '' @ legacy
         @ '' > '' @ record @ ''; else printf '' @ fmt @ '' '' @ derived @ '' > '' @ record @ ''; fi; fi'')\<close>

definition pin_project_name :: "'w host \<Rightarrow> ctx \<Rightarrow> string \<Rightarrow> bundle_data option \<Rightarrow> ('w, unit) io" where
  "pin_project_name h c remoteDir b =
     bnd (handle (host_output h c (pin_script remoteDir b)) (\<lambda>e.
            fail (wrapf (''orchestrate: pin compose project at '' @ project_path remoteDir @ '': '') e))) (\<lambda>_.
     ret ())"

definition compose_command :: "string \<Rightarrow> bundle_data option \<Rightarrow> error + string" where
  \<open>compose_command remoteDir bo =
     (if blank remoteDir then Inl (errorf ''orchestrate: compose command: remote directory is required'')
      else (case bo of
          None \<Rightarrow> Inl (errorf ''orchestrate: compose command: bundle has no rendered Compose files'')
        | Some b \<Rightarrow>
            if b_compose b = [] then Inl (errorf ''orchestrate: compose command: bundle has no rendered Compose files'')
            else (let record = shell_quote (project_path remoteDir);
                      project = ''"$(if [ -s '' @ record @ '' ]; then cat '' @ record @ ''; else printf ''
                        @ [squote] @ ''%s'' @ [squote] @ '' '' @ shell_quote LegacyProjectName @ ''; fi)"''
                  in Inr (''cd '' @ shell_quote remoteDir @ '' && COMPOSE_PROJECT_NAME='' @ project @ '' COMPOSE_FILE=''
                       @ shell_quote (join '':'' (map (join2 ComposeDir) (sort (map fst (b_compose b)))))))))\<close>

section \<open>Convergence\<close>

fun ship_files :: "'w host \<Rightarrow> ctx \<Rightarrow> string \<Rightarrow> (string \<times> string) list \<Rightarrow> ('w, unit) io" where
  "ship_files h c staging [] = ret ()"
| "ship_files h c staging ((name, content) # rest) =
     bnd (orfail (host_write h c (join2 staging name) content 420)
            (''orchestrate: converge: ship '' @ name @ '': '')) (\<lambda>_.
     ship_files h c staging rest)"

definition converge :: "'w host \<Rightarrow> ctx \<Rightarrow> string \<Rightarrow> bundle_data option \<Rightarrow> ('w, unit) io" where
  "converge h c remoteDir bo =
     (if blank remoteDir then fail (errorf ''orchestrate: converge: remote directory is required'')
      else (case bo of
          None \<Rightarrow> fail (errorf ''orchestrate: converge: bundle has no rendered Compose files'')
        | Some b \<Rightarrow>
            if b_compose b = [] then fail (errorf ''orchestrate: converge: bundle has no rendered Compose files'')
            else (let dir = join2 remoteDir ComposeDir; staging = dir @ ''.tmp''
              in bnd (orfail (host_output h c (''rm -rf '' @ shell_quote staging @ '' && mkdir -p '' @ shell_quote staging))
                   (''orchestrate: converge: stage '' @ staging @ '': '')) (\<lambda>_.
                 bnd (orfail (pin_project_name h c remoteDir bo) ''orchestrate: converge: '') (\<lambda>_.
                 bnd (ship_files h c staging (sort_key fst (b_compose b))) (\<lambda>_.
                 bnd (orfail (host_output h c (''rm -rf '' @ shell_quote dir @ '' && mv '' @ shell_quote staging
                        @ '' '' @ shell_quote dir)) (''orchestrate: converge: install '' @ dir @ '': '')) (\<lambda>_.
                 bnd (orfail (of_sum (compose_command remoteDir bo)) ''orchestrate: converge: '') (\<lambda>pre.
                 bnd (orfail (host_output h c (pre @ '' docker compose up -d --remove-orphans''))
                        ''orchestrate: converge: docker compose up: '') (\<lambda>_.
                 ret ())))))))))"

section \<open>Facts\<close>

lemma map_of_put_key: "map_of (put_key k v m) x = (if x = k then Some v else map_of m x)"
  by (induction m rule: put_key.induct) auto

lemma yget_put_key: "yget (put_key k v m) x = (if x = k then v else yget m x)"
  by (simp add: yget_def map_of_put_key)

lemma find_set_service:
  "find_service (set_service doc s svc) t = (if t = s then Some svc else find_service doc t)"
  by (simp add: find_service_def set_service_def yget_put_key)

text \<open>What an edit that succeeds did: one file, the first that declares the service.\<close>

lemma edit_service_Inr:
  assumes "edit_service y op s f files todo = Inr files'"
  obtains pre name raw post doc svc svc' out where
    "todo = pre @ (name, raw) # post" "yaml_parse y raw = Inr doc" "find_service doc s = Some svc"
    "f svc = Inr svc'" "yaml_encode y (set_service doc s svc') = Inr out" "files' = put_key name out files"
proof -
  have "\<exists>pre name raw post doc svc svc' out. todo = pre @ (name, raw) # post \<and> yaml_parse y raw = Inr doc \<and>
      find_service doc s = Some svc \<and> f svc = Inr svc' \<and>
      yaml_encode y (set_service doc s svc') = Inr out \<and> files' = put_key name out files"
    using assms
  proof (induction todo)
    case (Cons x todo)
    obtain name raw where x: "x = (name, raw)" by force
    from Cons.prems obtain doc where doc: "yaml_parse y raw = Inr doc"
      by (auto simp: x split: sum.splits)
    show ?case
    proof (cases "find_service doc s")
      case None
      with Cons doc obtain pre name' raw' post doc' svc svc' out where
        "todo = pre @ (name', raw') # post" "yaml_parse y raw' = Inr doc'" "find_service doc' s = Some svc"
        "f svc = Inr svc'" "yaml_encode y (set_service doc' s svc') = Inr out" "files' = put_key name' out files"
        by (auto simp: x)
      then show ?thesis
        by (intro exI [of _ "x # pre"] exI [of _ name'] exI [of _ raw'] exI [of _ post] exI [of _ doc']
            exI [of _ svc] exI [of _ svc'] exI [of _ out]) simp
    next
      case (Some svc)
      with Cons.prems doc obtain svc' out where
        "f svc = Inr svc'" "yaml_encode y (set_service doc s svc') = Inr out" "files' = put_key name out files"
        by (auto simp: x split: sum.splits)
      with Some doc show ?thesis
        by (intro exI [of _ "[]"] exI [of _ name] exI [of _ raw] exI [of _ todo] exI [of _ doc]
            exI [of _ svc] exI [of _ svc'] exI [of _ out]) (simp add: x)
    qed
  qed simp
  then show thesis using that by blast
qed

lemma slug_loop_spec:
  "length out < max_project_slug \<Longrightarrow> length (slug_loop s out dash) \<le> max_project_slug \<and>
   (\<forall>c\<in>set (slug_loop s out dash). slug_char c \<or> c = CHR ''-'' \<or> c \<in> set out)"
proof (induction s arbitrary: out dash)
  case (Cons c s)
  have step: ?case if "slug_loop (c # s) out dash =
      (if length out' \<ge> max_project_slug then rev out' else slug_loop s out' dash')"
      "length out' \<le> Suc (length out)" "\<forall>d\<in>set out'. slug_char d \<or> d = CHR ''-'' \<or> d \<in> set out"
    for out' dash'
  proof (cases "length out' \<ge> max_project_slug")
    case True
    then show ?thesis unfolding that(1) using that(2,3) Cons.prems by auto
  next
    case False
    with Cons.IH [of out' dash'] that(3) show ?thesis unfolding that(1) by auto
  qed
  show ?case
  proof (cases "slug_char c")
    case True
    then show ?thesis by (intro step [of "c # out" False]) simp_all
  next
    case sep: False
    show ?thesis
    proof (cases "\<not> dash \<and> out \<noteq> []")
      case True
      with sep show ?thesis by (intro step [of "CHR ''-'' # out" True]) auto
    next
      case False
      with sep show ?thesis by (intro step [of out dash]) auto
    qed
  qed
qed auto

lemma trim_set_sub: "set (trim_set cs s) \<subseteq> set s" "length (trim_set cs s) \<le> length s"
proof -
  have a: "set (trim_right_set cs t) \<subseteq> set t" "length (trim_right_set cs t) \<le> length t" for t
    using set_dropWhileD [of _ _ "rev t"] length_dropWhile_le [of _ "rev t"]
    by (auto simp: trim_right_set_def)
  show "set (trim_set cs s) \<subseteq> set s"
    using a(1) set_dropWhileD by (fastforce simp: trim_set_def)
  show "length (trim_set cs s) \<le> length s"
    using a(2) [of "dropWhile (\<lambda>c. c \<in> set cs) s"] length_dropWhile_le [of "\<lambda>c. c \<in> set cs" s]
    by (simp add: trim_set_def)
qed

lemma hex_digit_char: "n < 16 \<Longrightarrow> hex_digit n \<in> set ''0123456789abcdef''"
proof -
  assume "n < 16"
  then have "n \<in> set [0..<16]" by simp
  moreover have "list_all (\<lambda>n. hex_digit n \<in> set ''0123456789abcdef'') [0..<16]" by code_simp
  ultimately show ?thesis unfolding list_all_iff by blast
qed

lemma hex_byte_chars: "n < 256 \<Longrightarrow> set (hex_byte n) \<subseteq> set ''0123456789abcdef''"
  using hex_digit_char [of "n div 16"] hex_digit_char [of "n mod 16"]
  unfolding hex_byte_def list.set by auto

lemma sha256_hex_chars: "set (sha256_hex s) \<subseteq> set ''0123456789abcdef''"
proof -
  have "set (word_hex w) \<subseteq> set ''0123456789abcdef''" for w
    unfolding word_hex_def set_concat set_map image_image
    by (intro UN_least hex_byte_chars) simp
  then show ?thesis
    unfolding sha256_hex_def Let_def set_concat set_map by blast
qed

lemma slug_char_hex: "c \<in> set ''0123456789abcdef'' \<Longrightarrow> slug_char c"
proof -
  assume "c \<in> set ''0123456789abcdef''"
  moreover have "list_all slug_char ''0123456789abcdef''" by code_simp
  ultimately show ?thesis unfolding list_all_iff by blast
qed

lemma follows_pin:
  "follows (pin_project_name h c d b) [Call ''host'' c [''output'', pin_script d b]]"
proof -
  have "follows (pin_project_name h c d b) ([Call ''host'' c [''output'', pin_script d b]] @ [])"
    unfolding pin_project_name_def orfail_def [symmetric]
    by (intro follows_bnd follows_orfail host_follows follows_ret)
  then show ?thesis by simp
qed

lemma follows_ship_files:
  "follows (ship_files h c staging fl) (map (\<lambda>(n, x). Call ''host'' c [''write'', join2 staging n, x]) fl)"
proof (induction fl)
  case (Cons f fl)
  then show ?case
    using follows_bnd [OF follows_orfail [OF follows_call]]
    by (cases f) (auto simp: host_write_def)
qed (simp add: follows_ret)

section \<open>Properties\<close>

text \<open>
  The Compose project name is one Compose accepts and stays short: whatever the domain and the
  directory hold, it starts with \<open>farrier-\<close>, has only lower-case letters, digits and hyphens, and at most
  57 characters.
\<close>

theorem project_name_valid:
  "prefix ''farrier-'' (project_name_for d b) \<and> length (project_name_for d b) \<le> 57 \<and>
   list_all (\<lambda>c. slug_char c \<or> c = CHR ''-'') (project_name_for d b)"
proof -
  define dom where "dom = (case b of None \<Rightarrow> '''' | Some bd \<Rightarrow> trim_space (Domain (b_manifest bd)))"
  define slug where "slug = project_slug dom"
  define dig where "dig = take 8 (sha256_hex (dom @ CHR 0x00 # clean d))"
  have eq: "project_name_for d b = (if slug = '''' then ''farrier-'' @ dig else ''farrier-'' @ slug @ ''-'' @ dig)"
    by (simp add: project_name_for_def Let_def slug_def dig_def dom_def LegacyProjectName_def)
  have "length (slug_loop (to_lower dom) [] False) \<le> 40"
    "\<forall>c\<in>set (slug_loop (to_lower dom) [] False). slug_char c \<or> c = CHR ''-''"
    using slug_loop_spec [of "[]" "to_lower dom" False] by (simp_all add: max_project_slug_def)
  then have s: "length slug \<le> 40" "\<forall>c\<in>set slug. slug_char c \<or> c = CHR ''-''"
    using trim_set_sub [of "''-''" "slug_loop (to_lower dom) [] False"]
    by (auto simp: project_slug_def slug_def)
  have "set dig \<subseteq> set ''0123456789abcdef''"
    using sha256_hex_chars set_take_subset unfolding dig_def by (rule subset_trans [rotated])
  then have g: "\<forall>c\<in>set dig. slug_char c" "length dig \<le> 8"
    using slug_char_hex by (blast, simp add: dig_def)
  let ?ok = "\<lambda>c. slug_char c \<or> c = CHR ''-''"
  have l: "list_all ?ok ''farrier-''" "list_all ?ok ''-''"
    by (simp_all add: slug_char_def)
  have "list_all ?ok slug" "list_all ?ok dig"
    using g(1) s(2) by (simp_all add: list_all_iff)
  with l have "list_all ?ok (project_name_for d b)"
    unfolding eq by (simp only: list_all_append split: if_split) simp
  moreover have "prefix ''farrier-'' (project_name_for d b)" "length (project_name_for d b) \<le> 57"
    using g(2) s(1) unfolding eq by (simp_all split: if_split)
  ultimately show ?thesis by blast
qed

text \<open>
  Adding a bind mount to a service changes nothing else. In the one file that is changed, the
  first in the iteration order that declares the service, the mount is appended to the service's
  volumes; its other fields, every other service and every other file stay as they were. It rests on
  the YAML library reading back what it wrote.
\<close>

theorem bind_mount_adds:
  assumes "\<And>doc raw. yaml_encode y doc = Inr raw \<Longrightarrow> yaml_parse y raw = Inr doc"
    and "distinct (map fst files)"
    and "with_bind_mount y files s host cont = Inr files'"
  shows "\<exists>name raw raw' doc doc' svc svc'. map_of files name = Some raw \<and> yaml_parse y raw = Inr doc \<and>
    find_service doc s = Some svc \<and> files' = put_key name raw' files \<and> yaml_parse y raw' = Inr doc' \<and>
    find_service doc' s = Some svc' \<and>
    as_list (yget svc' ''volumes'') = as_list (yget svc ''volumes'') @ [YStr (host @ '':'' @ cont)] \<and>
    (\<forall>field. field = ''volumes'' \<or> yget svc' field = yget svc field) \<and>
    (\<forall>t. t = s \<or> find_service doc' t = find_service doc t)"
proof -
  from assms(3) obtain pre name raw post doc svc svc' out where
    w: "files = pre @ (name, raw) # post" "yaml_parse y raw = Inr doc" "find_service doc s = Some svc"
    "svc' = put_key ''volumes'' (YList (as_list (yget svc ''volumes'') @ [YStr (host @ '':'' @ cont)])) svc"
    "yaml_encode y (set_service doc s svc') = Inr out" "files' = put_key name out files"
    unfolding with_bind_mount_def with_service_list_entry_def by (elim edit_service_Inr) auto
  have n: "map_of files name = Some raw"
    using map_of_eq_Some_iff [OF assms(2)] w(1) by simp
  have p: "yaml_parse y out = Inr (set_service doc s svc')"
    using assms(1) [OF w(5)] .
  have f: "find_service (set_service doc s svc') t = (if t = s then Some svc' else find_service doc t)" for t
    by (rule find_set_service)
  have g: "yget svc' field = (if field = ''volumes'' then YList (as_list (yget svc ''volumes'')
      @ [YStr (host @ '':'' @ cont)]) else yget svc field)" for field
    unfolding w(4) by (rule yget_put_key)
  show ?thesis
    using n w(2,3,6) p f g by (intro exI conjI) (assumption | simp)+
qed

definition sample_doc :: ymap where
  "sample_doc = [(''services'', YMap [(''caddy'', YMap [(''image'', YStr ''i'')])])]"

definition mounted_doc :: ymap where
  "mounted_doc = [(''services'', YMap [(''caddy'', YMap [(''image'', YStr ''i''),
     (''volumes'', YList [YStr ''/a:/b''])])])]"

definition sample_yaml :: yaml_codec where
  "sample_yaml = \<lparr>yaml_parse = (\<lambda>r. if r = ''out'' then Inr mounted_doc else Inr sample_doc),
     yaml_encode = (\<lambda>d. if d = mounted_doc then Inr ''out'' else Inl (errorf ''unsupported''))\<rparr>"

lemma bind_mount_adds_witness:
  "\<exists>raw' doc' svc'. with_bind_mount sample_yaml [(''f'', ''in'')] ''caddy'' ''/a'' ''/b'' = Inr [(''f'', raw')] \<and>
     yaml_parse sample_yaml raw' = Inr doc' \<and> find_service doc' ''caddy'' = Some svc' \<and>
     as_list (yget svc' ''volumes'') = [YStr ''/a:/b'']"
proof -
  let ?fs = "[(''f'', ''in'')] :: files"
  have law: "yaml_parse sample_yaml raw = Inr doc" if "yaml_encode sample_yaml doc = Inr raw" for doc raw
    using that by (simp add: sample_yaml_def split: if_splits)
  have d: "distinct (map fst ?fs)" by simp
  have run: "with_bind_mount sample_yaml ?fs ''caddy'' ''/a'' ''/b'' = Inr [(''f'', ''out'')]"
    by code_simp
  have in': "yaml_parse sample_yaml ''in'' = Inr sample_doc"
    "find_service sample_doc ''caddy'' = Some [(''image'', YStr ''i'')]"
    by code_simp+
  from bind_mount_adds [OF law d run] show ?thesis
    using run in' by (auto simp: yget_def split: if_splits)
qed

text \<open>
  C40. Convergence ships before it installs. Its calls on the host are, in this order and stopping at the
  first that fails: clear the staging directory, pin the project name, write every Compose file into
  staging in the order of their names, swap staging in, and start the stack; a convergence that
  succeeds has made all of them.
\<close>

definition converge_plan :: "ctx \<Rightarrow> string \<Rightarrow> bundle_data \<Rightarrow> string \<Rightarrow> call list" where
  "converge_plan c remoteDir b pre =
     (let dir = join2 remoteDir ComposeDir; staging = dir @ ''.tmp''
      in [Call ''host'' c [''output'', ''rm -rf '' @ shell_quote staging @ '' && mkdir -p '' @ shell_quote staging],
          Call ''host'' c [''output'', pin_script remoteDir (Some b)]]
         @ map (\<lambda>(n, x). Call ''host'' c [''write'', join2 staging n, x]) (sort_key fst (b_compose b))
         @ [Call ''host'' c [''output'', ''rm -rf '' @ shell_quote dir @ '' && mv '' @ shell_quote staging
              @ '' '' @ shell_quote dir],
            Call ''host'' c [''output'', pre @ '' docker compose up -d --remove-orphans'']])"

theorem converge_sequence:
  assumes "converge h c d (Some b) p = (r, p')" "compose_command d (Some b) = Inr pre"
  shows "\<exists>cs. trace p' = trace p @ cs \<and> prefix cs (converge_plan c d b pre) \<and>
    (r = Ok () \<longrightarrow> cs = converge_plan c d b pre)"
proof -
  have ne: "\<not> blank d" "b_compose b \<noteq> []"
    using assms(2) by (auto simp: compose_command_def split: if_splits)
  have "follows (converge h c d (Some b)) (converge_plan c d b pre)"
    unfolding converge_def Let_def option.case if_not_P [OF ne(1)] if_not_P [OF ne(2)] assms(2) bnd_orfail_Inr
    by (rule follows_cong, (rule follows_bnd follows_orfail host_follows follows_pin follows_ship_files
          follows_ret)+)
      (simp add: converge_plan_def Let_def)
  from followsD [OF this assms(1)] show ?thesis by blast
qed

definition sample_host :: "unit host" where
  "sample_host = \<lparr>h_output = (\<lambda>c cmd. aret ''''), h_write = (\<lambda>c p x m. aret ()),
     h_run = (\<lambda>c cmd i w. ((None, '''', ''''), w)), h_check = (\<lambda>c. aret ())\<rparr>"

lemma converge_sequence_witness:
  "\<exists>pre. trace (snd (converge sample_host Caller ''/srv'' (Some sample_bundle) idle_proc)) =
     converge_plan Caller ''/srv'' sample_bundle pre"
proof -
  let ?run = "converge sample_host Caller ''/srv'' (Some sample_bundle) idle_proc"
  have nb: "\<not> blank ''/srv''" by code_simp
  then obtain pre where pre: "compose_command ''/srv'' (Some sample_bundle) = Inr pre"
    by (simp add: compose_command_def sample_bundle_def Let_def)
  have "fst ?run = Ok ()"
    using nb pre by (simp add: converge_def Let_def sample_bundle_def pin_project_name_def orfail_def
        handle_def bnd_def ret_def host_output_def host_write_def call_def sample_host_def of_sum_def)
  moreover have "trace idle_proc = []" by (simp add: idle_proc_def)
  ultimately show ?thesis
    using converge_sequence [OF prod.collapse [symmetric] pre] by force
qed

end
