(* ===== verification/Forge.thy ===== *)
theory Forge
  imports Compose
begin

text \<open>
  Forgejo's configuration and administration (\<open>forge\<close>: \<open>secrets.go\<close>, \<open>appini.go\<close>, \<open>account.go\<close>,
  \<open>bootstrap.go\<close>, \<open>runner.go\<close>, \<open>smoke.go\<close>, \<open>reconcile.go\<close>) and the web server's (\<open>caddy/caddyfile.go\<close>):
  the files the deployment ships and the commands it runs inside the containers.
\<close>

section \<open>Names and paths\<close>

definition dataPath :: string where "dataPath = ''/data/gitea''"
definition dbPath :: string where "dbPath = dataPath @ ''/gitea.db''"
definition lfsPath :: string where "lfsPath = dataPath @ ''/lfs''"
definition repoRoot :: string where "repoRoot = ''/data/git/repositories''"
definition runUser :: string where "runUser = ''git''"
definition SSHListenPort :: nat where "SSHListenPort = 2222"
definition ForgeHTTPPort :: nat where "ForgeHTTPPort = 3000"
definition AppINIPath :: string where "AppINIPath = dataPath @ ''/conf/app.ini''"
definition SSHHostKeyPath :: string where
  "SSHHostKeyPath = dataPath @ ''/'' @ ''ssh'' @ ''/'' @ ''farrier_host_ed25519''"

definition ForgeService :: string where "ForgeService = ''forgejo''"
definition adminUsername :: string where "adminUsername = ''farrier''"

section \<open>Secrets\<close>

record secrets =
  SecretKey :: string
  InternalToken :: string
  LFSJWTSecret :: string

definition KeySecretKey :: string where "KeySecretKey = ''forgejo_secret_key''"
definition KeyInternalToken :: string where "KeyInternalToken = ''forgejo_internal_token''"
definition KeyLFSJWTSecret :: string where "KeyLFSJWTSecret = ''forgejo_lfs_jwt_secret''"

definition resolve_named :: "string \<Rightarrow> 'w driver \<Rightarrow> ctx \<Rightarrow> string \<Rightarrow> ('w, string) act" where
  "resolve_named p d c k =
     abnd (ahandle (resolve d c k) (\<lambda>e. afail (wrapf (p @ k @ '': '') e))) (\<lambda>s. aret (reveal s))"

definition resolve_secrets :: "ctx \<Rightarrow> 'w driver \<Rightarrow> ('w, secrets) act" where
  "resolve_secrets c d =
     abnd (resolve_named ''forge: resolve '' d c KeySecretKey) (\<lambda>sk.
     abnd (resolve_named ''forge: resolve '' d c KeyInternalToken) (\<lambda>it.
     abnd (resolve_named ''forge: resolve '' d c KeyLFSJWTSecret) (\<lambda>lj.
     aret \<lparr>SecretKey = sk, InternalToken = it, LFSJWTSecret = lj\<rparr>)))"

definition redactedValue :: string where "redactedValue = ''[redacted]''"

fun redact :: "string \<Rightarrow> string list \<Rightarrow> string" where
  "redact s [] = s"
| "redact s (x # xs) = (if x = '''' then redact s xs else redact (replace_all x redactedValue s) xs)"

definition secrets_redact :: "secrets \<Rightarrow> string \<Rightarrow> string" where
  "secrets_redact s text = redact (redact (redact text [SecretKey s]) [InternalToken s]) [LFSJWTSecret s]"

fun check_fields :: "(string \<times> string) list \<Rightarrow> error + unit" where
  "check_fields [] = Inr ()"
| "check_fields ((name, v) # rest) =
     (if blank v then Inl (errorf (''forge: '' @ name @ '' is required''))
      else if contains_any v [CHR 0x0D, CHR 0x0A]
        then Inl (errorf (''forge: '' @ name @ '' must not contain newlines''))
      else check_fields rest)"

definition validate_secrets :: "secrets \<Rightarrow> error + unit" where
  "validate_secrets s =
     check_fields [(''SecretKey'', SecretKey s), (''InternalToken'', InternalToken s),
       (''LFSJWTSecret'', LFSJWTSecret s)]"

section \<open>The configuration file\<close>

definition instance_url :: "manifest \<Rightarrow> string \<Rightarrow> string" where
  "instance_url m address = (if named m then public_url m else public_url_at m address)"

definition admin_email_domain :: "manifest \<Rightarrow> string" where
  "admin_email_domain m = (if named m then trim_space (Domain m) else ''farrier.invalid'')"

text \<open>The lines of \<open>app.ini\<close>; an empty string ends a section, as the source's blank lines do.\<close>

definition app_ini_lines :: "manifest \<Rightarrow> secrets \<Rightarrow> bool \<Rightarrow> string \<Rightarrow> string list" where
  "app_ini_lines m s quarantine host =
     [''APP_NAME = Farrier'', ''RUN_MODE = prod'', ''RUN_USER = '' @ runUser, '''',
      ''[server]'', ''PROTOCOL = http'', ''DOMAIN = '' @ host, ''ROOT_URL = '' @ public_url_at m host,
      ''HTTP_PORT = '' @ nat_str ForgeHTTPPort, ''SSH_DOMAIN = '' @ host,
      ''SSH_PORT = '' @ int_str (git_ssh_port m), ''SSH_LISTEN_PORT = '' @ nat_str SSHListenPort,
      ''START_SSH_SERVER = true'', ''SSH_SERVER_HOST_KEYS = '' @ SSHHostKeyPath,
      ''LFS_START_SERVER = true'', '''',
      ''[database]'', ''DB_TYPE = sqlite3'', ''PATH = '' @ dbPath, '''',
      ''[repository]'', ''ROOT = '' @ repoRoot, '''',
      ''[security]'', ''INSTALL_LOCK = true'', ''SECRET_KEY = '' @ SecretKey s,
      ''INTERNAL_TOKEN = '' @ InternalToken s]
     @ (if quarantine then [''DISABLE_WEBHOOKS = true''] else [])
     @ ['''', ''[lfs]'', ''PATH = '' @ lfsPath, ''JWT_SECRET = '' @ LFSJWTSecret s, '''']
     @ (if quarantine
        then [''[webhook]'', ''ALLOWED_HOST_LIST ='', '''', ''[mailer]'', ''ENABLED = false'', '''',
              ''[mirror]'', ''ENABLED = false'', '''']
        else [])
     @ [''[actions]'', ''ENABLED = true'', '''', ''[log]'', ''MODE = console'', ''LEVEL = info'']"

definition app_ini_text :: "string list \<Rightarrow> string" where
  "app_ini_text ls = concat (map (\<lambda>l. l @ nl) ls)"

definition render_app_ini :: "manifest option \<Rightarrow> secrets \<Rightarrow> bool \<Rightarrow> string \<Rightarrow> error + string" where
  "render_app_ini mo s quarantine addr =
     (case mo of
        None \<Rightarrow> Inl (errorf ''forge: manifest is required'')
      | Some m \<Rightarrow>
          check_then (validate m)
          (check_then (validate_secrets s)
          (let address = trim_space addr
           in if named m \<and> address \<noteq> ''''
              then Inl (errorf (''forge: app.ini takes an address only for a nameless bundle; this bundle is named ''
                     @ trim_space (Domain m) @ '' and is served over HTTPS at that domain''))
              else if \<not> named m \<and> address = ''''
              then Inl (errorf ''forge: app.ini requires a domain, or for a nameless bundle the address the operator serves it at'')
              else Inr (app_ini_text (app_ini_lines m s quarantine
                     (if named m then trim_space (Domain m) else address))))))"

section \<open>Caddy\<close>

definition CaddyService :: string where "CaddyService = ''caddy''"
definition CaddyConfigPath :: string where "CaddyConfigPath = ''/etc/caddy/Caddyfile''"
definition CaddyCertPath :: string where "CaddyCertPath = ''/etc/caddy/certs/tls.crt''"
definition CaddyKeyPath :: string where "CaddyKeyPath = ''/etc/caddy/certs/tls.key''"
definition CaddyHTTPSPort :: nat where "CaddyHTTPSPort = 443"
definition CaddyHTTPPort :: nat where "CaddyHTTPPort = 80"

abbreviation tab :: string where "tab \<equiv> [CHR 0x09]"

definition caddy_missing :: "string \<Rightarrow> error" where
  "caddy_missing what = errorf (''caddy: '' @ what @ '' is required'')"

definition render_caddyfile :: "string \<Rightarrow> string \<Rightarrow> error + string" where
  "render_caddyfile domain upstream =
     (let d = trim_space domain; u = trim_space upstream
      in if d = '''' then Inl (caddy_missing ''domain'')
         else if u = '''' then Inl (caddy_missing ''upstream'')
         else Inr (d @ '' {'' @ nl @ tab @ ''tls '' @ CaddyCertPath @ '' '' @ CaddyKeyPath @ nl
                @ tab @ ''reverse_proxy '' @ u @ nl @ ''}'' @ nl))"

definition render_plain_http_caddyfile :: "string \<Rightarrow> string \<Rightarrow> error + string" where
  "render_plain_http_caddyfile address upstream =
     (let a = trim_space address; u = trim_space upstream
      in if a = '''' then Inl (caddy_missing ''address'')
         else if u = '''' then Inl (caddy_missing ''upstream'')
         else Inr (''http://'' @ a @ '' {'' @ nl @ tab @ ''reverse_proxy '' @ u @ nl @ ''}'' @ nl))"

definition render_push_hold_caddyfile :: "string \<Rightarrow> string \<Rightarrow> string \<Rightarrow> error + string" where
  "render_push_hold_caddyfile domain upstream message =
     (let d = trim_space domain; u = trim_space upstream; ms = trim_space message;
          respond = tab @ tab @ ''respond '' @ quote ms @ '' 503'' @ nl
      in if d = '''' then Inl (caddy_missing ''domain'')
         else if u = '''' then Inl (caddy_missing ''upstream'')
         else if ms = '''' then Inl (caddy_missing ''message'')
         else Inr (d @ '' {'' @ nl @ tab @ ''tls '' @ CaddyCertPath @ '' '' @ CaddyKeyPath @ nl
           @ tab @ ''@git_push {'' @ nl @ tab @ tab @ ''method POST'' @ nl
           @ tab @ tab @ ''path */git-receive-pack'' @ nl @ tab @ ''}'' @ nl
           @ tab @ ''@git_push_refs {'' @ nl @ tab @ tab @ ''method GET'' @ nl
           @ tab @ tab @ ''path */info/refs'' @ nl @ tab @ tab @ ''query service=git-receive-pack'' @ nl
           @ tab @ ''}'' @ nl
           @ tab @ ''handle @git_push {'' @ nl @ respond @ tab @ ''}'' @ nl
           @ tab @ ''handle @git_push_refs {'' @ nl @ respond @ tab @ ''}'' @ nl
           @ tab @ ''reverse_proxy '' @ u @ nl @ ''}'' @ nl))"

section \<open>Commands inside the container\<close>

text \<open>The runner interface: what a command wrote to standard output and error, beside its error.\<close>

type_synonym 'w runner = "ctx \<Rightarrow> string \<Rightarrow> ('w, error option \<times> string \<times> string) io"

definition failure_detail :: "string \<Rightarrow> string \<Rightarrow> string" where
  "failure_detail stdout stderr =
     (let parts = filter (\<lambda>s. s \<noteq> '''') [trim_space stderr, trim_space stdout]
      in if parts = [] then ''command failed with no output'' else join nl parts)"

text \<open>\<open>lastLine\<close> scans the lines from the last for one that is not blank.\<close>

fun first_full :: "string list \<Rightarrow> string \<Rightarrow> string" where
  "first_full [] s = s"
| "first_full (l # ls) s = (if \<not> blank l then trim_space l else first_full ls s)"

definition last_line :: "string \<Rightarrow> string" where
  "last_line s = first_full (rev (split_on CHR 0x0A (trim_space s))) s"

subsection \<open>The administrator account\<close>

record account =
  Username :: string
  Email :: string
  Password :: secret

definition passwordCharset :: string where
  "passwordCharset = ''ABCDEFGHIJKLMNOPQRSTUVWXYZabcdefghijklmnopqrstuvwxyz0123456789-_''"

definition passwordLength :: nat where "passwordLength = 24"

text \<open>\<open>rand.Read\<close> of \<open>n\<close> bytes from the process's random source; it does not fail.\<close>

definition rand_read :: "nat \<Rightarrow> ('w, string) io" where
  "rand_read n = (\<lambda>p. (Ok (take n (fresh p (ticks p) @ replicate n CHR 0x00)), p\<lparr>ticks := Suc (ticks p)\<rparr>))"

definition password_of :: "string \<Rightarrow> string" where
  "password_of buf = map (\<lambda>b. passwordCharset ! (of_char b mod length passwordCharset)) buf"

definition new_admin_account :: "string \<Rightarrow> ('w, account) io" where
  "new_admin_account domain =
     (if blank domain then fail (errorf ''forge: domain is required'')
      else bnd (rand_read passwordLength) (\<lambda>buf.
           ret \<lparr>Username = adminUsername, Email = adminUsername @ ''@'' @ domain,
                Password = Secret (password_of buf)\<rparr>))"

definition alreadyExistsMarker :: string where "alreadyExistsMarker = ''user already exists''"
definition publishTokenName :: string where "publishTokenName = ''farrier-publish''"
definition publishTokenScopes :: string where "publishTokenScopes = ''write:repository,write:user''"

definition exec_as_git :: string where
  "exec_as_git = ''docker compose exec -T -u '' @ runUser @ '' '' @ ForgeService"

definition create_command :: "account \<Rightarrow> string" where
  "create_command a = exec_as_git @ '' forgejo admin user create --username '' @ shell_quote (Username a)
     @ '' --email '' @ shell_quote (Email a) @ '' --password '' @ shell_quote (reveal (Password a))
     @ '' --admin --must-change-password=false''"

definition token_command :: "account \<Rightarrow> string" where
  "token_command a = exec_as_git @ '' forgejo admin user generate-access-token --username ''
     @ shell_quote (Username a) @ '' --token-name '' @ shell_quote publishTokenName
     @ '' --scopes '' @ shell_quote publishTokenScopes @ '' --raw''"

definition ready_command :: string where
  "ready_command = exec_as_git @ '' forgejo admin user list''"

definition token_from :: "string \<Rightarrow> string" where
  "token_from stdout =
     (let line = last_line stdout
      in if length (str_fields line) \<noteq> 1 \<or> length line < 16 then '''' else line)"

definition mint_publish_token :: "ctx \<Rightarrow> 'w runner \<Rightarrow> account \<Rightarrow> ('w, secret \<times> string) io" where
  "mint_publish_token c runner a =
     bnd (runner c (token_command a)) (\<lambda>(err, stdout, stderr).
     let token = token_from stdout
     in ret (case err of
          Some e \<Rightarrow> (Secret '''', redact (failure_detail stdout stderr) [reveal (Password a), token])
        | None \<Rightarrow> (if token = '''' then (Secret '''', ''the command printed no token'')
                   else (Secret token, ''''))))"

definition credentials_detail :: "account \<Rightarrow> secret \<Rightarrow> string \<Rightarrow> string" where
  "credentials_detail a token mintFailure =
     (let detail = ''first admin account created '' @ em_dash @ '' username: '' @ Username a @ '', email: ''
            @ Email a @ '', password: '' @ reveal (Password a)
      in if mintFailure \<noteq> ''''
         then detail @ '' '' @ em_dash @ '' an access token for publishing could not be created ('' @ mintFailure
           @ ''); create one under Settings, ''
           @ ''Applications in the forge's web UI, with the repository and user permissions set to write''
         else detail @ '', access token for publishing (named '' @ publishTokenName
           @ '' on the account, revoke it there when you are done with it): '' @ reveal token)"

definition bootstrap :: "ctx \<Rightarrow> 'w runner \<Rightarrow> account \<Rightarrow> ('w, unit) io" where
  "bootstrap c runner a =
     bnd (started ''admin-bootstrap'' ''creating first admin account'') (\<lambda>_.
     bnd (runner c (create_command a)) (\<lambda>(err, stdout, stderr).
     case err of
       Some e \<Rightarrow>
         (let detail = redact (failure_detail stdout stderr) [reveal (Password a)]
          in if contains_str detail alreadyExistsMarker
             then succeeded ''admin-bootstrap'' (''admin account '' @ Username a @ '' already exists, leaving it as-is ''
               @ em_dash @ '' its password and access token were ''
               @ ''issued once, on the deployment that created it, and are not issued again here; ''
               @ ''if the token was lost, sign in as that account and create a new one under ''
               @ ''Settings, Applications in the forge's web UI'')
             else bnd (emit ''admin-bootstrap'' StateFailed (''create admin account: '' @ detail)) (\<lambda>_.
                  fail (errorf (''forge: create admin account: '' @ detail))))
     | None \<Rightarrow>
         bnd (mint_publish_token c runner a) (\<lambda>(token, mintFailure).
         succeeded ''admin-bootstrap'' (credentials_detail a token mintFailure))))"

subsection \<open>The colocated runner\<close>

definition RunnerService :: string where "RunnerService = ''runner''"
definition KeyRunnerSecret :: string where "KeyRunnerSecret = ''forgejo_runner_secret''"
definition runnerSecretBytes :: nat where "runnerSecretBytes = 20"
definition RunnerName :: string where "RunnerName = ''farrier-colocated''"
definition RunnerDataDir :: string where "RunnerDataDir = ''/data''"
definition RunnerUser :: string where "RunnerUser = ''0:0''"
definition RunnerSecretFilename :: string where "RunnerSecretFilename = ''secret''"
definition RunnerConfigFilename :: string where "RunnerConfigFilename = ''config.yaml''"
definition RunnerToolCacheDir :: string where "RunnerToolCacheDir = ''/opt/hostedtoolcache''"
definition RunnerLabelNames :: "string list" where "RunnerLabelNames = [''docker'', ''ubuntu-latest'']"
definition DockerSocketPath :: string where "DockerSocketPath = ''/var/run/docker.sock''"
definition DockerHostEnv :: string where "DockerHostEnv = ''DOCKER_HOST''"
definition DockerHostValue :: string where "DockerHostValue = ''unix://'' @ DockerSocketPath"
definition runnerAlreadyRegisteredMarker :: string where "runnerAlreadyRegisteredMarker = ''already exists''"

definition new_runner_secret :: "('w, string) io" where
  "new_runner_secret = bnd (rand_read runnerSecretBytes) (\<lambda>buf. ret (hex_encode buf))"

text \<open>\<open>hex.DecodeString\<close> takes both cases; an odd length or another byte is its error.\<close>

definition hex_any :: "char \<Rightarrow> bool" where
  "hex_any c \<longleftrightarrow> is_lower_hex c \<or> is_lower_hex (lower_char c)"

text \<open>\<open>hex.InvalidByteError\<close> names the first offending byte with the verb \<open>%#U\<close>.\<close>

definition rune_text :: "nat \<Rightarrow> string" where
  "rune_text n =
     (let u = (\<lambda>d. if d < 10 then digit_char d else char_of (55 + d :: nat));
          shown = (if n < 128 then [char_of n] else [char_of (192 + n div 64), char_of (128 + n mod 64)])
      in ''U+00'' @ [u (n div 16), u (n mod 16)]
         @ (if n < 32 \<or> (127 \<le> n \<and> n \<le> 160) \<or> n = 173 then '''' else '' '' @ [squote] @ shown @ [squote]))"

fun invalid_byte :: "string \<Rightarrow> string" where
  "invalid_byte [] = ''''"
| "invalid_byte (ch # cs) = (if hex_any ch then invalid_byte cs else rune_text (of_char ch))"

definition validate_runner_secret :: "string \<Rightarrow> error + unit" where
  "validate_runner_secret secret =
     (if length secret \<noteq> runnerSecretBytes * 2
      then Inl (errorf (''forge: runner secret must be '' @ nat_str (runnerSecretBytes * 2) @ '' hexadecimal characters''))
      else if \<not> list_all hex_any secret
      then Inl (errorf (''forge: runner secret must be hexadecimal: encoding/hex: invalid byte: '' @ invalid_byte secret))
      else if to_lower secret \<noteq> secret
      then Inl (errorf ''forge: runner secret must be lowercase hexadecimal'')
      else Inr ())"

text \<open>The struct tags of \<open>runnerConfigFile\<close>, and the file.\<close>

definition runner_config :: "string \<Rightarrow> string \<Rightarrow> ymap" where
  "runner_config jobImage toolCache =
     (''runner'', YMap [(''labels'', YList (map (\<lambda>n. YStr (n @ '':docker://'' @ jobImage)) RunnerLabelNames))])
     # (if \<not> blank toolCache
        then [(''container'', YMap [
               (''options'', YStr (''--volume '' @ shell_quote (toolCache @ '':'' @ RunnerToolCacheDir))),
               (''valid_volumes'', YList [YStr toolCache])])]
        else [])"

text \<open>An encoding failure of the library is a panic of the source.\<close>

definition render_runner_config :: "yaml_codec \<Rightarrow> string \<Rightarrow> string \<Rightarrow> ('w, string) io" where
  "render_runner_config y jobImage toolCache =
     (case yaml_encode y (runner_config jobImage toolCache) of
        Inl e \<Rightarrow> (\<lambda>p. (Panic (''forge: render runner config: '' @ msg e), p))
      | Inr body \<Rightarrow> ret (''# Generated by Farrier. Labels are how workflows find this runner.'' @ nl @ body))"

definition runner_command :: "string \<Rightarrow> string list" where
  \<open>runner_command instanceURL =
     (let configFlag = ''-c '' @ shell_quote RunnerConfigFilename
      in [''sh'', ''-ec'', join nl
           [''cd '' @ shell_quote RunnerDataDir,
            ''if [ ! -f .runner ]; then forgejo-runner create-runner-file '' @ configFlag
              @ '' --instance '' @ shell_quote instanceURL
              @ '' --secret "$(cat '' @ shell_quote RunnerSecretFilename @ '')"; fi'',
            ''exec forgejo-runner daemon '' @ configFlag]])\<close>

definition register_runner_command :: "string \<Rightarrow> string" where
  "register_runner_command secretPath = exec_as_git
     @ '' forgejo forgejo-cli actions register --secret-stdin --name '' @ shell_quote RunnerName
     @ '' --labels '' @ shell_quote (join '','' RunnerLabelNames) @ '' < '' @ shell_quote secretPath"

definition register_runner :: "ctx \<Rightarrow> 'w runner \<Rightarrow> string \<Rightarrow> ('w, unit) io" where
  "register_runner c runner secretPath =
     bnd (started ''runner-register'' ''registering the colocated actions runner'') (\<lambda>_.
     if blank secretPath
     then bnd (emit ''runner-register'' StateFailed ''runner secret path is required'') (\<lambda>_.
          fail (errorf ''forge: register runner: runner secret path is required''))
     else bnd (runner c (register_runner_command secretPath)) (\<lambda>(err, stdout, stderr).
       case err of
         Some e \<Rightarrow>
           (let detail = failure_detail stdout stderr
            in if contains_str detail runnerAlreadyRegisteredMarker
               then succeeded ''runner-register'' (''runner '' @ RunnerName @ '' is already registered, leaving it as-is'')
               else bnd (emit ''runner-register'' StateFailed (''register runner: '' @ detail)) (\<lambda>_.
                    fail (errorf (''forge: register runner: '' @ detail))))
       | None \<Rightarrow> succeeded ''runner-register'' (''runner '' @ RunnerName @ '' registered against the instance'')))"

subsection \<open>The smoke job\<close>

record smoke_options =
  Repository :: string
  smTimeout :: int
  smPoll :: int

definition smoke_timeout :: "smoke_options \<Rightarrow> int" where
  "smoke_timeout o1 = (if smTimeout o1 \<le> 0 then 600000000000 else smTimeout o1)"

definition smoke_poll :: "smoke_options \<Rightarrow> int" where
  "smoke_poll o1 = (if smPoll o1 \<le> 0 then 5000000000 else smPoll o1)"

definition smokeWorkflowPath :: string where "smokeWorkflowPath = ''.forgejo/workflows/smoke.yml''"
definition smokeRunsOn :: string where "smokeRunsOn = ''docker''"
definition smokeBranch :: string where "smokeBranch = ''main''"

definition random_suffix :: "('w, string) io" where
  "random_suffix = bnd (rand_read 4) (\<lambda>buf. ret (hex_encode buf))"

definition smoke_workflow :: string where
  "smoke_workflow = join nl
     [''name: farrier-drill-smoke'', ''on: [push]'', ''jobs:'', ''  smoke:'', ''    runs-on: '' @ smokeRunsOn,
      ''    steps:'', ''      - run: echo farrier drill smoke job'', '''']"

abbreviation bslash :: string where "bslash \<equiv> [CHR 0x5C]"
abbreviation sq :: string where "sq \<equiv> [squote]"

definition smoke_script :: "string \<Rightarrow> string \<Rightarrow> int \<Rightarrow> int \<Rightarrow> string" where
  \<open>smoke_script repo tokenName timeout poll =
     (let repoJSON = ''{"name":'' @ quote repo @ '',"description":"Farrier drill smoke test","private":true,"auto_init":true,"default_branch":''
            @ quote smokeBranch @ ''}'';
          workflowJSON = ''{"branch":'' @ quote smokeBranch @ '',"message":"farrier drill smoke job","content":''
            @ quote (b64_encode smoke_workflow) @ ''}''
      in join nl
       [''set -eu'',
        ''api=http://localhost:'' @ nat_str ForgeHTTPPort @ ''/api/v1'',
        ''owner='' @ adminUsername,
        ''repo='' @ repo,
        [],
        ''fail() { echo "$1" >&2; exit 1; }'',
        [],
        ''send() {'',
        ''  out=$(curl -sS -X "$1" -H "$auth" -H '' @ sq @ ''Content-Type: application/json'' @ sq @ '' -d "$3" -w ''
          @ sq @ bslash @ ''n%{http_code}'' @ sq @ '' "$api$2") || fail "$4: could not reach the instance"'',
        ''  code=$(printf '' @ sq @ ''%s'' @ sq @ '' "$out" | tail -n 1)'',
        ''  case "$code" in'',
        ''    2*) ;;'',
        ''    *) fail "$4: the instance answered HTTP $code: $(printf '' @ sq @ ''%s'' @ sq @ '' "$out" | sed ''
          @ sq @ ''$d'' @ sq @ '' | head -c 400)" ;;'',
        ''  esac'',
        ''}'',
        [],
        ''token=$(forgejo admin user generate-access-token --username '' @ shell_quote adminUsername
          @ '' --token-name '' @ shell_quote tokenName @ '' --scopes write:repository --raw) || ''
          @ ''fail '' @ sq @ ''mint an api token for the smoke job: the admin account the snapshot carries could not issue one'' @ sq,
        ''auth="Authorization: token $token"'',
        [],
        ''send POST /user/repos '' @ shell_quote repoJSON @ '' '' @ sq @ ''create the scratch repository'' @ sq,
        ''send PATCH "/repos/$owner/$repo" '' @ sq @ ''{"has_actions":true}'' @ sq @ '' '' @ sq
          @ ''enable actions on the scratch repository'' @ sq,
        ''send POST "/repos/$owner/$repo/contents/'' @ smokeWorkflowPath @ ''" '' @ shell_quote workflowJSON
          @ '' '' @ sq @ ''commit the smoke workflow'' @ sq,
        [],
        ''deadline=$(($(date +%s) + '' @ int_str (timeout div 1000000000) @ ''))'',
        ''state='',
        ''while :; do'',
        ''  status=$(curl -sS -H "$auth" "$api/repos/$owner/$repo/commits/'' @ smokeBranch
          @ ''/status") || fail '' @ sq @ ''read the smoke run outcome: could not reach the instance'' @ sq,
        ''  state=$(printf '' @ sq @ ''%s'' @ sq @ '' "$status" | tr '' @ sq @ '','' @ sq @ '' '' @ sq @ bslash @ ''n'' @ sq
          @ '' | sed -n '' @ sq @ ''s/.*"state":"'' @ bslash @ ''([a-z]*'' @ bslash @ '')".*/'' @ bslash @ ''1/p'' @ sq
          @ '' | head -n 1)'',
        ''  case "$state" in'',
        ''    success) exit 0 ;;'',
        ''    failure|error) fail "the smoke run finished with state $state" ;;'',
        ''  esac'',
        ''  [ "$(date +%s)" -lt "$deadline" ] || fail "the smoke run did not finish within '' @ duration_str timeout
          @ '' (last state: ${state:-none}); ''
          @ ''no runner claimed a job labelled '' @ smokeRunsOn @ '', or it is still starting one"'',
        ''  sleep '' @ int_str (poll div 1000000000),
        ''done''])\<close>

definition smoke_command :: "string \<Rightarrow> string \<Rightarrow> int \<Rightarrow> int \<Rightarrow> string" where
  "smoke_command repo tokenName timeout poll =
     exec_as_git @ '' sh -ec '' @ shell_quote (smoke_script repo tokenName timeout poll)"

definition smoke_ci :: "ctx \<Rightarrow> 'w runner \<Rightarrow> smoke_options \<Rightarrow> ('w, string) io" where
  "smoke_ci c runner opts =
     bnd (started ''smoke-ci'' ''running a smoke CI job on the instance'') (\<lambda>_.
     bnd (if blank (Repository opts)
          then bnd random_suffix (\<lambda>sfx. ret (''farrier-drill-smoke-'' @ sfx))
          else ret (trim_space (Repository opts))) (\<lambda>repo.
     bnd random_suffix (\<lambda>tokenSuffix.
     bnd (runner c (smoke_command repo (''farrier-drill-smoke-'' @ tokenSuffix) (smoke_timeout opts) (smoke_poll opts)))
       (\<lambda>(err, stdout, stderr).
     case err of
       Some e \<Rightarrow>
         (let detail = last_line (failure_detail stdout stderr)
          in bnd (emit ''smoke-ci'' StateFailed (''smoke ci: '' @ detail)) (\<lambda>_.
             fail (errorf (''forge: smoke ci: '' @ detail))))
     | None \<Rightarrow>
         bnd (succeeded ''smoke-ci'' (''smoke CI job succeeded: '' @ smokeWorkflowPath
                @ '' ran to completion in scratch repository '' @ adminUsername @ ''/'' @ repo)) (\<lambda>_.
         ret (adminUsername @ ''/'' @ repo))))))"

subsection \<open>Reconciling CI after a restore\<close>

text \<open>A SQLite file opened by its path, and statements on it, which return the rows they affected.\<close>

record 'w sqlite =
  sql_open :: "string \<Rightarrow> ('w, unit) act"
  sql_exec :: "ctx \<Rightarrow> string \<Rightarrow> string \<Rightarrow> int list \<Rightarrow> ('w, int) act"

definition actionStatusWaiting :: int where "actionStatusWaiting = 5"
definition actionStatusRunning :: int where "actionStatusRunning = 6"

definition reset_running :: "'w sqlite \<Rightarrow> ctx \<Rightarrow> string \<Rightarrow> string \<Rightarrow> int \<Rightarrow> ('w, int) act" where
  "reset_running db c path table updated =
     ahandle (sql_exec db c path (''UPDATE '' @ table @ '' SET status = ?, updated = ? WHERE status = ?'')
         [actionStatusWaiting, updated, actionStatusRunning])
       (\<lambda>e. afail (wrapf (''reset '' @ table @ '': '') e))"

definition reconcile_steps :: "'w sqlite \<Rightarrow> ctx \<Rightarrow> string \<Rightarrow> ('w, int \<times> int) io" where
  "reconcile_steps db c path =
     bnd (orfail (locally (sql_open db path)) (''open '' @ path @ '': '')) (\<lambda>_.
     bnd now (\<lambda>t.
     bnd (call ''database'' c [''reset'', ''action_run''] (reset_running db c path ''action_run'' (t div 1000000000))) (\<lambda>runs.
     bnd (call ''database'' c [''reset'', ''action_run_job'']
            (reset_running db c path ''action_run_job'' (t div 1000000000))) (\<lambda>jobs.
     ret (runs, jobs)))))"

text \<open>With a job, its step is reported; \<open>ReconcileCI\<close> also runs without one.\<close>

definition reconcile_ci :: "'w sqlite \<Rightarrow> ctx \<Rightarrow> bool \<Rightarrow> string \<Rightarrow> ('w, int \<times> int) io" where
  "reconcile_ci db c report path =
     bnd (if report then started ''ci-reconcile'' ''reconciling CI: resetting running jobs to queued'' else ret ()) (\<lambda>_.
     bnd (handle (reconcile_steps db c path) (\<lambda>e.
            bnd (if report then emit ''ci-reconcile'' StateFailed (''reconcile CI: '' @ msg e) else ret ()) (\<lambda>_.
            fail (wrapf ''forge: reconcile CI: '' e)))) (\<lambda>(runs, jobs).
     bnd (if report
          then succeeded ''ci-reconcile'' (''reconciled CI: '' @ int_str runs @ '' run(s) and '' @ int_str jobs
                 @ '' job(s) reset from running to queued'')
          else ret ()) (\<lambda>_.
     ret (runs, jobs))))"

section \<open>Calm\<close>

lemma calm_rand_read [calm_intros]: "calm_on I (rand_read n)"
  by (simp add: calm_on_def rand_read_def extends_def)

lemma calm_new_admin_account [calm_intros]: "calm_on I (new_admin_account d)"
  unfolding new_admin_account_def by (intro calm_intros)

lemma calm_bootstrap [calm_intros]:
  assumes "\<And>c cmd. calm_on I (runner c cmd)"
  shows "calm_on I (bootstrap c runner a)"
  unfolding bootstrap_def mint_publish_token_def Let_def
  by (intro calm_intros assms; simp)

lemma calm_register_runner [calm_intros]:
  assumes "\<And>c cmd. calm_on I (runner c cmd)"
  shows "calm_on I (register_runner c runner path)"
  unfolding register_runner_def Let_def by (intro calm_intros assms; simp)

lemma calm_smoke_ci [calm_intros]:
  assumes "\<And>c cmd. calm_on I (runner c cmd)"
  shows "calm_on I (smoke_ci c runner opts)"
  unfolding smoke_ci_def random_suffix_def Let_def by (intro calm_intros assms; simp)

lemma calm_reconcile_ci [calm_intros]: "calm_on I (reconcile_ci db c report path)"
  unfolding reconcile_ci_def reconcile_steps_def by (intro calm_intros; simp)

section \<open>Facts\<close>

lemma split_lines:
  "\<forall>l\<in>set ls. d \<notin> set l \<Longrightarrow> split_on d (concat (map (\<lambda>l. l @ [d]) ls)) = ls @ [[]]"
proof (induction ls)
  case (Cons l ls)
  then have "split_on d (l @ d # concat (map (\<lambda>l. l @ [d]) ls)) = split_on d l @ (ls @ [[]])"
    unfolding split_on_append_sep by simp
  with Cons.prems show ?case by (simp add: split_on_notin)
qed simp

lemma digits_no_nl: "CHR 0x0A \<notin> set (nat_str n)" "CHR 0x0A \<notin> set (int_str i)"
proof -
  have "CHR 0x0A \<notin> set (nat_str n)" for n
  proof
    assume "CHR 0x0A \<in> set (nat_str n)"
    then have "CHR 0x0A \<in> set ''0123456789''" using nat_str_chars by blast
    then show False by simp
  qed
  then show "CHR 0x0A \<notin> set (nat_str n)" "CHR 0x0A \<notin> set (int_str i)"
    by (simp_all add: int_str_def)
qed

lemma public_url_no_nl: "CHR 0x0A \<notin> set h \<Longrightarrow> CHR 0x0A \<notin> set (public_url_at m h)"
proof -
  assume "CHR 0x0A \<notin> set h"
  then have "CHR 0x0A \<notin> set (trim_space h)"
    using set_mono_sublist [OF trim_space_sublist [of h]] by blast
  then show ?thesis
    by (simp add: public_url_at_def web_url_def web_scheme_def Let_def digits_no_nl)
qed

lemma check_fields_Inr:
  assumes "check_fields xs = Inr ()" "(n, v) \<in> set xs"
  shows "CHR 0x0A \<notin> set v"
  using assms
proof (induction xs)
  case (Cons x xs)
  obtain n' v' where x: "x = (n', v')" by force
  from Cons.prems(1) have "\<not> contains_any v' [CHR 0x0D, CHR 0x0A]" "check_fields xs = Inr ()"
    unfolding x check_fields.simps by (simp_all split: if_splits)
  with Cons x show ?case by (auto simp: contains_any_def list_ex_iff)
qed simp

lemma secrets_no_nl:
  assumes "validate_secrets s = Inr ()"
  shows "CHR 0x0A \<notin> set (SecretKey s)" "CHR 0x0A \<notin> set (InternalToken s)" "CHR 0x0A \<notin> set (LFSJWTSecret s)"
proof -
  note f = check_fields_Inr [OF assms [unfolded validate_secrets_def]]
  show "CHR 0x0A \<notin> set (SecretKey s)" by (rule f [of "''SecretKey''"]) simp
  show "CHR 0x0A \<notin> set (InternalToken s)" by (rule f [of "''InternalToken''"]) simp
  show "CHR 0x0A \<notin> set (LFSJWTSecret s)" by (rule f [of "''LFSJWTSecret''"]) simp
qed

lemma app_ini_lines_no_nl:
  assumes "validate_secrets s = Inr ()" "CHR 0x0A \<notin> set host"
  shows "\<forall>l\<in>set (app_ini_lines m s q host). CHR 0x0A \<notin> set l"
  using secrets_no_nl [OF assms(1)] assms(2) public_url_no_nl [OF assms(2)] digits_no_nl
  by (cases q) (simp_all add: app_ini_lines_def runUser_def SSHHostKeyPath_def dataPath_def dbPath_def repoRoot_def lfsPath_def)

lemma hex_encode_digits: "set (hex_encode s) \<subseteq> set ''0123456789abcdef''"
  unfolding hex_encode_def set_concat set_map image_image by (intro UN_least hex_byte_chars of_char_less_256)

lemma length_hex_encode: "length (hex_encode s) = 2 * length s"
  by (induction s) (simp_all add: hex_encode_def hex_byte_def)

lemma to_lower_plain:
  "\<forall>ch\<in>set s. lower_char ch = ch \<and> ch \<noteq> CHR 0xC4 \<and> ch \<noteq> CHR 0xE2 \<Longrightarrow> to_lower s = s"
  by (induction s rule: to_lower.induct) auto

section \<open>Properties\<close>

text \<open>
  No value can add a line to \<open>app.ini\<close>. When the file renders, and the host it is served at has
  no line break (a name accepted by \<open>ValidateDomain\<close> has none), its lines are exactly the ones the
  source writes, whatever the secrets hold: a secret with a line break is refused.
\<close>

theorem app_ini_lines_intact:
  assumes "render_app_ini (Some m) s q addr = Inr text"
    and "host = (if named m then trim_space (Domain m) else trim_space addr)" "CHR 0x0A \<notin> set host"
  shows "split_on CHR 0x0A text = app_ini_lines m s q host @ [[]]"
proof -
  have "validate_secrets s = Inr ()" "text = app_ini_text (app_ini_lines m s q host)"
    using assms(1,2) by (auto simp: render_app_ini_def Let_def split: sum.splits if_splits)
  with split_lines [OF app_ini_lines_no_nl [OF _ assms(3)]] show ?thesis
    by (simp add: app_ini_text_def)
qed

definition sample_secrets :: secrets where
  "sample_secrets = \<lparr>SecretKey = ''k'', InternalToken = ''t'', LFSJWTSecret = ''j''\<rparr>"

lemma app_ini_lines_intact_witness:
  "\<exists>ini. render_app_ini (Some sample_manifest) sample_secrets True '''' = Inr ini \<and>
     ''DISABLE_WEBHOOKS = true'' \<in> set (split_on CHR 0x0A ini)"
proof -
  have h: "validate_secrets sample_secrets = Inr ()" "named sample_manifest"
    "trim_space (Domain sample_manifest) = ''git.example.com''"
    by code_simp+
  then obtain ini where t: "render_app_ini (Some sample_manifest) sample_secrets True '''' = Inr ini"
    by (simp add: render_app_ini_def sample_manifest_valid)
  have "split_on CHR 0x0A ini = app_ini_lines sample_manifest sample_secrets True ''git.example.com'' @ [[]]"
    using app_ini_lines_intact [OF t] h by simp
  moreover have "''DISABLE_WEBHOOKS = true'' \<in> set (app_ini_lines sample_manifest sample_secrets True ''git.example.com'')"
    by (simp add: app_ini_lines_def)
  ultimately show ?thesis using t by simp
qed

text \<open>
  Every runner secret the generator makes is one the registration accepts: forty lower-case
  hexadecimal characters, whatever bytes the random source gives.
\<close>

theorem runner_secret_valid:
  "\<exists>secret p'. new_runner_secret p = (Ok secret, p') \<and> validate_runner_secret secret = Inr ()"
proof -
  let ?buf = "take runnerSecretBytes (fresh p (ticks p) @ replicate runnerSecretBytes CHR 0x00)"
  let ?s = "hex_encode ?buf"
  have hex: "\<forall>ch\<in>set ''0123456789abcdef''. is_lower_hex ch \<and> lower_char ch = ch \<and> ch \<noteq> CHR 0xC4 \<and> ch \<noteq> CHR 0xE2"
    by code_simp
  then have "\<forall>ch\<in>set ?s. hex_any ch \<and> lower_char ch = ch \<and> ch \<noteq> CHR 0xC4 \<and> ch \<noteq> CHR 0xE2"
    using hex_encode_digits [of ?buf] unfolding hex_any_def by blast
  moreover have "length ?s = runnerSecretBytes * 2"
    by (simp add: length_hex_encode)
  ultimately have "validate_runner_secret ?s = Inr ()"
    using to_lower_plain [of ?s] by (simp add: validate_runner_secret_def list_all_iff)
  then show ?thesis
    by (simp add: new_runner_secret_def rand_read_def bnd_def ret_def)
qed

end
