(* ===== verification/Address.thy ===== *)
theory Address
  imports Forge
begin

text \<open>
  The address a nameless instance is served at (\<open>deploy/address.go\<close>, \<open>deploy/ciaddress.go\<close>): its
  normalisation, the loopback check of a deployment with a CI runner, and the suggestions read from the
  host's interfaces. \<open>net.ParseIP\<close> is written out: an address is the list of its sixteen bytes.
\<close>

section \<open>IP addresses\<close>

definition hex_value :: "char \<Rightarrow> int option" where
  "hex_value ch = (let n = of_char ch in
     if 48 \<le> n \<and> n \<le> 57 then Some (n - 48) else if 97 \<le> n \<and> n \<le> 102 then Some (n - 87)
     else if 65 \<le> n \<and> n \<le> 70 then Some (n - 55) else None)"

definition is_hex :: "char \<Rightarrow> bool" where
  "is_hex ch \<longleftrightarrow> hex_value ch \<noteq> None"

definition hex_number :: "string \<Rightarrow> int" where
  "hex_number s = foldl (\<lambda>v ch. v * 16 + the (hex_value ch)) 0 s"

definition dec_number :: "string \<Rightarrow> int" where
  "dec_number s = foldl (\<lambda>v ch. v * 10 + (of_char ch - 48)) 0 s"

definition octet :: "string \<Rightarrow> bool" where
  "octet f \<longleftrightarrow> f \<noteq> '''' \<and> list_all is_digit f \<and> (length f = 1 \<or> hd f \<noteq> CHR ''0'') \<and> dec_number f \<le> 255"

definition parse_ipv4 :: "string \<Rightarrow> int list option" where
  "parse_ipv4 s =
     (let fields = split_on CHR ''.'' s
      in if length fields = 4 \<and> list_all octet fields then Some (map dec_number fields) else None)"

text \<open>
  The loop over the groups of an IPv6 address: \<open>n\<close> groups are still possible, \<open>bs\<close> are the bytes so far
  and \<open>ell\<close> is where \<open>::\<close> stood.
\<close>

fun v6_loop :: "nat \<Rightarrow> string \<Rightarrow> int list \<Rightarrow> nat option \<Rightarrow> (int list \<times> nat option) option" where
  "v6_loop 0 s bs ell = (if s = '''' then Some (bs, ell) else None)"
| "v6_loop (Suc n) s bs ell =
     (let d = takeWhile is_hex s; rest = dropWhile is_hex s;
          bs' = bs @ [hex_number d div 256, hex_number d mod 256]
      in if d = '''' \<or> length d > 4 then None
         else (case rest of
             [] \<Rightarrow> Some (bs', ell)
           | ch # rest' \<Rightarrow>
               if ch = CHR ''.''
               then (if (ell = None \<and> length bs \<noteq> 12) \<or> length bs + 4 > 16 then None
                     else map_option (\<lambda>q. (bs @ q, ell)) (parse_ipv4 s))
               else if ch \<noteq> CHR '':'' \<or> rest' = '''' then None
               else if hd rest' = CHR '':''
               then (if ell \<noteq> None then None
                     else if tl rest' = '''' then Some (bs', Some (length bs'))
                     else v6_loop n (tl rest') bs' (Some (length bs')))
               else v6_loop n rest' bs' ell))"

definition expand_v6 :: "int list \<times> nat option \<Rightarrow> int list option" where
  "expand_v6 r =
     (case r of (bs, ell) \<Rightarrow>
        if length bs < 16
        then (case ell of
                None \<Rightarrow> None
              | Some e \<Rightarrow> Some (take e bs @ replicate (16 - length bs) 0 @ drop e bs))
        else if ell \<noteq> None then None else Some bs)"

definition parse_ipv6 :: "string \<Rightarrow> int list option" where
  "parse_ipv6 s =
     (if s = ''::'' then Some (replicate 16 0)
      else (case (if prefix ''::'' s then v6_loop 8 (drop 2 s) [] (Some 0) else v6_loop 8 s [] None) of
              None \<Rightarrow> None | Some r \<Rightarrow> expand_v6 r))"

text \<open>The first dot or colon decides the family; a zone makes \<open>ParseIP\<close> refuse.\<close>

definition parse_ip :: "string \<Rightarrow> int list option" where
  "parse_ip s =
     (case dropWhile (\<lambda>ch. ch \<notin> set ''.:%'') s of
        [] \<Rightarrow> None
      | ch # _ \<Rightarrow>
          if ch = CHR ''.''
          then map_option (\<lambda>q. replicate 10 0 @ [255, 255] @ q) (parse_ipv4 s)
          else if ch = CHR '':'' then parse_ipv6 s else None)"

definition to4 :: "int list \<Rightarrow> int list option" where
  "to4 ip = (if take 12 ip = replicate 10 0 @ [255, 255] then Some (drop 12 ip) else None)"

definition ip_loopback :: "int list \<Rightarrow> bool" where
  "ip_loopback ip =
     (case to4 ip of Some q \<Rightarrow> q ! 0 = 127 | None \<Rightarrow> ip = replicate 15 0 @ [1])"

definition ip_link_local_unicast :: "int list \<Rightarrow> bool" where
  "ip_link_local_unicast ip =
     (case to4 ip of Some q \<Rightarrow> q ! 0 = 169 \<and> q ! 1 = 254 | None \<Rightarrow> ip ! 0 = 254 \<and> ip ! 1 div 64 = 2)"

definition ip_link_local_multicast :: "int list \<Rightarrow> bool" where
  "ip_link_local_multicast ip =
     (case to4 ip of
        Some q \<Rightarrow> q ! 0 = 224 \<and> q ! 1 = 0 \<and> q ! 2 = 0
      | None \<Rightarrow> ip ! 0 = 255 \<and> ip ! 1 mod 16 = 2)"

definition ip_unspecified :: "int list \<Rightarrow> bool" where
  "ip_unspecified ip = (to4 ip = Some [0, 0, 0, 0] \<or> ip = replicate 16 0)"

definition ip_multicast :: "int list \<Rightarrow> bool" where
  "ip_multicast ip = (case to4 ip of Some q \<Rightarrow> q ! 0 div 16 = 14 | None \<Rightarrow> ip ! 0 = 255)"

section \<open>The address of a nameless bundle\<close>

definition max_hostname_length :: nat where "max_hostname_length = 253"
definition max_label_length :: nat where "max_label_length = 63"

fun check_labels :: "string \<Rightarrow> string list \<Rightarrow> error + unit" where
  "check_labels address [] = Inr ()"
| "check_labels address (l # ls) =
     (if l = '''' then Inl (errorf (''deploy: address '' @ quote address @ '' has an empty label''))
      else if length l > max_label_length
      then Inl (errorf (''deploy: address '' @ quote address @ '' has a label longer than ''
             @ nat_str max_label_length @ '' characters''))
      else if prefix ''-'' l \<or> suffix ''-'' l
      then Inl (errorf (''deploy: address '' @ quote address @ '' has a label starting or ending with a hyphen''))
      else if \<not> list_all (\<lambda>ch. is_alnum ch \<or> ch = CHR ''-'') l
      then Inl (errorf (''deploy: address '' @ quote address @ '' is not an IP or a hostname''))
      else check_labels address ls)"

definition valid_hostname :: "string \<Rightarrow> error + unit" where
  "valid_hostname address =
     (if length address > max_hostname_length
      then Inl (errorf (''deploy: address '' @ quote address @ '' is longer than ''
             @ nat_str max_hostname_length @ '' characters''))
      else if CHR '':'' \<in> set address
      then Inl (errorf (''deploy: address '' @ quote address
             @ '' carries a port; the port the web UI is published on is a bundle setting (webPort in ''
             @ ManifestFile @ ''), not part of the address''))
      else check_labels address (split_on CHR ''.'' address))"

definition normalize_address :: "string \<Rightarrow> error + string" where
  "normalize_address address =
     (if contains_str address ''://''
      then Inl (errorf (''deploy: address '' @ quote address
             @ '' carries a scheme; give the bare IP or hostname '' @ em_dash
             @ '' up serves a nameless instance over plain HTTP''))
      else if contains_any address ''/?#''
      then Inl (errorf (''deploy: address '' @ quote address @ '' carries a path; give the bare IP or hostname''))
      else if CHR ''@'' \<in> set address
      then Inl (errorf (''deploy: address '' @ quote address @ '' carries a user; give the bare IP or hostname''))
      else if contains_any address [CHR 0x20, CHR 0x09, CHR 0x0D, CHR 0x0A]
      then Inl (errorf (''deploy: address '' @ quote address @ '' contains whitespace''))
      else (case parse_ip address of
          Some ip \<Rightarrow> (if to4 ip = None then Inr (''['' @ address @ '']'') else Inr address)
        | None \<Rightarrow>
            if prefix ''['' address \<and> suffix '']'' address \<and> length address \<ge> 2
            then (case parse_ip (butlast (tl address)) of
                Some ip \<Rightarrow> (if to4 ip = None then Inr address
                  else Inl (errorf (''deploy: address '' @ quote address @ '' is not a valid IPv6 literal'')))
              | None \<Rightarrow> Inl (errorf (''deploy: address '' @ quote address @ '' is not a valid IPv6 literal'')))
            else check_then (valid_hostname address) (Inr address)))"

definition serve_address :: "manifest \<Rightarrow> string \<Rightarrow> error + string" where
  "serve_address m addr =
     (let address = trim_space addr
      in if named m
         then (if address \<noteq> ''''
               then Inl (errorf (''deploy: this bundle is named '' @ trim_space (Domain m)
                      @ '' and up serves it over HTTPS at that domain; an address is for a nameless bundle only''))
               else Inr '''')
         else if address = ''''
         then Inl (errorf (''deploy: this bundle is nameless, so up serves its web UI over plain HTTP at an address you supply ''
                @ em_dash @ '' give one, an IP or a hostname''))
         else normalize_address address)"

section \<open>An address a CI job can reach\<close>

definition host_address_command :: string where
  "host_address_command = ''ip -o addr show 2>/dev/null || ifconfig 2>/dev/null''"

definition virtual_interface_prefixes :: "string list" where
  "virtual_interface_prefixes = [''lo'', ''docker'', ''br-'', ''veth'', ''virbr'', ''bridge'', ''vmnet'']"

definition colocated_runner_planned :: "manifest \<Rightarrow> bool" where
  "colocated_runner_planned m \<longleftrightarrow> colocated_runner_enabled m \<and> map_of (Images m) RunnerService \<noteq> None"

definition is_loopback_address :: "string \<Rightarrow> bool" where
  "is_loopback_address addr =
     (let address = trim_space addr
      in if address = '''' then False
         else (case parse_ip (trim_set ''[]'' address) of
             Some ip \<Rightarrow> ip_loopback ip
           | None \<Rightarrow> (let name = to_lower address in name = ''localhost'' \<or> suffix ''.localhost'' name)))"

definition routable_address :: "int list \<Rightarrow> bool" where
  "routable_address ip \<longleftrightarrow> \<not> ip_loopback ip \<and> \<not> ip_link_local_unicast ip \<and> \<not> ip_link_local_multicast ip
     \<and> \<not> ip_unspecified ip \<and> \<not> ip_multicast ip"

definition is_virtual_interface :: "string \<Rightarrow> bool" where
  "is_virtual_interface name \<longleftrightarrow> name \<noteq> '''' \<and> list_ex (\<lambda>p. prefix p name) virtual_interface_prefixes"

definition is_all_digits :: "string \<Rightarrow> bool" where
  "is_all_digits s \<longleftrightarrow> s \<noteq> '''' \<and> list_all is_digit s"

definition before :: "char \<Rightarrow> string \<Rightarrow> string" where
  "before d s = (case cut d s of None \<Rightarrow> s | Some (a, b) \<Rightarrow> a)"

text \<open>The words after \<open>inet\<close> and \<open>inet6\<close> of a line; \<open>v4\<close> and \<open>v6\<close> collect the addresses not seen before.\<close>

fun line_addresses :: "string list \<Rightarrow> string list \<times> string list \<times> string set \<Rightarrow> string list \<times> string list \<times> string set" where
  "line_addresses (f # g # ws) acc =
     (case acc of (v4, v6, seen) \<Rightarrow>
      let acc' =
        (if f \<noteq> ''inet'' \<and> f \<noteq> ''inet6'' then acc
         else (let literal = before CHR ''%'' (before CHR ''/'' g)
               in case parse_ip literal of
                    None \<Rightarrow> acc
                  | Some ip \<Rightarrow>
                      if \<not> routable_address ip \<or> literal \<in> seen then acc
                      else if to4 ip \<noteq> None then (v4 @ [literal], v6, insert literal seen)
                      else (v4, v6 @ [''['' @ literal @ '']''], insert literal seen)))
      in line_addresses (g # ws) acc')"
| "line_addresses ws acc = acc"

definition line_interface :: "string \<Rightarrow> string list \<Rightarrow> string \<Rightarrow> string" where
  "line_interface line ws ifc =
     (if \<not> prefix '' '' line \<and> \<not> prefix tab line \<and> suffix '':'' (hd ws)
      then (let name = trim_suffix (hd ws) '':''
            in if is_all_digits name \<and> length ws > 1 then ws ! 1 else name)
      else ifc)"

fun host_lines :: "string list \<Rightarrow> string \<Rightarrow> string list \<times> string list \<times> string set \<Rightarrow> string list \<times> string list \<times> string set" where
  "host_lines [] ifc acc = acc"
| "host_lines (line # ls) ifc acc =
     (let ws = str_fields line
      in if ws = [] then host_lines ls ifc acc
         else (let ifc' = line_interface line ws ifc
               in if is_virtual_interface ifc' then host_lines ls ifc' acc
                  else host_lines ls ifc' (line_addresses ws acc)))"

definition parse_host_addresses :: "string \<Rightarrow> string list" where
  "parse_host_addresses out =
     (case host_lines (split_on CHR 0x0A out) '''' ([], [], {}) of (v4, v6, seen) \<Rightarrow> v4 @ v6)"

definition host_addresses :: "'w host \<Rightarrow> ctx \<Rightarrow> ('w, string list) io" where
  "host_addresses h c =
     bnd (attempt (host_output h c host_address_command)) (\<lambda>r.
     ret (case r of Inl e \<Rightarrow> [] | Inr out \<Rightarrow> parse_host_addresses out))"

definition loopback_consequence :: string where
  "loopback_consequence = ''the forge tells CI job containers to clone from this address, and inside a container it is the container itself, so every workflow fails with no error on the instance''"

definition address_advice :: "string list \<Rightarrow> string" where
  "address_advice addrs =
     (if addrs = []
      then ''re-run with an address other machines on your network reach this host at '' @ em_dash
        @ '' asking the host for one turned up nothing '' @ em_dash
        @ '' or turn the runner off with colocatedRunner: false in '' @ ManifestFile
        @ '' and register a remote runner instead''
      else ''this host is reachable at '' @ join '', '' (take 3 addrs) @ '' '' @ em_dash
        @ '' re-run with one of those as the address, or turn the runner off with colocatedRunner: false in ''
        @ ManifestFile @ '' and register a remote runner instead'')"

definition check_runner_reachable :: "'w host \<Rightarrow> ctx \<Rightarrow> manifest \<Rightarrow> string \<Rightarrow> ('w, unit) io" where
  "check_runner_reachable h c m address =
     (if address = '''' \<or> \<not> colocated_runner_planned m \<or> \<not> is_loopback_address address then ret ()
      else bnd (host_addresses h c) (\<lambda>addrs.
           fail (errorf (''deploy: '' @ address @ '' is a loopback address, and this deployment carries a CI runner: ''
             @ loopback_consequence @ ''. '' @ address_advice addrs))))"

section \<open>Facts\<close>

definition ip_char :: "char \<Rightarrow> bool" where
  "ip_char ch \<longleftrightarrow> is_hex ch \<or> ch = CHR '':'' \<or> ch = CHR ''.''"

lemma int_of_char: "(of_char ch :: int) = int (of_char ch)"
  by (rule of_nat_of_char [symmetric])

lemma digit_is_hex: "is_digit ch \<Longrightarrow> is_hex ch"
  by (simp add: is_digit_def is_hex_def hex_value_def Let_def int_of_char)

lemma hex_is_alnum: "is_hex ch \<Longrightarrow> is_alnum ch"
  by (auto simp: is_hex_def hex_value_def is_alnum_def is_letter_def is_digit_def Let_def int_of_char
      split: if_splits)

lemma parse_ipv4_chars:
  assumes "parse_ipv4 s = Some q"
  shows "list_all ip_char s"
  unfolding list_all_iff
proof
  fix ch assume "ch \<in> set s"
  with split_on_cover [OF this, of "CHR ''.''"] assms show "ip_char ch"
    by (auto simp: parse_ipv4_def Let_def list_all_iff octet_def ip_char_def digit_is_hex split: if_splits)
qed

lemma v6_loop_chars: "v6_loop n s bs ell = Some r \<Longrightarrow> list_all ip_char s"
proof (induction n arbitrary: s bs ell)
  case (Suc n)
  let ?d = "takeWhile is_hex s" and ?rest = "dropWhile is_hex s"
  have d: "list_all ip_char ?d"
    using set_takeWhileD by (fastforce simp: list_all_iff ip_char_def)
  have split: "s = ?d @ ?rest" by simp
  have "list_all ip_char ?rest \<or> list_all ip_char s"
  proof (cases ?rest)
    case (Cons ch rest')
    show ?thesis
    proof (cases "ch = CHR ''.''")
      case True
      with Suc.prems Cons show ?thesis
        by (auto simp: Let_def split: if_splits dest: parse_ipv4_chars)
    next
      case False
      with Suc.prems Cons have c: "ch = CHR '':''" "rest' \<noteq> ''''"
        by (auto simp: Let_def split: if_splits)
      have "list_all ip_char rest'"
      proof (cases "hd rest' = CHR '':''")
        case True
        with Suc.prems Cons c show ?thesis
          by (cases rest'; cases "tl rest' = ''''")
            (auto simp: Let_def ip_char_def split: if_splits dest: Suc.IH)
      next
        case False
        with Suc.prems Cons c show ?thesis
          by (auto simp: Let_def split: if_splits dest: Suc.IH)
      qed
      with Cons c show ?thesis by (simp add: ip_char_def)
    qed
  next
    case Nil
    then show ?thesis by (simp only: list.pred_inject simp_thms)
  qed
  with d show ?case by (metis list_all_append split)
qed (simp split: if_splits)

lemma parse_ip_chars: "parse_ip s = Some ip \<Longrightarrow> list_all ip_char s"
proof -
  assume a: "parse_ip s = Some ip"
  have "parse_ipv6 t = Some r \<Longrightarrow> list_all ip_char t" for t r
    using v6_loop_chars [of 8 "drop 2 t"] v6_loop_chars [of 8 t]
    by (cases t; cases "tl t") (auto simp: parse_ipv6_def ip_char_def split: if_splits option.splits)
  with a show ?thesis
    by (auto simp: parse_ip_def dest: parse_ipv4_chars split: list.splits if_splits)
qed

section \<open>Properties\<close>

definition address_char :: "char \<Rightarrow> bool" where
  "address_char ch \<longleftrightarrow> is_alnum ch \<or> ch \<in> set ''.-:[]''"

lemma ip_chars_address: "list_all ip_char s \<Longrightarrow> list_all address_char s"
  by (auto simp: list_all_iff ip_char_def address_char_def hex_is_alnum)

lemma check_labels_chars:
  "check_labels a ls = Inr () \<Longrightarrow> l \<in> set ls \<Longrightarrow> list_all (\<lambda>ch. is_alnum ch \<or> ch = CHR ''-'') l"
  by (induction ls) (auto split: if_splits)

lemma valid_hostname_chars:
  assumes "valid_hostname a = Inr ()"
  shows "list_all address_char a"
  unfolding list_all_iff
proof
  fix ch assume "ch \<in> set a"
  with split_on_cover [OF this, of "CHR ''.''"] assms check_labels_chars show "address_char ch"
    by (fastforce simp: valid_hostname_def address_char_def list_all_iff split: if_splits)
qed

text \<open>
  An accepted address is safe to interpolate: it has only letters, digits, dots, hyphens, colons
  and square brackets, so it can add nothing to a URL, a Caddyfile or \<open>app.ini\<close>.
\<close>

theorem normalized_address_plain:
  assumes "normalize_address a = Inr b"
  shows "list_all address_char b"
proof -
  have sq: "address_char CHR ''[''" "address_char CHR '']''" by (simp_all add: address_char_def)
  consider ip where "parse_ip a = Some ip" "b = a \<or> b = ''['' @ a @ '']''"
    | ip where "parse_ip (butlast (tl a)) = Some ip" "b = a" "prefix ''['' a" "suffix '']'' a"
    | "valid_hostname a = Inr ()" "b = a"
    using assms by (auto simp: normalize_address_def split: if_splits option.splits sum.splits)
  then show ?thesis
  proof cases
    case 1
    with sq show ?thesis using ip_chars_address [OF parse_ip_chars [OF 1(1)]] by auto
  next
    case 2
    then obtain t where "a = CHR ''['' # t" by (auto simp: prefix_def)
    with 2(4) have "a = CHR ''['' # butlast t @ '']''"
      by (cases t rule: rev_cases) (auto simp: suffix_def)
    then obtain m where a: "a = CHR ''['' # m @ '']''" by blast
    with 2(1) have "list_all address_char m" using parse_ip_chars ip_chars_address by fastforce
    with a sq 2(2) show ?thesis by simp
  next
    case 3
    then show ?thesis by (simp add: valid_hostname_chars)
  qed
qed

lemma normalized_address_plain_witness: "list_all address_char ''[fe80::1]''"
proof -
  have "normalize_address ''fe80::1'' = Inr ''[fe80::1]''" by code_simp
  from normalized_address_plain [OF this] show ?thesis .
qed

text \<open>
  An IPv4-mapped IPv6 literal is accepted without the brackets a URL needs: the address a
  nameless instance is then configured with, and the URL it announces, are malformed.
\<close>

theorem mapped_address_unbracketed:
  "normalize_address ''::ffff:192.0.2.1'' = Inr ''::ffff:192.0.2.1'' \<and>
   instance_url (sample_manifest\<lparr>Domain := ''''\<rparr>) ''::ffff:192.0.2.1'' = ''http://::ffff:192.0.2.1:8222/''"
proof (rule conjI)
  show "normalize_address ''::ffff:192.0.2.1'' = Inr ''::ffff:192.0.2.1''" by code_simp
  let ?m = "sample_manifest\<lparr>Domain := ''''\<rparr>"
  have h: "trim_space ''::ffff:192.0.2.1'' = ''::ffff:192.0.2.1''" by code_simp
  have "digit_char 8 = CHR ''8''" "digit_char 2 = CHR ''2''" by code_simp+
  then have p: "nat_str 8222 = ''8222''" by (simp add: nat_str.simps)
  have z: "WebPort ?m = 0" "PublicWebPort ?m = 0" "\<not> named ?m" by code_simp+
  then have w: "public_web_port ?m = 8222" "web_scheme ?m = ''http''"
    by (simp_all only: public_web_port_def web_port_def web_scheme_def DefaultNamelessWebPort_def if_False simp_thms)
  show "instance_url ?m ''::ffff:192.0.2.1'' = ''http://::ffff:192.0.2.1:8222/''"
    using z(3) w h p by (simp add: instance_url_def public_url_at_def web_url_def Let_def int_str_def standardHTTPPort_def)
qed

end
