(* ===== verification/HostState.thy ===== *)
theory HostState
  imports Address
begin

text \<open>
  The forge state a deployment keeps on its host (\<open>deploy/state.go\<close>, \<open>deploy/access.go\<close>): where it is,
  whose instance it belongs to (\<open>deploy/stateowner.go\<close>), which forge version last started on it
  (\<open>deploy/stateversion.go\<close>), and whether the forge's user can use it. The commands run on the host are
  written out; what they do there is the host's.
\<close>

section \<open>Parameters and key material\<close>

text \<open>What the deploying code takes from outside: the process runners of the keystore drivers and the YAML library.\<close>

record 'w env =
  en_shell :: "'w shell"
  en_invoke :: "string \<Rightarrow> string list \<Rightarrow> bool \<Rightarrow> 'w driver"
  en_yaml :: yaml_codec

definition bundle_driver :: "'w env \<Rightarrow> bundle_data \<Rightarrow> error + 'w driver" where
  "bundle_driver env b =
     (case keystore_new (en_shell env) (en_invoke env) (dr_driver (dc_keystore (Drivers (b_manifest b))))
             (dr_config (dc_keystore (Drivers (b_manifest b)))) of
        Inl e \<Rightarrow> Inl (wrapf ''keystore driver: '' e)
      | Inr d \<Rightarrow> Inr d)"

definition resolve_key :: "'w driver \<Rightarrow> ctx \<Rightarrow> string \<Rightarrow> ('w, secret) io" where
  "resolve_key d c k = call ''keystore'' c [''resolve'', k] (resolve d c k)"

definition KeySSHHostKey :: string where "KeySSHHostKey = ''ssh_host_key''"
definition KeySSHHostKeyPublic :: string where "KeySSHHostKeyPublic = ''ssh_host_key.pub''"

section \<open>Where the state is\<close>

definition git_state_path :: "string \<Rightarrow> string" where
  "git_state_path remoteDir = join_path [remoteDir, ''state'', ''git'']"

definition gitea_state_path :: "string \<Rightarrow> string" where
  "gitea_state_path remoteDir = join_path [remoteDir, ''state'', ''gitea'']"

definition blobs_state_path :: "string \<Rightarrow> string" where
  "blobs_state_path remoteDir = join_path [remoteDir, ''state'', ''blobs'']"

definition state_owner_path :: "string \<Rightarrow> string" where
  "state_owner_path remoteDir = join_path [remoteDir, ''state'', ''owner'']"

definition state_version_path :: "string \<Rightarrow> string" where
  "state_version_path remoteDir = join_path [remoteDir, ''state'', ''forgejo-version'']"

definition app_ini_rel_path :: string where
  "app_ini_rel_path = trim_prefix AppINIPath (dataPath @ ''/'')"

definition ssh_host_key_rel_path :: string where
  "ssh_host_key_rel_path = trim_prefix SSHHostKeyPath (dataPath @ ''/'')"

definition app_ini_mountpoint_script :: "string \<Rightarrow> string" where
  "app_ini_mountpoint_script giteaPath =
     (let mountpoint = join2 giteaPath app_ini_rel_path
      in ''mkdir -p '' @ shell_quote (dir_of mountpoint) @ '' && { [ -e '' @ shell_quote mountpoint @ '' ] || touch ''
         @ shell_quote mountpoint @ ''; }'')"

definition ensure_dirs :: "'w host \<Rightarrow> ctx \<Rightarrow> string list \<Rightarrow> ('w, unit) io" where
  "ensure_dirs h c dirs =
     bnd (host_output h c (''mkdir -p '' @ join '' '' (map shell_quote dirs))) (\<lambda>_. ret ())"

definition read_optional_file :: "'w host \<Rightarrow> ctx \<Rightarrow> string \<Rightarrow> ('w, string) io" where
  "read_optional_file h c p =
     orfail (host_output h c (''if [ -f '' @ shell_quote p @ '' ]; then cat '' @ shell_quote p @ ''; fi''))
       (''read '' @ p @ '': '')"

section \<open>Who can use it\<close>

definition forge_uid :: nat where "forge_uid = 1000"
definition forge_gid :: nat where "forge_gid = 1000"

definition owner_ids :: string where
  "owner_ids = nat_str forge_uid @ '':'' @ nat_str forge_gid"

record probe_dir =
  pd_container :: string
  pd_host :: string

definition state_probe_script :: "probe_dir list \<Rightarrow> string" where
  \<open>state_probe_script dirs =
     ''probe() { f="$1/.farrier-access-check"; rm -f "$f" 2>/dev/null; ''
     @ ''{ printf farrier > "$f" && [ "$(cat "$f")" = farrier ]; } 2>/dev/null || ''
     @ ''{ rm -f "$f" 2>/dev/null; echo "$2" >&2; exit 1; }; rm -f "$f" 2>/dev/null; }''
     @ concat (map (\<lambda>d. ''; probe '' @ shell_quote (pd_container d) @ '' '' @ shell_quote (pd_host d)) dirs)\<close>

definition file_probe_script :: "probe_dir list \<Rightarrow> string" where
  \<open>file_probe_script files =
     ''probefile() { [ -f "$1" ] && { true < "$1"; } 2>/dev/null && { true >> "$1"; } 2>/dev/null || ''
     @ ''{ echo "$2" >&2; exit 1; }; }''
     @ concat (map (\<lambda>d. ''; probefile '' @ shell_quote (pd_container d) @ '' '' @ shell_quote (pd_host d)) files)\<close>

definition read_probe_script :: "probe_dir \<Rightarrow> string" where
  "read_probe_script f =
     ''cat '' @ shell_quote (pd_container f) @ '' > /dev/null 2>&1 || { echo '' @ shell_quote (pd_host f)
     @ '' >&2; exit 1; }''"

definition run_as_forge :: "'w host \<Rightarrow> ctx \<Rightarrow> string \<Rightarrow> string \<Rightarrow> string \<Rightarrow> ('w, unit) io" where
  "run_as_forge h c img remoteDir script =
     bnd (host_output h c
       (''docker run --rm --network none --entrypoint /bin/sh -u '' @ owner_ids
        @ '' -v '' @ shell_quote (git_state_path remoteDir) @ '':'' @ repoRoot
        @ '' -v '' @ shell_quote (gitea_state_path remoteDir) @ '':'' @ dataPath
        @ '' '' @ shell_quote img @ '' -c '' @ shell_quote script)) (\<lambda>_. ret ())"

definition denied :: "string \<Rightarrow> string \<Rightarrow> string \<Rightarrow> error \<Rightarrow> error" where
  "denied what loc rest e =
     suffixf (wrapf (''the forge cannot '' @ what @ '': running as uid '' @ nat_str forge_uid @ '' it was denied ''
       @ loc @ '': '') e) rest"

definition own_remedy :: "string \<Rightarrow> string" where
  "own_remedy what = ''. Run `up` as a user that can change '' @ what @ '' to owner '' @ owner_ids
     @ '', or create them yourself owned by '' @ owner_ids @ '' before re-running''"

definition verify_forge_can_use_state :: "'w host \<Rightarrow> ctx \<Rightarrow> string \<Rightarrow> string \<Rightarrow> ('w, unit) io" where
  "verify_forge_can_use_state h c img remoteDir =
     handle (run_as_forge h c img remoteDir (state_probe_script
         [\<lparr>pd_container = repoRoot, pd_host = git_state_path remoteDir\<rparr>,
          \<lparr>pd_container = dataPath, pd_host = gitea_state_path remoteDir\<rparr>]))
       (\<lambda>e. fail (denied ''read and write its state on this host''
          (''access under '' @ git_state_path remoteDir @ '' and '' @ gitea_state_path remoteDir)
          (own_remedy ''those directories'') e))"

definition container_path :: "string \<Rightarrow> string \<Rightarrow> error + string" where
  "container_path remoteDir hostPath =
     (let git = git_state_path remoteDir; gitea = gitea_state_path remoteDir
      in if hostPath = git then Inr repoRoot
         else if prefix (git @ ''/'') hostPath then Inr (repoRoot @ ''/'' @ drop (length git + 1) hostPath)
         else if hostPath = gitea then Inr dataPath
         else if prefix (gitea @ ''/'') hostPath then Inr (dataPath @ ''/'' @ drop (length gitea + 1) hostPath)
         else Inl (errorf (''cannot check '' @ hostPath @ '': it is not under '' @ git @ '' or '' @ gitea)))"

fun probe_paths :: "string \<Rightarrow> string list \<Rightarrow> error + probe_dir list" where
  "probe_paths remoteDir [] = Inr []"
| "probe_paths remoteDir (p # ps) =
     (case container_path remoteDir p of
        Inl e \<Rightarrow> Inl e
      | Inr ct \<Rightarrow>
          (case probe_paths remoteDir ps of
             Inl e \<Rightarrow> Inl e
           | Inr ds \<Rightarrow> Inr (\<lparr>pd_container = ct, pd_host = p\<rparr> # ds)))"

definition summarize_paths :: "string list \<Rightarrow> string" where
  "summarize_paths ps =
     (if length ps \<le> 3 then join '', '' ps
      else join '', '' (take 3 ps) @ '' and '' @ nat_str (length ps - 3) @ '' more'')"

definition verify_forge_can_use_placed ::
    "'w host \<Rightarrow> ctx \<Rightarrow> string \<Rightarrow> string \<Rightarrow> string list \<Rightarrow> string list \<Rightarrow> ('w, unit) io" where
  "verify_forge_can_use_placed h c img remoteDir dirs placed =
     bnd (of_sum (probe_paths remoteDir dirs)) (\<lambda>ds.
     bnd (of_sum (probe_paths remoteDir placed)) (\<lambda>fl.
     handle (run_as_forge h c img remoteDir (state_probe_script ds @ ''; '' @ file_probe_script fl))
       (\<lambda>e. fail (denied ''read and write the state just placed on this host''
          (''access under '' @ summarize_paths (dirs @ placed))
          (''. Re-run as a user that can change those paths to owner '' @ owner_ids @ '', or clear ''
            @ join2 remoteDir ''state'' @ '' on the target and restore onto an empty host'') e))))"

definition verify_forge_can_read_host_key :: "'w host \<Rightarrow> ctx \<Rightarrow> string \<Rightarrow> string \<Rightarrow> ('w, unit) io" where
  "verify_forge_can_read_host_key h c img remoteDir =
     (let hostPath = join2 (gitea_state_path remoteDir) ssh_host_key_rel_path
      in handle (run_as_forge h c img remoteDir
             (read_probe_script \<lparr>pd_container = SSHHostKeyPath, pd_host = hostPath\<rparr>))
           (\<lambda>e. fail (denied ''read its ssh host key'' hostPath (own_remedy ''the state directories'') e)))"

definition chown_best_effort :: "'w host \<Rightarrow> ctx \<Rightarrow> bool \<Rightarrow> string list \<Rightarrow> ('w, bool) io" where
  "chown_best_effort h c recursive dirs =
     bnd (attempt (host_output h c (''chown '' @ (if recursive then ''-R '' else '''') @ owner_ids
            @ concat (map (\<lambda>d. '' '' @ shell_quote d) dirs)))) (\<lambda>r.
     ret (case r of Inl e \<Rightarrow> False | Inr _ \<Rightarrow> True))"

definition chown_state :: "'w host \<Rightarrow> ctx \<Rightarrow> string \<Rightarrow> ('w, unit) io" where
  "chown_state h c remoteDir =
     bnd (chown_best_effort h c True [git_state_path remoteDir, gitea_state_path remoteDir]) (\<lambda>_. ret ())"

definition image_of :: "bundle_data \<Rightarrow> string \<Rightarrow> string" where
  "image_of b service = (case map_of (Images (b_manifest b)) service of None \<Rightarrow> '''' | Some i \<Rightarrow> i)"

definition configure_state ::
    "yaml_codec \<Rightarrow> 'w host \<Rightarrow> ctx \<Rightarrow> bundle_data \<Rightarrow> string \<Rightarrow> files \<Rightarrow> ('w, files \<times> bool) io" where
  "configure_state y h c b remoteDir compose =
     (let gitPath = git_state_path remoteDir; giteaPath = gitea_state_path remoteDir
      in bnd (orfail (ensure_dirs h c [gitPath, giteaPath]) ''create state directories: '') (\<lambda>_.
         bnd (orfail (host_output h c (app_ini_mountpoint_script giteaPath))
                ''create the file app.ini mounts onto: '') (\<lambda>_.
         bnd (chown_best_effort h c False [gitPath, giteaPath]) (\<lambda>owned.
         bnd (verify_forge_can_use_state h c (image_of b ForgeService) remoteDir) (\<lambda>_.
         bnd (if dr_driver (dc_blob (Drivers (b_manifest b))) = ''local''
              then bnd (orfail (host_output h c (''mkdir -p '' @ shell_quote (blobs_state_path remoteDir)))
                     ''create blobs state directory: '') (\<lambda>_. ret ())
              else ret ()) (\<lambda>_.
         bnd (orfail (of_sum (with_bind_mount y compose ForgeService gitPath repoRoot)) ''mount git state: '') (\<lambda>c1.
         bnd (orfail (of_sum (with_bind_mount y c1 ForgeService giteaPath dataPath)) ''mount gitea state: '') (\<lambda>c2.
         ret (c2, owned)))))))))"

section \<open>Whose it is\<close>

record state_owner =
  ow_key :: string
  ow_domain :: string

definition no_owner :: state_owner where "no_owner = \<lparr>ow_key = '''', ow_domain = ''''\<rparr>"

definition owner_known :: "state_owner \<Rightarrow> bool" where
  "owner_known o1 \<longleftrightarrow> ow_key o1 \<noteq> ''''"

definition same_instance :: "state_owner \<Rightarrow> state_owner \<Rightarrow> bool" where
  "same_instance o1 o2 \<longleftrightarrow> owner_known o1 \<and> owner_known o2 \<and> ow_key o1 = ow_key o2"

definition describe_owner :: "state_owner \<Rightarrow> string" where
  "describe_owner o1 =
     (if \<not> owner_known o1 then ''an instance this host records nothing about''
      else (if ow_domain o1 \<noteq> '''' then ow_domain o1 else ''an unnamed instance'')
        @ '', whose ssh host key is '' @ quote (ow_key o1))"

definition owner_record :: "state_owner \<Rightarrow> string" where
  "owner_record o1 = ''ssh-host-key: '' @ ow_key o1 @ nl
     @ (if ow_domain o1 \<noteq> '''' then ''domain: '' @ ow_domain o1 @ nl else '''')"

definition normalize_ssh_public_key :: "string \<Rightarrow> string" where
  "normalize_ssh_public_key line =
     (case split_ssh_public_key line of Inl e \<Rightarrow> trim_space line | Inr (t, b) \<Rightarrow> t @ '' '' @ b)"

fun parse_owner_lines :: "string list \<Rightarrow> state_owner \<Rightarrow> state_owner" where
  "parse_owner_lines [] o1 = o1"
| "parse_owner_lines (line # ls) o1 =
     parse_owner_lines ls
       (case cut CHR '':'' line of
          None \<Rightarrow> o1
        | Some (field, v) \<Rightarrow>
            if trim_space field = ''ssh-host-key'' then o1\<lparr>ow_key := normalize_ssh_public_key v\<rparr>
            else if trim_space field = ''domain'' then o1\<lparr>ow_domain := trim_space v\<rparr>
            else o1)"

definition parse_state_owner :: "string \<Rightarrow> state_owner" where
  "parse_state_owner record1 = parse_owner_lines (split_on CHR 0x0A record1) no_owner"

definition state_owner_of :: "ctx \<Rightarrow> manifest \<Rightarrow> 'w driver \<Rightarrow> ('w, state_owner) io" where
  "state_owner_of c m d =
     bnd (orfail (resolve_key d c KeySSHHostKeyPublic) (''resolve '' @ KeySSHHostKeyPublic @ '': '')) (\<lambda>public.
     let key = normalize_ssh_public_key (reveal public)
     in if key = '''' then fail (errorf (KeySSHHostKeyPublic @ '' in this bundle's keystore is empty''))
        else ret \<lparr>ow_key = key, ow_domain = trim_space (Domain m)\<rparr>)"

definition read_state_owner :: "'w host \<Rightarrow> ctx \<Rightarrow> string \<Rightarrow> ('w, state_owner) io" where
  "read_state_owner h c remoteDir =
     bnd (read_optional_file h c (state_owner_path remoteDir)) (\<lambda>record1.
     let owner = parse_state_owner record1
     in if owner_known owner then ret owner
        else bnd (read_optional_file h c (join2 (gitea_state_path remoteDir) ssh_host_key_rel_path @ ''.pub'')) (\<lambda>installed.
             ret \<lparr>ow_key = normalize_ssh_public_key installed, ow_domain = ''''\<rparr>))"

definition record_state_owner :: "'w host \<Rightarrow> ctx \<Rightarrow> string \<Rightarrow> state_owner \<Rightarrow> ('w, unit) io" where
  "record_state_owner h c remoteDir owner =
     (if \<not> owner_known owner
      then fail (errorf (''record '' @ state_owner_path remoteDir @ '': the owner to record is unknown''))
      else orfail (host_write h c (state_owner_path remoteDir) (owner_record owner) 420)
             (''record '' @ state_owner_path remoteDir @ '': ''))"

definition foreign_state :: "string \<Rightarrow> state_owner \<Rightarrow> state_owner \<Rightarrow> error" where
  "foreign_state remoteDir found mine =
     errorf (''the forge state in '' @ join2 remoteDir ''state'' @ '' belongs to '' @ describe_owner found
       @ '', and this deployment is '' @ describe_owner mine @ '': ''
       @ ''deploying over it would start the forge against another instance's database, ''
       @ ''whose contents this bundle's key material cannot decrypt '' @ em_dash
       @ '' its sessions, its CSRF tokens, and every secret it holds. ''
       @ ''Give this bundle a directory of its own on this host with -remote-dir, or run this command with the bundle that owns this state'')"

text \<open>The decision of \<open>checkStateOwner\<close> once both owners are known.\<close>

definition settle_owner :: "'w host \<Rightarrow> ctx \<Rightarrow> string \<Rightarrow> state_owner \<Rightarrow> state_owner \<Rightarrow> ('w, string) io" where
  "settle_owner h c remoteDir mine found =
     (if owner_known found \<and> \<not> same_instance found mine then fail (foreign_state remoteDir found mine)
      else bnd (record_state_owner h c remoteDir mine) (\<lambda>_.
           ret (if \<not> owner_known found
                then ''no forge state on this host is claimed by another instance; '' @ describe_owner mine
                  @ '' now owns '' @ join2 remoteDir ''state''
                else ''the forge state in '' @ join2 remoteDir ''state'' @ '' belongs to this instance'')))"

definition check_state_owner :: "'w env \<Rightarrow> 'w host \<Rightarrow> ctx \<Rightarrow> bundle_data \<Rightarrow> string \<Rightarrow> ('w, string) io" where
  "check_state_owner env h c b remoteDir =
     bnd (of_sum (bundle_driver env b)) (\<lambda>d.
     bnd (state_owner_of c (b_manifest b) d) (\<lambda>mine.
     bnd (read_state_owner h c remoteDir) (\<lambda>found.
     settle_owner h c remoteDir mine found)))"

section \<open>Which version it is at\<close>

definition read_state_version :: "'w host \<Rightarrow> ctx \<Rightarrow> string \<Rightarrow> ('w, string) io" where
  "read_state_version h c remoteDir =
     bnd (read_optional_file h c (state_version_path remoteDir)) (\<lambda>out. ret (trim_space out))"

definition record_state_version :: "'w host \<Rightarrow> ctx \<Rightarrow> string \<Rightarrow> string \<Rightarrow> ('w, unit) io" where
  "record_state_version h c remoteDir img =
     orfail (host_write h c (state_version_path remoteDir) (img @ nl) 420)
       (''record '' @ state_version_path remoteDir @ '': '')"

definition migration_refused :: "string \<Rightarrow> string \<Rightarrow> error" where
  "migration_refused recorded pinned =
     errorf (''forge state on this host was last started under forgejo '' @ recorded
       @ '', but the bundle pins '' @ pinned @ '': ''
       @ ''starting a different version against an existing database runs schema migrations, which only `farrier upgrade` may do. ''
       @ ''Run `farrier upgrade -image '' @ pinned
       @ ''`, which backs the instance up first and leaves a path back, or restore the bundle's forgejo pin to ''
       @ recorded)"

definition settle_version :: "'w host \<Rightarrow> ctx \<Rightarrow> string \<Rightarrow> string \<Rightarrow> bool \<Rightarrow> string \<Rightarrow> ('w, string) io" where
  "settle_version h c pinned remoteDir migrate recorded =
     (if \<not> migrate \<and> recorded \<noteq> '''' \<and> recorded \<noteq> pinned then fail (migration_refused recorded pinned)
      else bnd (record_state_version h c remoteDir pinned) (\<lambda>_.
           ret (if recorded = '''' then ''no prior record on this host; state now pinned to forgejo '' @ pinned
                else if recorded = pinned
                then ''state already started under forgejo '' @ pinned @ ''; no migration''
                else ''migrating state from forgejo '' @ recorded @ '' to '' @ pinned)))"

definition check_state_version :: "'w host \<Rightarrow> ctx \<Rightarrow> string \<Rightarrow> string \<Rightarrow> bool \<Rightarrow> ('w, string) io" where
  "check_state_version h c pinned remoteDir migrate =
     bnd (read_state_version h c remoteDir) (settle_version h c pinned remoteDir migrate)"

section \<open>Facts\<close>

lemma state_calm [calm_intros]:
  "calm_on I (resolve_key d c k)" "calm_on I (ensure_dirs h c dirs)" "calm_on I (read_optional_file h c path)"
  "calm_on I (verify_forge_can_use_state h c img dir)" "calm_on I (verify_forge_can_use_placed h c img dir ds fl)"
  "calm_on I (verify_forge_can_read_host_key h c img dir)" "calm_on I (chown_best_effort h c rec dirs)"
  "calm_on I (chown_state h c dir)"
  unfolding resolve_key_def ensure_dirs_def read_optional_file_def verify_forge_can_use_state_def run_as_forge_def
    verify_forge_can_use_placed_def verify_forge_can_read_host_key_def chown_best_effort_def chown_state_def Let_def
  by (intro calm_intros)+

lemma checks_calm [calm_intros]:
  "calm_on I (configure_state y h c b dir compose)" "calm_on I (check_state_owner env h c b dir)"
  "calm_on I (check_state_version h c pinned dir migrate)" "calm_on I (read_state_owner h c dir)"
  "calm_on I (record_state_owner h c dir o1)" "calm_on I (record_state_version h c dir img)"
  "calm_on I (read_state_version h c dir)"
  unfolding configure_state_def check_state_owner_def settle_owner_def check_state_version_def settle_version_def state_owner_of_def
    read_state_owner_def record_state_owner_def read_state_version_def record_state_version_def Let_def
  by (intro calm_intros)+

text \<open>The reading half of the checks writes nothing on the host.\<close>

definition reads_only :: "call \<Rightarrow> bool" where
  "reads_only k \<longleftrightarrow> \<not> writes_host k"

lemma owner_reads_only:
  "only_calls reads_only (state_owner_of c m d)" "only_calls reads_only (read_state_owner h c dir)"
  "only_calls reads_only (read_state_version h c dir)"
  unfolding state_owner_of_def read_state_owner_def read_state_version_def read_optional_file_def resolve_key_def Let_def
  by (intro calls_intros; simp add: reads_only_def writes_host_def)+

lemma split_ssh_words:
  assumes "split_ssh_public_key line = Inr (t, b)"
  shows "spaceless t" "t \<noteq> ''''" "spaceless b" "b \<noteq> ''''"
  using assms str_fields_words [of _ "trim_space line"]
  by (auto simp: split_ssh_public_key_def split: list.splits)

lemma normalize_two_words:
  assumes "spaceless t" "t \<noteq> ''''" "spaceless b" "b \<noteq> ''''"
  shows "normalize_ssh_public_key (CHR '' '' # t @ '' '' @ b) = t @ '' '' @ b"
proof -
  have "split_ssh_public_key (CHR '' '' # t @ '' '' @ b) = Inr (t, b)"
    unfolding split_ssh_public_key_def trim_space_blank trim_space_two [OF assms] str_fields_two [OF assms] by simp
  then show ?thesis by (simp add: normalize_ssh_public_key_def)
qed

section \<open>Properties\<close>

text \<open>
  C37. The owner record on a host reads back as it was written: for a bundle whose public host key is an
  OpenSSH key and whose domain has no line break, the instance a later deployment finds is the one
  that was recorded, key and domain.
\<close>

theorem owner_record_roundtrip:
  assumes "state_owner_of c m d p = (Ok o1, p')"
    and "\<And>s w w'. resolve d c KeySSHHostKeyPublic w = (Inr s, w') \<Longrightarrow> \<exists>t b. split_ssh_public_key (reveal s) = Inr (t, b)"
    and "CHR 0x0A \<notin> set (trim_space (Domain m))"
  shows "parse_state_owner (owner_record o1) = o1"
proof -
  from assms(1) obtain s w' where s: "resolve d c KeySSHHostKeyPublic (world p) = (Inr s, w')"
    and o1: "o1 = \<lparr>ow_key = normalize_ssh_public_key (reveal s), ow_domain = trim_space (Domain m)\<rparr>"
    by (auto simp: state_owner_of_def resolve_key_def call_def orfail_def handle_def bnd_def fail_def ret_def Let_def
        split: prod.splits sum.splits if_splits res.splits elim!: res_of.elims)
  from assms(2) [OF s] obtain t b where tb: "split_ssh_public_key (reveal s) = Inr (t, b)" by blast
  note w = split_ssh_words [OF tb]
  let ?D = "trim_space (Domain m)"
  have key: "ow_key o1 = t @ '' '' @ b" using tb o1 by (simp add: normalize_ssh_public_key_def)
  have nl: "CHR 0x0A \<notin> set (''ssh-host-key: '' @ t @ '' '' @ b)" "CHR 0x0A \<notin> set (''domain: '' @ ?D)"
    using spaceless_no_nl [OF w(1)] spaceless_no_nl [OF w(3)] assms(3) by auto
  have field: "trim_space ''ssh-host-key'' = ''ssh-host-key''" "trim_space ''domain'' = ''domain''"
    by code_simp+
  have cuts: "cut CHR '':'' (''ssh-host-key: '' @ t @ '' '' @ b) = Some (''ssh-host-key'', CHR '' '' # t @ '' '' @ b)"
    "cut CHR '':'' (''domain: '' @ ?D) = Some (''domain'', CHR '' '' # ?D)"
    by simp_all
  have lines: "split_on CHR 0x0A (owner_record o1) = (''ssh-host-key: '' @ t @ '' '' @ b)
      # (if ?D = '''' then [] else [''domain: '' @ ?D]) @ [[]]"
    using split_lines [of "[''ssh-host-key: '' @ t @ '' '' @ b]" "CHR 0x0A"]
      split_lines [of "[''ssh-host-key: '' @ t @ '' '' @ b, ''domain: '' @ ?D]" "CHR 0x0A"] nl key o1
    by (simp add: owner_record_def)
  show ?thesis
    unfolding parse_state_owner_def lines parse_owner_lines.simps cuts option.case prod.case field
    using key o1 normalize_two_words [OF w] cuts(2) field by (auto simp: no_owner_def)
qed

text \<open>
  C39. Another instance's state is never claimed: the ownership check writes to the host only its own
  record, and only when the record found there is of the same instance or there is none.
\<close>

theorem owner_check_guards_state:
  assumes "check_state_owner env h c b dir p = (r, p')" "trace p' = trace p @ cs" "k \<in> set cs" "writes_host k"
  shows "\<exists>d mine found p1 p2. bundle_driver env b = Inr d \<and>
    state_owner_of c (b_manifest b) d p = (Ok mine, p1) \<and> read_state_owner h c dir p1 = (Ok found, p2) \<and>
    (\<not> owner_known found \<or> same_instance found mine) \<and>
    k = Call ''host'' c [''write'', state_owner_path dir, owner_record mine]"
proof -
  let ?w = "\<lambda>mine. Call ''host'' c [''write'', state_owner_path dir, owner_record mine]"
  have settle: "only_calls (\<lambda>k. k = ?w mine) (settle_owner h c dir mine found)" for mine found
    unfolding settle_owner_def record_state_owner_def by (intro calls_intros) simp
  have any: "only_calls (\<lambda>_. True) (bnd (read_state_owner h c dir) (settle_owner h c dir mine))" for mine
    by (intro calls_intros only_callsI_bound [OF owner_reads_only(2)] only_callsI_bound [OF settle])
  from assms(1-3) obtain d where d: "bundle_driver env b = Inr d"
    and run: "bnd (state_owner_of c (b_manifest b) d) (\<lambda>mine. bnd (read_state_owner h c dir)
      (settle_owner h c dir mine)) p = (r, p')"
    by (cases "bundle_driver env b") (auto simp: check_state_owner_def bnd_def fail_def ret_def)
  obtain mine p1 ds where 1: "state_owner_of c (b_manifest b) d p = (Ok mine, p1)"
    "bnd (read_state_owner h c dir) (settle_owner h c dir mine) p1 = (r, p')"
    "trace p' = trace p1 @ ds" "k \<in> set ds"
    using bnd_past [OF run assms(2-4) owner_reads_only(1) [unfolded reads_only_def] any] by blast
  obtain found p2 es where 2: "read_state_owner h c dir p1 = (Ok found, p2)"
    "settle_owner h c dir mine found p2 = (r, p')" "trace p' = trace p2 @ es" "k \<in> set es"
    using bnd_past [OF 1(2-4) assms(4) owner_reads_only(2) [unfolded reads_only_def] only_callsI_bound [OF settle]]
    by blast
  have ok: "\<not> owner_known found \<or> same_instance found mine"
    using 2(2-4) by (auto simp: settle_owner_def split: if_splits)
  obtain gs where "trace p' = trace p2 @ gs" "\<forall>k\<in>set gs. k = ?w mine" using only_callsD [OF settle 2(2)] .
  with 2(3,4) d 1(1) 2(1) ok show ?thesis by auto
qed

text \<open>
  C40. No schema migration happens behind the operator's back: the version check moves the host's record
  to the pinned version only when the record was absent or already at it, or when the caller is the
  upgrade, which migrates on purpose.
\<close>

theorem version_check_guards_state:
  assumes "check_state_version h c pinned dir migrate p = (r, p')" "trace p' = trace p @ cs" "k \<in> set cs"
    "writes_host k"
  shows "\<exists>recorded p1. read_state_version h c dir p = (Ok recorded, p1) \<and>
    (migrate \<or> recorded = '''' \<or> recorded = pinned) \<and>
    k = Call ''host'' c [''write'', state_version_path dir, pinned @ nl]"
proof -
  let ?w = "Call ''host'' c [''write'', state_version_path dir, pinned @ nl]"
  have calls: "only_calls (\<lambda>k. k = ?w) (settle_version h c pinned dir migrate recorded)" for recorded
    unfolding settle_version_def record_state_version_def by (intro calls_intros) simp
  note run = assms(1) [unfolded check_state_version_def]
  obtain recorded p1 ds where 1: "read_state_version h c dir p = (Ok recorded, p1)"
    "settle_version h c pinned dir migrate recorded p1 = (r, p')" "trace p' = trace p1 @ ds" "k \<in> set ds"
    using bnd_past [OF run assms(2-4) owner_reads_only(3) [unfolded reads_only_def] only_callsI_bound [OF calls]]
    by blast
  obtain gs where "trace p' = trace p1 @ gs" "\<forall>k\<in>set gs. k = ?w" using only_callsD [OF calls 1(2)] .
  moreover have "migrate \<or> recorded = '''' \<or> recorded = pinned"
    using 1(2-4) by (auto simp: settle_version_def split: if_splits)
  ultimately show ?thesis using 1 by auto
qed

section \<open>Witnesses\<close>

definition sample_env :: "unit env" where
  "sample_env = \<lparr>en_shell = (\<lambda>c cmd k i w. ((None, ''ssh-ed25519 AAAA'', ''''), w)),
     en_invoke = (\<lambda>p as b. \<lparr>resolve = (\<lambda>c k. afail (errorf ''none'')), writer = None, describer = None\<rparr>),
     en_yaml = sample_yaml\<rparr>"

definition sample_drivers :: driver_config where
  "sample_drivers = \<lparr>dc_keystore = \<lparr>dr_driver = ''command'', dr_config = [''command'' \<mapsto> AStr ''keys'']\<rparr>,
     dc_dns = \<lparr>dr_driver = '''', dr_config = (\<lambda>_. None)\<rparr>,
     dc_blob = \<lparr>dr_driver = ''s3'', dr_config = (\<lambda>_. None)\<rparr>\<rparr>"

definition sample_deployment :: bundle_data where
  "sample_deployment = sample_bundle\<lparr>b_manifest := sample_manifest\<lparr>Drivers := sample_drivers\<rparr>\<rparr>"

lemma version_check_guards_state_witness:
  "\<exists>recorded p1. read_state_version sample_host Caller ''/srv'' idle_proc = (Ok recorded, p1) \<and>
     (recorded = '''' \<or> recorded = ''img'')"
proof -
  let ?run = "check_state_version sample_host Caller ''img'' ''/srv'' False idle_proc"
  have t: "\<exists>k \<in> set (trace (snd ?run)). writes_host k"
    by (simp add: check_state_version_def settle_version_def read_state_version_def read_optional_file_def record_state_version_def
        orfail_def handle_def bnd_def ret_def host_output_def host_write_def call_def sample_host_def writes_host_def)
  have e: "trace (snd ?run) = trace idle_proc @ trace (snd ?run)" by (simp add: idle_proc_def)
  from t obtain k where "k \<in> set (trace (snd ?run))" "writes_host k" by blast
  from version_check_guards_state [OF prod.collapse [symmetric] e this] show ?thesis by blast
qed

definition sample_driver :: "unit driver" where
  "sample_driver = \<lparr>resolve = (\<lambda>c k. aret (Secret ''ssh-ed25519 AAAA farrier'')), writer = None, describer = None\<rparr>"

lemma sample_key: "split_ssh_public_key ''ssh-ed25519 AAAA farrier'' = Inr (''ssh-ed25519'', ''AAAA'')"
  by code_simp

lemma owner_record_roundtrip_witness:
  "\<exists>o1 p'. state_owner_of Caller sample_manifest sample_driver idle_proc = (Ok o1, p') \<and>
     ow_key o1 = ''ssh-ed25519 AAAA'' \<and> parse_state_owner (owner_record o1) = o1"
proof -
  have d: "CHR 0x0A \<notin> set (trim_space (Domain sample_manifest))" by code_simp
  obtain o1 p' where o1: "state_owner_of Caller sample_manifest sample_driver idle_proc = (Ok o1, p')"
    "ow_key o1 = ''ssh-ed25519 AAAA''"
    by (simp add: state_owner_of_def resolve_key_def call_def sample_driver_def orfail_def handle_def bnd_def
        ret_def normalize_ssh_public_key_def sample_key Let_def)
  have "parse_state_owner (owner_record o1) = o1"
    by (rule owner_record_roundtrip [OF o1(1) _ d]) (auto simp: sample_driver_def sample_key)
  with o1 show ?thesis by blast
qed

lemma owner_check_guards_state_witness:
  "\<exists>d mine found p1 p2. bundle_driver sample_env sample_deployment = Inr d \<and>
     state_owner_of Caller (b_manifest sample_deployment) d idle_proc = (Ok mine, p1) \<and>
     read_state_owner sample_host Caller ''/srv'' p1 = (Ok found, p2) \<and>
     (\<not> owner_known found \<or> same_instance found mine)"
proof -
  let ?run = "check_state_owner sample_env sample_host Caller sample_deployment ''/srv'' idle_proc"
  let ?d = "wrap_writer (command_driver (en_shell sample_env) ''keys'' None)"
  have nb: "\<not> blank ''keys''" "\<not> blank KeySSHHostKeyPublic" by code_simp+
  have d: "bundle_driver sample_env sample_deployment = Inr ?d"
    using nb by (simp add: bundle_driver_def sample_deployment_def sample_bundle_def sample_drivers_def
        keystore_new_def new_driver_def new_command_driver_def string_config_def optional_string_config_def)
  have k: "split_ssh_public_key ''ssh-ed25519 AAAA'' = Inr (''ssh-ed25519'', ''AAAA'')"
    "trim_right_set [CHR 0x0D, CHR 0x0A] ''ssh-ed25519 AAAA'' = ''ssh-ed25519 AAAA''"
    "parse_state_owner '''' = no_owner" "normalize_ssh_public_key '''' = ''''"
    by code_simp+
  have r: "resolve ?d Caller KeySSHHostKeyPublic w = (Inr (Secret ''ssh-ed25519 AAAA''), w)" for w
    using nb(2) k(2) by (simp add: wrap_writer_def command_driver_def command_resolve_def sample_env_def Let_def)
  define mine where "mine = \<lparr>ow_key = ''ssh-ed25519 AAAA'', ow_domain = trim_space (Domain (b_manifest sample_deployment))\<rparr>"
  obtain p1 where o1: "state_owner_of Caller (b_manifest sample_deployment) ?d idle_proc = (Ok mine, p1)"
    by (simp add: state_owner_of_def resolve_key_def call_def r orfail_def handle_def bnd_def ret_def
        normalize_ssh_public_key_def k(1) Let_def mine_def)
  obtain p2 where o2: "read_state_owner sample_host Caller ''/srv'' p1 = (Ok no_owner, p2)"
    by (simp add: read_state_owner_def read_optional_file_def host_output_def call_def sample_host_def orfail_def
        handle_def bnd_def ret_def k(3,4) owner_known_def no_owner_def Let_def)
  have "writes_host (last (trace (snd (settle_owner sample_host Caller ''/srv'' mine no_owner p2))))"
    "trace (snd (settle_owner sample_host Caller ''/srv'' mine no_owner p2)) \<noteq> []"
    by (simp_all add: settle_owner_def record_state_owner_def owner_known_def no_owner_def mine_def host_write_def
        call_def sample_host_def orfail_def handle_def bnd_def ret_def writes_host_def)
  moreover have "?run = settle_owner sample_host Caller ''/srv'' mine no_owner p2"
    using o1 o2 by (simp add: check_state_owner_def d bnd_def ret_def)
  ultimately have "\<exists>k \<in> set (trace (snd ?run)). writes_host k" by (metis last_in_set)
  then obtain k where "k \<in> set (trace (snd ?run))" "writes_host k" by blast
  moreover have "trace (snd ?run) = trace idle_proc @ trace (snd ?run)" by (simp add: idle_proc_def)
  ultimately show ?thesis
    using owner_check_guards_state [OF prod.collapse [symmetric], of sample_env sample_host Caller
        sample_deployment "''/srv''" idle_proc "trace (snd ?run)" k] by blast
qed

end
