(* ===== verification/Acme.thy ===== *)
theory Acme
  imports HostState Snapshot
begin

text \<open>
  Certificates (\<open>acme\<close>): the directory an issuance asks, the issuance over the \<open>lego\<close> library, and when
  a certificate is due for renewal. Times and durations are nanoseconds; the renewal point is computed in
  64-bit floating point as the source does, with the rounding written out.
\<close>

record certificate =
  crt_domain :: string
  crt_cert :: string
  crt_key :: string
  crt_issuer :: string
  crt_not_before :: int
  crt_not_after :: int

record acme_request =
  rq_domain :: string
  rq_email :: string
  rq_account_key :: "string option"
  rq_provider :: string
  rq_directory :: string

text \<open>
  The \<open>lego\<close> library: its provider registry, its client calls, its PEM parser (the validity of the
  leaf), and the key generator of the standard library.
\<close>

record 'w acme_lib =
  al_provider :: "string \<Rightarrow> error + unit"
  al_client :: "string \<Rightarrow> acme_request \<Rightarrow> ('w, unit) act"
  al_dns01 :: "string \<Rightarrow> ('w, unit) act"
  al_register :: "('w, unit) act"
  al_obtain :: "string \<Rightarrow> ('w, string \<times> string \<times> string) act"
  al_parse_pem :: "string \<Rightarrow> error + int \<times> int"
  al_gen_key :: "('w, string) act"

section \<open>Directories\<close>

definition ProductionDirectoryURL :: string where
  "ProductionDirectoryURL = ''https://acme-v02.api.letsencrypt.org/directory''"

definition StagingDirectoryURL :: string where
  "StagingDirectoryURL = ''https://acme-staging-v02.api.letsencrypt.org/directory''"

definition StagingShorthand :: string where "StagingShorthand = ''staging''"

text \<open>\<open>url.Parse\<close>, as the scheme and the host of a URL, is a parameter.\<close>

definition resolve_directory_url :: "(string \<Rightarrow> error + string \<times> string) \<Rightarrow> string \<Rightarrow> error + string" where
  "resolve_directory_url parse val =
     (let v = trim_space val
      in if v = '''' then Inr ProductionDirectoryURL
         else if v = StagingShorthand then Inr StagingDirectoryURL
         else (case parse v of
             Inl e \<Rightarrow> Inl (wrapf (''acme: directory '' @ quote val @ '' is not a URL: '') e)
           | Inr (scheme, host) \<Rightarrow>
               if scheme \<noteq> ''http'' \<and> scheme \<noteq> ''https''
               then Inl (errorf (''acme: directory '' @ quote val @ '' must be an http or https URL, or ''
                      @ quote StagingShorthand @ '' for Let's Encrypt's staging environment''))
               else if host = '''' then Inl (errorf (''acme: directory '' @ quote val @ '' names no host''))
               else Inr v))"

definition directory_url :: "acme_request \<Rightarrow> string" where
  "directory_url rq = (if blank (rq_directory rq) then ProductionDirectoryURL else trim_space (rq_directory rq))"

section \<open>Issuance\<close>

definition validate_request :: "acme_request \<Rightarrow> error + unit" where
  "validate_request rq =
     (if blank (rq_domain rq) then Inl (errorf ''acme: domain is required'')
      else if rq_account_key rq = None then Inl (errorf ''acme: account key is required'')
      else if blank (rq_provider rq) then Inl (errorf ''acme: dns provider is required'')
      else Inr ())"

definition parse_certificate :: "'w acme_lib \<Rightarrow> string \<Rightarrow> string \<Rightarrow> string \<Rightarrow> error + certificate" where
  "parse_certificate al domain cert key =
     (case al_parse_pem al cert of
        Inl e \<Rightarrow> Inl (wrapf (''acme: parse certificate for '' @ domain @ '': '') e)
      | Inr (nb, na) \<Rightarrow>
          Inr \<lparr>crt_domain = domain, crt_cert = cert, crt_key = key, crt_issuer = '''',
               crt_not_before = nb, crt_not_after = na\<rparr>)"

definition new_certificate :: "'w acme_lib \<Rightarrow> string \<Rightarrow> string \<times> string \<times> string \<Rightarrow> error + certificate" where
  "new_certificate al domain res =
     (case res of (cert, key, issuer) \<Rightarrow>
        (case al_parse_pem al cert of
           Inl e \<Rightarrow> Inl (wrapf ''acme: parse issued certificate: '' e)
         | Inr (nb, na) \<Rightarrow>
             Inr \<lparr>crt_domain = domain, crt_cert = cert, crt_key = key, crt_issuer = issuer,
                  crt_not_before = nb, crt_not_after = na\<rparr>))"

abbreviation awrap :: "('w, 'a) act \<Rightarrow> string \<Rightarrow> ('w, 'a) act" where
  "awrap a p \<equiv> ahandle a (\<lambda>e. afail (wrapf p e))"

definition issue :: "'w acme_lib \<Rightarrow> acme_request \<Rightarrow> ('w, certificate) act" where
  "issue al rq =
     abnd (awrap (asum (al_provider al (rq_provider rq))) (''acme: dns-01 provider '' @ quote (rq_provider rq) @ '': '')) (\<lambda>_.
     abnd (asum (validate_request rq)) (\<lambda>_.
     abnd (awrap (al_client al (directory_url rq) rq) ''acme: create client: '') (\<lambda>_.
     abnd (awrap (al_dns01 al (rq_provider rq)) ''acme: configure dns-01: '') (\<lambda>_.
     abnd (awrap (al_register al) ''acme: register account: '') (\<lambda>_.
     abnd (awrap (al_obtain al (rq_domain rq)) (''acme: issue certificate for '' @ rq_domain rq @ '': '')) (\<lambda>res.
     asum (new_certificate al (rq_domain rq) res)))))))"

section \<open>Renewal\<close>

text \<open>
  Rounding a non-negative integer to the 53 significant bits of a \<open>float64\<close>, half to even.
\<close>

fun bits_of :: "nat \<Rightarrow> nat" where
  "bits_of n = (if n = 0 then 0 else Suc (bits_of (n div 2)))"

declare bits_of.simps [simp del]

definition half_even :: "nat \<Rightarrow> nat \<Rightarrow> nat" where
  "half_even x u =
     (let q = x div u; r = x mod u
      in if 2 * r < u \<or> (2 * r = u \<and> even q) then q else q + 1)"

definition round53 :: "nat \<Rightarrow> nat" where
  "round53 x = (if bits_of x \<le> 53 then x else half_even x (2 ^ (bits_of x - 53)) * 2 ^ (bits_of x - 53))"

text \<open>\<open>RenewalFraction\<close>, the \<open>float64\<close> nearest to two thirds, in units of \<open>2 ^ -53\<close>.\<close>

definition renewal_fraction :: nat where "renewal_fraction = 6004799503160661"

text \<open>\<open>time.Duration(float64(lifetime) * RenewalFraction)\<close>: the conversion truncates toward zero.\<close>

definition renewal_offset :: "int \<Rightarrow> int" where
  "renewal_offset l =
     sgn l * int (round53 (round53 (nat \<bar>l\<bar>) * renewal_fraction) div 2 ^ 53)"

definition needs_renewal :: "certificate \<Rightarrow> int \<Rightarrow> bool" where
  "needs_renewal crt t =
     (let lifetime = time_sub (crt_not_after crt) (crt_not_before crt)
      in \<not> t < crt_not_before crt + renewal_offset lifetime)"

definition ExpiryWarningWindow :: int where "ExpiryWarningWindow = 14 * 24 * 3600 * 1000000000"

definition expiry_warning :: "certificate \<Rightarrow> int \<Rightarrow> bool \<times> int" where
  "expiry_warning crt t =
     (let remaining = time_sub (crt_not_after crt) t in (remaining \<le> ExpiryWarningWindow, remaining))"

definition ensure_valid ::
    "'w acme_lib \<Rightarrow> acme_request \<Rightarrow> certificate option \<Rightarrow> int \<Rightarrow> ('w, certificate \<times> bool) act" where
  "ensure_valid al rq existing t =
     (case existing of
        Some crt \<Rightarrow> (if \<not> needs_renewal crt t then aret (crt, False)
                     else abnd (issue al rq) (\<lambda>crt'. aret (crt', True)))
      | None \<Rightarrow> abnd (issue al rq) (\<lambda>crt'. aret (crt', True)))"

section \<open>Facts\<close>

lemma bits_of_lower: "x \<noteq> 0 \<Longrightarrow> 2 ^ (bits_of x - 1) \<le> x"
proof (induction x rule: bits_of.induct)
  case (1 n)
  show ?case
  proof (cases "n div 2 = 0")
    case True
    with 1(2) show ?thesis by (simp add: bits_of.simps [of n] bits_of.simps [of 0])
  next
    case False
    with 1 have "2 ^ (bits_of (n div 2) - 1) \<le> n div 2" by simp
    moreover have "bits_of (n div 2) \<noteq> 0" using False by (simp add: bits_of.simps [of "n div 2"])
    ultimately have "2 * 2 ^ (bits_of (n div 2) - 1) \<le> n" by linarith
    with \<open>bits_of (n div 2) \<noteq> 0\<close> 1(2) show ?thesis
      by (simp add: bits_of.simps [of n] power_eq_if)
  qed
qed

lemma half_even_le: "0 < u \<Longrightarrow> 2 * (half_even x u * u) \<le> 2 * x + u"
proof -
  assume "0 < u"
  obtain q r where x: "x = q * u + r" "q = x div u" "r = x mod u" by (metis div_mult_mod_eq)
  have "half_even x u = q \<or> (half_even x u = q + 1 \<and> u \<le> 2 * r)"
    by (auto simp: half_even_def Let_def x(2,3))
  then show ?thesis using x(1) by (auto simp: algebra_simps)
qed

text \<open>Rounding adds at most one part in \<open>2 ^ 53\<close>.\<close>

lemma round53_le: "2 ^ 53 * round53 x \<le> (2 ^ 53 + 1) * x"
proof (cases "bits_of x \<le> 53")
  case False
  define u :: nat where "u = 2 ^ (bits_of x - 53)"
  have "bits_of 0 = 0" by (simp add: bits_of.simps [of 0])
  with False have x0: "x \<noteq> 0" by (metis zero_le)
  have "2 ^ 52 * u = 2 ^ (bits_of x - 1)"
  proof -
    have "52 + (bits_of x - 53) = bits_of x - 1" using False by linarith
    then show ?thesis unfolding u_def by (simp only: flip: power_add)
  qed
  then have "2 ^ 52 * u \<le> x" using bits_of_lower [OF x0] by simp
  moreover have "2 * (half_even x u * u) \<le> 2 * x + u" by (rule half_even_le) (simp add: u_def)
  moreover have "round53 x = half_even x u * u" using False by (simp add: round53_def u_def)
  ultimately show ?thesis by simp
qed (simp add: round53_def)

lemma renewal_offset_le:
  assumes "0 \<le> l"
  shows "renewal_offset l \<le> l"
proof -
  define a where "a = round53 (nat l)"
  have 1: "2 ^ 53 * a \<le> (2 ^ 53 + 1) * nat l" unfolding a_def by (rule round53_le)
  have 2: "2 ^ 53 * round53 (a * renewal_fraction) \<le> (2 ^ 53 + 1) * (a * renewal_fraction)" by (rule round53_le)
  have "round53 (a * renewal_fraction) div 2 ^ 53 \<le> nat l"
  proof -
    have "(2 ^ 53 + 1) * (2 ^ 53 * a * renewal_fraction) \<le> (2 ^ 53 + 1) * ((2 ^ 53 + 1) * nat l * renewal_fraction)"
      using 1 by (intro mult_left_mono mult_right_mono) simp_all
    also have "\<dots> \<le> 2 ^ 53 * 2 ^ 53 * 2 ^ 53 * nat l" by (simp add: renewal_fraction_def)
    finally have "2 ^ 53 * (2 ^ 53 * round53 (a * renewal_fraction)) \<le> 2 ^ 53 * 2 ^ 53 * 2 ^ 53 * nat l"
      using 2 by (simp add: ac_simps)
    then have "round53 (a * renewal_fraction) \<le> 2 ^ 53 * nat l" by simp
    then show ?thesis by (metis div_le_mono nonzero_mult_div_cancel_left power_not_zero zero_neq_numeral)
  qed
  with assms show ?thesis
    by (cases "l = 0") (simp_all add: renewal_offset_def a_def nat_le_iff)
qed

section \<open>Properties\<close>

text \<open>
  An expired certificate is always due for renewal, rounding included, and one whose validity has
  not begun is not, unless its validity is empty.
\<close>

theorem renewal_window:
  assumes "crt_not_before crt \<le> crt_not_after crt"
  shows "(crt_not_after crt \<le> t \<longrightarrow> needs_renewal crt t) \<and>
    (needs_renewal crt t \<longrightarrow> crt_not_before crt \<le> t)"
proof -
  let ?l = "time_sub (crt_not_after crt) (crt_not_before crt)"
  have l: "0 \<le> ?l" "?l \<le> crt_not_after crt - crt_not_before crt"
    using assms by (auto simp: time_sub_def max_duration_def)
  have o1: "renewal_offset ?l \<le> ?l" using l(1) by (rule renewal_offset_le)
  have "0 \<le> renewal_offset ?l" using l(1) by (simp add: renewal_offset_def sgn_if)
  with o1 l(2) show ?thesis by (auto simp: needs_renewal_def Let_def)
qed

definition sample_certificate :: certificate where
  "sample_certificate = \<lparr>crt_domain = ''git.example.com'', crt_cert = ''c'', crt_key = ''k'', crt_issuer = '''',
     crt_not_before = 0, crt_not_after = 7776000000000000\<rparr>"

lemma renewal_window_witness: "needs_renewal sample_certificate 7776000000000000"
  using renewal_window [of sample_certificate 7776000000000000] by (simp add: sample_certificate_def)

end
