(* ===== verification/Deploy.thy ===== *)
theory Deploy
  imports Acme
begin

text \<open>
  Bringing a deployment up and down (\<open>deploy/deploy.go\<close>, \<open>tls.go\<close>, \<open>plainhttp.go\<close>, \<open>gitssh.go\<close>,
  \<open>sshhostkey.go\<close>, \<open>runner.go\<close>, \<open>compose_runner.go\<close>, \<open>down.go\<close>): every step of \<open>Up\<close> with the
  events it reports, the readiness loops with their deadline, and what each ships to the host.
\<close>

section \<open>Running commands in the deployment\<close>

definition compose_runner :: "'w host \<Rightarrow> string \<Rightarrow> bundle_data \<Rightarrow> 'w runner" where
  "compose_runner h remoteDir b c cmd =
     (case compose_command remoteDir (Some b) of
        Inl e \<Rightarrow> ret (Some e, '''', '''')
      | Inr pre \<Rightarrow> host_run h c (pre @ '' '' @ cmd))"

definition ready_timeout :: int where "ready_timeout = 60 * 1000000000"
definition forge_ready_timeout :: int where "forge_ready_timeout = 180 * 1000000000"
definition ready_interval :: int where "ready_interval = 2 * 1000000000"
definition log_tail_lines :: nat where "log_tail_lines = 50"

text \<open>
  The \<open>select\<close> of the wait: a context that is done ends it, otherwise the interval passes.
\<close>

definition wait_interval :: "ctx \<Rightarrow> ('w, unit) io" where
  "wait_interval c = (\<lambda>p. case ctx_err c (world p) of
     Some e \<Rightarrow> (Fail e, p)
   | None \<Rightarrow> (Ok (), p\<lparr>slept := slept p + ready_interval\<rparr>))"

definition probe_failure :: "error \<Rightarrow> string \<Rightarrow> string \<Rightarrow> string" where
  "probe_failure e stdout stderr =
     (if blank stdout \<and> blank stderr then msg e else failure_detail stdout stderr)"

record probe =
  pb_command :: string
  pb_waiting :: string

definition exec_probe :: "string \<Rightarrow> string" where
  "exec_probe service = ''docker compose exec -T '' @ service @ '' true''"

text \<open>
  The unbounded loop of a probe, with the number of attempts as fuel: running out of it is not
  returning. \<open>wait_ready_returns\<close> shows that the fuel \<open>waitReady\<close> is given here is never used up when
  the clock does not run backwards.
\<close>

fun wait_probe :: "nat \<Rightarrow> ctx \<Rightarrow> 'w runner \<Rightarrow> int \<Rightarrow> int \<Rightarrow> secrets \<Rightarrow> probe \<Rightarrow> ('w, unit) io" where
  "wait_probe 0 c runner deadline budget s pb = (\<lambda>p. (Hang, p))"
| "wait_probe (Suc n) c runner deadline budget s pb =
     bnd (runner c (pb_command pb)) (\<lambda>(err, stdout, stderr).
     case err of
       None \<Rightarrow> ret ()
     | Some e \<Rightarrow>
         bnd now (\<lambda>t.
         if \<not> t < deadline
         then fail (errorf (pb_waiting pb @ '' within '' @ duration_str budget @ '': ''
                @ secrets_redact s (probe_failure e stdout stderr)))
         else bnd (wait_interval c) (\<lambda>_. wait_probe n c runner deadline budget s pb)))"

fun wait_probes :: "nat \<Rightarrow> ctx \<Rightarrow> 'w runner \<Rightarrow> int \<Rightarrow> int \<Rightarrow> secrets \<Rightarrow> probe list \<Rightarrow> ('w, unit) io" where
  "wait_probes n c runner deadline budget s [] = ret ()"
| "wait_probes n c runner deadline budget s (pb # pbs) =
     bnd (wait_probe n c runner deadline budget s pb) (\<lambda>_. wait_probes n c runner deadline budget s pbs)"

definition attempts :: "int \<Rightarrow> nat" where
  "attempts budget = nat (budget div ready_interval) + 2"

definition wait_ready :: "ctx \<Rightarrow> 'w runner \<Rightarrow> int \<Rightarrow> secrets \<Rightarrow> probe list \<Rightarrow> ('w, unit) io" where
  "wait_ready c runner budget s pbs =
     bnd now (\<lambda>t. wait_probes (attempts budget) c runner (t + budget) budget s pbs)"

definition ctx_done :: "ctx \<Rightarrow> ('w, bool) io" where
  "ctx_done c = (\<lambda>p. (Ok (ctx_err c (world p) \<noteq> None), p))"

definition forge_log_tail :: "ctx \<Rightarrow> 'w runner \<Rightarrow> secrets \<Rightarrow> ('w, string) io" where
  "forge_log_tail c runner s =
     bnd (runner c (''docker compose logs --tail='' @ nat_str log_tail_lines @ '' '' @ ForgeService)) (\<lambda>(err, stdout, stderr).
     ret (if err \<noteq> None then ''''
          else (let parts = filter (\<lambda>x. x \<noteq> '''') [trim_space stdout, trim_space stderr]
                in if parts = [] then '''' else secrets_redact s (join nl parts))))"

definition wait_forge :: "ctx \<Rightarrow> 'w runner \<Rightarrow> secrets \<Rightarrow> ('w, unit) io" where
  "wait_forge c runner s =
     handle (wait_ready c runner forge_ready_timeout s
         [\<lparr>pb_command = exec_probe ForgeService, pb_waiting = ''the forgejo container did not start''\<rparr>,
          \<lparr>pb_command = ready_command, pb_waiting = ''forgejo did not finish setting up its database''\<rparr>])
       (\<lambda>e. bnd (ctx_done c) (\<lambda>gone.
            if gone then fail e
            else bnd (forge_log_tail c runner s) (\<lambda>tail.
                 if tail = '''' then fail e
                 else fail (suffixf e (nl @ ''the last '' @ nat_str log_tail_lines
                        @ '' lines of the forgejo container's log:'' @ nl @ tail)))))"

section \<open>The steps of the deployment\<close>

definition host_config_path :: "string \<Rightarrow> string" where
  "host_config_path remoteDir = join_path [remoteDir, ''forge'', ''app.ini'']"

definition configure_forge ::
    "'w env \<Rightarrow> 'w host \<Rightarrow> ctx \<Rightarrow> bundle_data \<Rightarrow> string \<Rightarrow> string \<Rightarrow> bool \<Rightarrow> ('w, files \<times> secrets) io" where
  "configure_forge env h c b remoteDir address quarantine =
     (let y = en_yaml env; hostPath = host_config_path remoteDir
      in bnd (of_sum (bundle_driver env b)) (\<lambda>d.
         bnd (orfail (call ''keystore'' c [''resolve-secrets''] (resolve_secrets c d)) ''resolve key material: '') (\<lambda>s.
         bnd (orfail (of_sum (render_app_ini (Some (b_manifest b)) s quarantine address)) ''render app.ini: '') (\<lambda>ini.
         bnd (orfail (host_write h c hostPath ini 384) ''ship app.ini: '') (\<lambda>_.
         bnd (orfail (of_sum (with_bind_mount y (b_compose b) ForgeService hostPath AppINIPath)) ''mount app.ini: '') (\<lambda>c1.
         bnd (orfail (of_sum (with_env y c1 ForgeService ''FARRIER_APP_INI_CHECKSUM'' (sha256_hex ini)))
                ''set app.ini checksum: '') (\<lambda>c2.
         ret (c2, s))))))))"

type_synonym 'w issuer = "acme_request \<Rightarrow> certificate option \<Rightarrow> int \<Rightarrow> ('w, certificate \<times> bool) act"

definition resolve_persisted :: "'w acme_lib \<Rightarrow> ctx \<Rightarrow> 'w driver \<Rightarrow> string \<Rightarrow> ('w, certificate) io" where
  "resolve_persisted al c d domain =
     bnd (orfail (resolve_key d c KeyTLSCertificate) (''resolve persisted '' @ KeyTLSCertificate @ '': '')) (\<lambda>crt.
     bnd (orfail (resolve_key d c KeyTLSPrivateKey) (''resolve persisted '' @ KeyTLSPrivateKey @ '': '')) (\<lambda>key.
     orfail (of_sum (parse_certificate al domain (reveal crt) (reveal key))) ''parse persisted certificate: ''))"

definition store_key :: "(ctx \<Rightarrow> string \<Rightarrow> secret \<Rightarrow> ('w, unit) act) \<Rightarrow> ctx \<Rightarrow> string \<Rightarrow> secret \<Rightarrow> ('w, unit) io" where
  "store_key st c k s = call ''keystore'' c [''store'', k, reveal s] (st c k s)"

definition persist_renewed :: "ctx \<Rightarrow> 'w driver \<Rightarrow> certificate \<Rightarrow> ('w, unit) io" where
  "persist_renewed c d crt =
     (case writer d of
        None \<Rightarrow> fail (errorf ''persist renewed certificate: keystore driver cannot store key material'')
      | Some st \<Rightarrow>
          bnd (orfail (store_key st c KeyTLSCertificate (Secret (crt_cert crt)))
                 (''persist renewed '' @ KeyTLSCertificate @ '': '')) (\<lambda>_.
          orfail (store_key st c KeyTLSPrivateKey (Secret (crt_key crt)))
            (''persist renewed '' @ KeyTLSPrivateKey @ '': '')))"

definition published_web_port :: "manifest \<Rightarrow> string" where
  "published_web_port m = int_str (web_port m)"

definition forge_upstream :: string where
  "forge_upstream = ForgeService @ '':'' @ nat_str ForgeHTTPPort"

definition certificate_request :: "manifest \<Rightarrow> string \<Rightarrow> acme_request" where
  "certificate_request m key =
     \<lparr>rq_domain = Domain m, rq_email = ac_email (ACME m), rq_account_key = Some key,
      rq_provider = ac_provider (ACME m), rq_directory = ac_directory (ACME m)\<rparr>"

text \<open>What \<open>configureTLS\<close> does to the Compose files once the three files are on the host.\<close>

definition mount_tls :: "yaml_codec \<Rightarrow> manifest \<Rightarrow> string \<Rightarrow> files \<Rightarrow> bool \<Rightarrow> error + files" where
  "mount_tls y m remoteDir compose quarantine =
     (case with_bind_mount y compose CaddyService (join_path [remoteDir, ''caddy'', ''Caddyfile'']) CaddyConfigPath of
        Inl e \<Rightarrow> Inl (wrapf ''mount caddyfile: '' e) | Inr c1 \<Rightarrow>
     (case with_bind_mount y c1 CaddyService (join_path [remoteDir, ''caddy'', ''tls.crt'']) CaddyCertPath of
        Inl e \<Rightarrow> Inl (wrapf ''mount certificate: '' e) | Inr c2 \<Rightarrow>
     (case with_bind_mount y c2 CaddyService (join_path [remoteDir, ''caddy'', ''tls.key'']) CaddyKeyPath of
        Inl e \<Rightarrow> Inl (wrapf ''mount private key: '' e) | Inr c3 \<Rightarrow>
     (case (if quarantine then with_loopback_ports else with_ports) y c3 CaddyService
             (published_web_port m) (nat_str CaddyHTTPSPort) of
        Inl e \<Rightarrow> Inl (wrapf ''publish https port: '' e) | Inr c4 \<Rightarrow>
     (if quarantine
      then (case with_network_alias y c4 CaddyService (Domain m) of
              Inl e \<Rightarrow> Inl (wrapf ''alias the bundle domain onto caddy: '' e) | Inr c5 \<Rightarrow> Inr c5)
      else Inr c4)))))"

definition configure_tls ::
    "'w env \<Rightarrow> 'w acme_lib \<Rightarrow> 'w host \<Rightarrow> ctx \<Rightarrow> bundle_data \<Rightarrow> string \<Rightarrow> files \<Rightarrow> 'w issuer \<Rightarrow> bool \<Rightarrow> ('w, files \<times> bool) io" where
  "configure_tls env al h c b remoteDir compose issuer quarantine =
     (let m = b_manifest b; y = en_yaml env
      in bnd (of_sum (bundle_driver env b)) (\<lambda>d.
         bnd (resolve_persisted al c d (Domain m)) (\<lambda>existing.
         bnd (orfail (locally (al_gen_key al)) ''generate acme account key: '') (\<lambda>key.
         bnd now (\<lambda>t.
         bnd (orfail (call ''issuer'' c [''ensure-valid'', Domain m]
                (issuer (certificate_request m key) (Some existing) t))
                (''issue certificate for '' @ Domain m @ '': '')) (\<lambda>(crt, renewed).
         bnd (if renewed then persist_renewed c d crt else ret ()) (\<lambda>_.
         bnd (orfail (of_sum (render_caddyfile (Domain m) forge_upstream)) ''render caddyfile: '') (\<lambda>caddyfile.
         bnd (orfail (host_write h c (join_path [remoteDir, ''caddy'', ''Caddyfile'']) caddyfile 420) ''ship caddyfile: '') (\<lambda>_.
         bnd (orfail (host_write h c (join_path [remoteDir, ''caddy'', ''tls.crt'']) (crt_cert crt) 420) ''ship certificate: '') (\<lambda>_.
         bnd (orfail (host_write h c (join_path [remoteDir, ''caddy'', ''tls.key'']) (crt_key crt) 384) ''ship private key: '') (\<lambda>_.
         bnd (of_sum (mount_tls y m remoteDir compose quarantine)) (\<lambda>files.
         ret (files, renewed)))))))))))))"

definition configure_plain_http ::
    "yaml_codec \<Rightarrow> 'w host \<Rightarrow> ctx \<Rightarrow> manifest \<Rightarrow> string \<Rightarrow> files \<Rightarrow> string \<Rightarrow> ('w, files) io" where
  "configure_plain_http y h c m remoteDir compose address =
     (let caddyfilePath = join_path [remoteDir, ''caddy'', ''Caddyfile'']
      in bnd (orfail (of_sum (render_plain_http_caddyfile address forge_upstream)) ''render caddyfile: '') (\<lambda>caddyfile.
         bnd (orfail (host_write h c caddyfilePath caddyfile 420) ''ship caddyfile: '') (\<lambda>_.
         bnd (orfail (of_sum (with_bind_mount y compose CaddyService caddyfilePath CaddyConfigPath)) ''mount caddyfile: '') (\<lambda>c1.
         orfail (of_sum (with_ports y c1 CaddyService (published_web_port m) (nat_str CaddyHTTPPort)))
           ''publish http port: ''))))"

definition plain_http_detail :: "manifest \<Rightarrow> string \<Rightarrow> string" where
  "plain_http_detail m address = ''caddy configured to serve '' @ instance_url m address @ '' '' @ em_dash
     @ '' the web UI is unencrypted, so pull requests, review, and login travel in the clear: keep this instance on a trusted network (a LAN, a VPN, or a tailnet). Git over SSH is encrypted regardless ''
     @ em_dash @ '' see docs/security.md''"

definition caddy_ready_detail :: "manifest \<Rightarrow> string \<Rightarrow> string" where
  "caddy_ready_detail m address = ''caddy ready '' @ em_dash @ '' '' @ instance_url m address
     @ (if named m then '' is live'' else '' is live, unencrypted: trusted networks only'')"

definition publish_git_ssh :: "yaml_codec \<Rightarrow> files \<Rightarrow> manifest \<Rightarrow> bool \<Rightarrow> error + files" where
  "publish_git_ssh y compose m quarantine =
     (case (if quarantine then with_loopback_ports else with_ports) y compose ForgeService
             (int_str (git_ssh_port m)) (nat_str SSHListenPort) of
        Inl e \<Rightarrow> Inl (wrapf ''publish git-over-ssh port: '' e) | Inr c1 \<Rightarrow> Inr c1)"

definition git_ssh_detail :: "manifest \<Rightarrow> string \<Rightarrow> bool \<Rightarrow> string" where
  "git_ssh_detail m address quarantine =
     (let port = int_str (git_ssh_port m); host = (if named m then trim_space (Domain m) else address)
      in if quarantine
         then ''ssh host key installed; git over SSH published on '' @ LoopbackAddress @ '':'' @ port
           @ '' only, so a quarantined instance is reachable through an SSH tunnel and not from the network''
         else ''ssh host key installed; git over SSH published on host port '' @ port @ '' '' @ em_dash
           @ '' clone with '' @ git_ssh_clone_url_at m host ''<owner>'' ''<repo>'')"

definition configure_ssh_host_key :: "'w env \<Rightarrow> 'w host \<Rightarrow> ctx \<Rightarrow> bundle_data \<Rightarrow> string \<Rightarrow> ('w, unit) io" where
  "configure_ssh_host_key env h c b remoteDir =
     (let keyPath = join2 (gitea_state_path remoteDir) ssh_host_key_rel_path
      in bnd (of_sum (bundle_driver env b)) (\<lambda>d.
         bnd (orfail (resolve_key d c KeySSHHostKey) (''resolve '' @ KeySSHHostKey @ '': '')) (\<lambda>private.
         bnd (orfail (resolve_key d c KeySSHHostKeyPublic) (''resolve '' @ KeySSHHostKeyPublic @ '': '')) (\<lambda>public.
         bnd (orfail (host_write h c keyPath (reveal private) 384) ''ship ssh host key: '') (\<lambda>_.
         bnd (orfail (host_write h c (keyPath @ ''.pub'') (reveal public) 420) ''ship ssh host key public half: '') (\<lambda>_.
         bnd (chown_best_effort h c True [dir_of keyPath]) (\<lambda>_.
         verify_forge_can_read_host_key h c (image_of b ForgeService) remoteDir)))))))"

subsection \<open>The colocated runner\<close>

definition runner_host_path :: "string \<Rightarrow> string" where
  "runner_host_path remoteDir = join2 remoteDir ''runner''"

definition runner_secret_path :: "string \<Rightarrow> string" where
  "runner_secret_path remoteDir = join_path [remoteDir, ''runner'', RunnerSecretFilename]"

definition runner_config_path :: "string \<Rightarrow> string" where
  "runner_config_path remoteDir = join_path [remoteDir, ''runner'', RunnerConfigFilename]"

definition runner_tool_cache_path :: "string \<Rightarrow> string" where
  "runner_tool_cache_path remoteDir = join_path [remoteDir, ''runner'', ''toolcache'']"

definition resolve_runner_secret :: "'w env \<Rightarrow> ctx \<Rightarrow> bundle_data \<Rightarrow> ('w, string) io" where
  "resolve_runner_secret env c b =
     bnd (of_sum (bundle_driver env b)) (\<lambda>d.
     bnd (orfail (resolve_key d c KeyRunnerSecret) (''resolve '' @ KeyRunnerSecret @ '': '')) (\<lambda>s.
     bnd (of_sum (validate_runner_secret (reveal s))) (\<lambda>_.
     ret (reveal s))))"

definition ensure_tool_cache_dir :: "'w host \<Rightarrow> ctx \<Rightarrow> string \<Rightarrow> ('w, unit) io" where
  "ensure_tool_cache_dir h c path =
     bnd (ensure_dirs h c [path]) (\<lambda>_.
     bnd (host_output h c (''chmod 0777 '' @ shell_quote path)) (\<lambda>_. ret ()))"

definition runner_instance_url :: "manifest \<Rightarrow> string \<Rightarrow> bool \<Rightarrow> string" where
  "runner_instance_url m address quarantine =
     (if quarantine then web_url m (Domain m) (int CaddyHTTPSPort) else instance_url m address)"

definition runner_service_files ::
    "yaml_codec \<Rightarrow> manifest \<Rightarrow> string \<Rightarrow> string \<Rightarrow> files \<Rightarrow> bool \<Rightarrow> error + files" where
  "runner_service_files y m remoteDir address compose quarantine =
     (case with_bind_mount y compose RunnerService (runner_host_path remoteDir) RunnerDataDir of
        Inl e \<Rightarrow> Inl (wrapf ''mount runner data directory: '' e) | Inr c1 \<Rightarrow>
     (case with_bind_mount y c1 RunnerService DockerSocketPath DockerSocketPath of
        Inl e \<Rightarrow> Inl (wrapf ''mount docker socket: '' e) | Inr c2 \<Rightarrow>
     (case with_env y c2 RunnerService DockerHostEnv DockerHostValue of
        Inl e \<Rightarrow> Inl (wrapf ''set runner docker host: '' e) | Inr c3 \<Rightarrow>
     (case with_user y c3 RunnerService RunnerUser of
        Inl e \<Rightarrow> Inl (wrapf ''set runner user: '' e) | Inr c4 \<Rightarrow>
     (case with_command y c4 RunnerService (runner_command (runner_instance_url m address quarantine)) of
        Inl e \<Rightarrow> Inl (wrapf ''set runner command: '' e) | Inr c5 \<Rightarrow> Inr c5)))))"

definition configure_runner ::
    "'w env \<Rightarrow> 'w host \<Rightarrow> ctx \<Rightarrow> bundle_data \<Rightarrow> string \<Rightarrow> string \<Rightarrow> files \<Rightarrow> bool \<Rightarrow> ('w, files \<times> bool) io" where
  "configure_runner env h c b remoteDir address compose quarantine =
     (let m = b_manifest b; y = en_yaml env
      in if \<not> colocated_runner_enabled m
         then bnd (orfail (of_sum (without_service y compose RunnerService)) ''remove colocated runner: '') (\<lambda>c1.
              ret (c1, False))
         else if \<not> colocated_runner_planned m
         then (if colocated_runner_declared m
               then fail (errorf (''manifest asks for a colocated runner but pins no '' @ quote RunnerService
                      @ '' image; pin one or set actions.colocatedRunner to false''))
               else ret (compose, False))
         else bnd (resolve_runner_secret env c b) (\<lambda>secret.
              bnd (orfail (host_write h c (runner_secret_path remoteDir) secret 384) ''ship runner secret: '') (\<lambda>_.
              bnd (orfail (ensure_tool_cache_dir h c (runner_tool_cache_path remoteDir))
                     ''create runner tool cache directory: '') (\<lambda>_.
              bnd (render_runner_config y (actions_job_image m) (runner_tool_cache_path remoteDir)) (\<lambda>config.
              bnd (orfail (host_write h c (runner_config_path remoteDir) config 420) ''ship runner config: '') (\<lambda>_.
              bnd (of_sum (runner_service_files y m remoteDir address compose quarantine)) (\<lambda>files.
              ret (files, True))))))))"

section \<open>Up\<close>

record 'w up_options =
  uRemoteDir :: string
  uAddress :: string
  uIssuer :: "'w issuer option"
  uMigrate :: bool
  uQuarantine :: bool

text \<open>\<open>issuerOrDefault\<close>: the ACME issuer of this program when none is given.\<close>

definition issuer_or_default :: "'w acme_lib \<Rightarrow> 'w issuer option \<Rightarrow> 'w issuer" where
  "issuer_or_default al i = (case i of Some x \<Rightarrow> x | None \<Rightarrow> ensure_valid al)"

text \<open>A step: its failure is reported, and returned under a prefix.\<close>

definition step_fail :: "string \<Rightarrow> string \<Rightarrow> error \<Rightarrow> ('w, 'a) io" where
  "step_fail step p e = bnd (emit step StateFailed (msg e)) (\<lambda>_. fail (wrapf p e))"

abbreviation step :: "string \<Rightarrow> string \<Rightarrow> ('w, 'a) io \<Rightarrow> ('w, 'a) io" where
  "step name p m \<equiv> handle m (step_fail name p)"

text \<open>What \<open>up\<close> checks before it touches anything; the address it serves at.\<close>

definition up_checks :: "'w host \<Rightarrow> ctx \<Rightarrow> bundle_data option \<Rightarrow> 'w up_options \<Rightarrow> ('w, bundle_data \<times> string) io" where
  "up_checks h c bo opts =
     (case bo of
        None \<Rightarrow> fail (errorf ''deploy: bundle is required'')
      | Some b \<Rightarrow>
          if blank (uRemoteDir opts) then fail (errorf ''deploy: remote directory is required'')
          else bnd (of_sum (serve_address (b_manifest b) (uAddress opts))) (\<lambda>address.
               bnd (of_sum (validate_web_ports (b_manifest b))) (\<lambda>_.
               if uQuarantine opts \<and> \<not> named (b_manifest b)
               then fail (errorf ''deploy: a quarantined deployment of a nameless bundle is not supported; drill a named bundle, or attach a name first'')
               else bnd (check_runner_reachable h c (b_manifest b) address) (\<lambda>_.
                    ret (b, address)))))"

text \<open>The steps up to the version check: everything that is written before the stack is started.\<close>

definition up_web ::
    "'w env \<Rightarrow> 'w acme_lib \<Rightarrow> 'w host \<Rightarrow> ctx \<Rightarrow> bundle_data \<Rightarrow> 'w up_options \<Rightarrow> string \<Rightarrow> files \<Rightarrow> ('w, files) io" where
  "up_web env al h c b opts address compose =
     (if named (b_manifest b)
      then bnd (started ''configure-tls'' ''resolving persisted certificate and rendering caddy config'') (\<lambda>_.
           bnd (step ''configure-tls'' ''deploy: configure tls: ''
             (configure_tls env al h c b (uRemoteDir opts) compose (issuer_or_default al (uIssuer opts)) (uQuarantine opts)))
             (\<lambda>(c1, renewed).
           bnd (succeeded ''configure-tls''
             (if renewed then ''certificate was due for renewal; a fresh one was issued and persisted to the keystore''
              else ''persisted certificate reused and caddy configured'')) (\<lambda>_.
           ret c1)))
      else bnd (started ''configure-http'' (''rendering plain-HTTP caddy config for '' @ address)) (\<lambda>_.
           bnd (step ''configure-http'' ''deploy: configure plain http: ''
             (configure_plain_http (en_yaml env) h c (b_manifest b) (uRemoteDir opts) compose address)) (\<lambda>c1.
           bnd (succeeded ''configure-http'' (plain_http_detail (b_manifest b) address)) (\<lambda>_.
           ret c1))))"

definition up_state ::
    "'w env \<Rightarrow> 'w host \<Rightarrow> ctx \<Rightarrow> bundle_data \<Rightarrow> 'w up_options \<Rightarrow> string \<Rightarrow> files \<Rightarrow> ('w, files \<times> bool) io" where
  "up_state env h c b opts address compose =
     bnd (started ''configure-state'' ''creating host state directories'') (\<lambda>_.
     bnd (step ''configure-state'' ''deploy: configure state: ''
            (configure_state (en_yaml env) h c b (uRemoteDir opts) compose)) (\<lambda>(c1, owned).
     bnd (succeeded ''configure-state''
            (if owned then ''state directories ready and mounted''
             else ''state directories ready and mounted; this host does not let ownership be set from here, and the forge can read and write them anyway'')) (\<lambda>_.
     bnd (started ''configure-git-ssh'' ''installing ssh host key and publishing git over ssh'') (\<lambda>_.
     bnd (step ''configure-git-ssh'' ''deploy: configure ssh host key: ''
            (configure_ssh_host_key env h c b (uRemoteDir opts))) (\<lambda>_.
     bnd (step ''configure-git-ssh'' ''deploy: configure git over ssh: ''
            (of_sum (publish_git_ssh (en_yaml env) c1 (b_manifest b) (uQuarantine opts)))) (\<lambda>c2.
     bnd (succeeded ''configure-git-ssh'' (git_ssh_detail (b_manifest b) address (uQuarantine opts))) (\<lambda>_.
     bnd (started ''configure-runner'' ''configuring the colocated actions runner'') (\<lambda>_.
     bnd (step ''configure-runner'' ''deploy: configure runner: ''
            (configure_runner env h c b (uRemoteDir opts) address c2 (uQuarantine opts))) (\<lambda>(c3, deployed).
     bnd (succeeded ''configure-runner''
            (if deployed
             then ''colocated runner configured with the host's docker socket (spec.md '' @ quote ''CI trust boundary'' @ '')''
             else ''no colocated runner in this deployment; register a remote runner against ''
               @ instance_url (b_manifest b) address @ '' to run CI'')) (\<lambda>_.
     ret (c3, deployed)))))))))))"

text \<open>Starting the stack and waiting for it.\<close>

definition up_start ::
    "'w host \<Rightarrow> ctx \<Rightarrow> bundle_data \<Rightarrow> 'w up_options \<Rightarrow> string \<Rightarrow> files \<Rightarrow> secrets \<Rightarrow> bool \<Rightarrow> ('w, unit) io" where
  "up_start h c b opts address compose s deployed =
     (let run_bundle = b\<lparr>b_compose := compose\<rparr>; runner = compose_runner h (uRemoteDir opts) run_bundle
      in bnd (started ''converge'' ''converging host to bundle definition'') (\<lambda>_.
         bnd (step ''converge'' ''deploy: converge: '' (converge h c (uRemoteDir opts) (Some run_bundle))) (\<lambda>_.
         bnd (succeeded ''converge'' ''host converged'') (\<lambda>_.
         bnd (started ''wait-forge'' ''waiting for forgejo to finish setting up its database'') (\<lambda>_.
         bnd (step ''wait-forge'' ''deploy: wait for forgejo: '' (wait_forge c runner s)) (\<lambda>_.
         bnd (succeeded ''wait-forge'' ''forgejo is up and its database is ready'') (\<lambda>_.
         bnd (orfail (new_admin_account (admin_email_domain (b_manifest b))) ''deploy: '') (\<lambda>account.
         bnd (orfail (bootstrap c runner account) ''deploy: '') (\<lambda>_.
         bnd (if deployed
              then orfail (register_runner c runner (runner_secret_path (uRemoteDir opts))) ''deploy: ''
              else ret ()) (\<lambda>_.
         bnd (started ''wait-caddy'' ''waiting for caddy to accept commands'') (\<lambda>_.
         bnd (step ''wait-caddy'' ''deploy: wait for caddy: ''
                (wait_ready c runner ready_timeout \<lparr>SecretKey = '''', InternalToken = '''', LFSJWTSecret = ''''\<rparr>
                  [\<lparr>pb_command = exec_probe CaddyService, pb_waiting = ''caddy did not become ready''\<rparr>])) (\<lambda>_.
         succeeded ''wait-caddy'' (caddy_ready_detail (b_manifest b) address)))))))))))))"

definition up_configure ::
    "'w env \<Rightarrow> 'w acme_lib \<Rightarrow> 'w host \<Rightarrow> ctx \<Rightarrow> bundle_data \<Rightarrow> 'w up_options \<Rightarrow> string \<Rightarrow> ('w, files \<times> secrets \<times> bool) io" where
  "up_configure env al h c b opts address =
     bnd (started ''configure-forge'' ''resolving key material and rendering app.ini'') (\<lambda>_.
     bnd (step ''configure-forge'' ''deploy: configure forge: ''
            (configure_forge env h c b (uRemoteDir opts) address (uQuarantine opts))) (\<lambda>(c1, s).
     bnd (succeeded ''configure-forge''
            (if uQuarantine opts
             then ''app.ini rendered and shipped with outbound webhooks, email, and mirrors disabled for quarantine''
             else ''app.ini rendered and shipped'')) (\<lambda>_.
     bnd (up_web env al h c b opts address c1) (\<lambda>c2.
     bnd (up_state env h c b opts address c2) (\<lambda>(c3, deployed).
     ret (c3, s, deployed))))))"

definition up_version :: "'w host \<Rightarrow> ctx \<Rightarrow> bundle_data \<Rightarrow> 'w up_options \<Rightarrow> ('w, unit) io" where
  "up_version h c b opts =
     bnd (started ''check-state-version'' ''checking the pinned forgejo version against the host's state'') (\<lambda>_.
     bnd (step ''check-state-version'' ''deploy: ''
            (check_state_version h c (image_of b ForgeService) (uRemoteDir opts) (uMigrate opts))) (\<lambda>detail.
     succeeded ''check-state-version'' detail))"

definition up_owner :: "'w env \<Rightarrow> 'w host \<Rightarrow> ctx \<Rightarrow> bundle_data \<Rightarrow> 'w up_options \<Rightarrow> ('w, unit) io" where
  "up_owner env h c b opts =
     bnd (started ''check-host'' ''checking Docker is reachable'') (\<lambda>_.
     bnd (step ''check-host'' ''deploy: check host: '' (host_check h c)) (\<lambda>_.
     bnd (succeeded ''check-host'' ''Docker reachable'') (\<lambda>_.
     bnd (started ''check-state-owner'' ''checking whose forge state is in the deployment directory'') (\<lambda>_.
     bnd (step ''check-state-owner'' ''deploy: '' (check_state_owner env h c b (uRemoteDir opts))) (\<lambda>detail.
     succeeded ''check-state-owner'' detail)))))"

definition up_body ::
    "'w env \<Rightarrow> 'w acme_lib \<Rightarrow> 'w host \<Rightarrow> ctx \<Rightarrow> bundle_data option \<Rightarrow> 'w up_options \<Rightarrow> ('w, unit) io" where
  "up_body env al h c bo opts =
     bnd (up_checks h c bo opts) (\<lambda>(b, address).
     bnd (up_owner env h c b opts) (\<lambda>_.
     bnd (up_configure env al h c b opts address) (\<lambda>(compose, s, deployed).
     bnd (up_version h c b opts) (\<lambda>_.
     up_start h c b opts address compose s deployed))))"

definition up ::
    "'w env \<Rightarrow> 'w acme_lib \<Rightarrow> 'w host \<Rightarrow> ctx \<Rightarrow> bundle_data option \<Rightarrow> 'w up_options \<Rightarrow> ('w, unit) io" where
  "up env al h c bo opts = as_job (\<lambda>_. ''forge deployed'') (up_body env al h c bo opts)"

section \<open>Down\<close>

definition compose_stop_timeout :: nat where "compose_stop_timeout = 30"

definition down_command :: "string \<Rightarrow> string \<Rightarrow> string" where
  "down_command remoteDir pre =
     ''if [ -d '' @ shell_quote (join2 remoteDir ComposeDir) @ '' ]; then '' @ pre
     @ '' docker compose down --volumes --remove-orphans --timeout '' @ nat_str compose_stop_timeout @ ''; fi''"

definition down :: "'w host option \<Rightarrow> ctx \<Rightarrow> bundle_data option \<Rightarrow> string \<Rightarrow> ('w, unit) io" where
  "down ho c b remoteDir =
     (case ho of
        None \<Rightarrow> fail (errorf ''deploy: down: host is required'')
      | Some h \<Rightarrow>
          if blank remoteDir then fail (errorf ''deploy: down: remote directory is required'')
          else bnd (orfail (of_sum (compose_command remoteDir b)) ''deploy: down: '') (\<lambda>pre.
               bnd (orfail (host_output h c (down_command remoteDir pre)) ''deploy: down: docker compose down: '') (\<lambda>_.
               bnd (orfail (host_output h c (''rm -rf '' @ shell_quote remoteDir))
                      (''deploy: down: remove '' @ remoteDir @ '': '')) (\<lambda>_.
               ret ()))))"

section \<open>Facts\<close>

lemma tick_mono: "mono (f :: nat \<Rightarrow> int) \<Longrightarrow> f n \<le> f (Suc n)"
  by (rule monoD) simp_all

lemma reading_mono:
  assumes "extends p p'" "mono (clock p)"
  shows "reading p \<le> reading p'"
  using assms monoD [OF assms(2), of "ticks p" "ticks p'"] by (auto simp: extends_def)

lemma step_fail_calm [calm_intros]: "name \<noteq> '''' \<Longrightarrow> calm_on I (step_fail name q e)"
  unfolding step_fail_def by (intro calm_intros) simp

lemma step_fail_calls [calls_intros]: "only_calls C (step_fail name q e)"
  unfolding step_fail_def by (intro calls_intros)

lemma runner_calm [calm_intros]: "calm_on I (compose_runner h dir b c cmd)"
  unfolding compose_runner_def by (intro calm_intros)

lemma interval_calm [calm_intros]: "calm_on I (wait_interval c)"
  by (simp add: calm_on_def wait_interval_def extends_def ready_interval_def split: option.splits)

lemma ctx_done_calm [calm_intros]: "calm_on I (ctx_done c)"
  by (simp add: calm_on_def ctx_done_def)

text \<open>An attempt is the last, or the deadline is ahead and an interval passes before the next.\<close>

lemma wait_probeE:
  assumes "wait_probe (Suc n) c runner deadline budget s pb p = (r, p')"
  obtains (stop) r1 p1 where "runner c (pb_command pb) p = (r1, p1)" "orderly r1 \<Longrightarrow> orderly r"
      "p' = p1 \<or> p' = p1\<lparr>ticks := Suc (ticks p1)\<rparr>"
    | (again) x p1 where "runner c (pb_command pb) p = (Ok x, p1)" "reading p1 < deadline"
      "wait_probe n c runner deadline budget s pb
         (p1\<lparr>ticks := Suc (ticks p1), slept := slept p1 + ready_interval\<rparr>) = (r, p')"
  using assms
  by (fastforce simp: bnd_eq now_def fail_def ret_def wait_interval_def split: option.splits if_splits prod.splits)

text \<open>The attempts that are left cover what is left of the budget.\<close>

lemma wait_probe_orderly:
  assumes calm: "\<And>c cmd. calm_on mono (runner c cmd)"
  shows "wait_probe (Suc n) c runner deadline budget s pb p = (r, p') \<Longrightarrow> \<not> job_terminal (job p) \<Longrightarrow>
    mono (clock p) \<Longrightarrow> deadline - reading p \<le> int n * ready_interval \<Longrightarrow>
    orderly r \<and> \<not> job_terminal (job p') \<and> extends p p'"
proof (induction n arbitrary: p)
  case 0
  from 0(1) show ?case
  proof (cases rule: wait_probeE)
    case (stop r1 p1)
    with calm_onD [OF calm stop(1) 0(2,3)] show ?thesis by (auto simp: extends_def)
  next
    case (again x p1)
    with calm_onD [OF calm again(1) 0(2,3)] reading_mono [of p p1] 0(3,4) show ?thesis by simp
  qed
next
  case (Suc n)
  from Suc.prems(1) show ?case
  proof (cases rule: wait_probeE)
    case (stop r1 p1)
    with calm_onD [OF calm stop(1) Suc.prems(2,3)] show ?thesis by (auto simp: extends_def)
  next
    case (again x p1)
    let ?p = "p1\<lparr>ticks := Suc (ticks p1), slept := slept p1 + ready_interval\<rparr>"
    note c1 = calm_onD [OF calm again(1) Suc.prems(2,3)]
    then have e: "extends p ?p" by (auto simp: extends_def ready_interval_def)
    then have m: "mono (clock ?p)" using Suc.prems(3) by (simp add: extends_clock)
    then have "clock p1 (ticks p1) \<le> clock p1 (Suc (ticks p1))" by (intro tick_mono) simp
    with c1 reading_mono [of p p1] Suc.prems(3,4)
    have "deadline - reading ?p \<le> int n * ready_interval" by (simp add: algebra_simps)
    from Suc.IH [OF again(3) _ m this] c1 e show ?thesis by (auto intro: extends_trans)
  qed
qed

lemma wait_probes_orderly:
  assumes calm: "\<And>c cmd. calm_on mono (runner c cmd)"
  shows "wait_probes (Suc n) c runner deadline budget s pbs p = (r, p') \<Longrightarrow> \<not> job_terminal (job p) \<Longrightarrow>
    mono (clock p) \<Longrightarrow> deadline - reading p \<le> int n * ready_interval \<Longrightarrow>
    orderly r \<and> \<not> job_terminal (job p') \<and> extends p p'"
proof (induction pbs arbitrary: p)
  case (Cons pb pbs)
  obtain r1 p1 where p1: "wait_probe (Suc n) c runner deadline budget s pb p = (r1, p1)" by force
  note c1 = wait_probe_orderly [OF calm p1 Cons.prems(2-4)]
  show ?case
  proof (cases r1)
    case (Ok x)
    with p1 Cons.prems(1) have "wait_probes (Suc n) c runner deadline budget s pbs p1 = (r, p')"
      by (simp add: bnd_Ok del: wait_probe.simps)
    with Cons.IH [OF this] c1 Cons.prems(3,4) reading_mono [of p p1] show ?thesis
      by (auto simp: extends_clock intro: extends_trans)
  qed (use p1 c1 Cons.prems(1) in \<open>auto simp: bnd_def simp del: wait_probe.simps\<close>)
qed (auto simp: ret_def)

lemma attempts_cover: "budget \<le> int (nat (budget div ready_interval) + 1) * ready_interval"
proof -
  let ?q = "budget div ready_interval"
  have "budget = ?q * ready_interval + budget mod ready_interval" by simp
  moreover have "budget mod ready_interval < ready_interval" by (simp add: ready_interval_def)
  ultimately have "budget \<le> (?q + 1) * ready_interval" unfolding distrib_right by linarith
  also have "\<dots> \<le> int (nat ?q + 1) * ready_interval"
    by (intro mult_right_mono) (simp_all add: ready_interval_def)
  finally show ?thesis .
qed

lemma wait_ready_calm [calm_intros]:
  assumes "\<And>c cmd. calm_on mono (runner c cmd)"
  shows "calm_on mono (wait_ready c runner budget s pbs)"
  unfolding calm_on_def
proof (intro allI impI)
  fix p :: "'a proc"
  assume live: "\<not> job_terminal (job p)" and clk: "mono (clock p)"
  define n where "n = nat (budget div ready_interval) + 1"
  let ?p = "p\<lparr>ticks := Suc (ticks p)\<rparr>"
  have run: "wait_ready c runner budget s pbs p = wait_probes (Suc n) c runner (reading p + budget) budget s pbs ?p"
    by (simp add: wait_ready_def attempts_def n_def now_def bnd_def)
  have "clock p (ticks p) \<le> clock p (Suc (ticks p))" by (rule tick_mono [OF clk])
  then have "reading p + budget - reading ?p \<le> int n * ready_interval"
    using attempts_cover [of budget] by (simp add: n_def)
  moreover obtain r p' where w: "wait_probes (Suc n) c runner (reading p + budget) budget s pbs ?p = (r, p')" by force
  ultimately have "orderly r \<and> \<not> job_terminal (job p') \<and> extends ?p p'"
    using wait_probes_orderly [OF assms w] live clk by simp
  then show "case wait_ready c runner budget s pbs p of (r, p') \<Rightarrow>
      orderly r \<and> \<not> job_terminal (job p') \<and> extends p p'"
    using run w by (auto simp: extends_def)
qed

text \<open>Time asleep: an interval only begins while the deadline is ahead.\<close>

definition sleepless :: "('w, 'a) io \<Rightarrow> bool" where
  "sleepless m \<longleftrightarrow> (\<forall>p. case m p of (r, p') \<Rightarrow> slept p' = slept p \<and> clock p' = clock p \<and> ticks p \<le> ticks p')"

lemma sleeplessD: "sleepless m \<Longrightarrow> m p = (r, p') \<Longrightarrow> slept p' = slept p \<and> clock p' = clock p \<and> ticks p \<le> ticks p'"
  by (auto simp: sleepless_def dest!: spec [of _ p])

lemma runner_sleepless: "sleepless (compose_runner h dir b c cmd)"
  by (auto simp: sleepless_def compose_runner_def host_run_def call_def ret_def split: sum.splits prod.splits)

lemma wait_probe_slept:
  assumes sl: "\<And>c cmd. sleepless (runner c cmd)"
  shows "wait_probe n c runner deadline budget s pb p = (r, p') \<Longrightarrow> mono (clock p) \<Longrightarrow>
    deadline \<le> clock p (ticks p) + L \<Longrightarrow>
    slept p' \<le> max (slept p) (L + ready_interval) \<and> clock p' = clock p \<and> ticks p \<le> ticks p'"
proof (induction n arbitrary: p)
  case (Suc n)
  from Suc.prems(1) show ?case
  proof (cases rule: wait_probeE)
    case (stop r1 p1)
    with sleeplessD [OF sl stop(1)] show ?thesis by auto
  next
    case (again x p1)
    let ?p = "p1\<lparr>ticks := Suc (ticks p1), slept := slept p1 + ready_interval\<rparr>"
    note s1 = sleeplessD [OF sl again(1)]
    have m: "mono (clock ?p)" using s1 Suc.prems(2) by simp
    have le: "clock p (ticks p) \<le> clock p1 (ticks p1)" "clock p1 (ticks p1) \<le> clock p1 (Suc (ticks p1))"
      using s1 Suc.prems(2) by (auto intro: monoD tick_mono)
    with Suc.prems(3) have "deadline \<le> clock ?p (ticks ?p) + L" by simp
    from Suc.IH [OF again(3) m this]
    have "slept p' \<le> max (slept p1 + ready_interval) (L + ready_interval)" "clock p' = clock p1" "ticks p1 \<le> ticks p'"
      by auto
    with s1 again(2) le(1) Suc.prems(3) show ?thesis by auto
  qed
qed simp

lemma wait_probes_slept:
  assumes sl: "\<And>c cmd. sleepless (runner c cmd)"
  shows "wait_probes n c runner deadline budget s pbs p = (r, p') \<Longrightarrow> mono (clock p) \<Longrightarrow>
    deadline \<le> clock p (ticks p) + L \<Longrightarrow> slept p' \<le> max (slept p) (L + ready_interval)"
proof (induction pbs arbitrary: p)
  case (Cons pb pbs)
  obtain r1 p1 where p1: "wait_probe n c runner deadline budget s pb p = (r1, p1)" by force
  note s1 = wait_probe_slept [OF sl p1 Cons.prems(2,3)]
  show ?case
  proof (cases r1)
    case (Ok x)
    with p1 Cons.prems(1) have run: "wait_probes n c runner deadline budget s pbs p1 = (r, p')"
      by (simp add: bnd_Ok)
    have "clock p (ticks p) \<le> clock p1 (ticks p1)" using s1 Cons.prems(2) by (auto intro: monoD)
    with Cons.IH [OF run] s1 Cons.prems(2,3) show ?thesis by auto
  qed (use p1 s1 Cons.prems(1) in \<open>auto simp: bnd_def\<close>)
qed (simp add: ret_def)


subsection \<open>The steps are calm\<close>

definition encodes_runner_config :: "yaml_codec \<Rightarrow> bool" where
  "encodes_runner_config y \<longleftrightarrow> (\<forall>img cache. \<exists>s. yaml_encode y (runner_config img cache) = Inr s)"

lemma runner_config_calm:
  assumes "encodes_runner_config y"
  shows "calm_on I (render_runner_config y img cache)"
proof -
  obtain s where "yaml_encode y (runner_config img cache) = Inr s"
    using assms unfolding encodes_runner_config_def by blast
  then show ?thesis by (simp add: render_runner_config_def)
qed

lemma ship_files_calm [calm_intros]: "calm_on I (ship_files h c staging fl)"
  by (induction fl) (auto intro!: calm_intros)

lemma deploy_calm [calm_intros]:
  "calm_on I (converge h c dir bo)" "calm_on I (configure_forge env h c b dir address q)"
  "calm_on I (configure_tls env al h c b dir compose i q)" "calm_on I (configure_plain_http y h c m dir compose address)"
  "calm_on I (configure_ssh_host_key env h c b dir)" "calm_on I (check_runner_reachable h c m address)"
  "calm_on I (resolve_runner_secret env c b)" "calm_on I (ensure_tool_cache_dir h c path)"
  unfolding converge_def pin_project_name_def configure_forge_def configure_tls_def resolve_persisted_def
    persist_renewed_def store_key_def configure_plain_http_def configure_ssh_host_key_def check_runner_reachable_def
    host_addresses_def resolve_runner_secret_def ensure_tool_cache_dir_def Let_def
  by (intro calm_intros)+

lemma configure_runner_calm:
  "encodes_runner_config (en_yaml env) \<Longrightarrow> calm_on I (configure_runner env h c b dir address compose q)"
  unfolding configure_runner_def Let_def by (intro calm_intros runner_config_calm)

lemma wait_forge_calm: "calm_on mono (wait_forge c (compose_runner h dir b) s)"
  unfolding wait_forge_def forge_log_tail_def by (intro calm_intros)

lemma up_steps_calm:
  "calm_on I (up_checks h c bo opts)" "calm_on I (up_owner env h c b opts)"
  "calm_on I (up_web env al h c b opts address compose)" "calm_on I (up_version h c b opts)"
  unfolding up_checks_def up_owner_def up_web_def up_version_def
  by (intro calm_intros; simp)+

lemma up_state_calm:
  assumes "encodes_runner_config (en_yaml env)"
  shows "calm_on I (up_state env h c b opts address compose)"
  unfolding up_state_def by (intro calm_intros configure_runner_calm [OF assms]; simp)

lemma up_configure_calm:
  assumes "encodes_runner_config (en_yaml env)"
  shows "calm_on I (up_configure env al h c b opts address)"
  unfolding up_configure_def by (intro calm_intros up_steps_calm up_state_calm [OF assms]; simp)

lemma up_start_calm: "calm_on mono (up_start h c b opts address compose s deployed)"
  unfolding up_start_def Let_def by (intro calm_intros wait_forge_calm; simp)

lemma up_calm:
  assumes "encodes_runner_config (en_yaml env)"
  shows "calm_on mono (up_body env al h c bo opts)"
  unfolding up_body_def by (intro calm_intros up_steps_calm up_configure_calm [OF assms] up_start_calm)

lemma up_completes_on:
  assumes "encodes_runner_config (en_yaml env)"
  shows "completes_on mono (up env al h c bo opts)"
  unfolding up_def by (intro completes_as_job up_calm assms)


subsection \<open>What starts the stack, and what writes over the state\<close>

text \<open>The command that starts the containers.\<close>

definition starts_stack :: "call \<Rightarrow> bool" where
  "starts_stack k \<longleftrightarrow> iface k = ''host'' \<and>
     (\<exists>cmd. args k = [''output'', cmd] \<and> suffix '' docker compose up -d --remove-orphans'' cmd)"

text \<open>
  All a deployment may do before it knows whose state is on the host: read key material, ask the host for its
  addresses and whether Docker is there, read the two files that say whose the state is, and write its claim.
  Every other call, whatever the interface and whatever the command, is \<open>unclaimed\<close>.
\<close>

definition reads_file :: "string \<Rightarrow> string \<Rightarrow> bool" where
  "reads_file p cmd \<longleftrightarrow> cmd = ''if [ -f '' @ shell_quote p @ '' ]; then cat '' @ shell_quote p @ ''; fi''"

definition installed_key_path :: "string \<Rightarrow> string" where
  "installed_key_path dir = join2 (gitea_state_path dir) ssh_host_key_rel_path @ ''.pub''"

fun claims_or_looks :: "string \<Rightarrow> string list \<Rightarrow> bool" where
  "claims_or_looks dir [op] = (op = ''check'')"
| "claims_or_looks dir [op, cmd] =
     (op = ''output'' \<and> (cmd = host_address_command \<or> reads_file (state_owner_path dir) cmd \<or> reads_file (installed_key_path dir) cmd))"
| "claims_or_looks dir [op, path, content] =
     (op = ''write'' \<and> path = state_owner_path dir \<and> (\<exists>mine. owner_known mine \<and> content = owner_record mine))"
| "claims_or_looks dir _ = False"

definition unclaimed :: "string \<Rightarrow> call \<Rightarrow> bool" where
  "unclaimed dir k \<longleftrightarrow>
     \<not> (iface k = ''keystore'' \<and> hd (args k) = ''resolve'' \<or> iface k = ''host'' \<and> claims_or_looks dir (args k))"

lemma starts_stack_simps [simp]:
  "\<not> starts_stack (Call ''host'' c [''write'', path, x])" "\<not> starts_stack (Call ''keystore'' c as)"
  "\<not> starts_stack (Call ''issuer'' c as)" "\<not> starts_stack (Call ''host'' c [''check''])"
  "\<not> starts_stack (Call ''host'' c [''run'', cmd])"
  by (simp_all add: starts_stack_def)

lemma unclaimed_simps [simp]:
  "\<not> unclaimed dir (Call ''keystore'' c [''resolve'', x])" "\<not> unclaimed dir (Call ''host'' c [''check''])"
  "\<not> unclaimed dir (Call ''host'' c [''output'', host_address_command])"
  "owner_known mine \<Longrightarrow> \<not> unclaimed dir (Call ''host'' c [''write'', state_owner_path dir, owner_record mine])"
  by (auto simp: unclaimed_def)

lemma read_calls:
  "C (Call ''host'' c [''output'', ''if [ -f '' @ shell_quote p @ '' ]; then cat '' @ shell_quote p @ ''; fi'']) \<Longrightarrow>
     only_calls C (read_optional_file h c p)"
  unfolding read_optional_file_def by (intro calls_intros)

lemma claim_unclaimed: "only_calls (\<lambda>k. \<not> unclaimed dir k) (record_state_owner h c dir mine)"
  unfolding record_state_owner_def by (intro calls_intros) simp

lemma check_owner_unclaimed: "only_calls (\<lambda>k. \<not> unclaimed dir k) (check_state_owner env h c b dir)"
proof -
  have "only_calls (\<lambda>k. \<not> unclaimed dir k) (read_state_owner h c dir)"
    unfolding read_state_owner_def Let_def
    by (intro calls_intros read_calls) (simp_all add: unclaimed_def reads_file_def installed_key_path_def)
  then show ?thesis
    unfolding check_state_owner_def state_owner_of_def settle_owner_def resolve_key_def Let_def
    by (intro calls_intros claim_unclaimed; simp)
qed

lemma not_stack_last:
  assumes "last cmd \<noteq> CHR ''s''"
  shows "\<not> starts_stack (Call n c [''output'', cmd])"
proof
  assume "starts_stack (Call n c [''output'', cmd])"
  then obtain u where "cmd = u @ '' docker compose up -d --remove-orphans''"
    by (auto simp: starts_stack_def suffix_def)
  with assms show False by simp
qed

lemma last_shell_quote [simp]: "last (shell_quote s) = squote" "last (x @ shell_quote s) = squote"
  "last (CHR '' '' # shell_quote s) = squote"
  by (simp_all add: shell_quote_def)

text \<open>The helpers of the configuration run commands that end in a quoted argument or a shell keyword.\<close>

lemma helper_stack [calls_intros]:
  "only_calls (\<lambda>k. \<not> starts_stack k) (resolve_key d c k)"
  "only_calls (\<lambda>k. \<not> starts_stack k) (read_optional_file h c path)"
  "only_calls (\<lambda>k. \<not> starts_stack k) (run_as_forge h c img dir script)"
  "only_calls (\<lambda>k. \<not> starts_stack k) (check_runner_reachable h c m address)"
  unfolding resolve_key_def read_optional_file_def run_as_forge_def check_runner_reachable_def host_addresses_def
  by (intro calls_intros not_stack_last; simp add: squote_def host_address_command_def)+

lemma dirs_stack:
  "only_calls (\<lambda>k. \<not> starts_stack k) (ensure_dirs h c [d1])"
  "only_calls (\<lambda>k. \<not> starts_stack k) (ensure_dirs h c [d1, d2])"
  "only_calls (\<lambda>k. \<not> starts_stack k) (chown_best_effort h c rec [d1])"
  "only_calls (\<lambda>k. \<not> starts_stack k) (chown_best_effort h c rec [d1, d2])"
  unfolding ensure_dirs_def chown_best_effort_def
  by (intro calls_intros not_stack_last; simp add: squote_def)+

lemma checks_stack [calls_intros]:
  "only_calls (\<lambda>k. \<not> starts_stack k) (check_state_owner env h c b dir)"
  "only_calls (\<lambda>k. \<not> starts_stack k) (check_state_version h c pinned dir migrate)"
  "only_calls (\<lambda>k. \<not> starts_stack k) (configure_state y h c b dir compose)"
  unfolding check_state_owner_def state_owner_of_def read_state_owner_def settle_owner_def record_state_owner_def
    check_state_version_def read_state_version_def settle_version_def record_state_version_def configure_state_def
    verify_forge_can_use_state_def Let_def
  by (intro calls_intros not_stack_last dirs_stack; simp add: squote_def app_ini_mountpoint_script_def Let_def)+

lemma configure_stack [calls_intros]:
  "only_calls (\<lambda>k. \<not> starts_stack k) (configure_forge env h c b dir address q)"
  "only_calls (\<lambda>k. \<not> starts_stack k) (configure_tls env al h c b dir compose i q)"
  "only_calls (\<lambda>k. \<not> starts_stack k) (configure_plain_http y h c m dir compose address)"
  "only_calls (\<lambda>k. \<not> starts_stack k) (configure_ssh_host_key env h c b dir)"
  unfolding configure_forge_def configure_tls_def resolve_persisted_def persist_renewed_def store_key_def
    configure_plain_http_def configure_ssh_host_key_def verify_forge_can_read_host_key_def Let_def
  by (intro calls_intros dirs_stack; simp)+

lemma runner_config_calls [calls_intros]: "only_calls C (render_runner_config y img cache)"
  unfolding render_runner_config_def by (rule calls_same) (simp add: ret_def split: sum.splits)

lemma configure_runner_stack [calls_intros]:
  "only_calls (\<lambda>k. \<not> starts_stack k) (configure_runner env h c b dir address compose q)"
  unfolding configure_runner_def resolve_runner_secret_def ensure_tool_cache_dir_def Let_def
  by (intro calls_intros dirs_stack not_stack_last; simp add: squote_def)

lemma up_stack:
  "only_calls (\<lambda>k. \<not> starts_stack k) (up_checks h c bo opts)"
  "only_calls (\<lambda>k. \<not> starts_stack k) (up_owner env h c b opts)"
  "only_calls (\<lambda>k. \<not> starts_stack k) (up_configure env al h c b opts address)"
  "only_calls (\<lambda>k. \<not> starts_stack k) (up_version h c b opts)"
  unfolding up_checks_def up_owner_def up_configure_def up_web_def up_state_def up_version_def
  by (intro calls_intros; simp)+

lemma up_unclaimed:
  "only_calls (\<lambda>k. \<not> unclaimed (uRemoteDir opts) k) (up_checks h c bo opts)"
  "only_calls (\<lambda>k. \<not> unclaimed (uRemoteDir opts) k) (up_owner env h c b opts)"
  unfolding up_checks_def check_runner_reachable_def host_addresses_def up_owner_def
  by (intro calls_intros check_owner_unclaimed; simp)+


text \<open>
  All the calls of a deployment: it drives the host and the certificate issuer, and of the keystore it reads
  keys and stores the ones that rotate. It makes none to a DNS driver.
\<close>

definition deploy_call :: "call \<Rightarrow> bool" where
  "deploy_call k \<longleftrightarrow> iface k = ''host'' \<or> iface k = ''issuer'' \<or>
     iface k = ''keystore'' \<and> (hd (args k) = ''store'' \<longrightarrow> rotates (args k ! 1))"

abbreviation not_dns :: "call \<Rightarrow> bool" where
  "not_dns k \<equiv> iface k \<noteq> ''dns''"

lemma deploys_not_dns: "only_calls deploy_call m \<Longrightarrow> only_calls not_dns m"
  by (erule calls_weaken) (auto simp: deploy_call_def)

lemma runner_deploys: "only_calls deploy_call (compose_runner h dir b c cmd)"
  unfolding compose_runner_def by (intro calls_intros; simp add: deploy_call_def)

lemma wait_probe_deploys: "only_calls deploy_call (wait_probe n c (compose_runner h dir b) deadline budget s pb)"
proof (induction n)
  case 0
  then show ?case unfolding wait_probe.simps by (intro calls_same) simp
next
  case (Suc n)
  have "only_calls deploy_call (wait_interval c)"
    by (rule calls_same) (simp add: wait_interval_def same_place_def split: option.splits)
  with Suc show ?case unfolding wait_probe.simps by (intro calls_intros runner_deploys)
qed

lemma wait_probes_deploys: "only_calls deploy_call (wait_probes n c (compose_runner h dir b) deadline budget s pbs)"
  by (induction pbs) (auto intro!: calls_intros wait_probe_deploys)

lemma ship_files_deploys: "only_calls deploy_call (ship_files h c staging fl)"
  by (induction fl) (auto simp: deploy_call_def intro!: calls_intros)

lemma rand_read_calls: "only_calls C (rand_read n)"
  by (rule calls_same) (simp add: rand_read_def same_place_def)

lemma up_start_deploys: "only_calls deploy_call (up_start h c b opts address compose s deployed)"
proof -
  have "only_calls deploy_call (converge h c dir bo)" for dir bo
    unfolding converge_def pin_project_name_def Let_def by (intro calls_intros ship_files_deploys; simp add: deploy_call_def rotates_iff)
  moreover have "only_calls deploy_call (ctx_done c)" by (rule calls_same) (simp add: ctx_done_def)
  ultimately show ?thesis
    unfolding up_start_def wait_forge_def forge_log_tail_def wait_ready_def new_admin_account_def bootstrap_def
      mint_publish_token_def register_runner_def Let_def
    by (intro calls_intros runner_deploys wait_probes_deploys rand_read_calls; simp add: deploy_call_def rotates_iff)
qed

lemma helper_deploys:
  "only_calls deploy_call (resolve_key d c k)" "only_calls deploy_call (read_optional_file h c path)"
  "only_calls deploy_call (run_as_forge h c img dir script)" "only_calls deploy_call (check_runner_reachable h c m address)"
  "only_calls deploy_call (ensure_dirs h c ds)" "only_calls deploy_call (chown_best_effort h c rc ds)"
  unfolding resolve_key_def read_optional_file_def run_as_forge_def check_runner_reachable_def host_addresses_def
    ensure_dirs_def chown_best_effort_def
  by (intro calls_intros; simp add: deploy_call_def)+

lemma checks_deploys:
  "only_calls deploy_call (state_owner_of c m d)" "only_calls deploy_call (record_state_owner h c dir ow)"
  "only_calls deploy_call (record_state_version h c dir v)"
  "only_calls deploy_call (check_state_owner env h c b dir)" "only_calls deploy_call (check_state_version h c pinned dir migrate)"
  "only_calls deploy_call (configure_state y h c b dir compose)"
  unfolding check_state_owner_def state_owner_of_def read_state_owner_def settle_owner_def record_state_owner_def
    check_state_version_def read_state_version_def settle_version_def record_state_version_def configure_state_def
    verify_forge_can_use_state_def Let_def
  by (intro calls_intros helper_deploys; simp add: deploy_call_def rotates_iff)+

lemma configure_deploys:
  "only_calls deploy_call (configure_forge env h c b dir address q)"
  "only_calls deploy_call (configure_tls env al h c b dir compose i q)"
  "only_calls deploy_call (configure_plain_http y h c m dir compose address)"
  "only_calls deploy_call (configure_ssh_host_key env h c b dir)"
  "only_calls deploy_call (configure_runner env h c b dir address compose q)"
  unfolding configure_forge_def configure_tls_def resolve_persisted_def persist_renewed_def store_key_def
    configure_plain_http_def configure_ssh_host_key_def verify_forge_can_read_host_key_def configure_runner_def
    resolve_runner_secret_def ensure_tool_cache_dir_def Let_def
  by (intro calls_intros helper_deploys runner_config_calls; simp add: deploy_call_def rotates_iff)+

lemma up_deploys: "only_calls deploy_call (up env al h c bo opts)"
  unfolding up_def up_body_def up_checks_def up_owner_def up_configure_def up_web_def up_state_def up_version_def
  by (intro calls_intros helper_deploys checks_deploys configure_deploys up_start_deploys; simp add: deploy_call_def rotates_iff)

lemmas helper_no_dns = helper_deploys [THEN deploys_not_dns]
lemmas checks_no_dns = checks_deploys [THEN deploys_not_dns]
lemmas up_no_dns = up_deploys [THEN deploys_not_dns]

lemmas up_start_calls = only_callsI_bound [OF up_start_deploys]

lemma step_Ok: "step name q m p = (Ok x, p') \<Longrightarrow> m p = (Ok x, p')"
  by (auto simp: handle_def step_fail_def bnd_def fail_def split: prod.splits res.splits)

lemma up_checks_bundle: "up_checks h c (Some b) opts p = (Ok (b', address), p') \<Longrightarrow> b' = b"
  by (auto simp: up_checks_def bnd_eq split: if_splits)

abbreviation up_rest :: "'w env \<Rightarrow> 'w acme_lib \<Rightarrow> 'w host \<Rightarrow> ctx \<Rightarrow> bundle_data \<Rightarrow> 'w up_options \<Rightarrow> string \<Rightarrow> ('w, unit) io" where
  "up_rest env al h c b opts address \<equiv>
     bnd (up_configure env al h c b opts address) (\<lambda>(compose, s, deployed).
     bnd (up_version h c b opts) (\<lambda>_. up_start h c b opts address compose s deployed))"

lemma up_rest_calls: "only_calls (\<lambda>_. True) (up_rest env al h c b opts address)"
  by (intro calls_intros up_start_calls only_callsI_bound [OF up_stack(3)] only_callsI_bound [OF up_stack(4)])

lemma settle_calls:
  "only_calls (\<lambda>_. True) (settle_owner h c dir mine found)"
  "only_calls (\<lambda>_. True) (settle_version h c img dir mg recorded)"
  unfolding settle_owner_def record_state_owner_def settle_version_def record_state_version_def
  by (intro calls_intros; simp)+

text \<open>What the two checks found when they passed.\<close>

definition owned_by_us :: "'w env \<Rightarrow> 'w host \<Rightarrow> ctx \<Rightarrow> bundle_data \<Rightarrow> string \<Rightarrow> 'w proc \<Rightarrow> 'w proc \<Rightarrow> bool" where
  "owned_by_us env h c b dir q q' \<longleftrightarrow> (\<exists>d mine found detail q1 q2. bundle_driver env b = Inr d \<and>
     state_owner_of c (b_manifest b) d q = (Ok mine, q1) \<and> read_state_owner h c dir q1 = (Ok found, q2) \<and>
     (\<not> owner_known found \<or> same_instance found mine) \<and> settle_owner h c dir mine found q2 = (Ok detail, q'))"

definition at_our_version :: "'w host \<Rightarrow> ctx \<Rightarrow> string \<Rightarrow> string \<Rightarrow> bool \<Rightarrow> 'w proc \<Rightarrow> 'w proc \<Rightarrow> bool" where
  "at_our_version h c pinned dir migrate q q' \<longleftrightarrow> (\<exists>recorded detail q1.
     read_state_version h c dir q = (Ok recorded, q1) \<and> (migrate \<or> recorded = '''' \<or> recorded = pinned) \<and>
     settle_version h c pinned dir migrate recorded q1 = (Ok detail, q'))"

lemma check_owner_Ok:
  assumes "check_state_owner env h c b dir q = (Ok detail, q')"
  shows "owned_by_us env h c b dir q q'"
proof -
  from assms obtain d where d: "bundle_driver env b = Inr d"
    and "bnd (state_owner_of c (b_manifest b) d) (\<lambda>mine. bnd (read_state_owner h c dir) (settle_owner h c dir mine)) q
      = (Ok detail, q')"
    by (cases "bundle_driver env b") (simp_all add: check_state_owner_def bnd_def fail_def ret_def)
  then obtain mine q1 found q2 where "state_owner_of c (b_manifest b) d q = (Ok mine, q1)"
    "read_state_owner h c dir q1 = (Ok found, q2)" and s: "settle_owner h c dir mine found q2 = (Ok detail, q')"
    by (elim bnd_OkE)
  moreover from s have "\<not> owner_known found \<or> same_instance found mine"
    by (simp add: settle_owner_def split: if_splits)
  ultimately show ?thesis using d unfolding owned_by_us_def by blast
qed

lemma check_version_Ok:
  assumes "check_state_version h c pinned dir mg q = (Ok detail, q')"
  shows "at_our_version h c pinned dir mg q q'"
proof -
  from assms [unfolded check_state_version_def] obtain recorded q1 where "read_state_version h c dir q = (Ok recorded, q1)"
    and s: "settle_version h c pinned dir mg recorded q1 = (Ok detail, q')"
    by (elim bnd_OkE)
  moreover from s have "mg \<or> recorded = '''' \<or> recorded = pinned"
    by (simp add: settle_version_def split: if_splits)
  ultimately show ?thesis unfolding at_our_version_def by blast
qed

text \<open>The two steps of a deployment that make the checks have made them when they pass.\<close>

lemma check_calls:
  "only_calls (\<lambda>_. True) (check_state_owner env h c b dir)" "only_calls (\<lambda>_. True) (check_state_version h c img dir mg)"
  by (intro only_callsI_bound [OF checks_no_dns(4)] only_callsI_bound [OF checks_no_dns(5)])+

lemma passes_step: "passes m G \<Longrightarrow> passes (step name q m) G"
  by (erule passes_ok) (blast dest: step_Ok)

lemma up_owner_passes: "passes (up_owner env h c b opts) (owned_by_us env h c b (uRemoteDir opts))"
proof -
  have "passes (check_state_owner env h c b (uRemoteDir opts)) (owned_by_us env h c b (uRemoteDir opts))"
    by (rule passes_whole [OF check_calls(1) check_owner_Ok])
  then show ?thesis
    unfolding up_owner_def by (intro passes_then passes_first passes_step calls_intros) simp_all
qed

lemma up_version_passes:
  "passes (up_version h c b opts) (at_our_version h c (image_of b ForgeService) (uRemoteDir opts) (uMigrate opts))"
proof -
  have "passes (check_state_version h c (image_of b ForgeService) (uRemoteDir opts) (uMigrate opts))
      (at_our_version h c (image_of b ForgeService) (uRemoteDir opts) (uMigrate opts))"
    by (rule passes_whole [OF check_calls(2) check_version_Ok])
  then show ?thesis
    unfolding up_version_def by (intro passes_then passes_first passes_step calls_intros) simp_all
qed

lemma up_guarded:
  assumes "only_calls (\<lambda>k. \<not> C k) (up_checks h c (Some b) opts)" "only_calls (\<lambda>k. \<not> C k) (up_owner env h c b opts)"
  shows "preceded C (owned_by_us env h c b (uRemoteDir opts)) (up env al h c (Some b) opts)"
proof -
  let ?next = "\<lambda>(b, address). bnd (up_owner env h c b opts) (\<lambda>_. up_rest env al h c b opts address)"
  have "preceded C (owned_by_us env h c b (uRemoteDir opts)) (?next x)"
    if run: "up_checks h c (Some b) opts p = (Ok x, p1)" for x p p1
  proof -
    obtain address where x: "x = (b, address)" using up_checks_bundle run by (cases x) blast
    show ?thesis unfolding x prod.case by (rule preceded_by [OF assms(2) up_rest_calls up_owner_passes])
  qed
  moreover have "only_calls (\<lambda>_. True) (?next x)" for x
    by (intro calls_intros up_rest_calls only_callsI_bound [OF up_stack(2)])
  ultimately show ?thesis
    unfolding up_def up_body_def by (intro preceded_as_job preceded_bnd [OF assms(1)])
qed

section \<open>Properties\<close>

text \<open>
  C25. The readiness wait returns: whatever the probes answer, with a clock that does not run backwards
  it ends with success or an error, its fuel never used up, and having slept at most one interval past
  its budget.
\<close>

theorem wait_ready_returns:
  assumes "wait_ready c (compose_runner h dir b) budget s pbs p = (r, p')" "mono (clock p)"
    and "\<not> job_terminal (job p)"
  shows "orderly r \<and> slept p' \<le> slept p + max 0 (budget + ready_interval)"
proof -
  let ?p = "p\<lparr>ticks := Suc (ticks p)\<rparr>"
  have run: "wait_probes (attempts budget) c (compose_runner h dir b) (reading p + budget) budget s pbs ?p = (r, p')"
    using assms(1) by (simp add: wait_ready_def now_def bnd_def)
  have "clock p (ticks p) \<le> clock p (Suc (ticks p))" by (rule tick_mono [OF assms(2)])
  then have "reading p + budget \<le> clock ?p (ticks ?p) + (slept p + budget)" by simp
  from wait_probes_slept [OF runner_sleepless run _ this] assms(2)
  have "slept p' \<le> slept p + max 0 (budget + ready_interval)" by auto
  moreover have "orderly r"
    using calm_onD [OF wait_ready_calm [OF runner_calm] assms(1,3,2)] by simp
  ultimately show ?thesis by simp
qed

text \<open>
  C33. Every deployment comes to an end and says how: with a clock that does not run backwards, \<open>Up\<close>
  returns, emits nothing after its job's terminal event, and that event reports its outcome.
\<close>

theorem up_completes:
  assumes "encodes_runner_config (en_yaml env)"
  shows "completes_on mono (up env al h c bo opts)"
  by (rule up_completes_on [OF assms])

text \<open>
  C11. A deployment does nothing to the host but claim the state, and starts nothing, before it found the
  state there to be nobody's or its own: until then its only calls read key material, ask the host for its
  addresses and for Docker, read the two files that say whose the state is, and write the claim. A command
  that makes a directory, changes an owner or runs a container is made only after, as is a write of any
  other file and a write to the keystore.
\<close>

theorem up_touches_own_state:
  "preceded (\<lambda>k. unclaimed (uRemoteDir opts) k \<or> starts_stack k)
     (owned_by_us env h c b (uRemoteDir opts)) (up env al h c (Some b) opts)"
  by (intro up_guarded only_calls_neither up_stack up_unclaimed)

text \<open>
  C12. A deployment that is not an upgrade never starts the forge against a state another version last
  started on: the stack is only started once the version recorded on the host was read and found absent,
  or the pinned one.
\<close>

theorem up_starts_checked_version:
  "preceded starts_stack (at_our_version h c (image_of b ForgeService) (uRemoteDir opts) (uMigrate opts))
     (up env al h c (Some b) opts)"
proof -
  let ?G = "at_our_version h c (image_of b ForgeService) (uRemoteDir opts) (uMigrate opts)"
  have start: "preceded starts_stack ?G (bnd (up_version h c b opts) (\<lambda>_. up_start h c b opts address compose s deployed))"
    for address compose s deployed
    by (rule preceded_by [OF up_stack(4) up_start_calls up_version_passes])
  have rest: "preceded starts_stack ?G (up_rest env al h c b opts address)" for address
    by (intro preceded_bnd [OF up_stack(3)] preceded_prod start)
      (intro calls_intros up_start_calls only_callsI_bound [OF up_stack(4)])
  have "preceded starts_stack ?G (bnd (up_owner env h c b opts) (\<lambda>_. up_rest env al h c b opts address))" for address
    by (intro preceded_bnd [OF up_stack(2)] rest up_rest_calls)
  then show ?thesis
    unfolding up_def up_body_def
    by (intro preceded_as_job preceded_bnd [OF up_stack(1)])
      (auto dest!: up_checks_bundle intro!: calls_intros up_rest_calls only_callsI_bound [OF up_stack(2)])
qed


definition down_plan :: "ctx \<Rightarrow> string \<Rightarrow> string \<Rightarrow> call list" where
  "down_plan c dir pre =
     [Call ''host'' c [''output'', down_command dir pre], Call ''host'' c [''output'', ''rm -rf '' @ shell_quote dir]]"

lemma down_follows:
  assumes "\<not> blank dir" "compose_command dir b = Inr pre"
  shows "follows (down (Some h) c b dir) (down_plan c dir pre)"
  unfolding down_def option.case if_not_P [OF assms(1)] assms(2) bnd_orfail_Inr down_plan_def
  by (rule follows_cong [OF follows_bnd [OF follows_orfail [OF host_follows(1)]
        follows_bnd [OF follows_orfail [OF host_follows(1)] follows_ret]]]) simp

lemma down_sequence:
  assumes "down (Some h) c b dir p = (r, p')"
  shows "\<exists>pre cs. (cs = [] \<or> compose_command dir b = Inr pre) \<and> trace p' = trace p @ cs \<and>
    prefix cs (down_plan c dir pre) \<and> (r = Ok () \<longrightarrow> cs = down_plan c dir pre)"
proof (cases "blank dir")
  case True
  with assms show ?thesis by (auto simp: down_def)
next
  case False
  show ?thesis
  proof (cases "compose_command dir b")
    case (Inl e)
    with assms False show ?thesis by (auto simp: down_def orfail_def handle_def fail_def bnd_def)
  next
    case (Inr pre)
    from followsD [OF down_follows [OF False Inr] assms] Inr show ?thesis by metis
  qed
qed

text \<open>
  \<open>Down\<close> stops the stack before it removes anything: its calls are, in order, the compose command
  that removes the containers and volumes, and then the removal of the deployment directory, which a
  failed stop prevents.
\<close>

theorem down_stops_before_removing:
  assumes "down (Some h) c b dir p = (r, p')"
  shows "\<exists>pre cs. (cs = [] \<or> compose_command dir b = Inr pre) \<and> trace p' = trace p @ cs \<and>
    prefix cs (down_plan c dir pre) \<and> (r = Ok () \<longrightarrow> cs = down_plan c dir pre)"
  by (rule down_sequence [OF assms])

section \<open>Witnesses\<close>

lemma wait_ready_returns_witness:
  "orderly (fst (wait_ready Caller (compose_runner sample_host ''/srv'' sample_bundle) 3 sample_secrets
     [\<lparr>pb_command = exec_probe ''caddy'', pb_waiting = ''caddy''\<rparr>] idle_proc))"
  using wait_ready_returns [of Caller sample_host "''/srv''" sample_bundle 3 sample_secrets _ idle_proc, OF prod.collapse [symmetric]]
  by (simp add: idle_proc_def mono_def new_job_def)

definition sample_acme :: "unit acme_lib" where
  "sample_acme = \<lparr>al_provider = (\<lambda>_. Inr ()), al_client = (\<lambda>_ _. aret ()), al_dns01 = (\<lambda>_. aret ()), al_register = aret (),
     al_obtain = (\<lambda>d. aret (''c'', ''k'', '''')), al_parse_pem = (\<lambda>_. Inr (0, 1)), al_gen_key = aret ''key''\<rparr>"

definition sample_encoder :: yaml_codec where
  "sample_encoder = \<lparr>yaml_parse = (\<lambda>r. Inl (errorf ''unsupported'')), yaml_encode = (\<lambda>d. Inr ''{}'')\<rparr>"

lemma up_completes_witness:
  "completes_on mono (up (sample_env\<lparr>en_yaml := sample_encoder\<rparr>) sample_acme sample_host Caller (Some sample_deployment)
     \<lparr>uRemoteDir = ''/srv'', uAddress = '''', uIssuer = None, uMigrate = False, uQuarantine = False\<rparr>)"
  by (rule up_completes) (simp add: encodes_runner_config_def sample_encoder_def)

lemma down_stops_before_removing_witness:
  "\<exists>pre cs. trace (snd (down (Some sample_host) Caller (Some sample_bundle) ''/srv'' idle_proc)) = cs \<and>
     prefix cs (down_plan Caller ''/srv'' pre)"
  using down_stops_before_removing [of sample_host Caller "Some sample_bundle" "''/srv''" idle_proc, OF prod.collapse [symmetric]]
  by (auto simp: idle_proc_def)

end
