(* ===== verification/Restore.thy ===== *)
theory Restore
  imports Backup Deploy
begin

text \<open>
  Rebuilding an instance from a snapshot (\<open>restore\<close>: \<open>restore.go\<close>, \<open>keys.go\<close>, \<open>state.go\<close>,
  \<open>blobs.go\<close>, \<open>ci.go\<close>): fetch, decrypt and verify, install the key material, place git data and the
  database on the host, restore the blobs, and deploy against that state at the snapshot's version.
\<close>

section \<open>Options\<close>

record ('w, 'k) restore_options =
  rRemoteDir :: string
  rWorkDir :: string
  rBundle :: "bundle_data option"
  rSource :: "'w adapter option"
  rSnapshotKey :: string
  rIdentity :: "'k option"
  rKeystore :: "'w driver option"
  rBlobs :: "'w adapter option"
  rHost :: "'w host option"
  rIssuer :: "'w issuer option"
  rReconcileCI :: bool
  rQuarantine :: bool

definition validate_restore :: "('w, 'k) restore_options \<Rightarrow> error + unit" where
  "validate_restore os =
     (if blank (rWorkDir os) then Inl (errorf ''restore: work directory is required'')
      else if blank (rRemoteDir os) then Inl (errorf ''restore: remote directory is required'')
      else if rBundle os = None then Inl (errorf ''restore: bundle is required'')
      else if rSource os = None then Inl (errorf ''restore: snapshot source is required'')
      else if rIdentity os = None then Inl (errorf ''restore: age identity is required'')
      else if rKeystore os = None then Inl (errorf ''restore: keystore driver is required'')
      else if rBlobs os = None then Inl (errorf ''restore: blob adapter is required'')
      else if rHost os = None then Inl (errorf ''restore: host is required'')
      else Inr ())"

text \<open>A step that reports its failure and returns the same error.\<close>

abbreviation reported :: "string \<Rightarrow> ('w, 'a) io \<Rightarrow> ('w, 'a) io" where
  "reported st m \<equiv> handle m (fail_step st)"

text \<open>\<open>RunStdin\<close> with a local file as its input: a read error of the file fails the session.\<close>

definition host_run_stdin :: "'w host \<Rightarrow> ctx \<Rightarrow> string \<Rightarrow> reader \<Rightarrow> ('w, error option \<times> string \<times> string) io" where
  "host_run_stdin h c cmd f =
     call ''host'' c [''run-stdin'', cmd] (\<lambda>w. case h_run h c cmd (Some (fst f)) w of
       ((err, out, errs), w') \<Rightarrow> (Inr ((case err of None \<Rightarrow> snd f | Some e \<Rightarrow> Some e), out, errs), w'))"

section \<open>Fetching and verifying\<close>

definition fetch_snapshot :: "ctx \<Rightarrow> ('w, 'k) restore_options \<Rightarrow> string \<Rightarrow> ('w, unit) io" where
  "fetch_snapshot c os archive =
     bnd (started ''fetch-snapshot'' ''fetching snapshot'') (\<lambda>_.
     bnd (reported ''fetch-snapshot''
            (if rSnapshotKey os = ''''
             then orfail (call ''source'' c [''latest''] (latest_snapshot_key c (rSource os))) ''restore: ''
             else ret (rSnapshotKey os))) (\<lambda>key.
     bnd (reported ''fetch-snapshot''
            (orfail (call ''source'' c [''fetch'', key] (fetch c (rSource os) key archive)) ''restore: fetch snapshot: '')) (\<lambda>_.
     succeeded ''fetch-snapshot'' (''fetched snapshot '' @ key))))"

definition decrypt_snapshot :: "('w, 'k) codec \<Rightarrow> ctx \<Rightarrow> string \<Rightarrow> string \<Rightarrow> 'k \<Rightarrow> ('w, unit) io" where
  "decrypt_snapshot cd c archive dir identity =
     bnd (started ''decrypt-snapshot'' ''decrypting snapshot'') (\<lambda>_.
     bnd (reported ''decrypt-snapshot''
            (orfail (locally (decrypt_archive cd c archive dir identity)) ''restore: decrypt snapshot: '')) (\<lambda>_.
     succeeded ''decrypt-snapshot'' ''snapshot decrypted''))"

definition verify_snapshot :: "('w, 'k) codec \<Rightarrow> ctx \<Rightarrow> string \<Rightarrow> ('w, snapshot) io" where
  "verify_snapshot cd c dir =
     bnd (started ''verify-snapshot'' ''verifying snapshot'') (\<lambda>_.
     bnd (reported ''verify-snapshot'' (orfail (locally (read_manifest cd dir)) ''restore: '')) (\<lambda>m.
     bnd (reported ''verify-snapshot'' (orfail (locally (verify cd c dir m keyNames))
            ''restore: snapshot failed verification, refusing to restore: '')) (\<lambda>_.
     bnd (succeeded ''verify-snapshot'' ''snapshot verified'') (\<lambda>_. ret m))))"

definition decrypt_and_verify ::
    "('w, 'k) codec \<Rightarrow> ctx \<Rightarrow> string \<Rightarrow> string \<Rightarrow> 'k \<Rightarrow> ('w, snapshot) io" where
  "decrypt_and_verify cd c archive dir identity =
     bnd (decrypt_snapshot cd c archive dir identity) (\<lambda>_. verify_snapshot cd c dir)"

section \<open>Key material\<close>

definition install_one_key ::
    "ctx \<Rightarrow> string \<Rightarrow> component \<Rightarrow> string \<Rightarrow> 'w driver \<Rightarrow>
     (ctx \<Rightarrow> string \<Rightarrow> secret \<Rightarrow> ('w, unit) act) \<Rightarrow> ('w, bool) io" where
  "install_one_key c dir cm name target st =
     bnd (orfail (locally (on_fs (os_read_file (join2 dir (Path cm)))))
            (''restore: install key material: read '' @ name @ '': '')) (\<lambda>data.
     bnd (attempt (resolve_key target c name)) (\<lambda>r.
     case r of
       Inr existing \<Rightarrow>
         (if reveal existing = data then ret False
          else fail (errorf (''restore: install key material: '' @ name
                 @ '': target keystore already holds different key material under this name'')))
     | Inl e \<Rightarrow>
         (if errors_is e KeystoreNotFound
          then bnd (orfail (store_key st c name (Secret data))
                      (''restore: install key material: store '' @ name @ '': '')) (\<lambda>_. ret True)
          else fail (wrapf (''restore: install key material: resolve '' @ name @ '': '') e))))"

text \<open>The map of the snapshot's key components by name: of two with one name the later is the one.\<close>

definition key_components :: "snapshot \<Rightarrow> (string \<times> component) list" where
  "key_components m = rev (map (\<lambda>c. (Name c, c)) (filter (\<lambda>c. Kind c = KindKeys) (Components m)))"

fun install_loop ::
    "ctx \<Rightarrow> string \<Rightarrow> (string \<times> component) list \<Rightarrow> 'w driver \<Rightarrow>
     (ctx \<Rightarrow> string \<Rightarrow> secret \<Rightarrow> ('w, unit) act) \<Rightarrow> nat \<Rightarrow> string list \<Rightarrow> ('w, nat) io" where
  "install_loop c dir byname target st n [] = ret n"
| "install_loop c dir byname target st n (name # names) =
     bnd (locally (ctx_check c)) (\<lambda>_.
     case map_of byname name of
       None \<Rightarrow> fail (errorf (''restore: install key material: '' @ name @ '': not present in snapshot''))
     | Some cm \<Rightarrow>
         bnd (install_one_key c dir cm name target st) (\<lambda>did.
         install_loop c dir byname target st (if did then Suc n else n) names))"

definition install_keys :: "ctx \<Rightarrow> string \<Rightarrow> snapshot \<Rightarrow> 'w driver \<Rightarrow> ('w, unit) io" where
  "install_keys c dir m target =
     bnd (started ''install-keys'' ''installing key material'') (\<lambda>_.
     bnd (reported ''install-keys''
       (case writer target of
          None \<Rightarrow> fail (errorf ''restore: install key material: target keystore driver cannot store key material'')
        | Some st \<Rightarrow> install_loop c dir (key_components m) target st 0 keyNames)) (\<lambda>n.
     succeeded ''install-keys'' (''installed '' @ nat_str n @ '' key(s), ''
       @ int_str (int (length keyNames) - int n) @ '' already present'')))"

section \<open>Placing the state\<close>

record git_pair =
  gp_objects :: string
  gp_refs :: string

definition no_pair :: git_pair where "no_pair = \<lparr>gp_objects = '''', gp_refs = ''''\<rparr>"

definition pair_of :: "(string \<times> git_pair) list \<Rightarrow> string \<Rightarrow> git_pair" where
  "pair_of ps n = (case map_of ps n of None \<Rightarrow> no_pair | Some g \<Rightarrow> g)"

fun pair_loop :: "component list \<Rightarrow> (string \<times> git_pair) list \<Rightarrow> error + (string \<times> git_pair) list" where
  "pair_loop [] ps = Inr ps"
| "pair_loop (c # cs) ps =
     (if Kind c \<noteq> KindGit then pair_loop cs ps
      else if suffix ''.refs.tar'' (Path c)
      then pair_loop cs (AList.update (Name c) ((pair_of ps (Name c))\<lparr>gp_refs := Path c\<rparr>) ps)
      else if suffix ''.tar'' (Path c)
      then pair_loop cs (AList.update (Name c) ((pair_of ps (Name c))\<lparr>gp_objects := Path c\<rparr>) ps)
      else Inl (errorf (''restore: git component '' @ Name c @ '': unrecognized snapshot path '' @ quote (Path c))))"

fun torn_pair :: "(string \<times> git_pair) list \<Rightarrow> error option" where
  "torn_pair [] = None"
| "torn_pair ((n, g) # ps) =
     (if gp_objects g = '''' then Some (errorf (''restore: git component '' @ n @ '': snapshot is torn '' @ em_dash @ '' missing the object archive''))
      else if gp_refs g = '''' then Some (errorf (''restore: git component '' @ n @ '': snapshot is torn '' @ em_dash @ '' missing the ref archive''))
      else torn_pair ps)"

definition git_component_pairs :: "snapshot \<Rightarrow> error + (string \<times> git_pair) list \<times> string list" where
  "git_component_pairs m =
     (case pair_loop (Components m) [] of
        Inl e \<Rightarrow> Inl e
      | Inr ps \<Rightarrow>
          (case torn_pair ps of
             Some e \<Rightarrow> Inl e
           | None \<Rightarrow> Inr (ps, sort (map fst ps))))"

definition database_component :: "snapshot \<Rightarrow> error + component" where
  "database_component m =
     (case filter (\<lambda>c. Kind c = KindDatabase) (Components m) of
        [c] \<Rightarrow> Inr c
      | found \<Rightarrow> Inl (errorf (''restore: manifest has '' @ nat_str (length found)
                 @ '' database component(s), want exactly 1'')))"

definition database_rel_path :: string where
  "database_rel_path = trim_prefix dbPath (dataPath @ ''/'')"

definition repo_dir_path :: "string \<Rightarrow> string \<Rightarrow> string" where
  "repo_dir_path gitRoot name = join_path [gitRoot, name @ ''.git'']"

definition extract_command :: "string \<Rightarrow> string" where
  "extract_command d = ''mkdir -p '' @ shell_quote d @ '' && tar -C '' @ shell_quote d @ '' -xf -''"

definition stream_command :: "string \<Rightarrow> string" where
  "stream_command p = ''mkdir -p '' @ shell_quote (dir_of p) @ '' && cat > '' @ shell_quote p"

text \<open>What \<open>extractRemoteTar\<close> and \<open>streamFileToRemote\<close> share: a local file into a remote command.\<close>

definition stream_to :: "'w host \<Rightarrow> ctx \<Rightarrow> string \<Rightarrow> string \<Rightarrow> string \<Rightarrow> ('w, unit) io" where
  "stream_to h c local_path cmd what =
     bnd (orfail (locally (on_fs (os_open local_path))) (''open '' @ local_path @ '': '')) (\<lambda>f.
     bnd (host_run_stdin h c cmd f) (\<lambda>(err, out, errs).
     case err of None \<Rightarrow> ret () | Some e \<Rightarrow> fail (suffixf (wrapf what e) (session_suffix errs))))"

definition extract_remote_tar :: "'w host \<Rightarrow> ctx \<Rightarrow> string \<Rightarrow> string \<Rightarrow> ('w, unit) io" where
  "extract_remote_tar h c local_path target =
     stream_to h c local_path (extract_command target) (''extract onto '' @ target @ '': '')"

definition stream_file_to_remote :: "'w host \<Rightarrow> ctx \<Rightarrow> string \<Rightarrow> string \<Rightarrow> ('w, unit) io" where
  "stream_file_to_remote h c local_path remote_path =
     stream_to h c local_path (stream_command remote_path) (''write '' @ remote_path @ '': '')"

definition place_one_repo :: "'w host \<Rightarrow> ctx \<Rightarrow> string \<Rightarrow> string \<Rightarrow> string \<Rightarrow> git_pair \<Rightarrow> ('w, unit) io" where
  "place_one_repo h c dir gitRoot name g =
     (let d = repo_dir_path gitRoot name
      in bnd (orfail (extract_remote_tar h c (join2 dir (gp_objects g)) d)
                (''restore: place git: '' @ name @ '': objects: '')) (\<lambda>_.
         orfail (extract_remote_tar h c (join2 dir (gp_refs g)) d)
           (''restore: place git: '' @ name @ '': refs: '')))"

definition place_repos ::
    "'w host \<Rightarrow> ctx \<Rightarrow> string \<Rightarrow> string \<Rightarrow> (string \<times> git_pair) list \<Rightarrow> string list \<Rightarrow> ('w, string list) io" where
  "place_repos h c dir gitRoot pairs names =
     collect (\<lambda>name. bnd (locally (ctx_check c)) (\<lambda>_.
                     bnd (place_one_repo h c dir gitRoot name (pair_of pairs name)) (\<lambda>_.
                     ret (repo_dir_path gitRoot name)))) names"

definition place_state ::
    "'w host \<Rightarrow> ctx \<Rightarrow> string \<Rightarrow> snapshot \<Rightarrow> bundle_data \<Rightarrow> 'w driver \<Rightarrow> string \<Rightarrow> ('w, unit) io" where
  "place_state h c dir m b ks remoteDir =
     (let st = ''place-state''; dest = join_path [gitea_state_path remoteDir, database_rel_path]
      in bnd (started st ''restoring git repositories and database onto host'') (\<lambda>_.
         bnd (reported st (of_sum (git_component_pairs m))) (\<lambda>(pairs, names).
         bnd (reported st (place_repos h c dir (git_state_path remoteDir) pairs names)) (\<lambda>repoDirs.
         bnd (reported st (of_sum (database_component m))) (\<lambda>db.
         bnd (reported st (orfail (stream_file_to_remote h c (join2 dir (Path db)) dest) ''restore: place database: '')) (\<lambda>_.
         bnd (reported st (orfail (chown_state h c remoteDir) ''restore: '')) (\<lambda>_.
         bnd (reported st (orfail (verify_forge_can_use_placed h c (ForgejoVersion m) remoteDir repoDirs [dest]) ''restore: '')) (\<lambda>_.
         bnd (reported st (orfail (record_state_version h c remoteDir (ForgejoVersion m)) ''restore: '')) (\<lambda>_.
         bnd (reported st (orfail (state_owner_of c (b_manifest b) ks) ''restore: '')) (\<lambda>owner.
         bnd (reported st (orfail (record_state_owner h c remoteDir owner) ''restore: '')) (\<lambda>_.
         succeeded st (''restored '' @ nat_str (length names) @ '' repository(ies) and the database''))))))))))))"

section \<open>Blobs, CI and the deployment\<close>

definition restore_one_blob :: "ctx \<Rightarrow> string \<Rightarrow> 'w adapter \<Rightarrow> component \<Rightarrow> ('w, unit) io" where
  "restore_one_blob c dir target cm =
     bnd (orfail (locally (on_fs (os_open (join2 dir (Path cm))))) (''restore: restore blobs: open '' @ Path cm @ '': '')) (\<lambda>f.
     bnd (orfail (locally (on_fs (os_stat (join2 dir (Path cm))))) (''restore: restore blobs: stat '' @ Path cm @ '': '')) (\<lambda>_.
     orfail (call ''blobs'' c [''put'', Name cm] (bput target c (Name cm) f (int (length (fst f)))))
       (''restore: restore blobs: put '' @ Name cm @ '': '')))"

definition restore_blobs :: "ctx \<Rightarrow> string \<Rightarrow> snapshot \<Rightarrow> 'w adapter \<Rightarrow> ('w, unit) io" where
  "restore_blobs c dir m target =
     bnd (started ''restore-blobs'' ''restoring blobs'') (\<lambda>_.
     bnd (reported ''restore-blobs''
       (collect (\<lambda>cm. bnd (locally (ctx_check c)) (\<lambda>_. restore_one_blob c dir target cm))
          (filter (\<lambda>cm. Kind cm = KindBlobs) (Components m)))) (\<lambda>us.
     succeeded ''restore-blobs'' (''restored '' @ nat_str (length us) @ '' blob(s)'')))"

definition restore_ci :: "'w sqlite \<Rightarrow> ctx \<Rightarrow> string \<Rightarrow> snapshot \<Rightarrow> ('w, unit) io" where
  "restore_ci db c dir m =
     bnd (orfail (of_sum (database_component m)) ''restore: '') (\<lambda>cm.
     bnd (orfail (reconcile_ci db c True (join2 dir (Path cm))) ''restore: '') (\<lambda>_. ret ()))"

definition pinned_bundle :: "yaml_codec \<Rightarrow> bundle_data \<Rightarrow> string \<Rightarrow> error + bundle_data" where
  "pinned_bundle y b version =
     (let m = (b_manifest b)\<lparr>Images := put_key ForgeService version (Images (b_manifest b))\<rparr>
      in case render y (Some m) of
           Inl e \<Rightarrow> Inl (wrapf (''restore: render compose pinned to forgejo '' @ version @ '': '') e)
         | Inr compose \<Rightarrow> Inr \<lparr>b_manifest = m, b_compose = compose\<rparr>)"

definition run_deploy ::
    "'w env \<Rightarrow> 'w acme_lib \<Rightarrow> 'w host \<Rightarrow> ctx \<Rightarrow> bundle_data \<Rightarrow> snapshot \<Rightarrow> ('w, 'k) restore_options \<Rightarrow> ('w, unit) io" where
  "run_deploy env al h c b m os =
     bnd (of_sum (pinned_bundle (en_yaml env) b (ForgejoVersion m))) (\<lambda>db.
     bnd (subjob (up env al h c (Some db) \<lparr>uRemoteDir = rRemoteDir os, uAddress = '''', uIssuer = rIssuer os,
            uMigrate = False, uQuarantine = rQuarantine os\<rparr>)) (\<lambda>r.
     of_sum (fst r)))"

section \<open>Restore\<close>

text \<open>The steps after verification: everything that changes the target.\<close>

definition restore_onto ::
    "'w env \<Rightarrow> 'w acme_lib \<Rightarrow> 'w sqlite \<Rightarrow> ctx \<Rightarrow> ('w, 'k) restore_options \<Rightarrow> string \<Rightarrow> snapshot \<Rightarrow> ('w, snapshot) io" where
  "restore_onto env al db c os dir m =
     (let h = the (rHost os); b = the (rBundle os); ks = the (rKeystore os)
      in bnd (install_keys c dir m ks) (\<lambda>_.
         bnd (if rReconcileCI os then restore_ci db c dir m else ret ()) (\<lambda>_.
         bnd (place_state h c dir m b ks (rRemoteDir os)) (\<lambda>_.
         bnd (restore_blobs c dir m (the (rBlobs os))) (\<lambda>_.
         bnd (run_deploy env al h c b m os) (\<lambda>_.
         ret m))))))"

definition restore_body ::
    "'w env \<Rightarrow> 'w acme_lib \<Rightarrow> 'w sqlite \<Rightarrow> ('w, 'k) codec \<Rightarrow> ctx \<Rightarrow> ('w, 'k) restore_options \<Rightarrow> ('w, snapshot) io" where
  "restore_body env al db cd c os =
     (let archive = join2 (rWorkDir os) ''snapshot.age''; dir = join2 (rWorkDir os) ''snapshot''
      in bnd (fetch_snapshot c os archive) (\<lambda>_.
         bnd (decrypt_and_verify cd c archive dir (the (rIdentity os))) (\<lambda>m.
         restore_onto env al db c os dir m)))"

definition restore_steps ::
    "'w env \<Rightarrow> 'w acme_lib \<Rightarrow> 'w sqlite \<Rightarrow> ('w, 'k) codec \<Rightarrow> ctx \<Rightarrow> ('w, 'k) restore_options \<Rightarrow> ('w, snapshot) io" where
  "restore_steps env al db cd c os =
     bnd (of_sum (validate_restore os)) (\<lambda>_.
     bnd (orfail (locally (on_fs (os_mkdir_all (rWorkDir os)))) ''restore: create work directory: '') (\<lambda>_.
     deferred (locally (on_fs (os_remove_all (rWorkDir os)))) (restore_body env al db cd c os)))"

definition restore ::
    "'w env \<Rightarrow> 'w acme_lib \<Rightarrow> 'w sqlite \<Rightarrow> ('w, 'k) codec \<Rightarrow> ctx \<Rightarrow> ('w, 'k) restore_options \<Rightarrow> ('w, snapshot) io" where
  "restore env al db cd c os =
     as_job (\<lambda>m. ''instance restored from a snapshot captured by forgejo '' @ ForgejoVersion m)
       (restore_steps env al db cd c os)"

section \<open>Facts\<close>

lemma run_stdin_calm [calm_intros]: "calm_on I (host_run_stdin h c cmd f)"
  unfolding host_run_stdin_def by (intro calm_intros)

lemma store_key_calm [calm_intros]: "calm_on I (store_key st c k s)"
  unfolding store_key_def by (intro calm_intros)

lemma install_loop_calm [calm_intros]: "calm_on I (install_loop c dir byname target st n names)"
  by (induction names arbitrary: n) (auto simp: install_one_key_def intro!: calm_intros)

lemma snapshot_calm:
  "calm_on I (fetch_snapshot c os archive)" "calm_on I (decrypt_snapshot cd c archive dir i)"
  "calm_on I (verify_snapshot cd c dir)"
  unfolding fetch_snapshot_def decrypt_snapshot_def verify_snapshot_def
  by (intro calm_intros; simp)+

lemma install_keys_calm: "calm_on I (install_keys c dir m target)"
  unfolding install_keys_def by (intro calm_intros; simp)

lemma place_calm [calm_intros]: "calm_on I (place_repos h c dir g pairs names)"
  unfolding place_repos_def place_one_repo_def extract_remote_tar_def stream_to_def Let_def
  by (intro calm_intros)

lemma place_state_calm: "calm_on I (place_state h c dir m b ks remoteDir)"
  unfolding place_state_def stream_file_to_remote_def stream_to_def state_owner_of_def Let_def
  by (intro calm_intros; simp)

lemma restore_blobs_calm: "calm_on I (restore_blobs c dir m target)"
  unfolding restore_blobs_def restore_one_blob_def by (intro calm_intros; simp)

lemma restore_ci_calm: "calm_on I (restore_ci db c dir m)"
  unfolding restore_ci_def by (intro calm_intros)

lemma run_deploy_calm:
  assumes "encodes_runner_config (en_yaml env)"
  shows "calm_on mono (run_deploy env al h c b m os)"
  unfolding run_deploy_def by (intro calm_intros up_completes_on assms)

lemma restore_steps_calm:
  assumes "encodes_runner_config (en_yaml env)"
  shows "calm_on mono (restore_steps env al db cd c os)"
  unfolding restore_steps_def restore_body_def decrypt_and_verify_def restore_onto_def Let_def
  by (intro calm_intros snapshot_calm install_keys_calm place_state_calm restore_blobs_calm restore_ci_calm
      run_deploy_calm [OF assms])

lemma restore_completes_on:
  "encodes_runner_config (en_yaml env) \<Longrightarrow> completes_on mono (restore env al db cd c os)"
  unfolding restore_def by (intro completes_as_job restore_steps_calm)

subsection \<open>What a restore calls, and when\<close>

text \<open>A call that touches the target: anything but reading from the snapshot's source.\<close>

definition touches_target :: "call \<Rightarrow> bool" where
  "touches_target k \<longleftrightarrow> iface k \<noteq> ''source''"

lemma fetch_calls: "only_calls (\<lambda>k. \<not> touches_target k) (fetch_snapshot c os archive)"
  unfolding fetch_snapshot_def by (intro calls_intros; simp add: touches_target_def)

lemma decrypt_calls: "only_calls C (decrypt_snapshot cd c archive dir i)"
  unfolding decrypt_snapshot_def by (intro calls_intros)

lemma verify_calls: "only_calls C (verify_snapshot cd c dir)"
  unfolding verify_snapshot_def by (intro calls_intros)


lemma run_stdin_calls [calls_intros]:
  "C (Call ''host'' c [''run-stdin'', cmd]) \<Longrightarrow> only_calls C (host_run_stdin h c cmd f)"
  unfolding host_run_stdin_def by (intro calls_intros)

lemma install_loop_no_dns: "only_calls not_dns (install_loop c dir byname target st n names)"
  by (induction names arbitrary: n)
    (auto simp: install_one_key_def store_key_def resolve_key_def intro!: calls_intros)

lemma restore_onto_no_dns: "only_calls not_dns (restore_onto env al db c os dir m)"
  unfolding restore_onto_def install_keys_def restore_ci_def reconcile_ci_def reconcile_steps_def place_state_def
    place_repos_def place_one_repo_def extract_remote_tar_def stream_file_to_remote_def stream_to_def chown_state_def
    verify_forge_can_use_placed_def restore_blobs_def restore_one_blob_def run_deploy_def Let_def
  by (intro calls_intros install_loop_no_dns up_no_dns helper_no_dns checks_no_dns; simp)

lemmas install_loop_calls = only_callsI_bound [OF install_loop_no_dns]
lemmas restore_onto_calls = only_callsI_bound [OF restore_onto_no_dns]

lemma restore_no_dns: "only_calls not_dns (restore env al db cd c os)"
  unfolding restore_def restore_steps_def restore_body_def decrypt_and_verify_def fetch_snapshot_def Let_def
  by (intro calls_intros decrypt_calls verify_calls restore_onto_no_dns; simp)

text \<open>A snapshot that was read and verified between two processes.\<close>

definition verified_in :: "('w, 'k) codec \<Rightarrow> ctx \<Rightarrow> string \<Rightarrow> 'w proc \<Rightarrow> 'w proc \<Rightarrow> bool" where
  "verified_in cd c dir q q' \<longleftrightarrow> (\<exists>m w. read_manifest cd dir (world q) = (Inr m, w) \<and>
     verify cd c dir m keyNames w = (Inr (), world q'))"

lemma verify_snapshot_passes: "passes (verify_snapshot cd c dir) (verified_in cd c dir)"
  unfolding verify_snapshot_def
  by (intro passes_then [of "started _ _"] passes_local_pair calls_intros) (auto simp: verified_in_def)

lemma decrypt_and_verify_calls: "only_calls C (decrypt_and_verify cd c a d i)"
  unfolding decrypt_and_verify_def by (intro calls_intros decrypt_calls verify_calls)

lemma restore_body_calls: "only_calls (\<lambda>_. True) (restore_body env al db cd c os)"
  unfolding restore_body_def Let_def
  by (intro calls_intros decrypt_and_verify_calls restore_onto_calls only_callsI_bound [OF fetch_calls])

lemma restore_body_preceded:
  assumes "preceded C G (restore_body env al db cd c os)"
  shows "preceded C G (restore env al db cd c os)"
  unfolding restore_def restore_steps_def
  by (intro preceded_as_job preceded_bnd preceded_deferred assms restore_body_calls calls_intros)

lemma restore_verified_first:
  "preceded touches_target (verified_in cd c (join2 (rWorkDir os) ''snapshot'')) (restore env al db cd c os)"
proof -
  let ?dir = "join2 (rWorkDir os) ''snapshot''"
  have v: "passes (decrypt_and_verify cd c a ?dir i) (verified_in cd c ?dir)" for a i
    unfolding decrypt_and_verify_def by (intro passes_then verify_snapshot_passes decrypt_calls)
  have "preceded touches_target (verified_in cd c ?dir) (restore_body env al db cd c os)"
    unfolding restore_body_def Let_def
    by (intro preceded_bnd [OF fetch_calls] preceded_by [OF decrypt_and_verify_calls restore_onto_calls v] calls_intros
        decrypt_and_verify_calls restore_onto_calls)
  then show ?thesis by (rule restore_body_preceded)
qed


subsection \<open>Installing the keys\<close>

definition stores_key :: "string \<Rightarrow> call \<Rightarrow> bool" where
  "stores_key n k \<longleftrightarrow> iface k = ''keystore'' \<and> (\<exists>v. args k = [''store'', n, v])"

definition found_absent :: "'w driver \<Rightarrow> ctx \<Rightarrow> string \<Rightarrow> 'w proc \<Rightarrow> 'w proc \<Rightarrow> bool" where
  "found_absent target c n q q' \<longleftrightarrow>
     (\<exists>e. resolve target c n (world q) = (Inl e, world q') \<and> errors_is e KeystoreNotFound)"

lemma store_key_calls: "n \<noteq> name \<Longrightarrow> only_calls (\<lambda>k. \<not> stores_key n k) (store_key st c name s)"
  unfolding store_key_def by (intro calls_intros) (simp add: stores_key_def)

lemma resolve_key_calls: "only_calls (\<lambda>k. \<not> stores_key n k) (resolve_key d c name)"
  unfolding resolve_key_def by (intro calls_intros) (simp add: stores_key_def)

lemma install_one_key_preceded:
  "preceded (stores_key n) (found_absent target c n) (install_one_key c dir cm name target st)"
proof (cases "name = n")
  case False
  then have "only_calls (\<lambda>k. \<not> stores_key n k) (install_one_key c dir cm name target st)"
    unfolding install_one_key_def by (intro calls_intros store_key_calls resolve_key_calls) simp_all
  then show ?thesis by (rule preceded_none)
next
  case True
  have all: "only_calls (\<lambda>_. True) (store_key st c name s)" for s
    unfolding store_key_def by (intro calls_intros) simp
  have r: "only_calls (\<lambda>_. True) (resolve_key target c name)"
    unfolding resolve_key_def by (intro calls_intros) simp
  have key: "checked (found_absent target c n) p p1 (trace p1) \<or>
      (\<forall>e. x = Inl e \<longrightarrow> \<not> errors_is e KeystoreNotFound)"
    if "attempt (resolve_key target c name) p = (Ok x, p1)" for p x p1
  proof (cases x)
    case (Inl e)
    with attempt_call_Ok [OF that [unfolded resolve_key_def True]] have "errors_is e KeystoreNotFound \<Longrightarrow> found_absent target c n p p1"
      unfolding found_absent_def by blast
    then show ?thesis using Inl checked_at [OF _ only_calls_runs [OF calls_attempt [OF r] that]] by blast
  qed simp
  have rest: "preceded (stores_key n) (found_absent target c n) (bnd (attempt (resolve_key target c name)) (\<lambda>r. case r of
       Inr existing \<Rightarrow> (if reveal existing = data then ret False else fail e1)
     | Inl e \<Rightarrow> (if errors_is e KeystoreNotFound then bnd (orfail (store_key st c name (Secret data)) t) (\<lambda>_. ret True)
          else fail (wrapf t' e))))" for data e1 t t'
  proof (rule preceded_or)
    fix p x p1
    assume "attempt (resolve_key target c name) p = (Ok x, p1)"
    from key [OF this] show "checked (found_absent target c n) p p1 (trace p1) \<or>
        only_calls (\<lambda>k. \<not> stores_key n k) (case x of
          Inr existing \<Rightarrow> (if reveal existing = data then ret False else fail e1)
        | Inl e \<Rightarrow> (if errors_is e KeystoreNotFound then bnd (orfail (store_key st c name (Secret data)) t) (\<lambda>_. ret True)
             else fail (wrapf t' e)))"
      by (cases x) (auto intro!: calls_intros)
  qed (intro calls_intros resolve_key_calls all)+
  show ?thesis
    unfolding install_one_key_def
    by (rule preceded_bnd) (intro calls_intros r all rest)+
qed

lemma install_one_key_calls: "only_calls (\<lambda>_. True) (install_one_key c dir cm name target st)"
  unfolding install_one_key_def resolve_key_def store_key_def by (intro calls_intros; simp)

lemma install_loop_preceded:
  "preceded (stores_key n) (found_absent target c n) (install_loop c dir byname target st i names)"
proof (induction names arbitrary: i)
  case Nil
  then show ?case unfolding install_loop.simps by (intro preceded_none calls_intros)
next
  case (Cons name names)
  show ?case
  proof (cases "map_of byname name")
    case None
    show ?thesis unfolding install_loop.simps None option.case by (intro preceded_none calls_intros)
  next
    case (Some cm)
    have rest: "preceded (stores_key n) (found_absent target c n) (bnd (install_one_key c dir cm name target st)
       (\<lambda>did. install_loop c dir byname target st (if did then Suc i else i) names))"
      by (intro preceded_seq install_one_key_preceded Cons.IH install_one_key_calls install_loop_calls)
    show ?thesis
      unfolding install_loop.simps Some option.case
      by (rule preceded_bnd) (intro calls_intros rest install_one_key_calls install_loop_calls)+
  qed
qed

subsection \<open>The git components by repository\<close>

text \<open>The paths of a repository's object archives and of its ref archives, among some components.\<close>

definition objects_of :: "component list \<Rightarrow> string \<Rightarrow> string set" where
  "objects_of cs n = Path ` {c \<in> set cs. Kind c = KindGit \<and> Name c = n \<and> \<not> suffix ''.refs.tar'' (Path c) \<and> suffix ''.tar'' (Path c)}"

definition refs_of :: "component list \<Rightarrow> string \<Rightarrow> string set" where
  "refs_of cs n = Path ` {c \<in> set cs. Kind c = KindGit \<and> Name c = n \<and> suffix ''.refs.tar'' (Path c)}"

definition pick :: "string set \<Rightarrow> string \<Rightarrow> string set" where
  "pick A d = (if A = {} then {d} else A)"

lemma of_Cons:
  "objects_of (c # cs) n = (if Kind c = KindGit \<and> Name c = n \<and> \<not> suffix ''.refs.tar'' (Path c) \<and> suffix ''.tar'' (Path c)
     then insert (Path c) (objects_of cs n) else objects_of cs n)"
  "refs_of (c # cs) n = (if Kind c = KindGit \<and> Name c = n \<and> suffix ''.refs.tar'' (Path c)
     then insert (Path c) (refs_of cs n) else refs_of cs n)"
  unfolding objects_of_def refs_of_def by (auto split: if_splits)

lemma of_Nil [simp]: "objects_of [] n = {}" "refs_of [] n = {}"
  by (simp_all add: objects_of_def refs_of_def)

lemma pair_of_update: "pair_of (AList.update a g ps) n = (if a = n then g else pair_of ps n)"
  by (simp add: pair_of_def update_conv')

lemma pick_insert: "x \<in> pick A d \<Longrightarrow> x \<in> pick (insert d A) e"
  by (auto simp: pick_def split: if_splits)

lemma pair_loop_halves:
  "pair_loop cs ps = Inr qs \<Longrightarrow> gp_objects (pair_of qs n) \<in> pick (objects_of cs n) (gp_objects (pair_of ps n)) \<and>
     gp_refs (pair_of qs n) \<in> pick (refs_of cs n) (gp_refs (pair_of ps n))"
proof (induction cs ps rule: pair_loop.induct)
  case (1 ps)
  then show ?case by (simp add: pick_def)
next
  case (2 c cs ps)
  show ?case
  proof (cases "Kind c = KindGit \<and> Name c = n")
    case False
    with 2 show ?thesis by (auto simp: of_Cons pair_of_update split: if_splits)
  next
    case True
    with 2 show ?thesis by (auto simp: of_Cons pair_of_update split: if_splits intro: pick_insert)
  qed
qed

lemma pair_loop_keys:
  "pair_loop cs ps = Inr qs \<Longrightarrow> distinct (map fst ps) \<Longrightarrow> distinct (map fst qs) \<and>
     fst ` set qs = fst ` set ps \<union> Name ` {c \<in> set cs. Kind c = KindGit}"
proof (induction cs ps rule: pair_loop.induct)
  case (2 c cs ps)
  have "Name ` {x \<in> set (c # cs). Kind x = KindGit} =
      (if Kind c = KindGit then insert (Name c) (Name ` {x \<in> set cs. Kind x = KindGit})
       else Name ` {x \<in> set cs. Kind x = KindGit})"
    by auto
  with 2 show ?case by (simp add: distinct_update dom_update split: if_splits)
qed auto

lemma pair_loop_Inl:
  "pair_loop cs ps = Inl e \<Longrightarrow> \<exists>c\<in>set cs. Kind c = KindGit \<and> \<not> suffix ''.tar'' (Path c)"
  by (induction cs ps rule: pair_loop.induct) (auto split: if_splits)

lemma torn_pair_None:
  "torn_pair ps = None \<longleftrightarrow> (\<forall>(n, g)\<in>set ps. gp_objects g \<noteq> '''' \<and> gp_refs g \<noteq> '''')"
  by (induction ps rule: torn_pair.induct) auto

lemma has_of: "has_objects m n \<longleftrightarrow> objects_of (Components m) n \<noteq> {}" "has_refs m n \<longleftrightarrow> refs_of (Components m) n \<noteq> {}"
  unfolding has_objects_def has_refs_def objects_of_def refs_of_def list_ex_iff by auto

lemma of_full: "'''' \<notin> objects_of cs n" "'''' \<notin> refs_of cs n"
  unfolding objects_of_def refs_of_def by auto

subsection \<open>What a restore stores in the keystore\<close>

lemma deploys_stores:
  assumes "\<not> rotates n" "only_calls deploy_call m"
  shows "only_calls (\<lambda>k. \<not> stores_key n k) m"
  by (rule calls_weaken [OF assms(2)]) (use assms(1) in \<open>auto simp: deploy_call_def stores_key_def\<close>)

text \<open>After the keys are installed, a restore stores only keys that rotate.\<close>

lemma restore_rest_stores:
  assumes "\<not> rotates n"
  shows "only_calls (\<lambda>k. \<not> stores_key n k) (restore_ci db c dir m)"
    "only_calls (\<lambda>k. \<not> stores_key n k) (place_state h c dir m b ks remoteDir)"
    "only_calls (\<lambda>k. \<not> stores_key n k) (restore_blobs c dir m bl)"
    "only_calls (\<lambda>k. \<not> stores_key n k) (run_deploy env al h c b m os)"
  unfolding restore_ci_def reconcile_ci_def reconcile_steps_def place_state_def
    place_repos_def place_one_repo_def extract_remote_tar_def stream_file_to_remote_def stream_to_def chown_state_def
    verify_forge_can_use_placed_def restore_blobs_def restore_one_blob_def run_deploy_def Let_def
  by (intro calls_intros up_deploys [THEN deploys_stores [OF assms]] helper_deploys [THEN deploys_stores [OF assms]]
      checks_deploys [THEN deploys_stores [OF assms]]; simp add: stores_key_def)+

lemma install_keys_preceded: "preceded (stores_key n) (found_absent target c n) (install_keys c dir m target)"
proof -
  have body: "preceded (stores_key n) (found_absent target c n) (case writer target of
      None \<Rightarrow> fail e
    | Some st \<Rightarrow> install_loop c dir (key_components m) target st 0 keyNames)" for e
    by (cases "writer target") (simp_all add: install_loop_preceded preceded_none calls_fail)
  have calls: "only_calls (\<lambda>_. True) (case writer target of
      None \<Rightarrow> fail e
    | Some st \<Rightarrow> install_loop c dir (key_components m) target st 0 keyNames)" for e
    by (intro calls_intros install_loop_calls)
  show ?thesis
    unfolding install_keys_def
  proof (rule preceded_bnd)
    fix x
    show "preceded (stores_key n) (found_absent target c n) (bnd (reported ''install-keys'' (case writer target of
         None \<Rightarrow> fail (errorf ''restore: install key material: target keystore driver cannot store key material'')
       | Some st \<Rightarrow> install_loop c dir (key_components m) target st 0 keyNames)) (\<lambda>n.
     succeeded ''install-keys'' (''installed '' @ nat_str n @ '' key(s), ''
       @ int_str (int (length keyNames) - int n) @ '' already present'')))"
      by (rule preceded_seq) (intro preceded_reported body preceded_none calls_intros calls)+
  qed (intro calls_intros calls)+
qed

lemma install_keys_calls: "only_calls (\<lambda>_. True) (install_keys c dir m target)"
  unfolding install_keys_def by (intro calls_intros install_loop_calls)

lemma restore_stores_absent:
  assumes "\<not> rotates n"
  shows "preceded (stores_key n) (found_absent (the (rKeystore os)) c n) (restore env al db cd c os)"
proof -
  have rest: "only_calls (\<lambda>k. \<not> stores_key n k) (bnd (if rReconcileCI os then restore_ci db c dir m else ret ()) (\<lambda>_.
         bnd (place_state h c dir m b ks (rRemoteDir os)) (\<lambda>_. bnd (restore_blobs c dir m bl) (\<lambda>_.
         bnd (run_deploy env al h c b m os) (\<lambda>_. ret m)))))" for dir m h b ks bl
    by (intro calls_intros restore_rest_stores [OF assms])
  have onto: "preceded (stores_key n) (found_absent (the (rKeystore os)) c n) (restore_onto env al db c os dir m)" for dir m
    unfolding restore_onto_def Let_def
    by (intro preceded_seq install_keys_preceded preceded_none rest install_keys_calls only_callsI_bound [OF rest])
  have fetch: "only_calls (\<lambda>k. \<not> stores_key n k) (fetch_snapshot c os archive)" for archive
    by (rule calls_weaken [OF fetch_calls]) (auto simp: touches_target_def stores_key_def)
  have "preceded (stores_key n) (found_absent (the (rKeystore os)) c n) (restore_body env al db cd c os)"
    unfolding restore_body_def Let_def
    by (intro preceded_bnd [OF fetch] preceded_bnd [OF decrypt_and_verify_calls] onto calls_intros
        decrypt_and_verify_calls restore_onto_calls)
  then show ?thesis by (rule restore_body_preceded)
qed

subsection \<open>The repositories a restore places\<close>

lemma passes_collect:
  assumes "\<And>y. only_calls (\<lambda>_. True) (f y)" "passes (f x) G"
  shows "x \<in> set xs \<Longrightarrow> passes (collect f xs) G"
proof (induction xs)
  case (Cons y ys)
  have rest: "only_calls (\<lambda>_. True) (bnd (collect f ys) (\<lambda>zs. ret (z # zs)))" for z
    by (intro calls_intros assms(1))
  show ?case
  proof (cases "x = y")
    case True
    show ?thesis unfolding collect.simps True [symmetric] by (rule passes_first [OF assms(2) rest])
  next
    case False
    with Cons have "passes (collect f ys) G" by simp
    then show ?thesis
      unfolding collect.simps by (intro passes_then assms(1) passes_first [of "collect f ys"] calls_intros)
  qed
qed simp

text \<open>A local file that was read to its end into a command of the host that succeeded.\<close>

definition streamed :: "'w host \<Rightarrow> ctx \<Rightarrow> string \<Rightarrow> string \<Rightarrow> 'w proc \<Rightarrow> 'w proc \<Rightarrow> bool" where
  "streamed h c path cmd q q' \<longleftrightarrow> (\<exists>data s out errs. os_open path (fs (world q)) = (Inr (data, None), s) \<and>
     h_run h c cmd (Some data) ((world q)\<lparr>fs := s\<rparr>) = ((None, out, errs), world q'))"

text \<open>The object archive of a pair was extracted into the repository's directory, and then the ref archive.\<close>

definition repo_placed :: "'w host \<Rightarrow> ctx \<Rightarrow> string \<Rightarrow> string \<Rightarrow> string \<Rightarrow> git_pair \<Rightarrow> 'w proc \<Rightarrow> 'w proc \<Rightarrow> bool" where
  "repo_placed h c dir gitRoot name g q q' \<longleftrightarrow> (\<exists>q1.
     streamed h c (join2 dir (gp_objects g)) (extract_command (repo_dir_path gitRoot name)) q q1 \<and>
     streamed h c (join2 dir (gp_refs g)) (extract_command (repo_dir_path gitRoot name)) q1 q')"

lemma stream_to_Ok:
  assumes "stream_to h c path cmd what p = (Ok (), p')"
  shows "streamed h c path cmd p p'"
proof -
  from assms [unfolded stream_to_def] obtain f p1 err out errs where
    f: "locally (on_fs (os_open path)) p = (Ok f, p1)" and r: "host_run_stdin h c cmd f p1 = (Ok (err, out, errs), p')" and e: "err = None"
    by (elim bnd_OkE) (auto dest!: orfail_Ok split: option.splits)
  obtain data fe where d: "f = (data, fe)" by force
  from locally_Ok(1) [OF f] obtain s where s: "os_open path (fs (world p)) = (Inr f, s)" "world p1 = (world p)\<lparr>fs := s\<rparr>"
    by (auto elim: on_fsE)
  from call_Ok(1) [OF r [unfolded host_run_stdin_def]] e d s(2)
  have "fe = None" "h_run h c cmd (Some data) ((world p)\<lparr>fs := s\<rparr>) = ((None, out, errs), world p')"
    by (auto split: prod.splits option.splits)
  with s(1) d show ?thesis unfolding streamed_def by blast
qed

lemma place_one_repo_Ok:
  assumes "place_one_repo h c dir gitRoot name g p = (Ok (), p')"
  shows "repo_placed h c dir gitRoot name g p p'"
  using assms unfolding place_one_repo_def extract_remote_tar_def Let_def repo_placed_def
  by (elim bnd_OkE) (auto dest!: orfail_Ok stream_to_Ok)

lemma place_one_repo_calls: "only_calls (\<lambda>_. True) (place_one_repo h c dir gitRoot name g)"
  unfolding place_one_repo_def extract_remote_tar_def stream_to_def Let_def by (intro calls_intros; simp)

lemma place_repos_passes:
  assumes "n \<in> set names"
  shows "passes (place_repos h c dir gitRoot ps names) (repo_placed h c dir gitRoot n (pair_of ps n))"
proof -
  have "passes (place_one_repo h c dir gitRoot n (pair_of ps n)) (repo_placed h c dir gitRoot n (pair_of ps n))"
    by (rule passes_whole [OF place_one_repo_calls]) (rule place_one_repo_Ok, simp)
  then show ?thesis
    unfolding place_repos_def
    by (intro passes_collect [OF _ _ assms] passes_then [OF calls_locally] passes_first calls_intros place_one_repo_calls)
qed

text \<open>A step that only looks at a value.\<close>

lemma reported_Inr: "x = Inr y \<Longrightarrow> bnd (reported st (of_sum x)) f = f y"
  by (rule ext) (simp add: bnd_def handle_def ret_def)

lemma reported_Inl: "x = Inl e \<Longrightarrow> bnd (reported st (of_sum x)) f = fail_step st e"
  by (rule ext) (auto simp: bnd_def handle_def fail_def fail_step_def split: prod.splits res.splits)

lemma place_state_passes:
  assumes "git_component_pairs m = Inr (ps, names)" "n \<in> set names"
  shows "passes (place_state h c dir m b ks root) (repo_placed h c dir (git_state_path root) n (pair_of ps n))"
proof -
  show ?thesis
    unfolding place_state_def Let_def reported_Inr [OF assms(1)] prod.case
    by (intro passes_then [OF calls_emit] passes_first [OF passes_reported [OF place_repos_passes [OF assms(2)]]])
      (unfold stream_file_to_remote_def stream_to_def chown_state_def verify_forge_can_use_placed_def,
        intro calls_intros helper_deploys [THEN only_callsI_bound] checks_deploys [THEN only_callsI_bound]; simp)
qed

lemma place_state_refuses:
  assumes "git_component_pairs m = Inl e"
  shows "only_calls (\<lambda>_. False) (place_state h c dir m b ks root)" "place_state h c dir m b ks root p \<noteq> (Ok (), p')"
proof -
  have eq: "place_state h c dir m b ks root =
      bnd (started ''place-state'' ''restoring git repositories and database onto host'') (\<lambda>_. fail_step ''place-state'' e)"
    unfolding place_state_def Let_def reported_Inl [OF assms] ..
  show "only_calls (\<lambda>_. False) (place_state h c dir m b ks root)" unfolding eq by (intro calls_intros)
  show "place_state h c dir m b ks root p \<noteq> (Ok (), p')" unfolding eq by (auto elim!: bnd_OkE simp: fail_step_Ok)
qed

lemma pairs_complete:
  "case git_component_pairs m of
     Inl e \<Rightarrow> \<exists>c\<in>set (Components m). Kind c = KindGit \<and>
       (suffix ''.tar'' (Path c) \<longrightarrow> \<not> (has_objects m (Name c) \<and> has_refs m (Name c)))
   | Inr (ps, names) \<Rightarrow> sorted names \<and> distinct names \<and>
       set names = Name ` {c \<in> set (Components m). Kind c = KindGit} \<and>
       (\<forall>n\<in>set names. gp_objects (pair_of ps n) \<in> objects_of (Components m) n \<and>
          gp_refs (pair_of ps n) \<in> refs_of (Components m) n)"
proof (cases "pair_loop (Components m) []")
  case (Inl e)
  with pair_loop_Inl [OF Inl] show ?thesis by (auto simp: git_component_pairs_def)
next
  case (Inr ps)
  note keys = pair_loop_keys [OF Inr]
  have halves: "gp_objects (pair_of ps n) \<in> pick (objects_of (Components m) n) ''''"
    "gp_refs (pair_of ps n) \<in> pick (refs_of (Components m) n) ''''" for n
    using pair_loop_halves [OF Inr, of n] by (simp_all add: pair_of_def no_pair_def)
  have of: "pair_of ps n = g" if "(n, g) \<in> set ps" for n g
    using keys that by (simp add: pair_of_def)
  show ?thesis
  proof (cases "torn_pair ps")
    case None
    have "gp_objects (pair_of ps n) \<in> objects_of (Components m) n \<and> gp_refs (pair_of ps n) \<in> refs_of (Components m) n"
      if n: "n \<in> fst ` set ps" for n
    proof -
      from n obtain g where g: "(n, g) \<in> set ps" by force
      with None have "gp_objects g \<noteq> ''''" "gp_refs g \<noteq> ''''" by (auto simp: torn_pair_None)
      with halves [of n] of [OF g] show ?thesis by (auto simp: pick_def split: if_splits)
    qed
    with None Inr keys show ?thesis by (simp add: git_component_pairs_def)
  next
    case (Some e)
    then obtain n g where g: "(n, g) \<in> set ps" "gp_objects g = '''' \<or> gp_refs g = ''''"
      using torn_pair_None [of ps] by fastforce
    from g(1) have "n \<in> fst ` set ps" by force
    with keys obtain c where c: "c \<in> set (Components m)" "Kind c = KindGit" "Name c = n" by auto
    have "\<not> (has_objects m n \<and> has_refs m n)"
      using g halves [of n] of [OF g(1)] of_full by (auto simp: has_of pick_def split: if_splits)
    with c Some Inr show ?thesis by (auto simp: git_component_pairs_def)
  qed
qed

section \<open>Properties\<close>

text \<open>
  C2. A restore touches nothing before the snapshot verified: no key is stored, no host is written to,
  no blob is put and no database is reset until the decrypted snapshot's manifest was read and
  \<open>Verify\<close> accepted it.
\<close>

theorem restore_verifies_first:
  "preceded touches_target (verified_in cd c (join2 (rWorkDir os) ''snapshot'')) (restore env al db cd c os)"
  by (rule restore_verified_first)

text \<open>
  C18. A restore replaces no key material: installing the snapshot's keys makes each store only after the
  target answered, for the same name, that it holds nothing under it; and so does the restore as a whole,
  its deployment included, for every key that does not rotate. A certificate that is due and its key, the
  two that rotate, are the only ones a restore may store over, and only its deployment does.
\<close>

theorem install_stores_absent:
  "preceded (stores_key n) (found_absent target c n) (install_keys c dir m target) \<and>
   preceded (\<lambda>k. stores_key n k \<and> \<not> rotates n) (found_absent (the (rKeystore os)) c n) (restore env al db cd c os)"
proof (rule conjI [OF install_keys_preceded])
  show "preceded (\<lambda>k. stores_key n k \<and> \<not> rotates n) (found_absent (the (rKeystore os)) c n) (restore env al db cd c os)"
  proof (cases "rotates n")
    case True
    then show ?thesis by (intro precededI) simp
  next
    case False
    show ?thesis by (rule preceded_weaken [OF restore_stores_absent [OF False]]) simp
  qed
qed

text \<open>
  C24. A restore places every repository of the snapshot, whole. When the git components pair up, placing
  the state succeeds only after it extracted, for the name of every one of them, an object archive of that
  name and then a ref archive of that name into the repository's directory on the host. Otherwise some
  component has a path of neither kind, or a name that lacks one half as the paths tell them apart, and
  nothing is placed: no call is made and the step fails. The paths tell a ref archive by the ending
  \<open>.refs.tar\<close>, so a repository whose own name ends in \<open>.refs\<close> is refused although its backup wrote both
  (\<open>refs_named_repository_refused\<close>).
\<close>

theorem git_pairs_complete:
  "case git_component_pairs m of
     Inl e \<Rightarrow> (\<exists>c\<in>set (Components m). Kind c = KindGit \<and>
         (suffix ''.tar'' (Path c) \<longrightarrow> \<not> (has_objects m (Name c) \<and> has_refs m (Name c)))) \<and>
       only_calls (\<lambda>_. False) (place_state h c dir m b ks root) \<and> (\<forall>p p'. place_state h c dir m b ks root p \<noteq> (Ok (), p'))
   | Inr (ps, names) \<Rightarrow> sorted names \<and> distinct names \<and>
       set names = Name ` {c \<in> set (Components m). Kind c = KindGit} \<and>
       (\<forall>n\<in>set names. gp_objects (pair_of ps n) \<in> objects_of (Components m) n \<and>
          gp_refs (pair_of ps n) \<in> refs_of (Components m) n \<and>
          passes (place_state h c dir m b ks root) (repo_placed h c dir (git_state_path root) n (pair_of ps n)))"
proof (cases "git_component_pairs m")
  case (Inl e)
  from pairs_complete [of m] show ?thesis
    unfolding Inl sum.case by (intro conjI allI place_state_refuses [OF Inl])
next
  case (Inr r)
  obtain ps names where r: "r = (ps, names)" by force
  from pairs_complete [of m] show ?thesis
    unfolding Inr r sum.case prod.case
    by (intro conjI ballI place_state_passes [OF Inr [unfolded r]]) simp_all
qed

text \<open>
  C39. A repository whose name ends in \<open>.refs\<close> cannot be backed up or restored: the path of its object
  archive reads as a ref archive's, so the snapshot that holds both its halves is refused as lacking the
  objects, by verification and by the restore.
\<close>

definition refs_named :: "string \<Rightarrow> string \<Rightarrow> string \<Rightarrow> snapshot" where
  "refs_named n s s' =
     \<lparr>ForgejoVersion = '''', Timestamp = 0, SnapAlgorithm = DefaultChecksumAlgorithm,
      Components = [mk_component KindGit (n @ ''.refs'') (refs_path (n @ ''.refs'')) s,
        mk_component KindGit (n @ ''.refs'') (archive_path (n @ ''.refs'')) s']\<rparr>"

theorem refs_named_repository_refused:
  "\<not> has_objects (refs_named ''team/app'' s s') ''team/app.refs'' \<and>
   git_component_pairs (refs_named ''team/app'' s s') =
     Inl (errorf (''restore: git component team/app.refs: snapshot is torn '' @ em_dash @ '' missing the object archive''))"
proof -
  have p: "refs_path ''team/app.refs'' = ''repos/team/app.refs.refs.tar''"
    "archive_path ''team/app.refs'' = ''repos/team/app.refs.tar''"
    unfolding refs_path_def archive_path_def by code_simp+
  have s: "suffix ''.refs.tar'' ''repos/team/app.refs.refs.tar''" "suffix ''.refs.tar'' ''repos/team/app.refs.tar''"
    by code_simp+
  show ?thesis
    using p s by (simp add: refs_named_def mk_component_def has_objects_def git_component_pairs_def pair_of_def no_pair_def)
qed

text \<open>
  C32. Every restore comes to an end and says how, under the conditions a deployment needs for it.
\<close>

theorem restore_completes:
  assumes "encodes_runner_config (en_yaml env)"
  shows "completes_on mono (restore env al db cd c os)"
  by (rule restore_completes_on [OF assms])

section \<open>Witnesses\<close>

definition sample_git :: snapshot where
  "sample_git = \<lparr>ForgejoVersion = ''v'', Timestamp = 0, SnapAlgorithm = ''sha256'', Components =
     [mk_component KindGit ''a/b'' ''repos/a/b.refs.tar'' '''', mk_component KindGit ''a/b'' ''repos/a/b.tar'' '''']\<rparr>"

lemma git_pairs_complete_witness: "\<exists>ps. git_component_pairs sample_git = Inr (ps, [''a/b''])"
proof -
  have h: "has_objects sample_git ''a/b''" "has_refs sample_git ''a/b''" by code_simp+
  have c: "\<forall>c\<in>set (Components sample_git). Kind c = KindGit \<and> Name c = ''a/b'' \<and> suffix ''.tar'' (Path c)"
    by code_simp
  have n: "Name ` {c \<in> set (Components sample_git). Kind c = KindGit} = {''a/b''}"
  proof -
    have "map Name (filter (\<lambda>c. Kind c = KindGit) (Components sample_git)) = [''a/b'', ''a/b'']" by code_simp
    then have "set (map Name (filter (\<lambda>c. Kind c = KindGit) (Components sample_git))) = {''a/b''}" by simp
    then show ?thesis by (simp only: set_map set_filter)
  qed
  show ?thesis
  proof (cases "git_component_pairs sample_git")
    case (Inl e)
    have False using conjunct1 [OF git_pairs_complete [of sample_git, unfolded Inl sum.case]] h c by (elim bexE conjE) metis
    then show ?thesis by simp
  next
    case (Inr pn)
    obtain ps names where pn: "pn = (ps, names)" by force
    note g = conjunct2 [OF git_pairs_complete [of sample_git, unfolded Inr pn sum.case prod.case n]]
    have "distinct names \<and> set names = {''a/b''}"
      by (rule conjI [OF conjunct1 [OF g] conjunct1 [OF conjunct2 [OF g]]])
    then have "names = [''a/b'']"
      by (cases names; cases "tl names") (simp_all add: insert_eq_iff)
    then show ?thesis using Inr pn by auto
  qed
qed

lemma restore_completes_witness:
  "completes_on mono (restore (sample_env\<lparr>en_yaml := sample_encoder\<rparr>) sample_acme
     \<lparr>sql_open = (\<lambda>_. aret ()), sql_exec = (\<lambda>_ _ _ _. aret 0)\<rparr> sample_codec Caller
     \<lparr>rRemoteDir = ''/srv'', rWorkDir = ''/w'', rBundle = Some sample_deployment, rSource = None, rSnapshotKey = '''',
      rIdentity = None, rKeystore = None, rBlobs = None, rHost = Some sample_host, rIssuer = None,
      rReconcileCI = True, rQuarantine = False\<rparr>)"
  by (rule restore_completes) (simp add: encodes_runner_config_def sample_encoder_def)

end
