(* ===== verification/Driver.thy ===== *)
theory Driver
  imports Blob Codec
begin

text \<open>
  Drivers outside the tree (\<open>driver/protocol.go\<close>, \<open>driver/exec.go\<close>, \<open>keystore/exec.go\<close>,
  \<open>blob/exec.go\<close>): one run of an executable per call, a JSON request on its standard input and a JSON
  response on its standard output, and the keystore and blob drivers built on it. Running a process and
  \<open>encoding/json\<close> are parameters.
\<close>

section \<open>The protocol\<close>

text \<open>What a driver encodes: the marshalled structures, field by field.\<close>

datatype jval = JStr string | JInt int | JObj "(string \<times> jval) list"

record response =
  rs_ok :: bool
  rs_result :: string
  rs_error :: string

text \<open>
  \<open>xl_run\<close> runs a path with arguments on an input, and returns how the run failed, if it did, and both
  outputs; \<open>xl_response\<close> decodes the envelope.
\<close>

record 'w exec_lib =
  xl_run :: "ctx \<Rightarrow> string \<Rightarrow> string list \<Rightarrow> string \<Rightarrow> 'w world \<Rightarrow> (error option \<times> string \<times> string) \<times> 'w world"
  xl_encode :: "jval \<Rightarrow> string"
  xl_response :: "string \<Rightarrow> string + response"

record exec =
  ex_path :: string
  ex_args :: "string list"
  ex_timeout :: int

definition request :: "string \<Rightarrow> jval \<Rightarrow> jval" where
  "request method params = JObj [(''method'', JStr method), (''params'', params)]"

definition exec_context :: "exec \<Rightarrow> ctx \<Rightarrow> ctx" where
  "exec_context e c = (if ex_timeout e > 0 then WithTimeout c (ex_timeout e) else c)"

text \<open>What a finished run says: the decoded result, or the zero value where there is none.\<close>

definition exec_answer ::
    "'w exec_lib \<Rightarrow> string \<Rightarrow> (string \<Rightarrow> string + 'a) \<Rightarrow> 'a \<Rightarrow> string \<Rightarrow> string \<Rightarrow> error + 'a" where
  "exec_answer xl pre dec zero stdout stderr =
     (case xl_response xl (trim_space stdout) of
        Inl m \<Rightarrow> Inl (errorf (pre @ ''invalid response: '' @ m @ stderr_suffix stderr))
      | Inr rs \<Rightarrow>
          (if \<not> rs_ok rs
           then Inl (errorf (pre @ (if rs_error rs = '''' then ''driver reported failure with no error message'' else rs_error rs)))
           else if rs_result rs = '''' then Inr zero
           else (case dec (rs_result rs) of
                   Inl m \<Rightarrow> Inl (errorf (pre @ ''decode result: '' @ m))
                 | Inr x \<Rightarrow> Inr x)))"

definition invoke ::
    "'w exec_lib \<Rightarrow> exec \<Rightarrow> ctx \<Rightarrow> string \<Rightarrow> jval \<Rightarrow> (string \<Rightarrow> string + 'a) \<Rightarrow> 'a \<Rightarrow> ('w, 'a) act" where
  "invoke xl e c method params dec zero =
     (if ex_path e = '''' then afail (errorf ''driver: exec: no executable path configured'')
      else let c' = exec_context e c; pre = ''driver: exec '' @ method @ '': '' @ ex_path e @ '': ''
           in (\<lambda>w. case xl_run xl c' (ex_path e) (ex_args e) (xl_encode xl (request method params)) w of
                ((Some re, out, err), w') \<Rightarrow>
                  (case ctx_err c' w' of
                     Some ce \<Rightarrow> (Inl (wrapf pre ce), w')
                   | None \<Rightarrow> (Inl (suffixf (wrapf pre re) (stderr_suffix err)), w'))
              | ((None, out, err), w') \<Rightarrow> (exec_answer xl pre dec zero out err, w')))"

text \<open>A call whose result is discarded.\<close>

definition invoke_unit :: "'w exec_lib \<Rightarrow> exec \<Rightarrow> ctx \<Rightarrow> string \<Rightarrow> jval \<Rightarrow> ('w, unit) act" where
  "invoke_unit xl e c method params = invoke xl e c method params (\<lambda>_. Inr ()) ()"

section \<open>The keystore driver\<close>

record resolve_result =
  rr_secret :: string
  rr_found :: "bool option"

definition resolve_answer :: "string \<Rightarrow> resolve_result \<Rightarrow> error + secret" where
  "resolve_answer k rr =
     (let pre = ''keystore: exec: resolve key '' @ quote k @ '': ''
      in case rr_found rr of
           None \<Rightarrow> Inl (errorf (pre @ ''malformed response: the driver omitted '' @ quote ''found''))
         | Some False \<Rightarrow>
             Inl (Err (''keystore: exec: key '' @ quote k
                    @ '' not found: the driver reported found false: keystore: key not found'') [KeystoreNotFound])
         | Some True \<Rightarrow>
             (if blank (rr_secret rr)
              then Inl (errorf (pre @ ''malformed response: the driver reported found true and returned no secret''))
              else (case b64_decode (rr_secret rr) of
                      None \<Rightarrow> Inl (errorf (pre @ ''decode secret: illegal base64 data''))
                    | Some s \<Rightarrow>
                        (if s = '''' then Inl (errorf (pre @ ''malformed response: the driver reported found true and returned an empty secret''))
                         else Inr (Secret s)))))"

definition exec_resolve ::
    "'w exec_lib \<Rightarrow> (string \<Rightarrow> string + resolve_result) \<Rightarrow> exec \<Rightarrow> ctx \<Rightarrow> string \<Rightarrow> ('w, secret) act" where
  "exec_resolve xl dec e c k =
     (if blank k then afail (errorf ''keystore: exec: key name is required'')
      else abnd (ahandle (invoke xl e c ''resolve'' (JObj [(''key'', JStr k)]) dec \<lparr>rr_secret = '''', rr_found = None\<rparr>)
                  (\<lambda>er. afail (wrapf (''keystore: exec: resolve key '' @ quote k @ '': '') er))) (\<lambda>rr.
           asum (resolve_answer k rr)))"

text \<open>The error of a failed store carries neither the secret nor its encoding, and no sentinel.\<close>

definition exec_store :: "'w exec_lib \<Rightarrow> exec \<Rightarrow> ctx \<Rightarrow> string \<Rightarrow> secret \<Rightarrow> ('w, unit) act" where
  "exec_store xl e c k s =
     (if blank k then afail (errorf ''keystore: exec: key name is required'')
      else let encoded = b64_encode (reveal s)
           in ahandle (invoke_unit xl e c ''store'' (JObj [(''key'', JStr k), (''secret'', JStr encoded)]))
                (\<lambda>er. afail (errorf (''keystore: exec: store key '' @ quote k @ '': ''
                               @ redact_all (msg er) [reveal s, encoded]))))"

definition exec_driver :: "'w exec_lib \<Rightarrow> (string \<Rightarrow> string + resolve_result) \<Rightarrow> exec \<Rightarrow> 'w driver" where
  "exec_driver xl dec e = \<lparr>resolve = exec_resolve xl dec e, writer = None, describer = None\<rparr>"

definition writable_exec_driver :: "'w exec_lib \<Rightarrow> (string \<Rightarrow> string + resolve_result) \<Rightarrow> exec \<Rightarrow> 'w driver" where
  "writable_exec_driver xl dec e = (exec_driver xl dec e)\<lparr>writer := Some (exec_store xl e)\<rparr>"

definition exec_keystore ::
    "'w exec_lib \<Rightarrow> (string \<Rightarrow> string + resolve_result) \<Rightarrow> string \<Rightarrow> string list \<Rightarrow> bool \<Rightarrow> 'w driver" where
  "exec_keystore xl dec path as store =
     (let e = \<lparr>ex_path = path, ex_args = as, ex_timeout = 0\<rparr>
      in if store then writable_exec_driver xl dec e else exec_driver xl dec e)"

section \<open>The blob adapter\<close>

text \<open>
  Content travels through a file of the temporary directory \<open>tmp\<close>, which the executable shares.
\<close>

definition exec_list ::
    "'w exec_lib \<Rightarrow> (string \<Rightarrow> string + object list) \<Rightarrow> exec \<Rightarrow> ctx \<Rightarrow> string \<Rightarrow> ('w, object list) act" where
  "exec_list xl dec e c p =
     ahandle (invoke xl e c ''list'' (JObj [(''prefix'', JStr p)]) dec [])
       (\<lambda>er. afail (wrapf ''blob: exec: list: '' er))"

text \<open>The reader removes its file when it is closed; its content is what the open file holds.\<close>

definition exec_get ::
    "'w exec_lib \<Rightarrow> (string \<Rightarrow> string + bool) \<Rightarrow> string \<Rightarrow> exec \<Rightarrow> ctx \<Rightarrow> string \<Rightarrow> ('w, reader) act" where
  "exec_get xl dec tmp e c key =
     (let pre = ''blob: exec: get '' @ key @ '': ''
      in abnd (ahandle (on_fs (os_create_temp tmp ''blob-exec-get-'' '''')) (\<lambda>er. afail (wrapf pre er))) (\<lambda>path.
         abnd (ahandle (invoke xl e c ''get'' (JObj [(''key'', JStr key), (''path'', JStr path)]) dec False)
                 (\<lambda>er. discard path (wrapf pre er))) (\<lambda>notFound.
         if notFound then discard path (Err (pre @ ''blob: not found'') [BlobNotFound])
         else ahandle (on_fs (os_open path)) (\<lambda>er. discard path (wrapf pre er)))))"

definition exec_put ::
    "'w exec_lib \<Rightarrow> string \<Rightarrow> exec \<Rightarrow> ctx \<Rightarrow> string \<Rightarrow> reader \<Rightarrow> int \<Rightarrow> ('w, unit) act" where
  "exec_put xl tmp e c key r n =
     (let pre = ''blob: exec: put '' @ key @ '': ''
      in abnd (ahandle (on_fs (os_create_temp tmp ''blob-exec-put-'' '''')) (\<lambda>er. afail (wrapf pre er))) (\<lambda>path.
         abnd (ahandle (abnd (copy_to path r) (\<lambda>_. abnd (on_fs os_close) (\<lambda>_.
                 invoke_unit xl e c ''put'' (JObj [(''key'', JStr key), (''path'', JStr path), (''size'', JInt n)]))))
                 (\<lambda>er. discard path (wrapf pre er))) (\<lambda>_.
         (\<lambda>w. case os_remove path (fs w) of (_, s) \<Rightarrow> (Inr (), w\<lparr>fs := s\<rparr>)))))"

definition exec_adapter ::
    "'w exec_lib \<Rightarrow> (string \<Rightarrow> string + object list) \<Rightarrow> (string \<Rightarrow> string + bool) \<Rightarrow> string \<Rightarrow> exec \<Rightarrow> 'w adapter" where
  "exec_adapter xl dl dg tmp e =
     \<lparr>blist = exec_list xl dl e, bget = exec_get xl dg tmp e, bput = exec_put xl tmp e\<rparr>"

section \<open>Properties\<close>

lemma errors_is_eq: "errors_is e s \<longleftrightarrow> s \<in> set (sentinels e)"
  by (simp add: errors_is_def)

lemma wrapf_sentinels [simp]: "sentinels (wrapf p e) = sentinels e" "sentinels (suffixf e t) = sentinels e"
  by (simp_all add: wrapf_def suffixf_def)

lemma resolve_answer_absent:
  "resolve_answer k rr = Inl e \<Longrightarrow> errors_is e KeystoreNotFound \<longleftrightarrow> rr_found rr = Some False"
  by (auto simp: resolve_answer_def Let_def split: option.splits bool.splits if_splits)

lemma resolve_answer_found:
  "resolve_answer k rr = Inr s \<Longrightarrow> rr_found rr = Some True \<and> reveal s \<noteq> '''' \<and> b64_decode (rr_secret rr) = Some (reveal s)"
  by (auto simp: resolve_answer_def Let_def split: option.splits bool.splits if_splits)

lemma exec_answer_sentinels: "exec_answer xl pre dec zero out err = Inl e \<Longrightarrow> sentinels e = []"
  by (auto simp: exec_answer_def errorf_def split: sum.splits if_splits)

text \<open>How the run of an executable failed: with a context error or an exit status, never a lookup's answer.\<close>

definition run_error :: "error \<Rightarrow> bool" where
  "run_error e \<longleftrightarrow> (\<forall>s\<in>set (sentinels e). s = CtxDone \<or> (\<exists>n. s = ExitCode n))"

lemma invoke_fails:
  assumes "invoke xl e c m ps dec z w = (Inl er, w')"
    and "\<And>c' p as i w re out err w'. xl_run xl c' p as i w = ((Some re, out, err), w') \<Longrightarrow> run_error re"
  shows "run_error er"
proof (cases "ex_path e = ''''")
  case True
  with assms(1) show ?thesis by (auto simp: invoke_def run_error_def errorf_def)
next
  case False
  obtain re out err w1 where x: "xl_run xl (exec_context e c) (ex_path e) (ex_args e)
      (xl_encode xl (request m ps)) w = ((re, out, err), w1)" using that by (cases "xl_run xl (exec_context e c) (ex_path e) (ex_args e) (xl_encode xl (request m ps)) w") (metis surj_pair)
  show ?thesis
  proof (cases re)
    case None
    with x False assms(1) show ?thesis
      using exec_answer_sentinels by (fastforce simp: invoke_def Let_def run_error_def)
  next
    case (Some r)
    with assms(2) x have "run_error r" by blast
    with x False assms(1) Some show ?thesis
      using ctx_err_sentinels by (fastforce simp: invoke_def Let_def run_error_def split: option.splits)
  qed
qed

text \<open>
  C35. Absence is stated, never inferred: an out-of-tree keystore driver is read as not holding a key
  exactly when its executable answered \<open>found: false\<close> to the call; a failed run, an envelope that does
  not parse, a missing \<open>found\<close>, an empty or undecodable secret are all other failures. So the rotation
  guard above it stores nothing on account of a broken driver.
\<close>

theorem exec_absence_stated:
  assumes "\<And>c p as i w re out err w'. xl_run xl c p as i w = ((Some re, out, err), w') \<Longrightarrow> run_error re"
  shows "errors_is er KeystoreNotFound \<and> exec_resolve xl dec e c k w = (Inl er, w') \<longleftrightarrow>
    (\<exists>rr. \<not> blank k \<and> rr_found rr = Some False \<and> resolve_answer k rr = Inl er \<and>
       invoke xl e c ''resolve'' (JObj [(''key'', JStr k)]) dec \<lparr>rr_secret = '''', rr_found = None\<rparr> w = (Inr rr, w'))"
    (is "?L \<longleftrightarrow> ?R")
proof
  let ?i = "invoke xl e c ''resolve'' (JObj [(''key'', JStr k)]) dec \<lparr>rr_secret = '''', rr_found = None\<rparr>"
  assume L: ?L
  then have k: "\<not> blank k" by (auto simp: exec_resolve_def split: if_splits)
  obtain x w1 where i: "?i w = (x, w1)" by force
  show ?R
  proof (cases x)
    case (Inl ie)
    with i k L have "er = wrapf (''keystore: exec: resolve key '' @ quote k @ '': '') ie"
      by (auto simp: exec_resolve_def abnd_def ahandle_def)
    moreover have "run_error ie" using invoke_fails [OF i [unfolded Inl] assms] .
    ultimately have "\<not> errors_is er KeystoreNotFound" by (auto simp: run_error_def errors_is_eq)
    with L show ?thesis by blast
  next
    case (Inr rr)
    with i k L have r: "resolve_answer k rr = Inl er" "w' = w1"
      by (auto simp: exec_resolve_def abnd_def ahandle_def)
    with L resolve_answer_absent have "rr_found rr = Some False" by blast
    with i k r Inr show ?thesis by blast
  qed
next
  assume ?R
  then show ?L using resolve_answer_absent
    by (auto simp: exec_resolve_def abnd_def ahandle_def)
qed

text \<open>A driver that refuses, and one that finds: what the executable wrote beside its answer is lost.\<close>

lemma refusal_drops_stderr:
  assumes "xl_response xl (trim_space out) = Inr rs" "\<not> rs_ok rs"
  shows "exec_answer xl pre dec zero out err = exec_answer xl pre dec zero out err'"
  using assms by (simp add: exec_answer_def)

text \<open>
  The executable receives the secret intact: what a store sends, decoded by the rules of a resolve's
  answer, is the secret, for every secret but the empty one, which no answer can carry.
\<close>

theorem exec_secret_roundtrip:
  "resolve_answer k \<lparr>rr_secret = b64_encode (reveal s), rr_found = Some True\<rparr> = Inr s \<or> reveal s = ''''"
proof (cases "reveal s = ''''")
  case False
  then have "\<not> blank (b64_encode (reveal s))" by (rule b64_encode_not_blank)
  with False show ?thesis by (cases s) (simp add: resolve_answer_def b64_decode_encode)
qed simp

section \<open>Witnesses\<close>

text \<open>An executable that answers every call with \<open>found: false\<close>.\<close>

definition absent_lib :: "unit exec_lib" where
  "absent_lib = \<lparr>xl_run = (\<lambda>c p as i w. ((None, ''{}'', ''''), w)), xl_encode = (\<lambda>_. ''''),
     xl_response = (\<lambda>_. Inr \<lparr>rs_ok = True, rs_result = ''{}'', rs_error = ''''\<rparr>)\<rparr>"

definition absent_dec :: "string \<Rightarrow> string + resolve_result" where
  "absent_dec _ = Inr \<lparr>rr_secret = '''', rr_found = Some False\<rparr>"

lemma exec_absence_stated_witness:
  "\<exists>er w'. errors_is er KeystoreNotFound \<and>
     exec_resolve absent_lib absent_dec \<lparr>ex_path = ''/d'', ex_args = [], ex_timeout = 0\<rparr> Caller ''k'' sample_world = (Inl er, w')"
proof -
  let ?rr = "\<lparr>rr_secret = '''', rr_found = Some False\<rparr>"
  have run: "run_error re" if "xl_run absent_lib c p as i w = ((Some re, out, err), w')" for c p as i w re out err w'
    using that by (simp add: absent_lib_def)
  have b: "\<not> blank ''k''" by code_simp
  have i: "invoke absent_lib \<lparr>ex_path = ''/d'', ex_args = [], ex_timeout = 0\<rparr> Caller ''resolve'' (JObj [(''key'', JStr ''k'')])
      absent_dec \<lparr>rr_secret = '''', rr_found = None\<rparr> sample_world = (Inr ?rr, sample_world)"
    by (simp add: invoke_def absent_lib_def absent_dec_def exec_answer_def Let_def)
  obtain er where e: "resolve_answer ''k'' ?rr = Inl er" by (simp add: resolve_answer_def Let_def)
  from exec_absence_stated [where xl = absent_lib and k = "''k''" and dec = absent_dec and er = er
      and e = "\<lparr>ex_path = ''/d'', ex_args = [], ex_timeout = 0\<rparr>" and c = Caller and w = sample_world
      and w' = sample_world, OF run] b i e
  show ?thesis by fastforce
qed

end
