(* ===== verification/Dns.thy ===== *)
theory Dns
  imports Driver Address Forge
begin

text \<open>
  The DNS drivers (\<open>dns\<close>: \<open>dns.go\<close>, \<open>print.go\<close>, \<open>cloudflare.go\<close>, \<open>rfc2136.go\<close>, \<open>exec.go\<close>) and their
  choice by the bundle's configuration (\<open>promote/dns.go\<close>). The HTTP client, \<open>encoding/json\<close> and running
  \<open>nsupdate\<close> are parameters.
\<close>

section \<open>Drivers\<close>

text \<open>\<open>BundleTTL\<close>, in nanoseconds. \<open>seconds\<close> is \<open>int(ttl.Seconds())\<close> for a whole number of them.\<close>

definition BundleTTL :: int where "BundleTTL = 60 * 1000000000"

definition seconds :: "int \<Rightarrow> int" where "seconds ttl = ttl div 1000000000"

text \<open>The print driver reports on the job of the operation; every other is called.\<close>

datatype 'w dns_driver =
  PrintDriver
| CallDriver (dns_set: "ctx \<Rightarrow> string \<Rightarrow> string \<Rightarrow> int \<Rightarrow> ('w, unit) act") (dns_delete: "ctx \<Rightarrow> string \<Rightarrow> ('w, unit) act")

definition record_type :: "string \<Rightarrow> string" where
  "record_type v = (case parse_ip v of None \<Rightarrow> ''CNAME'' | Some ip \<Rightarrow> if to4 ip \<noteq> None then ''A'' else ''AAAA'')"

definition validate_set_args :: "string \<Rightarrow> string \<Rightarrow> int \<Rightarrow> error + unit" where
  "validate_set_args rec v ttl =
     (if blank rec then Inl (errorf ''dns: record name is required'')
      else if blank v then Inl (errorf ''dns: record value is required'')
      else if ttl \<le> 0 then Inl (errorf ''dns: ttl must be positive'')
      else Inr ())"

definition validate_delete_args :: "string \<Rightarrow> error + unit" where
  "validate_delete_args rec = (if blank rec then Inl (errorf ''dns: record name is required'') else Inr ())"

definition print_set :: "string \<Rightarrow> string \<Rightarrow> int \<Rightarrow> ('w, unit) io" where
  "print_set rec v ttl =
     bnd (of_sum (validate_set_args rec v ttl)) (\<lambda>_.
     succeeded ''dns-change'' (''no DNS driver configured '' @ em_dash @ '' apply this record manually: '' @ rec @ '' ''
       @ int_str (seconds ttl) @ '' IN '' @ record_type v @ '' '' @ v))"

definition print_delete :: "string \<Rightarrow> ('w, unit) io" where
  "print_delete rec =
     bnd (of_sum (validate_delete_args rec)) (\<lambda>_.
     succeeded ''dns-change'' (''no DNS driver configured '' @ em_dash @ '' remove this record manually: '' @ rec @ '' (any type)''))"

definition driver_set :: "'w dns_driver \<Rightarrow> ctx \<Rightarrow> string \<Rightarrow> string \<Rightarrow> int \<Rightarrow> ('w, unit) io" where
  "driver_set d c rec v ttl =
     (case d of
        PrintDriver \<Rightarrow> print_set rec v ttl
      | CallDriver s _ \<Rightarrow> call ''dns'' c [''set'', rec, v] (s c rec v ttl))"

definition driver_delete :: "'w dns_driver \<Rightarrow> ctx \<Rightarrow> string \<Rightarrow> ('w, unit) io" where
  "driver_delete d c rec =
     (case d of
        PrintDriver \<Rightarrow> print_delete rec
      | CallDriver _ dl \<Rightarrow> call ''dns'' c [''delete'', rec] (dl c rec))"

definition set_bundle_record :: "ctx \<Rightarrow> 'w dns_driver \<Rightarrow> string \<Rightarrow> string \<Rightarrow> ('w, unit) io" where
  "set_bundle_record c d rec v = driver_set d c rec v BundleTTL"

section \<open>Out-of-tree drivers\<close>

definition exec_set :: "'w exec_lib \<Rightarrow> exec \<Rightarrow> ctx \<Rightarrow> string \<Rightarrow> string \<Rightarrow> int \<Rightarrow> ('w, unit) act" where
  "exec_set xl e c rec v ttl =
     abnd (asum (validate_set_args rec v ttl)) (\<lambda>_.
     ahandle (invoke_unit xl e c ''set'' (JObj [(''record'', JStr rec), (''value'', JStr v), (''ttl'', JInt (seconds ttl))]))
       (\<lambda>er. afail (wrapf (''dns: exec: set '' @ rec @ '': '') er)))"

definition exec_delete :: "'w exec_lib \<Rightarrow> exec \<Rightarrow> ctx \<Rightarrow> string \<Rightarrow> ('w, unit) act" where
  "exec_delete xl e c rec =
     abnd (asum (validate_delete_args rec)) (\<lambda>_.
     ahandle (invoke_unit xl e c ''delete'' (JObj [(''record'', JStr rec)]))
       (\<lambda>er. afail (wrapf (''dns: exec: delete '' @ rec @ '': '') er)))"

section \<open>Cloudflare\<close>

record cf_record =
  cf_id :: string
  cf_type :: string
  cf_name :: string
  cf_content :: string
  cf_ttl :: int
  cf_proxied :: bool

record cf_response =
  cr_success :: bool
  cr_errors :: "(int \<times> string) list"
  cr_result :: string

text \<open>An HTTP exchange: the request cannot be built, fails, its answer cannot be read, or it is answered.\<close>

datatype exchange = NotBuilt string | NotSent error | NotRead error | Answered nat string

record 'w http_lib =
  ht_do :: "ctx \<Rightarrow> string \<Rightarrow> string \<Rightarrow> string \<Rightarrow> string option \<Rightarrow> 'w world \<Rightarrow> exchange \<times> 'w world"
  ht_encode :: "cf_record \<Rightarrow> string"
  ht_envelope :: "string \<Rightarrow> string + cf_response"
  ht_records :: "string \<Rightarrow> string + cf_record list"

record cloudflare =
  cl_zone :: string
  cl_token :: string
  cl_base :: string

definition default_cloudflare_base_url :: string where
  "default_cloudflare_base_url = ''https://api.cloudflare.com/client/v4''"

definition new_cloudflare :: "string \<Rightarrow> string \<Rightarrow> string \<Rightarrow> error + cloudflare" where
  "new_cloudflare zone token base =
     (if zone = '''' then Inl (errorf ''dns: cloudflare: zone id is required'')
      else if token = '''' then Inl (errorf ''dns: cloudflare: api token is required'')
      else Inr \<lparr>cl_zone = zone, cl_token = token,
             cl_base = (if base = '''' then default_cloudflare_base_url else base)\<rparr>)"

definition format_cf_errors :: "(int \<times> string) list \<Rightarrow> string" where
  "format_cf_errors es =
     (if es = [] then ''no error detail returned''
      else join ''; '' (map (\<lambda>(code, m). int_str code @ '': '' @ m) es))"

definition cf_answer :: "'w http_lib \<Rightarrow> (string \<Rightarrow> string + 'a) option \<Rightarrow> 'a \<Rightarrow> exchange \<Rightarrow> error + 'a" where
  "cf_answer hl dec zero r =
     (case r of
        NotBuilt m \<Rightarrow> Inl (errorf (''build request: '' @ m))
      | NotSent e \<Rightarrow> Inl e
      | NotRead e \<Rightarrow> Inl (wrapf ''read response: '' e)
      | Answered st body \<Rightarrow>
          (case ht_envelope hl body of
             Inl m \<Rightarrow> Inl (errorf (''decode response (status '' @ nat_str st @ ''): '' @ m))
           | Inr en \<Rightarrow>
               (if \<not> cr_success en
                then Inl (errorf (''api error (status '' @ nat_str st @ ''): '' @ format_cf_errors (cr_errors en)))
                else (case dec of
                        None \<Rightarrow> Inr zero
                      | Some f \<Rightarrow>
                          (if cr_result en = '''' then Inr zero
                           else (case f (cr_result en) of
                                   Inl m \<Rightarrow> Inl (errorf (''decode result: '' @ m))
                                 | Inr x \<Rightarrow> Inr x))))))"

definition cf_call ::
    "'w http_lib \<Rightarrow> cloudflare \<Rightarrow> ctx \<Rightarrow> string \<Rightarrow> string \<Rightarrow> string option \<Rightarrow> (string \<Rightarrow> string + 'a) option \<Rightarrow> 'a \<Rightarrow> ('w, 'a) act" where
  "cf_call hl d c method path body dec zero = (\<lambda>w.
     case ht_do hl c method (cl_base d @ ''/zones/'' @ cl_zone d @ path) (cl_token d) body w of
       (r, w') \<Rightarrow> (cf_answer hl dec zero r, w'))"

definition cf_list :: "'w http_lib \<Rightarrow> cloudflare \<Rightarrow> ctx \<Rightarrow> string \<Rightarrow> ('w, cf_record list) act" where
  "cf_list hl d c name = cf_call hl d c ''GET'' (''/dns_records?name='' @ name) None (Some (ht_records hl)) []"

definition cf_delete_record :: "'w http_lib \<Rightarrow> cloudflare \<Rightarrow> ctx \<Rightarrow> string \<Rightarrow> ('w, unit) act" where
  "cf_delete_record hl d c i = cf_call hl d c ''DELETE'' (''/dns_records/'' @ i) None None ()"

fun cf_delete_all :: "'w http_lib \<Rightarrow> cloudflare \<Rightarrow> ctx \<Rightarrow> cf_record list \<Rightarrow> ('w, unit) act" where
  "cf_delete_all hl d c [] = aret ()"
| "cf_delete_all hl d c (r # rs) = abnd (cf_delete_record hl d c (cf_id r)) (\<lambda>_. cf_delete_all hl d c rs)"

definition cf_set :: "'w http_lib \<Rightarrow> cloudflare \<Rightarrow> ctx \<Rightarrow> string \<Rightarrow> string \<Rightarrow> int \<Rightarrow> ('w, unit) act" where
  "cf_set hl d c rec v ttl =
     abnd (asum (validate_set_args rec v ttl)) (\<lambda>_.
     ahandle
       (abnd (cf_list hl d c rec) (\<lambda>rs.
        abnd (cf_delete_all hl d c rs) (\<lambda>_.
        cf_call hl d c ''POST'' ''/dns_records''
          (Some (ht_encode hl \<lparr>cf_id = '''', cf_type = record_type v, cf_name = rec, cf_content = v,
             cf_ttl = seconds ttl, cf_proxied = False\<rparr>)) None ())))
       (\<lambda>e. afail (wrapf (''dns: cloudflare: set '' @ rec @ '': '') e)))"

definition cf_delete :: "'w http_lib \<Rightarrow> cloudflare \<Rightarrow> ctx \<Rightarrow> string \<Rightarrow> ('w, unit) act" where
  "cf_delete hl d c rec =
     abnd (asum (validate_delete_args rec)) (\<lambda>_.
     ahandle (abnd (cf_list hl d c rec) (\<lambda>rs. cf_delete_all hl d c rs))
       (\<lambda>e. afail (wrapf (''dns: cloudflare: delete '' @ rec @ '': '') e)))"

section \<open>RFC 2136\<close>

record rfc2136 =
  rf_server :: string
  rf_zone :: string
  rf_key_name :: string
  rf_key_secret :: string
  rf_algorithm :: string
  rf_command :: string
  rf_args :: "string list"

definition default_tsig_algorithm :: string where "default_tsig_algorithm = ''hmac-sha256''"

definition new_rfc2136 :: "rfc2136 \<Rightarrow> error + rfc2136" where
  "new_rfc2136 cfg =
     (if blank (rf_server cfg) then Inl (errorf ''dns: rfc2136: server is required'')
      else if blank (rf_zone cfg) then Inl (errorf ''dns: rfc2136: zone is required'')
      else if blank (rf_key_name cfg) then Inl (errorf ''dns: rfc2136: tsig key name is required'')
      else if blank (rf_key_secret cfg) then Inl (errorf ''dns: rfc2136: tsig key secret is required'')
      else Inr (cfg\<lparr>rf_algorithm := (if rf_algorithm cfg = '''' then default_tsig_algorithm else rf_algorithm cfg),
             rf_command := (if rf_command cfg = '''' then ''nsupdate'' else rf_command cfg)\<rparr>))"

text \<open>\<open>net.SplitHostPort\<close>; \<open>None\<close> for every error it can return.\<close>

definition split_host_port :: "string \<Rightarrow> (string \<times> string) option" where
  "split_host_port s =
     (case cut (CHR '':'') (rev s) of
        None \<Rightarrow> None
      | Some (rp, rh) \<Rightarrow>
          (let pre = rev rh; port = rev rp
           in if s \<noteq> '''' \<and> hd s = CHR ''[''
              then (case cut (CHR '']'') s of
                      None \<Rightarrow> None
                    | Some (a, rest) \<Rightarrow>
                        (if pre = a @ '']'' \<and> CHR ''['' \<notin> set (tl s) \<and> CHR '']'' \<notin> set rest
                         then Some (tl a, port) else None))
              else if CHR '':'' \<in> set pre \<or> CHR ''['' \<in> set s \<or> CHR '']'' \<in> set s then None
              else Some (pre, port)))"

definition split_server_addr :: "string \<Rightarrow> string \<times> string" where
  "split_server_addr server = (case split_host_port server of None \<Rightarrow> (server, ''53'') | Some hp \<Rightarrow> hp)"

definition rf_header :: "rfc2136 \<Rightarrow> string" where
  "rf_header d =
     (case split_server_addr (rf_server d) of (h, p) \<Rightarrow>
        ''key '' @ rf_algorithm d @ '':'' @ rf_key_name d @ '' '' @ rf_key_secret d @ nl
        @ ''server '' @ h @ '' '' @ p @ nl @ ''zone '' @ rf_zone d @ nl)"

definition rf_set_script :: "rfc2136 \<Rightarrow> string \<Rightarrow> string \<Rightarrow> int \<Rightarrow> string" where
  "rf_set_script d rec v ttl =
     rf_header d @ ''update delete '' @ rec @ nl
     @ ''update add '' @ rec @ '' '' @ int_str (seconds ttl) @ '' '' @ record_type v @ '' '' @ v @ nl @ ''send'' @ nl"

definition rf_delete_script :: "rfc2136 \<Rightarrow> string \<Rightarrow> string" where
  "rf_delete_script d rec = rf_header d @ ''update delete '' @ rec @ nl @ ''send'' @ nl"

definition rf_run :: "'w exec_lib \<Rightarrow> rfc2136 \<Rightarrow> ctx \<Rightarrow> string \<Rightarrow> ('w, unit) act" where
  "rf_run xl d c script = (\<lambda>w.
     case xl_run xl c (rf_command d) (rf_args d) script w of
       ((Some e, out, err), w') \<Rightarrow>
         (case ctx_err c w' of
            Some ce \<Rightarrow> (Inl ce, w')
          | None \<Rightarrow> (Inl (suffixf (wrapf (rf_command d @ '': '') e) (stderr_suffix err)), w'))
     | ((None, out, err), w') \<Rightarrow> (Inr (), w'))"

definition rf_set :: "'w exec_lib \<Rightarrow> rfc2136 \<Rightarrow> ctx \<Rightarrow> string \<Rightarrow> string \<Rightarrow> int \<Rightarrow> ('w, unit) act" where
  "rf_set xl d c rec v ttl =
     abnd (asum (validate_set_args rec v ttl)) (\<lambda>_.
     ahandle (rf_run xl d c (rf_set_script d rec v ttl)) (\<lambda>e. afail (wrapf (''dns: rfc2136: set '' @ rec @ '': '') e)))"

definition rf_delete :: "'w exec_lib \<Rightarrow> rfc2136 \<Rightarrow> ctx \<Rightarrow> string \<Rightarrow> ('w, unit) act" where
  "rf_delete xl d c rec =
     abnd (asum (validate_delete_args rec)) (\<lambda>_.
     ahandle (rf_run xl d c (rf_delete_script d rec)) (\<lambda>e. afail (wrapf (''dns: rfc2136: delete '' @ rec @ '': '') e)))"

section \<open>Properties\<close>

lemma driver_calm [calm_intros]:
  "calm_on I (driver_set d c rec v ttl)" "calm_on I (driver_delete d c rec)" "calm_on I (set_bundle_record c d rec v)"
  unfolding set_bundle_record_def driver_set_def driver_delete_def print_set_def print_delete_def
  by (cases d; auto intro!: calm_intros)+

lemma driver_calls [calls_intros]:
  "C (Call ''dns'' c [''set'', rec, v]) \<Longrightarrow> only_calls C (driver_set d c rec v ttl)"
  "C (Call ''dns'' c [''set'', rec, v]) \<Longrightarrow> only_calls C (set_bundle_record c d rec v)"
  unfolding set_bundle_record_def driver_set_def print_set_def
  by (cases d; auto intro!: calls_intros)+

subsection \<open>Cloudflare as a zone\<close>

text \<open>
  What the API does to a zone, by the records \<open>recs\<close> it shows under the name: a listing that succeeds
  shows them, a deletion that succeeds removes the one of that id, a creation that succeeds adds one.
\<close>

definition lists_zone :: "'w http_lib \<Rightarrow> cloudflare \<Rightarrow> ctx \<Rightarrow> string \<Rightarrow> ('w world \<Rightarrow> cf_record list) \<Rightarrow> bool" where
  "lists_zone hl d c name recs \<longleftrightarrow> (\<forall>w rs w'. cf_list hl d c name w = (Inr rs, w') \<longrightarrow> rs = recs w \<and> recs w' = recs w)"

definition deletes_from_zone :: "'w http_lib \<Rightarrow> cloudflare \<Rightarrow> ctx \<Rightarrow> ('w world \<Rightarrow> cf_record list) \<Rightarrow> bool" where
  "deletes_from_zone hl d c recs \<longleftrightarrow> (\<forall>i w w'. cf_delete_record hl d c i w = (Inr (), w') \<longrightarrow>
     recs w' = filter (\<lambda>r. cf_id r \<noteq> i) (recs w))"

definition adds_to_zone :: "'w http_lib \<Rightarrow> cloudflare \<Rightarrow> ctx \<Rightarrow> cf_record \<Rightarrow> ('w world \<Rightarrow> cf_record list) \<Rightarrow> bool" where
  "adds_to_zone hl d c r recs \<longleftrightarrow>
     (\<forall>w w'. cf_call hl d c ''POST'' ''/dns_records'' (Some (ht_encode hl r)) None () w = (Inr (), w') \<longrightarrow>
        (\<exists>i. recs w' = recs w @ [r\<lparr>cf_id := i\<rparr>]))"

definition bundle_cf_record :: "string \<Rightarrow> string \<Rightarrow> int \<Rightarrow> cf_record" where
  "bundle_cf_record rec v ttl = \<lparr>cf_id = '''', cf_type = record_type v, cf_name = rec, cf_content = v,
     cf_ttl = seconds ttl, cf_proxied = False\<rparr>"

lemma delete_all_removes:
  assumes "deletes_from_zone hl d c recs"
  shows "cf_delete_all hl d c rs w = (Inr (), w') \<Longrightarrow> recs w' = filter (\<lambda>r. cf_id r \<notin> cf_id ` set rs) (recs w)"
proof (induction rs arbitrary: w)
  case (Cons r rs)
  then obtain w1 where "cf_delete_record hl d c (cf_id r) w = (Inr (), w1)" "cf_delete_all hl d c rs w1 = (Inr (), w')"
    by (auto simp: abnd_eq)
  with Cons.IH [of w1] assms have "recs w' = filter (\<lambda>r. cf_id r \<notin> cf_id ` set rs) (filter (\<lambda>s. cf_id s \<noteq> cf_id r) (recs w))"
    unfolding deletes_from_zone_def by metis
  moreover have "filter (\<lambda>s. cf_id s \<noteq> cf_id r \<and> cf_id s \<notin> cf_id ` set rs) (recs w) =
      filter (\<lambda>s. cf_id s \<notin> cf_id ` set (r # rs)) (recs w)"
    by (rule filter_cong) auto
  ultimately show ?case by (simp only: filter_filter)
qed simp

text \<open>
  C29. Setting a record through Cloudflare refines replacing everything the zone holds under the name:
  whatever records of whatever types were there, after a set that succeeds there is one, of the type the
  value calls for, with that value and lifetime.
\<close>

theorem cloudflare_set_exact:
  assumes "lists_zone hl d c rec recs" "deletes_from_zone hl d c recs"
    and "adds_to_zone hl d c (bundle_cf_record rec v ttl) recs"
    and "cf_set hl d c rec v ttl w = (Inr (), w')"
  shows "\<exists>i. recs w' = [(bundle_cf_record rec v ttl)\<lparr>cf_id := i\<rparr>]"
proof -
  from assms(4) obtain rs w1 w2 where l: "cf_list hl d c rec w = (Inr rs, w1)"
    and del: "cf_delete_all hl d c rs w1 = (Inr (), w2)"
    and add: "cf_call hl d c ''POST'' ''/dns_records'' (Some (ht_encode hl (bundle_cf_record rec v ttl))) None () w2 = (Inr (), w')"
    by (auto simp: cf_set_def abnd_eq ahandle_eq bundle_cf_record_def)
  from assms(1) l have "rs = recs w" "recs w1 = recs w" by (auto simp: lists_zone_def)
  with delete_all_removes [OF assms(2) del] have "recs w2 = []" by (simp add: filter_empty_conv)
  moreover from assms(3) add have "\<exists>i. recs w' = recs w2 @ [(bundle_cf_record rec v ttl)\<lparr>cf_id := i\<rparr>]"
    unfolding adds_to_zone_def by blast
  ultimately show ?thesis by simp
qed

lemma split_host_port_chars:
  assumes "split_host_port s = Some (h, p)"
  shows "set h \<subseteq> set s" "set p \<subseteq> set s"
proof -
  from assms obtain rp rh where c: "cut (CHR '':'') (rev s) = Some (rp, rh)"
    by (auto simp: split_host_port_def split: option.splits)
  then have r: "rev s = rp @ CHR '':'' # rh" using cut_SomeD by blast
  then have s: "set (rev rp) \<subseteq> set s" "set (rev rh) \<subseteq> set s"
    using arg_cong [OF r, of set] unfolding set_rev set_append list.set by blast+
  have a: "set (tl a) \<subseteq> set s" if "cut (CHR '']'') s = Some (a, b)" for a b
    using cut_SomeD [OF that] by (cases a) auto
  from assms c have "p = rev rp \<and> (h = rev rh \<or> (\<exists>a b. cut (CHR '']'') s = Some (a, b) \<and> h = tl a))"
    by (auto simp: split_host_port_def Let_def split: option.splits if_splits)
  with s a show "set h \<subseteq> set s" "set p \<subseteq> set s" by blast+
qed

lemma split_server_addr_chars:
  assumes "split_server_addr s = (h, p)" "x \<notin> set s" "x \<notin> set ''53''"
  shows "x \<notin> set h" "x \<notin> set p"
  using assms split_host_port_chars [of s h p] by (auto simp: split_server_addr_def split: option.splits)

lemma record_type_no_nl: "CHR 0x0A \<notin> set (record_type v)"
  by (simp add: record_type_def split: option.splits)

text \<open>
  The update script is one transaction of exactly six lines, its addition after the deletion of
  everything under the name, when no part of it holds a line break.
\<close>

theorem rfc2136_one_transaction:
  assumes "\<forall>t\<in>{rf_algorithm d, rf_key_name d, rf_key_secret d, rf_server d, rf_zone d, rec, v}. CHR 0x0A \<notin> set t"
  shows "\<exists>h p. split_server_addr (rf_server d) = (h, p) \<and> split_on (CHR 0x0A) (rf_set_script d rec v ttl) =
    [''key '' @ rf_algorithm d @ '':'' @ rf_key_name d @ '' '' @ rf_key_secret d, ''server '' @ h @ '' '' @ p,
     ''zone '' @ rf_zone d, ''update delete '' @ rec,
     ''update add '' @ rec @ '' '' @ int_str (seconds ttl) @ '' '' @ record_type v @ '' '' @ v, ''send'', '''']"
proof -
  obtain h p where hp: "split_server_addr (rf_server d) = (h, p)" by force
  let ?ls = "[''key '' @ rf_algorithm d @ '':'' @ rf_key_name d @ '' '' @ rf_key_secret d, ''server '' @ h @ '' '' @ p,
     ''zone '' @ rf_zone d, ''update delete '' @ rec,
     ''update add '' @ rec @ '' '' @ int_str (seconds ttl) @ '' '' @ record_type v @ '' '' @ v, ''send'', '''']"
  have "CHR 0x0A \<notin> set h" "CHR 0x0A \<notin> set p"
    using split_server_addr_chars [OF hp, of "CHR 0x0A"] assms by auto
  then have "\<forall>l\<in>set ?ls. CHR 0x0A \<notin> set l"
    using assms digits_no_nl(2) [of "seconds ttl"] record_type_no_nl [of v] by simp
  then have "split_on (CHR 0x0A) (join nl ?ls) = ?ls" by (intro split_on_join) simp_all
  moreover have "join nl ?ls = rf_set_script d rec v ttl"
    by (simp add: rf_set_script_def rf_header_def hp)
  ultimately show ?thesis using hp by (intro exI conjI) (rule hp, simp only:)
qed

section \<open>Witnesses\<close>

text \<open>A zone whose records are the characters of the outside state, and an API that serves it.\<close>

definition zone_record :: "char \<Rightarrow> cf_record" where
  "zone_record ch = (bundle_cf_record ''git.example.org'' (if ch = CHR ''n'' then ''192.0.2.1'' else ''192.0.2.9'') BundleTTL)\<lparr>cf_id := [ch]\<rparr>"

definition zone_api :: "string http_lib" where
  "zone_api =
     \<lparr>ht_do = (\<lambda>c method url tok body w.
        if method = ''GET'' then (Answered 200 (ext w), w)
        else if method = ''DELETE''
        then (Answered 200 '''', w\<lparr>ext := filter (\<lambda>ch. [ch] \<noteq> trim_prefix url ''b/zones/z/dns_records/'') (ext w)\<rparr>)
        else (Answered 200 '''', w\<lparr>ext := ext w @ ''n''\<rparr>)),
      ht_encode = (\<lambda>_. ''{}''),
      ht_envelope = (\<lambda>body. Inr \<lparr>cr_success = True, cr_errors = [], cr_result = body\<rparr>),
      ht_records = (\<lambda>body. Inr (map zone_record body))\<rparr>"

definition sample_cloudflare :: cloudflare where
  "sample_cloudflare = \<lparr>cl_zone = ''z'', cl_token = ''t'', cl_base = ''b''\<rparr>"

definition zone_world :: "string world" where
  "zone_world = \<lparr>ext = ''ab'', fs = sample_fs, ctxerr = (\<lambda>_ _. None)\<rparr>"

lemma zone_serves:
  "lists_zone zone_api sample_cloudflare c name (\<lambda>w. map zone_record (ext w))"
  "deletes_from_zone zone_api sample_cloudflare c (\<lambda>w. map zone_record (ext w))"
  "adds_to_zone zone_api sample_cloudflare c (bundle_cf_record ''git.example.org'' ''192.0.2.1'' BundleTTL)
     (\<lambda>w. map zone_record (ext w))"
proof -
  have [simp]: "cf_id (zone_record ch) = [ch]" for ch by (simp add: zone_record_def)
  have z: "trim_prefix (''b/zones/z/dns_records/'' @ i) ''b/zones/z/dns_records/'' = i" for i by (rule trim_prefix_append)
  show "lists_zone zone_api sample_cloudflare c name (\<lambda>w. map zone_record (ext w))"
    by (auto simp: lists_zone_def cf_list_def cf_call_def zone_api_def cf_answer_def split: if_splits)
  show "deletes_from_zone zone_api sample_cloudflare c (\<lambda>w. map zone_record (ext w))"
    using z by (auto simp: deletes_from_zone_def cf_delete_record_def cf_call_def zone_api_def cf_answer_def
        sample_cloudflare_def filter_map comp_def)
  show "adds_to_zone zone_api sample_cloudflare c (bundle_cf_record ''git.example.org'' ''192.0.2.1'' BundleTTL)
     (\<lambda>w. map zone_record (ext w))"
    by (auto simp: adds_to_zone_def cf_call_def zone_api_def cf_answer_def zone_record_def)
qed

lemma cloudflare_set_exact_witness:
  "\<exists>i. map zone_record (ext (snd (cf_set zone_api sample_cloudflare Caller ''git.example.org'' ''192.0.2.1'' BundleTTL zone_world)))
     = [(bundle_cf_record ''git.example.org'' ''192.0.2.1'' BundleTTL)\<lparr>cf_id := i\<rparr>]"
proof -
  let ?r = "cf_set zone_api sample_cloudflare Caller ''git.example.org'' ''192.0.2.1'' BundleTTL zone_world"
  have "validate_set_args ''git.example.org'' ''192.0.2.1'' BundleTTL = Inr ()" by code_simp
  then have "fst ?r = Inr ()"
    by (simp add: cf_set_def abnd_def ahandle_def cf_list_def cf_delete_record_def cf_call_def zone_api_def cf_answer_def
        zone_world_def)
  then have "?r = (Inr (), snd ?r)" by (simp add: prod_eq_iff)
  from cloudflare_set_exact [OF zone_serves this] show ?thesis .
qed

definition sample_rfc2136 :: rfc2136 where
  "sample_rfc2136 = \<lparr>rf_server = ''ns.example.org:5353'', rf_zone = ''example.org'', rf_key_name = ''k'', rf_key_secret = ''s'',
     rf_algorithm = ''hmac-sha256'', rf_command = ''nsupdate'', rf_args = []\<rparr>"

lemma rfc2136_one_transaction_witness:
  "length (split_on (CHR 0x0A) (rf_set_script sample_rfc2136 ''git.example.org'' ''192.0.2.1'' BundleTTL)) = 7"
proof -
  have "\<forall>t\<in>{rf_algorithm sample_rfc2136, rf_key_name sample_rfc2136, rf_key_secret sample_rfc2136,
      rf_server sample_rfc2136, rf_zone sample_rfc2136, ''git.example.org'', ''192.0.2.1''}. CHR 0x0A \<notin> set t"
    by (simp add: sample_rfc2136_def)
  from rfc2136_one_transaction [OF this, of BundleTTL] show ?thesis by (elim exE conjE) (erule ssubst, simp)
qed

end
