(* ===== verification/Promote.thy ===== *)
theory Promote
  imports Restore Dns
begin

text \<open>
  Moving an instance to another host and rehearsing that (\<open>promote/promote.go\<close>, \<open>promote/dns.go\<close>,
  \<open>drill/drill.go\<close>): a restore run as a step of the operation, then the DNS flip, or then the smoke job
  and the teardown of the scratch target.
\<close>

section \<open>Choosing the DNS driver\<close>

definition keyCloudflareAPIToken :: string where "keyCloudflareAPIToken = ''dns_cloudflare_api_token''"
definition keyRFC2136TSIGSecret :: string where "keyRFC2136TSIGSecret = ''dns_rfc2136_tsig_secret''"

definition dns_string_config :: "config \<Rightarrow> string \<Rightarrow> error + string" where
  "dns_string_config cfg field =
     (case cfg field of
        None \<Rightarrow> Inl (errorf (''config.'' @ field @ '' is required''))
      | Some (AStr s) \<Rightarrow>
          (if blank s then Inl (errorf (''config.'' @ field @ '' must be a non-empty string'')) else Inr s)
      | Some _ \<Rightarrow> Inl (errorf (''config.'' @ field @ '' must be a non-empty string'')))"

definition resolve_dns_secret :: "'w driver option \<Rightarrow> ctx \<Rightarrow> string \<Rightarrow> ('w, string) io" where
  "resolve_dns_secret d c k =
     (case d of
        None \<Rightarrow> fail (errorf (''resolve '' @ k @ '': keystore driver is required''))
      | Some drv \<Rightarrow>
          bnd (orfail (call ''keystore'' c [''resolve'', k] (resolve drv c k)) (''resolve '' @ k @ '': '')) (\<lambda>s.
          ret (reveal s)))"

definition cloudflare_driver :: "'w http_lib \<Rightarrow> cloudflare \<Rightarrow> 'w dns_driver" where
  "cloudflare_driver hl d = CallDriver (cf_set hl d) (cf_delete hl d)"

definition rfc2136_driver :: "'w exec_lib \<Rightarrow> rfc2136 \<Rightarrow> 'w dns_driver" where
  "rfc2136_driver xl d = CallDriver (rf_set xl d) (rf_delete xl d)"

definition exec_dns_driver :: "'w exec_lib \<Rightarrow> exec \<Rightarrow> 'w dns_driver" where
  "exec_dns_driver xl e = CallDriver (exec_set xl e) (exec_delete xl e)"

definition resolve_cloudflare :: "'w http_lib \<Rightarrow> ctx \<Rightarrow> config \<Rightarrow> 'w driver option \<Rightarrow> ('w, 'w dns_driver) io" where
  "resolve_cloudflare hl c cfg ks =
     orfail
       (bnd (of_sum (dns_string_config cfg ''zoneId'')) (\<lambda>zone.
        bnd (resolve_dns_secret ks c keyCloudflareAPIToken) (\<lambda>token.
        bnd (of_sum (new_cloudflare zone token '''')) (\<lambda>d.
        ret (cloudflare_driver hl d)))))
       ''promote: dns: cloudflare: ''"

definition resolve_rfc2136 :: "'w exec_lib \<Rightarrow> ctx \<Rightarrow> config \<Rightarrow> 'w driver option \<Rightarrow> ('w, 'w dns_driver) io" where
  "resolve_rfc2136 xl c cfg ks =
     orfail
       (bnd (of_sum (dns_string_config cfg ''server'')) (\<lambda>server.
        bnd (of_sum (dns_string_config cfg ''zone'')) (\<lambda>zone.
        bnd (of_sum (dns_string_config cfg ''keyName'')) (\<lambda>keyName.
        bnd (resolve_dns_secret ks c keyRFC2136TSIGSecret) (\<lambda>secret.
        bnd (of_sum (new_rfc2136 \<lparr>rf_server = server, rf_zone = zone, rf_key_name = keyName, rf_key_secret = secret,
               rf_algorithm = (case cfg ''algorithm'' of Some (AStr a) \<Rightarrow> a | _ \<Rightarrow> ''''), rf_command = '''', rf_args = []\<rparr>)) (\<lambda>d.
        ret (rfc2136_driver xl d)))))))
       ''promote: dns: rfc2136: ''"

definition resolve_exec_dns :: "'w exec_lib \<Rightarrow> string \<Rightarrow> config \<Rightarrow> error + 'w dns_driver" where
  "resolve_exec_dns xl name cfg =
     (case dns_string_config cfg ''path'' of
        Inl e \<Rightarrow> Inl (Err (''promote: dns: '' @ name @ '': '' @ msg e
            @ '' (unrecognized driver name, treated as an out-of-tree exec driver)'') (sentinels e))
      | Inr path \<Rightarrow>
          (case args_config ''promote: dns'' name cfg of
             Inl e \<Rightarrow> Inl e
           | Inr as \<Rightarrow> Inr (exec_dns_driver xl \<lparr>ex_path = path, ex_args = as, ex_timeout = 0\<rparr>)))"

definition resolve_dns_driver ::
    "'w http_lib \<Rightarrow> 'w exec_lib \<Rightarrow> ctx \<Rightarrow> string \<Rightarrow> config \<Rightarrow> 'w driver option \<Rightarrow> ('w, 'w dns_driver) io" where
  "resolve_dns_driver hl xl c name cfg ks =
     (if name = '''' then ret PrintDriver
      else if name = ''cloudflare'' then resolve_cloudflare hl c cfg ks
      else if name = ''rfc2136'' then resolve_rfc2136 xl c cfg ks
      else of_sum (resolve_exec_dns xl name cfg))"

section \<open>Promote\<close>

record ('w, 'k) promote_options =
  mRemoteDir :: string
  mWorkDir :: string
  mBundle :: "bundle_data option"
  mSource :: "'w adapter option"
  mSnapshotKey :: string
  mIdentity :: "'k option"
  mKeystore :: "'w driver option"
  mBlobs :: "'w adapter option"
  mHost :: "'w host option"
  mIssuer :: "'w issuer option"
  mDNS :: "'w dns_driver option"
  mDNSRecord :: string
  mDNSValue :: string

definition validate_promote :: "('w, 'k) promote_options \<Rightarrow> error + unit" where
  "validate_promote os =
     (if blank (mWorkDir os) then Inl (errorf ''promote: work directory is required'')
      else if blank (mRemoteDir os) then Inl (errorf ''promote: remote directory is required'')
      else if mBundle os = None then Inl (errorf ''promote: bundle is required'')
      else if mSource os = None then Inl (errorf ''promote: snapshot source is required'')
      else if mIdentity os = None then Inl (errorf ''promote: age identity is required'')
      else if mKeystore os = None then Inl (errorf ''promote: keystore driver is required'')
      else if mBlobs os = None then Inl (errorf ''promote: blob adapter is required'')
      else if mHost os = None then Inl (errorf ''promote: host is required'')
      else if mDNS os = None then Inl (errorf ''promote: dns driver is required'')
      else if blank (mDNSValue os) then Inl (errorf ''promote: dns value is required'')
      else Inr ())"

definition dns_record :: "('w, 'k) promote_options \<Rightarrow> string" where
  "dns_record os = (if \<not> blank (mDNSRecord os) then mDNSRecord os else Domain (b_manifest (the (mBundle os))))"

definition promote_restore :: "('w, 'k) promote_options \<Rightarrow> ('w, 'k) restore_options" where
  "promote_restore os =
     \<lparr>rRemoteDir = mRemoteDir os, rWorkDir = mWorkDir os, rBundle = mBundle os, rSource = mSource os,
      rSnapshotKey = mSnapshotKey os, rIdentity = mIdentity os, rKeystore = mKeystore os, rBlobs = mBlobs os,
      rHost = mHost os, rIssuer = mIssuer os, rReconcileCI = True, rQuarantine = False\<rparr>"

definition promote_onto ::
    "'w env \<Rightarrow> 'w acme_lib \<Rightarrow> 'w sqlite \<Rightarrow> ('w, 'k) codec \<Rightarrow> ctx \<Rightarrow> ('w, 'k) promote_options \<Rightarrow> ('w, snapshot) io" where
  "promote_onto env al db cd c os =
     bnd (subjob (restore env al db cd c (promote_restore os))) (\<lambda>r. of_sum (fst r))"

definition flip_dns :: "ctx \<Rightarrow> ('w, 'k) promote_options \<Rightarrow> ('w, unit) io" where
  "flip_dns c os =
     bnd (started ''dns-flip'' (''updating dns: '' @ dns_record os @ '' -> '' @ mDNSValue os)) (\<lambda>_.
     bnd (reported ''dns-flip''
            (orfail (set_bundle_record c (the (mDNS os)) (dns_record os) (mDNSValue os)) ''promote: update dns: '')) (\<lambda>_.
     succeeded ''dns-flip'' (''dns record '' @ dns_record os @ '' now points to '' @ mDNSValue os)))"

definition promote_steps ::
    "'w env \<Rightarrow> 'w acme_lib \<Rightarrow> 'w sqlite \<Rightarrow> ('w, 'k) codec \<Rightarrow> ctx \<Rightarrow> ('w, 'k) promote_options \<Rightarrow> ('w, unit) io" where
  "promote_steps env al db cd c os =
     bnd (of_sum (validate_promote os)) (\<lambda>_.
     bnd (promote_onto env al db cd c os) (\<lambda>_.
     flip_dns c os))"

definition promote ::
    "'w env \<Rightarrow> 'w acme_lib \<Rightarrow> 'w sqlite \<Rightarrow> ('w, 'k) codec \<Rightarrow> ctx \<Rightarrow> ('w, 'k) promote_options \<Rightarrow> ('w, unit) io" where
  "promote env al db cd c os =
     as_job (\<lambda>_. ''failed over to a fresh host and flipped '' @ dns_record os @ '' to '' @ mDNSValue os)
       (promote_steps env al db cd c os)"

section \<open>Drill\<close>

record ('w, 'k) drill_options =
  dRemoteDir :: string
  dWorkDir :: string
  dBundle :: "bundle_data option"
  dSource :: "'w adapter option"
  dIdentity :: "'k option"
  dKeystore :: "'w driver option"
  dBlobs :: "'w adapter option"
  dHost :: "'w host option"
  dIssuer :: "'w issuer option"
  dNow :: "int option"
  dSmokeTimeout :: int

definition teardown_timeout :: int where "teardown_timeout = 300 * 1000000000"

definition validate_drill :: "('w, 'k) drill_options \<Rightarrow> error + unit" where
  "validate_drill os =
     (if blank (dWorkDir os) then Inl (errorf ''drill: work directory is required'')
      else if blank (dRemoteDir os) then Inl (errorf ''drill: remote directory is required'')
      else if dBundle os = None then Inl (errorf ''drill: bundle is required'')
      else if dSource os = None then Inl (errorf ''drill: snapshot source is required'')
      else if dIdentity os = None then Inl (errorf ''drill: age identity is required'')
      else if dKeystore os = None then Inl (errorf ''drill: keystore driver is required'')
      else if dBlobs os = None then Inl (errorf ''drill: blob adapter is required'')
      else if dHost os = None then Inl (errorf ''drill: host is required'')
      else Inr ())"

definition drill_now :: "('w, 'k) drill_options \<Rightarrow> ('w, int) io" where
  "drill_now os = (case dNow os of None \<Rightarrow> now | Some t \<Rightarrow> ret t)"

record failure =
  fl_step :: string
  fl_detail :: string

definition failure_error :: "failure \<Rightarrow> string" where
  "failure_error f =
     (if fl_step f = '''' then ''drill: failed before any step reported an outcome: '' @ fl_detail f
      else ''drill: failed at step '' @ quote (fl_step f) @ '': '' @ fl_detail f)"

record report =
  rp_snapshot :: string
  rp_age :: int
  rp_smoke :: string
  rp_failure :: "failure option"
  rp_teardown :: "failure option"

definition no_report :: report where
  "no_report = \<lparr>rp_snapshot = '''', rp_age = 0, rp_smoke = '''', rp_failure = None, rp_teardown = None\<rparr>"

definition report_succeeded :: "report \<Rightarrow> bool" where
  "report_succeeded r \<longleftrightarrow> rp_failure r = None \<and> rp_teardown r = None"

definition report_clean :: "report \<Rightarrow> bool" where
  "report_clean r \<longleftrightarrow> rp_teardown r = None"

text \<open>\<open>Duration.Round(time.Second)\<close>, half away from zero, of a duration that is not negative.\<close>

definition round_second :: "int \<Rightarrow> int" where
  "round_second d =
     (let r = d mod 1000000000
      in if 2 * r < 1000000000 then d - r
         else if d + 1000000000 - r > max_duration then max_duration else d + 1000000000 - r)"

definition resolve_snapshot :: "ctx \<Rightarrow> ('w, 'k) drill_options \<Rightarrow> ('w, string \<times> int) io" where
  "resolve_snapshot c os =
     bnd (started ''resolve-snapshot'' ''resolving the most recent snapshot'') (\<lambda>_.
     bnd (drill_now os) (\<lambda>t.
     bnd (reported ''resolve-snapshot''
            (orfail (call ''source'' c [''age''] (snapshot_age c (dSource os) '''' t)) ''drill: resolve most recent snapshot: '')) (\<lambda>(key, age).
     bnd (succeeded ''resolve-snapshot'' (''drilling snapshot '' @ key @ '', captured '' @ duration_str (round_second age) @ '' ago'')) (\<lambda>_.
     ret (key, age)))))"

definition drill_restore :: "('w, 'k) drill_options \<Rightarrow> string \<Rightarrow> ('w, 'k) restore_options" where
  "drill_restore os key =
     \<lparr>rRemoteDir = dRemoteDir os, rWorkDir = dWorkDir os, rBundle = dBundle os, rSource = dSource os,
      rSnapshotKey = key, rIdentity = dIdentity os, rKeystore = dKeystore os, rBlobs = dBlobs os,
      rHost = dHost os, rIssuer = dIssuer os, rReconcileCI = False, rQuarantine = True\<rparr>"

text \<open>The step of the first failure among the events a restore relays.\<close>

fun failed_step :: "event list \<Rightarrow> string" where
  "failed_step [] = ''''"
| "failed_step (e # es) =
     (if ev_step e \<noteq> '''' \<and> ev_state e = StateFailed then ev_step e else failed_step es)"

definition drill_onto ::
    "'w env \<Rightarrow> 'w acme_lib \<Rightarrow> 'w sqlite \<Rightarrow> ('w, 'k) codec \<Rightarrow> ctx \<Rightarrow> ('w, 'k) drill_options \<Rightarrow> string \<Rightarrow>
     ('w, string \<times> (error + snapshot)) io" where
  "drill_onto env al db cd c os key =
     bnd (subjob (restore env al db cd c (drill_restore os key))) (\<lambda>(r, evs). ret (failed_step evs, r))"

definition torn_down :: "('w, 'k) drill_options \<Rightarrow> error + unit \<Rightarrow> ('w, failure option) io" where
  "torn_down os r =
     (case r of
        Inl e \<Rightarrow>
          bnd (emit ''teardown'' StateFailed (msg e)) (\<lambda>_.
          ret (Some \<lparr>fl_step = ''teardown'', fl_detail = msg e\<rparr>))
      | Inr _ \<Rightarrow>
          bnd (succeeded ''teardown'' (''scratch target left clean: the drilled instance''
               @ [squote] @ ''s containers are gone and '' @ dRemoteDir os @ '' has been removed'')) (\<lambda>_.
          ret None))"

definition teardown :: "ctx \<Rightarrow> ('w, 'k) drill_options \<Rightarrow> ('w, failure option) io" where
  "teardown c os =
     bnd (started ''teardown'' ''removing the rehearsal from the scratch target'') (\<lambda>_.
     bnd (attempt (orfail (down (dHost os) (WithTimeout (WithoutCancel c) teardown_timeout) (dBundle os) (dRemoteDir os))
            ''drill: tear down the scratch target: '')) (\<lambda>r.
     torn_down os r))"

definition rehearse ::
    "'w env \<Rightarrow> 'w acme_lib \<Rightarrow> 'w sqlite \<Rightarrow> ('w, 'k) codec \<Rightarrow> ctx \<Rightarrow> ('w, 'k) drill_options \<Rightarrow> ('w, report) io" where
  "rehearse env al db cd c os =
     bnd (attempt (resolve_snapshot c os)) (\<lambda>r.
     case r of
       Inl e \<Rightarrow> ret (no_report\<lparr>rp_failure := Some \<lparr>fl_step = ''resolve-snapshot'', fl_detail = msg e\<rparr>\<rparr>)
     | Inr (key, age) \<Rightarrow>
         (let rp = no_report\<lparr>rp_snapshot := key, rp_age := age\<rparr>
          in bnd (drill_onto env al db cd c os key) (\<lambda>(step, r).
             case r of
               Inl e \<Rightarrow> ret (rp\<lparr>rp_failure := Some \<lparr>fl_step = step, fl_detail = msg e\<rparr>\<rparr>)
             | Inr _ \<Rightarrow>
                 bnd (attempt (smoke_ci c (compose_runner (the (dHost os)) (dRemoteDir os) (the (dBundle os)))
                        \<lparr>Repository = '''', smTimeout = dSmokeTimeout os, smPoll = 0\<rparr>)) (\<lambda>r.
                 case r of
                   Inl e \<Rightarrow> ret (rp\<lparr>rp_failure := Some \<lparr>fl_step = ''smoke-ci'', fl_detail = msg e\<rparr>\<rparr>)
                 | Inr repo \<Rightarrow> ret (rp\<lparr>rp_smoke := repo\<rparr>)))))"

definition drill_steps ::
    "'w env \<Rightarrow> 'w acme_lib \<Rightarrow> 'w sqlite \<Rightarrow> ('w, 'k) codec \<Rightarrow> ctx \<Rightarrow> ('w, 'k) drill_options \<Rightarrow> ('w, report) io" where
  "drill_steps env al db cd c os =
     (case validate_drill os of
        Inl e \<Rightarrow> ret (no_report\<lparr>rp_failure := Some \<lparr>fl_step = '''', fl_detail = msg e\<rparr>\<rparr>)
      | Inr _ \<Rightarrow>
          bnd (rehearse env al db cd c os) (\<lambda>rp.
          bnd (teardown c os) (\<lambda>t. ret (rp\<lparr>rp_teardown := t\<rparr>))))"

text \<open>The report and the error returned beside it.\<close>

definition drill_outcome :: "report \<Rightarrow> ('w, report \<times> failure option) io" where
  "drill_outcome rp =
     (case (rp_failure rp, rp_teardown rp) of
       (Some f, Some t) \<Rightarrow>
         bnd (job_failed (failure_error f @ ''; the scratch target was also left dirty: '' @ fl_detail t)) (\<lambda>_. ret (rp, Some f))
     | (Some f, None) \<Rightarrow> bnd (job_failed (failure_error f)) (\<lambda>_. ret (rp, Some f))
     | (None, Some t) \<Rightarrow> bnd (job_failed (failure_error t)) (\<lambda>_. ret (rp, Some t))
     | (None, None) \<Rightarrow>
         bnd (job_succeeded (''drill succeeded: snapshot '' @ rp_snapshot rp @ '' (captured '' @ duration_str (round_second (rp_age rp))
                @ '' ago) restored to the scratch target, the full stack booted there, a smoke CI job ran in ''
                @ rp_smoke rp @ '', and the target was torn down'')) (\<lambda>_. ret (rp, None)))"

definition drill ::
    "'w env \<Rightarrow> 'w acme_lib \<Rightarrow> 'w sqlite \<Rightarrow> ('w, 'k) codec \<Rightarrow> ctx \<Rightarrow> ('w, 'k) drill_options \<Rightarrow> ('w, report \<times> failure option) io" where
  "drill env al db cd c os = bnd (drill_steps env al db cd c os) drill_outcome"

section \<open>Facts\<close>

lemma snapshot_age_calm [calm_intros]: "calm_on I (drill_now os)"
  unfolding drill_now_def by (intro calm_intros)

lemma resolve_snapshot_calm: "calm_on I (resolve_snapshot c os)"
  unfolding resolve_snapshot_def by (intro calm_intros; simp)

lemma teardown_calm: "calm_on I (teardown c os)"
  unfolding teardown_def torn_down_def down_def by (intro calm_intros; simp)

lemma drill_onto_calm:
  "encodes_runner_config (en_yaml env) \<Longrightarrow> calm_on mono (drill_onto env al db cd c os key)"
  unfolding drill_onto_def by (intro calm_intros restore_completes_on)

lemma drill_steps_calm:
  assumes "encodes_runner_config (en_yaml env)"
  shows "calm_on mono (drill_steps env al db cd c os)"
  unfolding drill_steps_def rehearse_def Let_def
  by (intro calm_intros resolve_snapshot_calm teardown_calm drill_onto_calm [OF assms])

lemma promote_steps_calm:
  assumes "encodes_runner_config (en_yaml env)"
  shows "calm_on mono (promote_steps env al db cd c os)"
  unfolding promote_steps_def promote_onto_def flip_dns_def
  by (intro calm_intros restore_completes_on assms; simp)

section \<open>Properties\<close>

definition restored_onto ::
    "'w env \<Rightarrow> 'w acme_lib \<Rightarrow> 'w sqlite \<Rightarrow> ('w, 'k) codec \<Rightarrow> ctx \<Rightarrow> ('w, 'k) restore_options \<Rightarrow> 'w proc \<Rightarrow> 'w proc \<Rightarrow> bool" where
  "restored_onto env al db cd c os q q' \<longleftrightarrow> (\<exists>m. restore env al db cd c os q = (Ok m, q'))"

text \<open>
  C14. A promotion touches DNS only once the instance runs on the new host: no driver is called before
  the restore onto that host, with its CI reconciled and the forge up, has succeeded.
\<close>

theorem dns_flips_after_restore:
  "preceded (\<lambda>k. iface k = ''dns'') (restored_onto env al db cd c (promote_restore os)) (promote env al db cd c os)"
proof -
  have none: "only_calls (\<lambda>k. \<not> iface k = ''dns'') (promote_onto env al db cd c os)"
    unfolding promote_onto_def by (intro calls_intros restore_no_dns)
  have done': "passes (promote_onto env al db cd c os) (restored_onto env al db cd c (promote_restore os))"
    unfolding promote_onto_def
    by (intro passes_subjob passes_whole [OF only_callsI_bound [OF restore_no_dns]]) (auto simp: restored_onto_def)
  have flip: "only_calls (\<lambda>_. True) (flip_dns c os)"
    unfolding flip_dns_def by (intro calls_intros; simp)
  show ?thesis
    unfolding promote_def promote_steps_def
    by (intro preceded_as_job preceded_bnd preceded_by [OF none flip done'] calls_intros flip only_callsI_bound [OF none])
qed

lemma torn_down_runs:
  assumes "torn_down os x p = (r, p')" "\<not> job_terminal (job p)"
  shows "\<exists>t. r = Ok t \<and> trace p' = trace p \<and> (t = None \<longleftrightarrow> x = Inr ())"
  using assms by (cases x) (auto simp: torn_down_def bnd_def emit_live)

lemma teardown_runs:
  assumes "teardown c os p = (r, p')" "dHost os = Some h" "\<not> job_terminal (job p)"
  shows "\<exists>t pre ds. r = Ok t \<and> trace p' = trace p @ ds \<and>
    prefix ds (down_plan (WithTimeout (WithoutCancel c) teardown_timeout) (dRemoteDir os) pre) \<and>
    (t = None \<longrightarrow> ds = down_plan (WithTimeout (WithoutCancel c) teardown_timeout) (dRemoteDir os) pre)"
proof -
  let ?tc = "WithTimeout (WithoutCancel c) teardown_timeout"
  let ?down = "down (Some h) ?tc (dBundle os) (dRemoteDir os)"
  let ?m = "attempt (orfail ?down ''drill: tear down the scratch target: '')"
  obtain p1 where s: "started ''teardown'' ''removing the rehearsal from the scratch target'' p = (Ok (), p1)"
    "trace p1 = trace p" "\<not> job_terminal (job p1)"
    using assms(3) by (simp add: emit_live)
  have run: "bnd ?m (torn_down os) p1 = (r, p')"
    using assms(1) s(1) unfolding teardown_def assms(2) bnd_def by simp
  obtain r2 p2 where d: "?down p1 = (r2, p2)" by force
  have c: "calm ?down" unfolding down_def by (intro calm_intros)
  from calmD [OF c d s(3)] have o: "orderly r2" "\<not> job_terminal (job p2)" by auto
  from down_sequence [OF d] s(2) obtain pre ds where t: "trace p2 = trace p @ ds" "prefix ds (down_plan ?tc (dRemoteDir os) pre)"
    "r2 = Ok () \<longrightarrow> ds = down_plan ?tc (dRemoteDir os) pre" by auto
  have "\<exists>x. ?m p1 = (Ok x, p2) \<and> (x = Inr () \<longleftrightarrow> r2 = Ok ())"
    using d o(1) by (cases r2) (auto simp: attempt_def orfail_def handle_def fail_def)
  then obtain x where x: "?m p1 = (Ok x, p2)" "x = Inr () \<longleftrightarrow> r2 = Ok ()" by blast
  have "torn_down os x p2 = (r, p')" using run unfolding bnd_def x(1) by simp
  from torn_down_runs [OF this o(2)] t x(2) show ?thesis by auto
qed

text \<open>A statement that takes every error as a value.\<close>

definition infallible :: "('w, 'a) io \<Rightarrow> bool" where
  "infallible m \<longleftrightarrow> (\<forall>p e. fst (m p) \<noteq> Fail e)"

lemma infallible_ret: "infallible (ret x)"
  by (simp add: infallible_def ret_def)

lemma infallible_bnd: "infallible m \<Longrightarrow> (\<And>x. infallible (k x)) \<Longrightarrow> infallible (bnd m k)"
  by (auto simp: infallible_def bnd_def split: prod.splits res.splits) (metis fst_conv)+

lemma infallible_attempt: "infallible (attempt m)"
  by (auto simp: infallible_def attempt_def split: prod.splits res.splits)

lemma infallible_emit: "infallible (emit st s d)"
  by (auto simp: infallible_def emit_def split: option.splits)

lemma infallible_relay: "infallible (relay es)"
  by (induction es) (auto intro: infallible_ret infallible_bnd infallible_emit)

lemma infallible_relayed: "infallible (bnd (relay es) (\<lambda>_. ret y))"
  by (intro infallible_bnd infallible_relay infallible_ret)

lemma infallible_subjob: "infallible (subjob m)"
  unfolding infallible_def
proof (intro allI notI)
  fix p e
  assume f: "fst (subjob m p) = Fail e"
  let ?p = "p\<lparr>job := new_job (fresh p (ticks p)), ticks := Suc (ticks p)\<rparr>"
  obtain r p1 where a: "attempt m ?p = (r, p1)" by force
  have "r \<noteq> Fail e'" for e'
    using infallible_attempt [of m] a unfolding infallible_def by (metis fst_conv)
  with f a have "\<exists>x. r = Ok x" by (cases r) (auto simp: subjob_def)
  then obtain x where "r = Ok x" by blast
  with f a infallible_relayed [of "job_events (job p1)" "(x, job_events (job p1))"] show False
    by (auto simp: subjob_def infallible_def split: if_splits)
qed

lemma infallible_rehearse: "infallible (rehearse env al db cd c os)"
  unfolding rehearse_def drill_onto_def Let_def
  by (intro infallible_bnd infallible_attempt infallible_subjob)
    (auto intro!: infallible_bnd infallible_attempt infallible_subjob infallible_ret split: sum.splits prod.splits)

lemma rehearse_runs:
  assumes "encodes_runner_config (en_yaml env)" "rehearse env al db cd c os p = (r, p')"
    and "\<not> job_terminal (job p)" "mono (clock p)"
  shows "\<exists>rp bs. r = Ok rp \<and> trace p' = trace p @ bs \<and> \<not> job_terminal (job p')"
proof -
  have calm: "calm_on mono (rehearse env al db cd c os)"
    unfolding rehearse_def Let_def by (intro calm_intros resolve_snapshot_calm drill_onto_calm [OF assms(1)])
  note o = calm_onD [OF calm assms(2-4)]
  have nofail: "\<not> (\<exists>e. r = Fail e)"
    using infallible_rehearse [of env al db cd c os] assms(2) unfolding infallible_def by (metis fst_conv)
  from o nofail have "\<exists>rp. r = Ok rp" by (cases r) auto
  moreover from o obtain bs where "trace p' = trace p @ bs" by (auto simp: extends_def prefix_def)
  ultimately show ?thesis using o by blast
qed

lemma drill_outcome_runs:
  assumes "drill_outcome rp p = (r, p')" "\<not> job_terminal (job p)"
  shows "\<exists>err. r = Ok (rp, err) \<and> trace p' = trace p \<and> (err = None \<longleftrightarrow> report_succeeded rp) \<and> job_terminal (job p') \<and>
    ev_state (last (job_events (job p'))) = (if report_succeeded rp then StateSucceeded else StateFailed)"
  using assms by (cases "rp_failure rp"; cases "rp_teardown rp")
    (auto simp: drill_outcome_def bnd_def emit_live mk_event_def report_succeeded_def)

text \<open>
  C13. A drill whose options passed validation leaves its target clean or says it did not: whatever the
  rehearsal came to, its last calls
  are the teardown's, under a context no cancellation of the drill reaches; it returns a report without a
  teardown failure only when the stack was stopped and the deployment directory removed, and its
  terminal event is a success exactly when rehearsal and teardown both were.
\<close>

theorem drill_tears_down:
  assumes "drill env al db cd c os p = (r, p')" "validate_drill os = Inr ()" "encodes_runner_config (en_yaml env)"
    and "\<not> job_terminal (job p)" "mono (clock p)"
  shows "\<exists>rp err pre bs ds. r = Ok (rp, err) \<and> trace p' = trace p @ bs @ ds \<and>
    prefix ds (down_plan (WithTimeout (WithoutCancel c) teardown_timeout) (dRemoteDir os) pre) \<and>
    (report_clean rp \<longrightarrow> ds = down_plan (WithTimeout (WithoutCancel c) teardown_timeout) (dRemoteDir os) pre) \<and>
    (err = None \<longleftrightarrow> report_succeeded rp) \<and> job_terminal (job p') \<and>
    ev_state (last (job_events (job p'))) = (if report_succeeded rp then StateSucceeded else StateFailed)"
proof -
  from assms(2) obtain h where h: "dHost os = Some h" by (auto simp: validate_drill_def split: if_splits)
  obtain r1 p1 where re: "rehearse env al db cd c os p = (r1, p1)" by force
  from rehearse_runs [OF assms(3) re assms(4,5)] obtain rp bs where 1: "r1 = Ok rp" "trace p1 = trace p @ bs"
    "\<not> job_terminal (job p1)" by blast
  obtain r2 p2 where te: "teardown c os p1 = (r2, p2)" by force
  from teardown_runs [OF te h 1(3)] obtain t pre ds where 2: "r2 = Ok t" "trace p2 = trace p1 @ ds"
    "prefix ds (down_plan (WithTimeout (WithoutCancel c) teardown_timeout) (dRemoteDir os) pre)"
    "t = None \<longrightarrow> ds = down_plan (WithTimeout (WithoutCancel c) teardown_timeout) (dRemoteDir os) pre" by blast
  from calm_onD [OF teardown_calm te 1(3), of "\<lambda>_. True"] have live: "\<not> job_terminal (job p2)" by simp
  let ?rp = "rp\<lparr>rp_teardown := t\<rparr>"
  have "drill_steps env al db cd c os p = (Ok ?rp, p2)"
    using assms(2) re te 1(1) 2(1) by (simp add: drill_steps_def bnd_def ret_def)
  then have fin: "drill_outcome ?rp p2 = (r, p')"
    using assms(1) unfolding drill_def bnd_def by simp
  from drill_outcome_runs [OF fin live] obtain err where 3: "r = Ok (?rp, err)" "trace p' = trace p2"
    "err = None \<longleftrightarrow> report_succeeded ?rp" "job_terminal (job p')"
    "ev_state (last (job_events (job p'))) = (if report_succeeded ?rp then StateSucceeded else StateFailed)" by blast
  have "trace p' = trace p @ bs @ ds" using 1(2) 2(2) 3(2) by simp
  moreover have "report_clean ?rp \<longrightarrow> ds = down_plan (WithTimeout (WithoutCancel c) teardown_timeout) (dRemoteDir os) pre"
    using 2(4) by (simp add: report_clean_def)
  ultimately show ?thesis using 2(3) 3(1,3-5) by blast
qed

section \<open>Witnesses\<close>

definition sample_drill :: "(unit, string) drill_options" where
  "sample_drill = \<lparr>dRemoteDir = ''/srv'', dWorkDir = ''/w'', dBundle = Some sample_deployment, dSource = Some (sample_adapter []),
     dIdentity = Some ''k'', dKeystore = Some sample_driver, dBlobs = Some (sample_adapter []), dHost = Some sample_host,
     dIssuer = None, dNow = None, dSmokeTimeout = 0\<rparr>"

lemma drill_tears_down_witness:
  "\<exists>rp err. fst (drill (sample_env\<lparr>en_yaml := sample_encoder\<rparr>) sample_acme
     \<lparr>sql_open = (\<lambda>_. aret ()), sql_exec = (\<lambda>_ _ _ _. aret 0)\<rparr> sample_codec Caller sample_drill idle_proc) = Ok (rp, err)"
proof -
  let ?d = "drill (sample_env\<lparr>en_yaml := sample_encoder\<rparr>) sample_acme
     \<lparr>sql_open = (\<lambda>_. aret ()), sql_exec = (\<lambda>_ _ _ _. aret 0)\<rparr> sample_codec Caller sample_drill idle_proc"
  have b: "\<not> blank ''/srv''" "\<not> blank ''/w''" by code_simp+
  have v: "validate_drill sample_drill = Inr ()" using b by (simp add: validate_drill_def sample_drill_def)
  have e: "encodes_runner_config (en_yaml (sample_env\<lparr>en_yaml := sample_encoder\<rparr>))"
    by (simp add: encodes_runner_config_def sample_encoder_def)
  have "?d = (fst ?d, snd ?d)" by simp
  from drill_tears_down [OF this v e idle_live] show ?thesis by (auto simp: idle_proc_def mono_def)
qed

end
