(* ===== verification/Exporters.thy ===== *)
theory Exporters
  imports Backup Deploy Driver
begin

text \<open>
  What a backup is taken with (\<open>state/git.go\<close>, \<open>state/database.go\<close>, \<open>backup/git.go\<close>,
  \<open>backup/pushhold.go\<close>, \<open>backup/options.go\<close>): the exporters and capturers on the local file system and
  over a host, the push hold at the web server, and the options that put them together.
\<close>

section \<open>Repositories\<close>

definition remote_less :: "remote \<Rightarrow> remote \<Rightarrow> bool" where
  "remote_less a b \<longleftrightarrow> rName a < rName b"

fun local_repos :: "string \<Rightarrow> string \<Rightarrow> (string \<times> bool) list \<Rightarrow> remote list" where
  "local_repos owner ownerPath [] = []"
| "local_repos owner ownerPath ((name, dir) # es) =
     (if \<not> dir \<or> \<not> suffix ''.git'' name then local_repos owner ownerPath es
      else \<lparr>rName = owner @ ''/'' @ trim_suffix name ''.git'', rURL = join2 ownerPath name\<rparr> # local_repos owner ownerPath es)"

fun local_owners :: "string \<Rightarrow> ctx \<Rightarrow> (string \<times> bool) list \<Rightarrow> ('w, remote list) act" where
  "local_owners root c [] = aret []"
| "local_owners root c ((owner, dir) # es) =
     abnd (ctx_check c) (\<lambda>_.
     if \<not> dir then local_owners root c es
     else abnd (ahandle (on_fs (os_read_dir (join2 root owner))) (\<lambda>e.
                  afail (wrapf (''state: local git exporter: read '' @ join2 root owner @ '': '') e))) (\<lambda>repos.
          abnd (local_owners root c es) (\<lambda>rs. aret (local_repos owner (join2 root owner) repos @ rs))))"

definition local_remotes :: "string \<Rightarrow> ctx \<Rightarrow> ('w, remote list) act" where
  "local_remotes root c =
     (if blank root then afail (errorf ''state: local git exporter: root is required'')
      else (\<lambda>w. case on_fs (os_read_dir root) w of
        (Inl e, w') \<Rightarrow>
          (if errors_is e NotExist then (Inr [], w')
           else (Inl (wrapf (''state: local git exporter: read root '' @ root @ '': '') e), w'))
      | (Inr owners, w') \<Rightarrow> abnd (local_owners root c owners) (\<lambda>rs. aret (sort_slice remote_less rs)) w'))"

record 'w ssh_git =
  sg_runner :: "'w host option"
  sg_user :: string
  sg_host :: string
  sg_port :: string
  sg_root :: string

fun find_remotes :: "string \<Rightarrow> string \<Rightarrow> string list \<Rightarrow> remote list" where
  "find_remotes addr root [] = []"
| "find_remotes addr root (line # ls) =
     (let path = trim_space line; rel = trim_prefix path (root @ ''/'')
      in if path = '''' then find_remotes addr root ls
         else if rel = path \<or> \<not> suffix ''.git'' rel then find_remotes addr root ls
         else \<lparr>rName = trim_suffix rel ''.git'', rURL = ''ssh://'' @ addr @ path\<rparr> # find_remotes addr root ls)"

definition ssh_remotes :: "'w ssh_git \<Rightarrow> ctx \<Rightarrow> ('w, remote list) act" where
  "ssh_remotes e c =
     (case sg_runner e of
        None \<Rightarrow> afail (errorf ''state: ssh git exporter: runner is required'')
      | Some h \<Rightarrow>
          if blank (sg_user e) \<or> blank (sg_host e) then afail (errorf ''state: ssh git exporter: user and host are required'')
          else if blank (sg_root e) then afail (errorf ''state: ssh git exporter: root is required'')
          else let root = trim_right_set ''/'' (trim_space (sg_root e));
                   command = ''find '' @ shell_quote root @ '' -mindepth 2 -maxdepth 2 -type d -name '' @ [squote] @ ''*.git'' @ [squote];
                   addr = sg_user e @ ''@'' @ join_host_port (sg_host e) (if sg_port e = '''' then ''22'' else sg_port e)
               in (\<lambda>w. case h_run h c command None w of
                    ((Some er, out, err), w') \<Rightarrow>
                      (let m = trim_space err
                       in (Inl (wrapf (''state: ssh git exporter: list '' @ root @ '': '' @ (if m = '''' then '''' else m @ '': '')) er), w'))
                  | ((None, out, err), w') \<Rightarrow>
                      (Inr (sort_slice remote_less (find_remotes addr root (split_on (CHR 0x0A) out))), w')))"

section \<open>Archives of a repository\<close>

text \<open>
  The pipe a capture reads from: the bytes so far, and the error the writing side closed it with. What a
  local walk wrote before it failed is not modelled: the capture that reads it fails with it.
\<close>

definition piped :: "('w, string) act \<Rightarrow> ('w, reader) act" where
  "piped a = (\<lambda>w. case a w of (Inl e, w') \<Rightarrow> (Inr ('''', Some e), w') | (Inr s, w') \<Rightarrow> (Inr (s, None), w'))"

definition local_repo_dir :: "string \<Rightarrow> ('w, unit) act" where
  "local_repo_dir root =
     abnd (ahandle (on_fs (os_stat root)) (\<lambda>e. afail (wrapf (''backup: local git capturer: stat '' @ root @ '': '') e))) (\<lambda>dir.
     if dir then aret () else afail (errorf (''backup: local git capturer: '' @ root @ '' is not a directory'')))"

definition local_archive :: "('w, 'k) codec \<Rightarrow> ctx \<Rightarrow> remote \<Rightarrow> ('w, reader) act" where
  "local_archive cd c r = abnd (local_repo_dir (rURL r)) (\<lambda>_. piped (tar_dir cd c (rURL r)))"

definition refEntries :: "string list" where "refEntries = [''HEAD'', ''packed-refs'', ''refs'']"

fun walk_ref_entries :: "ctx \<Rightarrow> string \<Rightarrow> string list \<Rightarrow> ('w, tar_entry list) act" where
  "walk_ref_entries c root [] = aret []"
| "walk_ref_entries c root (en # es) = (\<lambda>w.
     case on_fs (os_stat (join2 root en)) w of
       (Inl e, w') \<Rightarrow> (if errors_is e NotExist then walk_ref_entries c root es w' else (Inl e, w'))
     | (Inr _, w') \<Rightarrow>
         abnd (tar_walk c root (join2 root en)) (\<lambda>hs.
         abnd (walk_ref_entries c root es) (\<lambda>hs'. aret (hs @ hs'))) w')"

definition tar_ref_entries :: "('w, 'k) codec \<Rightarrow> ctx \<Rightarrow> string \<Rightarrow> ('w, string) act" where
  "tar_ref_entries cd c root = abnd (walk_ref_entries c root refEntries) (\<lambda>hs. aret (tar_encode cd hs))"

definition local_refs :: "('w, 'k) codec \<Rightarrow> ctx \<Rightarrow> remote \<Rightarrow> ('w, reader) act" where
  "local_refs cd c r = abnd (local_repo_dir (rURL r)) (\<lambda>_. piped (tar_ref_entries cd c (rURL r)))"

definition local_capturer :: "('w, 'k) codec \<Rightarrow> 'w capturer" where
  "local_capturer cd = \<lparr>cap_archive = local_archive cd, cap_refs = local_refs cd\<rparr>"

text \<open>\<open>url.Parse\<close>, reduced to the scheme and the path: a parameter.\<close>

type_synonym path_parser = "string \<Rightarrow> error + string \<times> string"

definition repo_path :: "path_parser \<Rightarrow> string \<Rightarrow> error + string" where
  "repo_path pu u =
     (case pu u of
        Inl e \<Rightarrow> Inl (wrapf (''parse remote url '' @ quote u @ '': '') e)
      | Inr (scheme, path) \<Rightarrow>
          (if scheme \<noteq> ''ssh'' then Inl (errorf (''remote url '' @ quote u @ '' is not an ssh:// address''))
           else if path = '''' then Inl (errorf (''remote url '' @ quote u @ '' has no path''))
           else Inr path))"

definition archive_command :: "string \<Rightarrow> string" where
  "archive_command dir = ''tar -C '' @ shell_quote dir @ '' -cf - .''"

definition refs_command :: "string \<Rightarrow> string" where
  \<open>refs_command dir = ''cd '' @ shell_quote dir
     @ '' && entries=HEAD; [ -e packed-refs ] && entries="$entries packed-refs"; [ -d refs ] && entries="$entries refs"; tar -cf - $entries''\<close>

definition ssh_capture ::
    "path_parser \<Rightarrow> 'w host option \<Rightarrow> (string \<Rightarrow> string) \<Rightarrow> ctx \<Rightarrow> remote \<Rightarrow> ('w, reader) act" where
  "ssh_capture pu ho command c r =
     (case ho of
        None \<Rightarrow> afail (errorf ''backup: ssh git capturer: runner is required'')
      | Some h \<Rightarrow>
          (case repo_path pu (rURL r) of
             Inl e \<Rightarrow> afail (wrapf ''backup: ssh git capturer: '' e)
           | Inr dir \<Rightarrow> (\<lambda>w. case h_run h c (command dir) None w of
               ((er, out, err), w') \<Rightarrow> (Inr (out, map_option (\<lambda>e. suffixf e (session_suffix err)) er), w'))))"

definition ssh_archive :: "path_parser \<Rightarrow> 'w host option \<Rightarrow> ctx \<Rightarrow> remote \<Rightarrow> ('w, reader) act" where
  "ssh_archive pu ho = ssh_capture pu ho archive_command"

definition ssh_refs :: "path_parser \<Rightarrow> 'w host option \<Rightarrow> ctx \<Rightarrow> remote \<Rightarrow> ('w, reader) act" where
  "ssh_refs pu ho = ssh_capture pu ho refs_command"

definition ssh_capturer :: "path_parser \<Rightarrow> 'w host option \<Rightarrow> 'w capturer" where
  "ssh_capturer pu ho = \<lparr>cap_archive = ssh_archive pu ho, cap_refs = ssh_refs pu ho\<rparr>"

section \<open>The database\<close>

definition backup_dot_command :: "string \<Rightarrow> string" where
  "backup_dot_command dest = ''.backup '' @ shell_quote dest"

definition reserve_temp_snapshot :: "string \<Rightarrow> ('w, string) act" where
  "reserve_temp_snapshot tmp =
     abnd (ahandle (on_fs (os_create_temp tmp ''farrier-db-snapshot-'' ''.db'')) (\<lambda>e. afail (wrapf ''create temp file: '' e))) (\<lambda>path.
     abnd (ahandle (on_fs os_close) (\<lambda>e. discard path (wrapf ''create temp file: '' e))) (\<lambda>_.
     aret path))"

text \<open>The reader removes its file when it is closed.\<close>

definition open_temp_snapshot :: "string \<Rightarrow> ('w, reader) act" where
  "open_temp_snapshot path = ahandle (on_fs (os_open path)) (\<lambda>e. discard path (wrapf ''open snapshot: '' e))"

definition local_snapshot :: "'w exec_lib \<Rightarrow> string \<Rightarrow> string \<Rightarrow> string \<Rightarrow> ctx \<Rightarrow> ('w, reader) act" where
  "local_snapshot xl tmp path command c =
     (if blank path then afail (errorf ''state: local database exporter: path is required'')
      else abnd (ahandle (reserve_temp_snapshot tmp) (\<lambda>e. afail (wrapf ''state: local database exporter: '' e))) (\<lambda>dest.
           let cmd = (if command = '''' then ''sqlite3'' else command)
           in (\<lambda>w. case xl_run xl c cmd [path, backup_dot_command dest] '''' w of
                ((Some e, out, err), w') \<Rightarrow>
                  (case ctx_err c w' of
                     Some ce \<Rightarrow> discard dest (wrapf ''state: local database exporter: '' ce) w'
                   | None \<Rightarrow> discard dest (suffixf (wrapf (''state: local database exporter: '' @ cmd @ '': '') e) (stderr_suffix err)) w')
              | ((None, out, err), w') \<Rightarrow> open_temp_snapshot dest w')))"

definition snapshot_command :: "string \<Rightarrow> string \<Rightarrow> string \<Rightarrow> string" where
  "snapshot_command container path remotePath =
     (let ct = shell_quote container; rp = shell_quote remotePath
      in ''docker exec '' @ ct @ '' sqlite3 '' @ shell_quote path @ '' '' @ shell_quote (backup_dot_command remotePath)
         @ '' >/dev/null && docker exec '' @ ct @ '' cat '' @ rp @ ''; rc=$?; docker exec '' @ ct @ '' rm -f '' @ rp
         @ '' >/dev/null 2>&1; exit $rc'')"

text \<open>
  \<open>rnd\<close> reads eight random bytes. The command's standard output goes to the file; a write that fails
  ends the run with its error.
\<close>

definition ssh_snapshot ::
    "('w, string) act \<Rightarrow> string \<Rightarrow> 'w host option \<Rightarrow> string \<Rightarrow> string \<Rightarrow> ctx \<Rightarrow> ('w, reader) act" where
  "ssh_snapshot rnd tmp ho container path c =
     (case ho of
        None \<Rightarrow> afail (errorf ''state: ssh database exporter: runner is required'')
      | Some h \<Rightarrow>
          if blank container then afail (errorf ''state: ssh database exporter: container is required'')
          else if blank path then afail (errorf ''state: ssh database exporter: path is required'')
          else let pre = ''state: ssh database exporter: ''
               in abnd (ahandle rnd (\<lambda>e. afail (wrapf (pre @ ''generate random suffix: '') e))) (\<lambda>bytes.
                  abnd (ahandle (reserve_temp_snapshot tmp) (\<lambda>e. afail (wrapf pre e))) (\<lambda>dest.
                  abnd (ahandle (on_fs (os_write_file dest '''' 384)) (\<lambda>e. discard dest (wrapf (pre @ ''open temp file: '') e))) (\<lambda>_.
                  (\<lambda>w. case h_run h c (snapshot_command container path (''/tmp/farrier-db-snapshot-'' @ hex_encode bytes @ ''.db'')) None w of
                    ((er, out, err), w1) \<Rightarrow>
                      (case on_fs (os_write_file dest out 384) w1 of (wr, w2) \<Rightarrow>
                       case (case er of Some e \<Rightarrow> Some e | None \<Rightarrow> (case wr of Inl e \<Rightarrow> Some e | Inr _ \<Rightarrow> None)) of
                         Some e \<Rightarrow> discard dest (suffixf (wrapf (pre @ container @ '': '') e) (session_suffix err)) w2
                       | None \<Rightarrow>
                           (case on_fs os_close w2 of
                              (Inl e, w3) \<Rightarrow> discard dest (wrapf pre e) w3
                            | (Inr _, w3) \<Rightarrow> open_temp_snapshot dest w3)))))))"

section \<open>The push hold\<close>

record 'w caddy_hold =
  ch_runner :: "'w host option"
  ch_container :: string
  ch_domain :: string
  ch_upstream :: string
  ch_message :: string

definition DefaultPushHoldMessage :: string where
  "DefaultPushHoldMessage = ''farrier: backup in progress, git push rejected '' @ em_dash @ '' please retry in a few seconds''"

definition holdCaddyfilePath :: string where "holdCaddyfilePath = ''/etc/caddy/Caddyfile.push-hold''"

definition validate_hold :: "'w caddy_hold \<Rightarrow> error + 'w host" where
  "validate_hold ch =
     (case ch_runner ch of
        None \<Rightarrow> Inl (errorf ''backup: caddy push hold: runner is required'')
      | Some h \<Rightarrow>
          if blank (ch_container ch) then Inl (errorf ''backup: caddy push hold: container is required'') else Inr h)"

text \<open>The script the container's shell runs: put the configuration in place, if there is one, and reload.\<close>

definition hold_script :: "string \<Rightarrow> string option \<Rightarrow> string" where
  "hold_script path config =
     (case config of
        None \<Rightarrow> ''''
      | Some x \<Rightarrow> ''printf '' @ [squote] @ ''%s'' @ [squote] @ '' '' @ shell_quote (b64_encode x) @ '' | base64 -d > '' @ shell_quote path @ '' && '')
     @ ''caddy reload --config '' @ shell_quote path @ '' --adapter caddyfile''"

definition hold_command :: "string \<Rightarrow> string \<Rightarrow> string" where
  "hold_command container script = ''docker exec '' @ shell_quote container @ '' sh -c '' @ shell_quote script"

definition hold_reload :: "'w caddy_hold \<Rightarrow> 'w host \<Rightarrow> ctx \<Rightarrow> string \<Rightarrow> string option \<Rightarrow> ('w, unit) act" where
  "hold_reload ch h c path config = (\<lambda>w.
     case h_run h c (hold_command (ch_container ch) (hold_script path config)) None w of
       ((Some e, out, err), w') \<Rightarrow>
         (Inl (suffixf (wrapf (''backup: caddy push hold: reload '' @ ch_container ch @ '': '') e) (session_suffix err)), w')
     | ((None, out, err), w') \<Rightarrow> (Inr (), w'))"

definition caddy_engage :: "'w caddy_hold \<Rightarrow> ctx \<Rightarrow> ('w, unit) act" where
  "caddy_engage ch c =
     abnd (asum (validate_hold ch)) (\<lambda>h.
     abnd (ahandle (asum (render_push_hold_caddyfile (ch_domain ch) (ch_upstream ch)
              (if ch_message ch = '''' then DefaultPushHoldMessage else ch_message ch)))
             (\<lambda>e. afail (wrapf ''backup: caddy push hold: render hold config: '' e))) (\<lambda>config.
     hold_reload ch h c holdCaddyfilePath (Some config)))"

definition caddy_release :: "'w caddy_hold \<Rightarrow> ctx \<Rightarrow> ('w, unit) act" where
  "caddy_release ch c = abnd (asum (validate_hold ch)) (\<lambda>h. hold_reload ch h c CaddyConfigPath None)"

definition caddy_push_hold :: "'w caddy_hold \<Rightarrow> 'w push_hold" where
  "caddy_push_hold ch = \<lparr>hold_engage = caddy_engage ch, hold_release = caddy_release ch\<rparr>"

definition noop_push_hold :: "'w push_hold" where
  "noop_push_hold = \<lparr>hold_engage = (\<lambda>_. aret ()), hold_release = (\<lambda>_. aret ())\<rparr>"

section \<open>The options of a real backup\<close>

text \<open>What a backup of a deployed bundle needs from the outside besides its host.\<close>

record 'w backup_env =
  be_path :: path_parser
  be_rand :: "('w, string) act"
  be_tmp :: string

definition build_options ::
    "'w backup_env \<Rightarrow> 'w host \<Rightarrow> target \<Rightarrow> bundle_data \<Rightarrow> string \<Rightarrow> string \<Rightarrow> string \<Rightarrow> 'k option \<Rightarrow> 'w adapter option \<Rightarrow>
     'w driver option \<Rightarrow> ('w, 'k) options" where
  "build_options be h t b remoteDir workDir destination identity blobs ks =
     \<lparr>oWorkDir = workDir, oVersion = image_of b ForgeService, oDestination = destination, oIdentity = identity,
      oGit = Some (ssh_remotes \<lparr>sg_runner = Some h, sg_user = tUser t, sg_host = tHost t, sg_port = tPort t,
        sg_root = git_state_path remoteDir\<rparr>),
      oCapturer = Some (ssh_capturer (be_path be) (Some h)),
      oDatabase = Some (ssh_snapshot (be_rand be) (be_tmp be) (Some h) (''farrier-'' @ ForgeService) dbPath),
      oBlobs = blobs, oKeys = Some (keystore_key_exporter ks),
      oHold = Some (caddy_push_hold \<lparr>ch_runner = Some h, ch_container = ''farrier-'' @ CaddyService,
        ch_domain = Domain (b_manifest b), ch_upstream = forge_upstream, ch_message = ''''\<rparr>),
      oCeiling = 0\<rparr>"

section \<open>Properties\<close>

subsection \<open>A bundle without a name\<close>

text \<open>\<open>refuses m cs\<close>: the statement never succeeds, and its calls are the first of \<open>cs\<close>, as far as it got.\<close>

definition refuses :: "('w, 'a) io \<Rightarrow> call list \<Rightarrow> bool" where
  "refuses m cs \<longleftrightarrow> (\<forall>p. (\<forall>x. fst (m p) \<noteq> Ok x) \<and> (\<exists>ds. trace (snd (m p)) = trace p @ ds \<and> prefix ds cs))"

lemma refusesD:
  assumes "refuses m cs" "m p = (r, p')"
  shows "\<exists>ds. trace p' = trace p @ ds \<and> prefix ds cs" "r \<noteq> Ok x"
  using assms(1) [unfolded refuses_def, rule_format, of p] assms(2) by auto

lemma refuses_like:
  assumes "refuses m cs" "\<And>p. \<exists>q. same_place p q \<and> same_place (snd (m q)) (snd (m' p)) \<and>
    ((\<exists>x. fst (m' p) = Ok x) \<longrightarrow> (\<exists>y. fst (m q) = Ok y))"
  shows "refuses m' cs"
  unfolding refuses_def
proof
  fix p
  obtain q where q: "same_place p q" "same_place (snd (m q)) (snd (m' p))" "(\<exists>x. fst (m' p) = Ok x) \<longrightarrow> (\<exists>y. fst (m q) = Ok y)"
    using assms(2) by blast
  with assms(1) [unfolded refuses_def, rule_format, of q]
  show "(\<forall>x. fst (m' p) \<noteq> Ok x) \<and> (\<exists>ds. trace (snd (m' p)) = trace p @ ds \<and> prefix ds cs)"
    by (auto simp: same_place_def)
qed

lemma refuses_call: "(\<And>w. \<exists>e w'. a w = (Inl e, w')) \<Longrightarrow> refuses (call n c as a) [Call n c as]"
  unfolding refuses_def call_def
proof (intro allI conjI)
  assume a: "\<And>w. \<exists>e w'. a w = (Inl e, w')"
  fix p :: "'a proc" and x
  obtain e w where "a (world p) = (Inl e, w)" using a by blast
  then show "fst (case a (world p) of (r, w) \<Rightarrow> (res_of r, after_call p w (Call n c as))) \<noteq> Ok x"
    "\<exists>ds. trace (snd (case a (world p) of (r, w) \<Rightarrow> (res_of r, after_call p w (Call n c as)))) = trace p @ ds \<and>
       prefix ds [Call n c as]"
    by simp_all
qed

lemma refuses_reported: "refuses m cs \<Longrightarrow> refuses (handle m (fail_step st)) cs"
  by (erule refuses_like) (metis fst_conv reported_Ok reported_same same_place_refl surjective_pairing)

lemma refuses_orfail: "refuses m cs \<Longrightarrow> refuses (orfail m t) cs"
  unfolding refuses_def
  by (erule all_forward) (auto simp: orfail_def handle_def fail_def split: prod.splits res.splits)

lemma refuses_as_job: "refuses m cs \<Longrightarrow> refuses (as_job d m) cs"
  by (erule refuses_like) (metis as_job_Ok as_job_same fst_conv same_place_refl surjective_pairing)

lemma refuses_first: "refuses m cs \<Longrightarrow> refuses (bnd m k) cs"
  unfolding refuses_def by (erule all_forward) (auto simp: bnd_def split: prod.splits res.splits)

lemma refuses_then:
  assumes "only_calls (\<lambda>_. False) m" "\<And>x. refuses (k x) cs"
  shows "refuses (bnd m k) cs"
  unfolding refuses_def
proof
  fix p
  obtain r1 p1 where m: "m p = (r1, p1)" by force
  note t = silentD [OF assms(1) m]
  show "(\<forall>x. fst (bnd m k p) \<noteq> Ok x) \<and> (\<exists>ds. trace (snd (bnd m k p)) = trace p @ ds \<and> prefix ds cs)"
  proof (cases r1)
    case (Ok x)
    obtain r p' where k: "k x p1 = (r, p')" by force
    from refusesD [OF assms(2) k] t m Ok k show ?thesis by (metis bnd_Ok fst_conv snd_conv)
  qed (use m t in \<open>auto simp: bnd_def\<close>)
qed

lemma refuses_deferred:
  assumes "refuses m cs" "only_calls (\<lambda>_. False) c"
  shows "refuses (deferred c m) cs"
  unfolding refuses_def
proof
  fix p
  obtain r1 p1 where a: "m p = (r1, p1)" by force
  obtain ds where ds: "trace p1 = trace p @ ds" "prefix ds cs" using refusesD(1) [OF assms(1) a] by blast
  have no: "r1 \<noteq> Ok x" for x by (rule refusesD(2) [OF assms(1) a])
  have t: "trace (snd (attempt c p1)) = trace p1" using silentD [OF assms(2)] by (metis attempt_snd surjective_pairing)
  obtain r2 p2 where c: "attempt c p1 = (r2, p2)" by force
  with t have "trace p2 = trace p1" by simp
  with ds no a c show "(\<forall>x. fst (deferred c m p) \<noteq> Ok x) \<and> (\<exists>ds. trace (snd (deferred c m p)) = trace p @ ds \<and> prefix ds cs)"
    by (cases r1; cases r2) (auto simp: deferred_def attempt_def [of m] bnd_def fail_def)
qed

lemma refuses_subjob:
  assumes "refuses m cs"
  shows "refuses (bnd (subjob m) (\<lambda>r. of_sum (fst r))) cs"
  unfolding refuses_def
proof
  fix p :: "'a proc"
  let ?q = "p\<lparr>job := new_job (fresh p (ticks p)), ticks := Suc (ticks p)\<rparr>"
  obtain r1 p1 where m: "m ?q = (r1, p1)" by force
  obtain ds where ds: "trace p1 = trace p @ ds" "prefix ds cs" using refusesD(1) [OF assms m] by auto
  obtain r2 p2 where s: "subjob m p = (r2, p2)" by force
  with subjob_same [of m p] m ds(1) have t: "trace p2 = trace p @ ds" by (simp add: same_place_def)
  have "fst (of_sum (fst y) p2) \<noteq> Ok x" "snd (of_sum (fst y) p2) = p2" if y: "r2 = Ok y" for x and y
  proof -
    obtain z evs where z: "y = (z, evs)" by force
    from subjob_ran [OF s [unfolded y z]] obtain q q' where "attempt m q = (Ok z, q')" .
    then have "z = Inr u \<Longrightarrow> False" for u by (auto dest: attempt_Ok refusesD(2) [OF assms])
    then show "fst (of_sum (fst y) p2) \<noteq> Ok x" "snd (of_sum (fst y) p2) = p2" using z by (cases z; simp add: fail_def)+
  qed
  with s t ds(2) show "(\<forall>x. fst (bnd (subjob m) (\<lambda>r. of_sum (fst r)) p) \<noteq> Ok x) \<and>
      (\<exists>ds. trace (snd (bnd (subjob m) (\<lambda>r. of_sum (fst r)) p)) = trace p @ ds \<and> prefix ds cs)"
    by (cases r2) (auto simp: bnd_def)
qed

text \<open>A backup whose hold cannot be engaged makes no call but the attempt to engage it.\<close>

lemma run_refuses:
  assumes "\<And>w. \<exists>e w'. hold_engage (the (pHold ps)) c w = (Inl e, w')"
  shows "refuses (run cd c ps) [engage_call c]"
  unfolding run_def run_steps_checked capture_under_hold_def engage_call_def
  by (intro refuses_as_job refuses_then [OF checked_first_silent] refuses_first [of "bnd _ _"] refuses_then [OF calls_emit]
      refuses_first [of "handle _ _"] refuses_reported refuses_orfail refuses_call assms)

lemma backup_refuses:
  assumes "\<And>w. \<exists>e w'. hold_engage (the (oHold os)) c w = (Inl e, w')"
  shows "refuses (backup cd od c os) [engage_call c]"
proof -
  have "refuses (run_capture cd c d os) [engage_call c]" for d
    unfolding run_capture_def by (rule refuses_subjob [OF run_refuses]) (simp add: assms)
  then have "refuses (backup_body cd od c os) [engage_call c]"
    unfolding backup_body_def by (intro refuses_then [OF calls_emit] refuses_then calls_intros refuses_first)
  then show ?thesis
    unfolding backup_def backup_steps_def
    by (intro refuses_as_job refuses_then [OF calls_of_sum] refuses_deferred calls_intros)
qed

lemma nameless_hold_refuses: "blank (ch_domain ch) \<Longrightarrow> \<exists>e. caddy_engage ch c w = (Inl e, w)"
  by (auto simp: caddy_engage_def abnd_def ahandle_def render_push_hold_caddyfile_def Let_def split: sum.splits)

text \<open>
  C15. A nameless instance can never be backed up: the push hold of the options every backup is built with
  renders a site of the bundle's domain, and refuses when there is none, leaving everything as it was; and
  the backup then fails with nothing captured, that refused attempt being the only call it makes, if it
  makes one: no database, refs, archive, blob or key is read and nothing is put at the destination.
\<close>

theorem nameless_never_backed_up:
  "let os = build_options be h t (b\<lparr>b_manifest := (b_manifest b)\<lparr>Domain := ''''\<rparr>\<rparr>) remoteDir workDir dest i bl ks
   in (case backup cd od c os p of (r, p') \<Rightarrow>
         (\<forall>k. r \<noteq> Ok k) \<and> (trace p' = trace p \<or> trace p' = trace p @ [engage_call c])) \<and>
      (\<exists>e. hold_engage (the (oHold os)) c w = (Inl e, w))"
proof -
  define os where "os = build_options be h t (b\<lparr>b_manifest := (b_manifest b)\<lparr>Domain := ''''\<rparr>\<rparr>) remoteDir workDir dest i bl ks"
  have e: "\<exists>e. hold_engage (the (oHold os)) c w = (Inl e, w)" for w
    by (simp add: os_def build_options_def caddy_push_hold_def nameless_hold_refuses)
  then have no: "refuses (backup cd od c os) [engage_call c]" by (intro backup_refuses) blast
  have "(\<forall>k. r \<noteq> Ok k) \<and> (trace p' = trace p \<or> trace p' = trace p @ [engage_call c])"
    if "backup cd od c os p = (r, p')" for r p'
    using refusesD [OF no that] by (auto simp: prefix_Cons)
  with e show ?thesis unfolding os_def [symmetric] Let_def by (auto split: prod.split)
qed

end
