(* ===== verification/Status.thy ===== *)
theory Status
  imports Exporters
begin

text \<open>
  \<open>internal/core/status\<close>: the health report (\<open>status.go\<close>), that is the services Compose lists, the
  certificate's dates and the disk's headroom, and the age of the newest backup (\<open>replication.go\<close>).
  JSON, PEM and X.509 decoding are parameters; sizes are 64-bit words, as in the code.
\<close>

section \<open>The age of the newest backup\<close>

datatype lag_state = LagUnmeasured | LagNoBackups | LagMeasured

text \<open>\<open>lag_last\<close> is \<open>None\<close> for the zero time; \<open>lag_age\<close> and \<open>lag_skew\<close> are 64-bit durations.\<close>

record lag =
  lag_state :: lag_state
  lag_last :: "int option"
  lag_age :: int
  lag_skew :: int

definition newest_modified :: "object list \<Rightarrow> int" where
  "newest_modified obs = fold (\<lambda>ob t. if mod_time ob > t then mod_time ob else t) obs zero_time"

text \<open>Negation of a duration wraps at the least one.\<close>

definition negate_duration :: "int \<Rightarrow> int" where
  "negate_duration d = (if d = - max_duration - 1 then d else - d)"

definition measured_lag :: "int \<Rightarrow> int \<Rightarrow> lag" where
  "measured_lag newest tnow =
     (let age = time_sub tnow newest
      in \<lparr>lag_state = LagMeasured, lag_last = Some newest,
          lag_age = (if age < 0 then 0 else age),
          lag_skew = (if age < 0 then negate_duration age else 0)\<rparr>)"

definition unmeasured_lag :: "lag_state \<Rightarrow> lag" where
  "unmeasured_lag s = \<lparr>lag_state = s, lag_last = None, lag_age = 0, lag_skew = 0\<rparr>"

definition lag_of :: "object list \<Rightarrow> int \<Rightarrow> lag" where
  "lag_of obs tnow =
     (if obs = [] then unmeasured_lag LagNoBackups
      else if newest_modified obs = zero_time then unmeasured_lag LagUnmeasured
      else measured_lag (newest_modified obs) tnow)"

definition replication_lag :: "ctx \<Rightarrow> 'w adapter option \<Rightarrow> int \<Rightarrow> ('w, lag) io" where
  "replication_lag c dest tnow =
     (case dest of
        None \<Rightarrow> ret (unmeasured_lag LagUnmeasured)
      | Some d \<Rightarrow>
          bnd (orfail (call ''destination'' c [''list'', ''''] (blist d c '''')) ''status: replication lag: '') (\<lambda>obs.
          ret (lag_of obs tnow)))"

section \<open>The report\<close>

definition CertExpiryWarning :: int where "CertExpiryWarning = 14 * 24 * 3600 * 1000000000"
definition DefaultDiskPath :: string where "DefaultDiskPath = ''/''"

type_synonym w64 = "64 word"

record service_status =
  ss_name :: string
  ss_up :: bool
  ss_detail :: string

record tls_status =
  tls_not_after :: int
  tls_valid :: bool
  tls_expiring :: bool

record disk_status =
  dk_path :: string
  dk_total :: w64
  dk_used :: w64
  dk_avail :: w64

record health =
  hl_services :: "service_status list"
  hl_tls :: tls_status
  hl_disk :: disk_status
  hl_lag :: lag

definition DefaultServices :: "string list" where
  "DefaultServices = [ForgeService, CaddyService]"

record 'w status_options =
  sRunner :: "'w host option"
  sBundle :: "bundle_data option"
  sRemoteDir :: string
  sKeystore :: "'w driver option"
  sServices :: "string list"
  sDiskPath :: string
  sDestination :: "'w adapter option"

record ps_entry =
  ps_service :: string
  ps_state :: string
  ps_status :: string

text \<open>
  Decoding an array of Compose's entries and one of them; the first PEM block of a text; and the validity
  of a certificate, its not-before and its not-after.
\<close>

record status_lib =
  st_entries :: "string \<Rightarrow> ps_entry list option"
  st_entry :: "string \<Rightarrow> string + ps_entry"
  st_pem :: "string \<Rightarrow> string option"
  st_x509 :: "string \<Rightarrow> error + int \<times> int"

subsection \<open>Services\<close>

fun parse_lines :: "status_lib \<Rightarrow> string list \<Rightarrow> error + ps_entry list" where
  "parse_lines sl [] = Inr []"
| "parse_lines sl (l # ls) =
     (if blank l then parse_lines sl ls
      else case st_entry sl (trim_space l) of
             Inl m \<Rightarrow> Inl (errorf (''parse docker compose ps output: '' @ m))
           | Inr e \<Rightarrow> (case parse_lines sl ls of Inl er \<Rightarrow> Inl er | Inr es \<Rightarrow> Inr (e # es)))"

definition parse_compose_ps :: "status_lib \<Rightarrow> string \<Rightarrow> error + (string \<rightharpoonup> ps_entry)" where
  "parse_compose_ps sl out =
     (let d = trim_space out
      in if d = '''' then Inr Map.empty
         else case (case st_entries sl d of Some es \<Rightarrow> Inr es | None \<Rightarrow> parse_lines sl (split_on (CHR 0x0A) d)) of
                Inl e \<Rightarrow> Inl e
              | Inr es \<Rightarrow> Inr (fold (\<lambda>e m. m(ps_service e \<mapsto> e)) es Map.empty))"

definition service_of :: "(string \<rightharpoonup> ps_entry) \<Rightarrow> string \<Rightarrow> service_status" where
  "service_of m n =
     (case m n of
        None \<Rightarrow> \<lparr>ss_name = n, ss_up = False, ss_detail = ''container not found''\<rparr>
      | Some e \<Rightarrow> \<lparr>ss_name = n, ss_up = (ps_state e = ''running''), ss_detail = ps_status e\<rparr>)"

definition check_services :: "status_lib \<Rightarrow> 'w host \<Rightarrow> ctx \<Rightarrow> 'w status_options \<Rightarrow> ('w, service_status list) io" where
  "check_services sl h c os =
     bnd (of_sum (compose_command (sRemoteDir os) (sBundle os))) (\<lambda>pre.
     bnd (orfail (host_output h c (pre @ '' docker compose ps --all --format json'')) ''docker compose ps: '') (\<lambda>out.
     bnd (of_sum (parse_compose_ps sl out)) (\<lambda>m.
     ret (map (service_of m) (if sServices os = [] then DefaultServices else sServices os)))))"

subsection \<open>The certificate\<close>

definition tls_status_of :: "int \<times> int \<Rightarrow> int \<Rightarrow> tls_status" where
  "tls_status_of v tnow =
     \<lparr>tls_not_after = snd v, tls_valid = (fst v < tnow \<and> tnow < snd v),
      tls_expiring = (\<not> tnow + CertExpiryWarning < snd v)\<rparr>"

definition check_tls :: "status_lib \<Rightarrow> 'w driver \<Rightarrow> ctx \<Rightarrow> int \<Rightarrow> ('w, tls_status) io" where
  "check_tls sl d c tnow =
     bnd (orfail (resolve_key d c KeyTLSCertificate) ''resolve certificate: '') (\<lambda>s.
     case st_pem sl (reveal s) of
       None \<Rightarrow> fail (errorf ''certificate is not valid PEM'')
     | Some der \<Rightarrow>
         bnd (orfail (of_sum (st_x509 sl der)) ''parse certificate: '') (\<lambda>v.
         ret (tls_status_of v tnow)))"

subsection \<open>The disk\<close>

text \<open>\<open>strconv.ParseUint(s, 10, 64)\<close>: the digits are read in order, and the first fault is reported.\<close>

fun parse_uint_loop :: "nat \<Rightarrow> string \<Rightarrow> string + nat" where
  "parse_uint_loop n [] = Inr n"
| "parse_uint_loop n (c # s) =
     (if \<not> is_digit c then Inl ''invalid syntax''
      else let m = n * 10 + (of_char c - 48)
           in if m \<ge> 2 ^ 64 then Inl ''value out of range'' else parse_uint_loop m s)"

definition parse_uint :: "string \<Rightarrow> error + w64" where
  "parse_uint s =
     (case (if s = '''' then Inl ''invalid syntax'' else parse_uint_loop 0 s) of
        Inl m \<Rightarrow> Inl (errorf (''strconv.ParseUint: parsing '' @ quote s @ '': '' @ m))
      | Inr n \<Rightarrow> Inr (of_nat n))"

definition df_field :: "string \<Rightarrow> string \<Rightarrow> error + w64" where
  "df_field what s =
     (case parse_uint s of Inl e \<Rightarrow> Inl (wrapf (''parse df output: '' @ what @ '' blocks: '') e) | Inr n \<Rightarrow> Inr n)"

definition parse_df :: "string \<Rightarrow> string \<Rightarrow> error + disk_status" where
  "parse_df out path =
     (let lines = split_on (CHR 0x0A) (trim_right_set nl out)
      in if length lines < 2
         then Inl (errorf (''parse df output: expected a header and a data line, got '' @ nat_str (length lines) @ '' line(s)''))
         else case str_fields (last lines) of
           _ # tf # uf # af # _ \<Rightarrow>
             (case df_field ''total'' tf of Inl e \<Rightarrow> Inl e | Inr t \<Rightarrow>
              case df_field ''used'' uf of Inl e \<Rightarrow> Inl e | Inr u \<Rightarrow>
              case df_field ''available'' af of Inl e \<Rightarrow> Inl e | Inr a \<Rightarrow>
              Inr \<lparr>dk_path = path, dk_total = t * 1024, dk_used = u * 1024, dk_avail = a * 1024\<rparr>)
         | _ \<Rightarrow> Inl (errorf (''parse df output: unexpected format: '' @ quote (last lines))))"

definition check_disk :: "'w host \<Rightarrow> ctx \<Rightarrow> string \<Rightarrow> ('w, disk_status) io" where
  "check_disk h c path =
     bnd (orfail (host_output h c (''df -Pk '' @ shell_quote path)) (''df '' @ path @ '': '')) (\<lambda>out.
     of_sum (parse_df out path))"

subsection \<open>The check\<close>

definition validate_status :: "'w status_options \<Rightarrow> error + 'w host \<times> 'w driver" where
  "validate_status os =
     (case (sRunner os, sBundle os, sKeystore os) of
        (None, _, _) \<Rightarrow> Inl (errorf ''status: runner is required'')
      | (_, None, _) \<Rightarrow> Inl (errorf ''status: bundle is required'')
      | (_, _, None) \<Rightarrow> Inl (errorf ''status: keystore is required'')
      | (Some h, Some _, Some d) \<Rightarrow> Inr (h, d))"

definition status_check :: "status_lib \<Rightarrow> ctx \<Rightarrow> 'w status_options \<Rightarrow> ('w, health) io" where
  "status_check sl c os =
     bnd (of_sum (validate_status os)) (\<lambda>(h, d).
     bnd (orfail (check_services sl h c os) ''status: services: '') (\<lambda>services.
     bnd now (\<lambda>t1.
     bnd (orfail (check_tls sl d c t1) ''status: tls: '') (\<lambda>tls.
     bnd (orfail (check_disk h c (if blank (sDiskPath os) then DefaultDiskPath else trim_space (sDiskPath os)))
            ''status: disk: '') (\<lambda>disk.
     bnd now (\<lambda>t2.
     bnd (orfail (replication_lag c (sDestination os) t2) ''status: replication lag: '') (\<lambda>l.
     ret \<lparr>hl_services = services, hl_tls = tls, hl_disk = disk, hl_lag = l\<rparr>)))))))"

section \<open>Facts\<close>




lemma str_fields_blanks [simp]: "str_fields (replicate k (CHR '' '') @ s) = str_fields s"
  by (induction k) (simp_all add: str_fields_def)







lemma newest_ge: "t \<le> fold (\<lambda>ob t. if mod_time ob > t then mod_time ob else t) obs t"
  by (induction obs arbitrary: t) (auto intro: order_trans [OF less_imp_le])

lemma newest_upper: "ob \<in> set obs \<Longrightarrow> mod_time ob \<le> fold (\<lambda>ob t. if mod_time ob > t then mod_time ob else t) obs t"
proof (induction obs arbitrary: t)
  case (Cons o' obs)
  then show ?case using newest_ge [of "mod_time ob" obs] newest_ge [of t obs] by fastforce
qed simp

lemma newest_attained:
  "fold (\<lambda>ob t. if mod_time ob > t then mod_time ob else t) obs t = t
   \<or> (\<exists>ob\<in>set obs. mod_time ob = fold (\<lambda>ob t. if mod_time ob > t then mod_time ob else t) obs t)"
proof (induction obs arbitrary: t)
  case (Cons o' obs)
  show ?case using Cons [of "if mod_time o' > t then mod_time o' else t"] by (auto split: if_splits)
qed simp

section \<open>Properties\<close>

subsection \<open>The disk\<close>







subsection \<open>The age of the newest backup\<close>

text \<open>
  A replication lag is measured exactly when some backup's time is known; it is then the distance of the
  newest of them from now, with the age and the clock skew never both positive, and neither is negative
  unless that backup is dated beyond the range of a duration ahead.
\<close>

theorem lag_measures_newest:
  "(lag_state (lag_of obs tnow) = LagMeasured \<longleftrightarrow> (\<exists>ob\<in>set obs. zero_time < mod_time ob))
   \<and> (lag_state (lag_of obs tnow) = LagMeasured \<longrightarrow>
       (\<exists>t. lag_last (lag_of obs tnow) = Some t \<and> t \<in> mod_time ` set obs \<and> (\<forall>ob\<in>set obs. mod_time ob \<le> t)
          \<and> 0 \<le> lag_age (lag_of obs tnow) \<and> (lag_age (lag_of obs tnow) = 0 \<or> lag_skew (lag_of obs tnow) = 0)
          \<and> (t - tnow \<le> max_duration \<longrightarrow> 0 \<le> lag_skew (lag_of obs tnow))
          \<and> (\<bar>tnow - t\<bar> \<le> max_duration \<longrightarrow> lag_age (lag_of obs tnow) - lag_skew (lag_of obs tnow) = tnow - t)))"
proof -
  let ?t = "newest_modified obs"
  have up: "\<forall>ob\<in>set obs. mod_time ob \<le> ?t" and ge: "zero_time \<le> ?t"
    and at: "?t = zero_time \<or> ?t \<in> mod_time ` set obs"
    using newest_upper [of _ obs zero_time] newest_ge [of zero_time obs] newest_attained [of obs zero_time]
    unfolding newest_modified_def by (force simp: image_iff)+
  have e: "obs = [] \<Longrightarrow> ?t = zero_time" by (simp add: newest_modified_def)
  have m: "lag_state (lag_of obs tnow) = LagMeasured \<longleftrightarrow> ?t \<noteq> zero_time"
    using e by (auto simp: lag_of_def unmeasured_lag_def measured_lag_def Let_def)
  have "?t \<noteq> zero_time \<longleftrightarrow> (\<exists>ob\<in>set obs. zero_time < mod_time ob)"
  proof
    assume ne: "?t \<noteq> zero_time"
    with at obtain ob where "ob \<in> set obs" "?t = mod_time ob" by blast
    with ne ge show "\<exists>ob\<in>set obs. zero_time < mod_time ob" by force
  next
    assume "\<exists>ob\<in>set obs. zero_time < mod_time ob"
    then obtain ob where "ob \<in> set obs" "zero_time < mod_time ob" by blast
    with up have "zero_time < ?t" by (metis less_le_trans)
    then show "?t \<noteq> zero_time" by simp
  qed
  moreover have "lag_of obs tnow = measured_lag ?t tnow" if "?t \<noteq> zero_time"
    using that e by (auto simp: lag_of_def)
  moreover have "lag_last l = Some ?t \<and> 0 \<le> lag_age l \<and> (lag_age l = 0 \<or> lag_skew l = 0)
      \<and> (?t - tnow \<le> max_duration \<longrightarrow> 0 \<le> lag_skew l)
      \<and> (\<bar>tnow - ?t\<bar> \<le> max_duration \<longrightarrow> lag_age l - lag_skew l = tnow - ?t)" if "l = measured_lag ?t tnow" for l
    using that by (auto simp: measured_lag_def Let_def negate_duration_def time_sub_def max_duration_def)
  moreover have "?t \<in> mod_time ` set obs" if "?t \<noteq> zero_time" using at that by blast
  ultimately show ?thesis using m up by simp
qed


lemma lag_measures_newest_witness:
  "let l = lag_of [\<lparr>okey = ''a'', osize = 1, omodified = Some 5\<rparr>, \<lparr>okey = ''b'', osize = 1, omodified = None\<rparr>] 9
   in lag_state l = LagMeasured \<and> (\<exists>t. lag_last l = Some t \<and> 0 \<le> lag_age l)"
proof -
  let ?obs = "[\<lparr>okey = ''a'', osize = 1, omodified = Some 5\<rparr>, \<lparr>okey = ''b'', osize = 1, omodified = None\<rparr>]"
  note p = lag_measures_newest [of ?obs 9]
  have "\<exists>ob\<in>set ?obs. zero_time < mod_time ob" by (simp add: mod_time_def zero_time_def)
  with conjunct1 [OF p] have "lag_state (lag_of ?obs 9) = LagMeasured" by blast
  with conjunct2 [OF p] show ?thesis unfolding Let_def by blast
qed

end
