(* ===== verification/ForgeApi.thy ===== *)
theory ForgeApi
  imports Keystore Manifest Codec
begin

text \<open>
  What \<open>importer\<close> and \<open>publish\<close> share of the forge's HTTP API: an authorised request, which is recorded as
  a call once it could be built, and its outcome. The HTTP client is a parameter, and so is the encoding
  and decoding of JSON.
\<close>

section \<open>Exchanges\<close>

text \<open>The request fails; its answer is not read to the end, with what was read of it; or it is answered.\<close>

datatype api_exchange = ApiUnsent error | ApiUnread nat string error | ApiReplied nat string

text \<open>
  \<open>api_build\<close> is the failure of building a request for a method and a URL, \<open>api_do\<close> performs one with a
  token and perhaps a body.
\<close>

record 'w api_lib =
  api_build :: "string \<Rightarrow> string \<Rightarrow> error option"
  api_do :: "ctx \<Rightarrow> string \<Rightarrow> string \<Rightarrow> secret \<Rightarrow> string option \<Rightarrow> 'w world \<Rightarrow> api_exchange \<times> 'w world"

definition api_call :: "'w api_lib \<Rightarrow> ctx \<Rightarrow> string \<Rightarrow> string \<Rightarrow> secret \<Rightarrow> string option \<Rightarrow> ('w, api_exchange) io" where
  "api_call al c method url token body =
     call ''instance'' c [method, url] (\<lambda>w. case api_do al c method url token body w of (x, w') \<Rightarrow> (Inr x, w'))"

definition success_status :: "nat \<Rightarrow> bool" where
  "success_status n \<longleftrightarrow> 200 \<le> n \<and> n < 300"

text \<open>The first 300 bytes of a message.\<close>

definition truncate_message :: "string \<Rightarrow> string" where
  "truncate_message s = (if length s > 300 then take 300 s @ ''...'' else s)"

text \<open>\<open>context.Background()\<close> with a deadline of thirty seconds.\<close>

definition cleanup_ctx :: ctx where
  "cleanup_ctx = WithTimeout (WithoutCancel Caller) 30000000000"

section \<open>URLs\<close>

text \<open>\<open>url.PathEscape\<close>.\<close>

definition upper_hex :: "nat \<Rightarrow> char" where
  "upper_hex d = char_of (if d < 10 then 48 + d else 55 + d)"

definition path_escape_char :: "char \<Rightarrow> string" where
  "path_escape_char c =
     (if is_alnum c \<or> c \<in> set ''-_.~$&+=:@'' then [c]
      else [CHR ''%'', upper_hex (of_char c div 16), upper_hex (of_char c mod 16)])"

definition path_escape :: "string \<Rightarrow> string" where
  "path_escape s = concat (map path_escape_char s)"

definition repo_api_path :: "string \<Rightarrow> string \<Rightarrow> string" where
  "repo_api_path owner name = ''/api/v1/repos/'' @ path_escape owner @ ''/'' @ path_escape name"

section \<open>Facts\<close>

lemma api_call_calm [calm_intros]: "calm_on I (api_call al c method url token body)"
  unfolding api_call_def by (intro calm_intros)

lemma api_call_calls [calls_intros]:
  "C (Call ''instance'' c [method, url]) \<Longrightarrow> only_calls C (api_call al c method url token body)"
  unfolding api_call_def by (intro calls_intros)

lemma api_call_runs:
  assumes "api_do al c method url token body (world p) = (x, w)"
  shows "api_call al c method url token body p = (Ok x, after_call p w (Call ''instance'' c [method, url]))"
  using assms by (simp add: api_call_def call_def)

text \<open>An escaped segment is one: it contains no slash.\<close>

lemma path_escape_no_slash: "slash \<notin> set (path_escape s)"
proof -
  have "list_all (\<lambda>d. upper_hex d \<noteq> slash) [0..<16]" by code_simp
  then have u: "upper_hex d \<noteq> slash" if "d < 16" for d using that unfolding list_all_iff by simp
  have a: "\<not> is_alnum slash" "slash \<notin> set ''-_.~$&+=:@''" "slash \<noteq> CHR ''%''" by code_simp+
  have "slash \<notin> set (path_escape_char c)" for c
  proof (cases "is_alnum c \<or> c \<in> set ''-_.~$&+=:@''")
    case True
    with a show ?thesis unfolding path_escape_char_def by auto
  next
    case False
    have "upper_hex (of_char c div 16) \<noteq> slash" by (rule u) (use of_char_less_256 [of c] in linarith)
    moreover have "upper_hex (of_char c mod 16) \<noteq> slash" by (rule u) simp
    moreover have "path_escape_char c = [CHR ''%'', upper_hex (of_char c div 16), upper_hex (of_char c mod 16)]"
      using False unfolding path_escape_char_def by (simp only: if_False)
    ultimately show ?thesis using a(3) by auto
  qed
  then show ?thesis by (simp add: path_escape_def)
qed

end
