(* ===== verification/Registry.thy ===== *)
theory Registry
  imports Compose ForgeApi
begin

text \<open>
  \<open>internal/core/registry/registry.go\<close>: the digest an image reference names, asked of its registry with
  one bearer-token retry. HTTP exchanges and the JSON of the token endpoint are parameters; the regular
  expression of a challenge's parameters and the query encoding are written out.
\<close>

section \<open>References\<close>

text \<open>\<open>s[:strings.LastIndex(s, c)+1]\<close> and the rest of the string.\<close>

definition after_last :: "char \<Rightarrow> string \<Rightarrow> string" where
  "after_last c s = rev (takeWhile (\<lambda>x. x \<noteq> c) (rev s))"

definition upto_last :: "char \<Rightarrow> string \<Rightarrow> string" where
  "upto_last c s = take (length s - length (after_last c s)) s"

definition split_ref :: "string \<Rightarrow> string \<times> string \<times> string" where
  "split_ref r =
     (case cut CHR ''@'' r of
        Some (n, d) \<Rightarrow> (n, '''', d)
      | None \<Rightarrow>
          let rest = after_last slash r
          in if CHR '':'' \<in> set rest
             then (upto_last slash r @ butlast (upto_last CHR '':'' rest), after_last CHR '':'' rest, '''')
             else (r, ''latest'', ''''))"

definition split_name :: "string \<Rightarrow> string \<times> string" where
  "split_name n =
     (case cut slash n of
        None \<Rightarrow> (''docker.io'', ''library/'' @ n)
      | Some (f, rest) \<Rightarrow>
          (if contains_any f ''.:'' \<or> f = ''localhost'' then (f, rest) else (''docker.io'', n)))"

section \<open>Asking the registry\<close>

definition acceptManifestTypes :: string where
  "acceptManifestTypes =
     ''application/vnd.oci.image.index.v1+json, application/vnd.docker.distribution.manifest.list.v2+json, application/vnd.oci.image.manifest.v1+json, application/vnd.docker.distribution.manifest.v2+json''"

text \<open>
  A response: its status, the headers the code reads (empty when absent) and its body, which may fail to
  read. A request cannot be built, fails, or is answered; it carries the values of its headers.
\<close>

record reply =
  rp_status :: nat
  rp_challenge :: string
  rp_digest :: string
  rp_body :: "error + string"

datatype attempted = Unbuilt error | Unsent error | Replied reply

record 'w reg_lib =
  rg_get :: "ctx \<Rightarrow> string \<Rightarrow> (string \<times> string) list \<Rightarrow> 'w world \<Rightarrow> attempted \<times> 'w world"
  rg_token :: "string \<Rightarrow> string + string \<times> string"

text \<open>\<open>trim\<close>: a body short enough for a message.\<close>

definition trim_body :: "string \<Rightarrow> string" where
  "trim_body b = (let s = trim_space b in if length s > 200 then take 200 s @ ''...'' else s)"

definition get_manifest :: "'w reg_lib \<Rightarrow> ctx \<Rightarrow> string \<Rightarrow> string \<Rightarrow> ('w, reply) act" where
  "get_manifest rl c url token = (\<lambda>w.
     case rg_get rl c url
            ((''Accept'', acceptManifestTypes) # (if token \<noteq> '''' then [(''Authorization'', ''Bearer '' @ token)] else [])) w of
       (Unbuilt e, w') \<Rightarrow> (Inl (wrapf ''build request: '' e), w')
     | (Unsent e, w') \<Rightarrow> (Inl (wrapf ''fetch manifest: '' e), w')
     | (Replied r, w') \<Rightarrow> (Inr r, w'))"

subsection \<open>The challenge\<close>

text \<open>
  The matches of \<open>(realm|service|scope)="([^"]*)"\<close>, leftmost first and without overlap.
\<close>

definition auth_param_at :: "string \<Rightarrow> (string \<times> string \<times> string) option" where
  "auth_param_at s =
     (case filter (\<lambda>k. prefix (k @ [CHR ''='', CHR 0x22]) s) [''realm'', ''service'', ''scope''] of
        [] \<Rightarrow> None
      | k # _ \<Rightarrow>
          (case cut CHR 0x22 (drop (length k + 2) s) of None \<Rightarrow> None | Some (v, rest) \<Rightarrow> Some (k, v, rest)))"

function auth_params :: "string \<Rightarrow> (string \<times> string) list" where
  "auth_params [] = []"
| "auth_params (c # s) =
     (case auth_param_at (c # s) of
        None \<Rightarrow> auth_params s
      | Some (k, v, rest) \<Rightarrow> (k, v) # auth_params rest)"
  by pat_completeness auto

lemma cut_shorter: "cut d s = Some (a, b) \<Longrightarrow> length b < length s"
  by (induction s arbitrary: a) (auto split: if_splits option.splits)

lemma auth_param_at_shorter:
  assumes "auth_param_at s = Some (k, v, rest)"
  shows "length rest < length s"
  using assms cut_shorter by (fastforce simp: auth_param_at_def split: list.splits option.splits)

termination auth_params
  by (relation "measure length") (auto dest: auth_param_at_shorter)

text \<open>The last value of a parameter, empty when it is absent, as in the code's map.\<close>

definition auth_param :: "(string \<times> string) list \<Rightarrow> string \<Rightarrow> string" where
  "auth_param ps k = (case map_of (rev ps) k of None \<Rightarrow> '''' | Some v \<Rightarrow> v)"

subsection \<open>The token\<close>

definition query_escape_char :: "char \<Rightarrow> string" where
  "query_escape_char c =
     (if is_alnum c \<or> c \<in> set ''-_.~'' then [c]
      else if c = CHR '' '' then ''+''
      else [CHR ''%'', upper_hex (of_char c div 16), upper_hex (of_char c mod 16)])"

definition query_escape :: "string \<Rightarrow> string" where
  "query_escape s = concat (map query_escape_char s)"

text \<open>\<open>url.Values.Encode\<close> of the two parameters: sorted by their names.\<close>

definition token_query :: "(string \<times> string) list \<Rightarrow> string" where
  "token_query ps =
     join ''&'' (map (\<lambda>k. k @ ''='' @ query_escape (auth_param ps k))
       (filter (\<lambda>k. auth_param ps k \<noteq> '''') [''scope'', ''service'']))"

definition token_url :: "(string \<times> string) list \<Rightarrow> string" where
  "token_url ps = auth_param ps ''realm'' @ (if token_query ps \<noteq> '''' then ''?'' @ token_query ps else '''')"

definition extract_token :: "'w reg_lib \<Rightarrow> string \<Rightarrow> error + string" where
  "extract_token rl body =
     (case rg_token rl body of
        Inl m \<Rightarrow> Inl (errorf (''decode token response: '' @ m))
      | Inr (token, access) \<Rightarrow>
          (if token \<noteq> '''' then Inr token
           else if access \<noteq> '''' then Inr access
           else Inl (errorf (''token response carried no token: '' @ trim_body body))))"

definition token_answer :: "'w reg_lib \<Rightarrow> reply \<Rightarrow> error + string" where
  "token_answer rl r =
     (case rp_body r of
        Inl e \<Rightarrow> Inl (wrapf ''read token response: '' e)
      | Inr body \<Rightarrow>
          (if rp_status r \<noteq> 200
           then Inl (errorf (''token endpoint returned '' @ nat_str (rp_status r) @ '': '' @ trim_body body))
           else extract_token rl body))"

definition authenticate :: "'w reg_lib \<Rightarrow> ctx \<Rightarrow> string \<Rightarrow> ('w, string) act" where
  "authenticate rl c challenge =
     (let ps = auth_params challenge
      in if \<not> prefix ''bearer '' (to_lower challenge)
         then afail (errorf (''unsupported auth challenge: '' @ quote challenge))
         else if auth_param ps ''realm'' = ''''
         then afail (errorf (''auth challenge missing realm: '' @ quote challenge))
         else (\<lambda>w. case rg_get rl c (token_url ps) [] w of
             (Unbuilt e, w') \<Rightarrow> (Inl (wrapf ''build token request: '' e), w')
           | (Unsent e, w') \<Rightarrow> (Inl (wrapf ''fetch token: '' e), w')
           | (Replied r, w') \<Rightarrow> (token_answer rl r, w')))"

subsection \<open>The digest\<close>

text \<open>What an answer to a manifest request says; one without the digest header is digested here.\<close>

definition manifest_answer :: "string \<Rightarrow> string \<Rightarrow> string \<Rightarrow> reply \<Rightarrow> error + string" where
  "manifest_answer host repo tag r =
     (case rp_body r of
        Inl e \<Rightarrow> Inl (wrapf ''read manifest: '' e)
      | Inr body \<Rightarrow>
          (if rp_status r \<noteq> 200
           then Inl (errorf (''registry returned '' @ nat_str (rp_status r) @ '' for '' @ host @ ''/'' @ repo @ '':'' @ tag
                  @ '': '' @ trim_body body))
           else if rp_digest r \<noteq> '''' then Inr (rp_digest r)
           else Inr (''sha256:'' @ sha256_hex body)))"

definition fetch_digest :: "'w reg_lib \<Rightarrow> ctx \<Rightarrow> string \<Rightarrow> string \<Rightarrow> string \<Rightarrow> ('w, string) act" where
  "fetch_digest rl c host repo tag =
     (let url = ''https://'' @ host @ ''/v2/'' @ repo @ ''/manifests/'' @ tag
      in abnd (get_manifest rl c url '''') (\<lambda>r.
         abnd (if rp_status r = 401
               then abnd (ahandle (authenticate rl c (rp_challenge r)) (\<lambda>e. afail (wrapf ''authenticate: '' e)))
                      (get_manifest rl c url)
               else aret r) (\<lambda>r'.
         asum (manifest_answer host repo tag r'))))"

definition api_host :: "string \<Rightarrow> string" where
  "api_host host = (if host = ''docker.io'' then ''registry-1.docker.io'' else host)"

definition resolve_image :: "'w reg_lib \<Rightarrow> ctx \<Rightarrow> string \<Rightarrow> ('w, string) act" where
  "resolve_image rl c r =
     (if blank r then afail (errorf ''registry: image reference is required'')
      else case split_ref r of (name, tag, digest) \<Rightarrow>
        if digest \<noteq> '''' then aret (name @ ''@'' @ digest)
        else case split_name name of (host, repo) \<Rightarrow>
          abnd (ahandle (fetch_digest rl c (api_host host) repo tag) (\<lambda>e. afail (wrapf (''registry: resolve '' @ r @ '': '') e))) (\<lambda>d.
          aret (host @ ''/'' @ repo @ ''@'' @ d)))"

section \<open>Facts\<close>

text \<open>A byte of no white space stays, so a text that holds one is not blank.\<close>

lemma trim_seqs_keeps:
  "c \<in> set s \<Longrightarrow> \<forall>q\<in>set qs. c \<notin> set q \<Longrightarrow> c \<in> set (trim_seqs qs s)"
proof (induction qs s rule: trim_seqs.induct)
  case (2 qs a s)
  show ?case
  proof (cases "seq_len qs (a # s)")
    case 0
    with 2(2) show ?thesis by simp
  next
    case (Suc n)
    from seq_len_taken [OF Suc] obtain q where "q \<in> set qs" "q = a # take n s" by auto
    with 2(3) have "c \<notin> set (a # take n s)" by blast
    with 2(2) have "c \<in> set (drop n s)" by (metis Un_iff append_take_drop_id set_append set_ConsD list.set_intros)
    with 2(1) [OF Suc _ 2(3)] Suc show ?thesis by simp
  qed
qed simp

lemma not_blank_at:
  assumes "CHR ''@'' \<in> set s"
  shows "\<not> blank s"
proof
  have n: "\<forall>q\<in>set space_seqs. CHR ''@'' \<notin> set q" by (simp add: space_seqs_def)
  then have "\<forall>q\<in>set (map rev space_seqs). CHR ''@'' \<notin> set q" by simp
  moreover from trim_seqs_keeps [OF assms n] have "CHR ''@'' \<in> set (rev (trim_left s))" by (simp add: trim_left_def)
  ultimately have "CHR ''@'' \<in> set (trim_space s)"
    unfolding trim_space_def trim_right_def set_rev by (intro trim_seqs_keeps) simp_all
  moreover assume "blank s"
  ultimately show False by simp
qed

lemma after_last_sub: "set (after_last c s) \<subseteq> set s" "set (upto_last c s) \<subseteq> set s"
  using set_takeWhileD by (fastforce simp: after_last_def, metis upto_last_def set_take_subset)

lemma split_ref_name:
  assumes "split_ref r = (n, t, '''')"
  shows "CHR ''@'' \<notin> set n"
proof (cases "cut CHR ''@'' r")
  case None
  then have "CHR ''@'' \<notin> set r" by (simp add: cut_None_iff)
  moreover have "set n \<subseteq> set r"
    using assms None subsetD [OF after_last_sub(1) [of slash r]] subsetD [OF after_last_sub(2) [of slash r]]
      subsetD [OF after_last_sub(2) [of "CHR '':''" "after_last slash r"]]
    by (auto simp: split_ref_def Let_def dest!: in_set_butlastD split: if_splits)
  ultimately show ?thesis by blast
next
  case (Some nd)
  with assms show ?thesis by (cases nd) (auto simp: split_ref_def dest: cut_SomeD)
qed

lemma split_name_chars: "split_name n = (h, p) \<Longrightarrow> CHR ''@'' \<notin> set n \<Longrightarrow> CHR ''@'' \<notin> set h \<and> CHR ''@'' \<notin> set p"
  by (auto simp: split_name_def dest!: cut_SomeD split: option.splits if_splits)

lemma length_sha_round: "length (sha_round st kw) = length st"
  by (cases "(st, kw)" rule: sha_round.cases) (simp_all add: Let_def)

lemma length_foldl_round: "length (foldl sha_round st kws) = length st"
  by (induction kws arbitrary: st) (simp_all add: length_sha_round)

lemma length_sha_blocks: "length (sha_blocks n st ws) = length st"
  by (induction n arbitrary: st ws) (simp_all add: sha_block_def length_foldl_round)

lemma length_word_hex: "length (word_hex w) = 8"
  unfolding word_hex_def length_concat map_map o_def hex_byte_def by (simp add: sum_list_triv)

lemma length_sha256_hex: "length (sha256_hex s) = 64"
proof -
  let ?p = "\<lambda>p :: nat. list_all (\<lambda>d. p mod d \<noteq> 0) [2..<p]"
  have "[2..<312 :: nat] = [2..<20] @ [20..<312]" using upt_add_eq_append [of 2 20 292] by simp
  then have "length small_primes = length (filter ?p [2..<20]) + length (filter ?p [20..<312])"
    by (simp only: small_primes_def filter_append length_append)
  moreover have "length (filter ?p [2..<20]) = 8" by code_simp
  ultimately have "length sha_init = 8" by (simp only: sha_init_def length_map length_take)
  then have "length (sha_blocks n sha_init ws) = 8" for n ws by (simp only: length_sha_blocks)
  moreover have "length (concat (map word_hex ws)) = 8 * length ws" for ws
    by (induction ws) (simp_all add: length_word_hex)
  ultimately show ?thesis by (simp add: sha256_hex_def Let_def)
qed

lemma sha256_pinned: "digest_pinned (n @ ''@sha256:'' @ sha256_hex b)"
proof -
  have "list_all is_lower_hex ''0123456789abcdef''" by code_simp
  then have "list_all is_lower_hex (sha256_hex b)" using sha256_hex_chars unfolding list_all_iff by blast
  then show ?thesis by (simp add: digest_pinned_def Let_def length_sha256_hex)
qed

lemma resolve_image_asked:
  assumes "resolve_image rl c r w = (Inr x, w')" "split_ref r = (n, t, '''')"
  obtains h p rp d where "split_name n = (h, p)" "x = h @ ''/'' @ p @ ''@'' @ d"
    "manifest_answer (api_host h) p t rp = Inr d"
proof -
  obtain h p where hp: "split_name n = (h, p)" by force
  with assms show thesis
    by (auto simp: resolve_image_def fetch_digest_def Let_def abnd_eq ahandle_eq split: if_splits intro: that)
qed

lemma manifest_answer_Inr:
  assumes "manifest_answer h p t rp = Inr d"
  shows "d \<noteq> ''''" "rp_status rp = 200" "rp_digest rp \<noteq> '''' \<Longrightarrow> d = rp_digest rp"
    "rp_digest rp = '''' \<Longrightarrow> \<exists>b. d = ''sha256:'' @ sha256_hex b"
  using assms by (auto simp: manifest_answer_def split: sum.splits if_splits)

section \<open>Properties\<close>

text \<open>
  What an image reference resolves to is a reference of its own digest: resolving it again, whatever the
  registry has become, gives it back and asks the registry nothing. Resolved from a tag, it pins the SHA-256
  digest the manifest demands, unless the registry's own digest header said otherwise.
\<close>

theorem resolve_idempotent:
  assumes "resolve_image rl c r w = (Inr x, w')"
  shows "resolve_image rl' c' x v = (Inr x, v) \<and>
    (snd (snd (split_ref r)) = '''' \<longrightarrow> digest_pinned x \<or>
      (\<exists>(rp :: reply) n. rp_status rp = 200 \<and> rp_digest rp \<noteq> '''' \<and> x = n @ ''@'' @ rp_digest rp))"
proof (cases "split_ref r")
  case (fields n t d)
  show ?thesis
  proof (cases "d = ''''")
    case True
    with fields have f: "split_ref r = (n, t, '''')" by simp
    from resolve_image_asked [OF assms f] obtain h p rp d
      where hp: "split_name n = (h, p)" and x: "x = h @ ''/'' @ p @ ''@'' @ d" and m: "manifest_answer (api_host h) p t rp = Inr d" .
    have "CHR ''@'' \<notin> set (h @ ''/'' @ p)" using split_name_chars [OF hp split_ref_name [OF f]] by simp
    then have "cut CHR ''@'' ((h @ ''/'' @ p) @ CHR ''@'' # d) = Some (h @ ''/'' @ p, d)" by (rule cut_append)
    then have "split_ref x = (h @ ''/'' @ p, '''', d)" using x by (simp add: split_ref_def)
    moreover have "\<not> blank x" by (rule not_blank_at) (simp add: x)
    ultimately have "resolve_image rl' c' x v = (Inr x, v)"
      using manifest_answer_Inr(1) [OF m] x by (simp add: resolve_image_def)
    moreover have "digest_pinned x \<or> (\<exists>(rp :: reply) n. rp_status rp = 200 \<and> rp_digest rp \<noteq> '''' \<and> x = n @ ''@'' @ rp_digest rp)"
    proof (cases "rp_digest rp = ''''")
      case True
      then obtain b where "x = (h @ ''/'' @ p) @ ''@sha256:'' @ sha256_hex b" using manifest_answer_Inr(4) [OF m] x by auto
      then show ?thesis using sha256_pinned by metis
    next
      case False
      with manifest_answer_Inr(2,3) [OF m] x have "rp_status rp = 200 \<and> rp_digest rp \<noteq> '''' \<and> x = (h @ ''/'' @ p) @ ''@'' @ rp_digest rp"
        by simp
      then show ?thesis by - (rule disjI2, rule exI, rule exI, assumption)
    qed
    ultimately show ?thesis by (simp only: simp_thms)
  next
    case False
    then have "r = n @ ''@'' @ d" "\<not> blank r" "x = r"
      using fields assms by (auto simp: split_ref_def resolve_image_def Let_def dest: cut_SomeD split: option.splits if_splits)
    with fields False show ?thesis by (simp add: resolve_image_def)
  qed
qed

subsection \<open>A registry\<close>

definition sample_registry :: "unit reg_lib" where
  "sample_registry =
     \<lparr>rg_get = (\<lambda>c url hs w. (Replied \<lparr>rp_status = 200, rp_challenge = '''', rp_digest = ''sha256:0a'', rp_body = Inr ''m''\<rparr>, w)),
      rg_token = (\<lambda>b. Inl ''none'')\<rparr>"

lemma sample_resolves:
  "resolve_image sample_registry Caller ''forge:9'' w = (Inr ''docker.io/library/forge@sha256:0a'', w)"
proof -
  have "split_ref ''forge:9'' = (''forge'', ''9'', '''')" "split_name ''forge'' = (''docker.io'', ''library/forge'')" "\<not> blank ''forge:9''"
    by code_simp+
  then show ?thesis
    by (simp add: resolve_image_def fetch_digest_def get_manifest_def manifest_answer_def sample_registry_def abnd_def ahandle_def)
qed

lemma resolve_idempotent_witness:
  "\<forall>w :: unit world. resolve_image sample_registry Caller ''docker.io/library/forge@sha256:0a'' w
     = (Inr ''docker.io/library/forge@sha256:0a'', w)"
  using resolve_idempotent [OF sample_resolves] by blast

end
