(* ===== verification/Upgrade.thy ===== *)
theory Upgrade
  imports Status Registry Promote
begin

text \<open>
  \<open>internal/core/upgrade\<close>: the health gate, the backup, the bumped pin, the deployment that migrates and
  the verification (\<open>upgrade.go\<close>), and the way back that a failure after the backup reports
  (\<open>recovery.go\<close>). It runs the operations of the theories Status, Backup, Registry and Deploy.
\<close>

section \<open>The way back\<close>

definition StepCheckHealth :: string where "StepCheckHealth = ''check-health''"
definition StepBumpVersion :: string where "StepBumpVersion = ''bump-version''"
definition StepVerify :: string where "StepVerify = ''verify-upgrade''"
definition StepRecoveryPath :: string where "StepRecoveryPath = ''recovery-path''"

record recovery =
  rc_destination :: string
  rc_snapshot :: string
  rc_version :: string
  rc_target :: string
  rc_bundle :: string

definition recovery_command :: "recovery \<Rightarrow> string" where
  "recovery_command r =
     ''farrier restore -bundle '' @ rc_bundle r @ '' -target '' @ rc_target r @ '' -from '' @ rc_destination r
     @ '' -snapshot '' @ rc_snapshot r"

definition recovery_detail :: "recovery \<Rightarrow> string" where
  "recovery_detail r =
     ''the pre-upgrade backup is intact: snapshot '' @ rc_snapshot r @ '' at '' @ rc_destination r @ '', pinning forgejo ''
     @ rc_version r @ ''. restore it to return to that version (restore boots the version the snapshot pins, ''
     @ ''whatever the bundle now pins): '' @ recovery_command r"

section \<open>Options\<close>

text \<open>The operation's host knows the target it was reached at.\<close>

record ('w, 'k) upgrade_options =
  gBundleDir :: string
  gRemoteDir :: string
  gWorkDir :: string
  gBundle :: "bundle_data option"
  gDestination :: string
  gNewImage :: string
  gIdentity :: "'k option"
  gKeystore :: "'w driver option"
  gBlobs :: "'w adapter option"
  gHost :: "('w host \<times> target) option"
  gIssuer :: "'w issuer option"
  gResolver :: "(ctx \<Rightarrow> string \<Rightarrow> ('w, string) act) option"
  gDiskPath :: string

text \<open>What the operation needs from outside this program.\<close>

record ('w, 'k) upgrade_env =
  ue_env :: "'w env"
  ue_acme :: "'w acme_lib"
  ue_codec :: "('w, 'k) codec"
  ue_open :: "string \<Rightarrow> ('w, 'w adapter) act"
  ue_backup :: "'w backup_env"
  ue_status :: status_lib
  ue_registry :: "'w reg_lib"
  ue_marshal :: "manifest \<Rightarrow> error + string"

text \<open>\<open>filepath.Rel\<close> of two absolute paths, as their elements.\<close>

fun drop_common :: "string list \<Rightarrow> string list \<Rightarrow> string list \<times> string list" where
  "drop_common (a # as) (b # bs) = (if a = b then drop_common as bs else (a # as, b # bs))"
| "drop_common as bs = (as, bs)"

definition path_rel :: "string list \<Rightarrow> string list \<Rightarrow> string" where
  "path_rel base targ =
     (case drop_common base targ of (b, t) \<Rightarrow> rel_path (map (\<lambda>_. dotdot) b @ t))"

definition destination_inside :: "fsys \<Rightarrow> string \<Rightarrow> string \<Rightarrow> bool" where
  "destination_inside s dest work =
     (if prefix ''s3://'' dest then False
      else let rel = path_rel (place s work) (place s dest)
           in \<not> (rel = dotdot \<or> prefix (dotdot @ [slash]) rel))"

definition validate_upgrade :: "('w, 'k) upgrade_options \<Rightarrow> fsys \<Rightarrow> error + unit" where
  "validate_upgrade os s =
     (if blank (gBundleDir os) then Inl (errorf ''upgrade: bundle directory is required'')
      else if blank (gRemoteDir os) then Inl (errorf ''upgrade: remote directory is required'')
      else if blank (gWorkDir os) then Inl (errorf ''upgrade: work directory is required'')
      else if gBundle os = None then Inl (errorf ''upgrade: bundle is required'')
      else if blank (gDestination os) then Inl (errorf ''upgrade: backup destination is required'')
      else if blank (gNewImage os) then Inl (errorf ''upgrade: new forgejo image is required'')
      else if gIdentity os = None then Inl (errorf ''upgrade: age identity is required'')
      else if gKeystore os = None then Inl (errorf ''upgrade: keystore driver is required'')
      else if gBlobs os = None then Inl (errorf ''upgrade: blob adapter is required'')
      else if gHost os = None then Inl (errorf ''upgrade: host is required'')
      else if destination_inside s (gDestination os) (gWorkDir os)
      then Inl (errorf (''upgrade: backup destination '' @ gDestination os @ '' is inside the work directory ''
             @ gWorkDir os @ '', which is deleted when upgrade returns; name a destination outside it''))
      else Inr ())"

abbreviation gh :: "('w, 'k) upgrade_options \<Rightarrow> 'w host" where "gh os \<equiv> fst (the (gHost os))"
abbreviation gb :: "('w, 'k) upgrade_options \<Rightarrow> bundle_data" where "gb os \<equiv> the (gBundle os)"

section \<open>Health\<close>

text \<open>\<open>Format(time.RFC3339)\<close> of a UTC time in nanoseconds.\<close>

definition format_rfc3339 :: "int \<Rightarrow> string" where
  "format_rfc3339 ns =
     (let secs = ns div 1000000000; tod = secs mod 86400
      in (case civil (secs div 86400) of (y, m, d) \<Rightarrow>
           pad_num 4 y @ ''-'' @ pad_num 2 m @ ''-'' @ pad_num 2 d @ ''T'' @ pad_num 2 (tod div 3600) @ '':''
           @ pad_num 2 (tod div 60 mod 60) @ '':'' @ pad_num 2 (tod mod 60) @ ''Z''))"

definition unhealthy :: "health \<Rightarrow> string list" where
  "unhealthy r =
     map (\<lambda>s. ''service '' @ ss_name s @ '' is down: '' @ ss_detail s) (filter (\<lambda>s. \<not> ss_up s) (hl_services r))
     @ (if \<not> tls_valid (hl_tls r)
        then [''tls certificate is not valid (expires '' @ format_rfc3339 (tls_not_after (hl_tls r)) @ '')''] else [])
     @ (if dk_avail (hl_disk r) = 0 then [''no disk headroom left on '' @ dk_path (hl_disk r)] else [])"

definition health_options :: "('w, 'k) upgrade_options \<Rightarrow> bundle_data \<Rightarrow> 'w status_options" where
  "health_options os b =
     \<lparr>sRunner = Some (gh os), sBundle = Some b, sRemoteDir = gRemoteDir os, sKeystore = gKeystore os,
      sServices = [], sDiskPath = gDiskPath os, sDestination = None\<rparr>"

definition check_healthy ::
    "('w, 'k) upgrade_env \<Rightarrow> ctx \<Rightarrow> ('w, 'k) upgrade_options \<Rightarrow> bundle_data \<Rightarrow> string \<Rightarrow> string \<Rightarrow> ('w, unit) io" where
  "check_healthy ue c os b stp refusal =
     bnd (started stp ''checking instance health'') (\<lambda>_.
     bnd (reported stp (orfail (status_check (ue_status ue) c (health_options os b)) ''upgrade: check instance health: '')) (\<lambda>r.
     if unhealthy r \<noteq> []
     then fail_step stp (errorf (''upgrade: '' @ refusal @ '': '' @ join ''; '' (unhealthy r)))
     else succeeded stp ''instance is healthy''))"

section \<open>The steps\<close>

definition upgrade_backup :: "('w, 'k) upgrade_env \<Rightarrow> ctx \<Rightarrow> ('w, 'k) upgrade_options \<Rightarrow> ('w, string) io" where
  "upgrade_backup ue c os =
     backup (ue_codec ue) (ue_open ue) c
       (build_options (ue_backup ue) (gh os) (snd (the (gHost os))) (gb os) (gRemoteDir os)
          (join2 (gWorkDir os) ''backup'') (gDestination os) (gIdentity os) (gBlobs os) (gKeystore os))"

definition run_backup :: "('w, 'k) upgrade_env \<Rightarrow> ctx \<Rightarrow> ('w, 'k) upgrade_options \<Rightarrow> ('w, string) io" where
  "run_backup ue c os =
     bnd (subjob (upgrade_backup ue c os)) (\<lambda>r. orfail (of_sum (fst r)) ''upgrade: pre-upgrade backup: '')"

definition bumped_bundle :: "yaml_codec \<Rightarrow> bundle_data \<Rightarrow> string \<Rightarrow> error + bundle_data" where
  "bumped_bundle y b img =
     (let m = (b_manifest b)\<lparr>Images := put_key ForgeService img (Images (b_manifest b))\<rparr>
      in case render y (Some m) of
           Inl e \<Rightarrow> Inl (wrapf (''upgrade: render compose pinned to forgejo '' @ img @ '': '') e)
         | Inr compose \<Rightarrow> Inr \<lparr>b_manifest = m, b_compose = compose\<rparr>)"

definition resolver_or_default ::
    "'w reg_lib \<Rightarrow> (ctx \<Rightarrow> string \<Rightarrow> ('w, string) act) option \<Rightarrow> ctx \<Rightarrow> string \<Rightarrow> ('w, string) act" where
  "resolver_or_default rl r = (case r of Some f \<Rightarrow> f | None \<Rightarrow> resolve_image rl)"

definition bump_version :: "('w, 'k) upgrade_env \<Rightarrow> ctx \<Rightarrow> ('w, 'k) upgrade_options \<Rightarrow> ('w, bundle_data) io" where
  "bump_version ue c os =
     bnd (started StepBumpVersion (''resolving '' @ gNewImage os)) (\<lambda>_.
     bnd (reported StepBumpVersion
            (orfail (call ''registry'' c [''resolve'', gNewImage os]
                       (resolver_or_default (ue_registry ue) (gResolver os) c (gNewImage os)))
               ''upgrade: resolve forgejo image: '')) (\<lambda>resolved.
     bnd (reported StepBumpVersion (of_sum (bumped_bundle (en_yaml (ue_env ue)) (gb os) resolved))) (\<lambda>bumped.
     bnd (reported StepBumpVersion
            (orfail (locally (bundle_save (ue_marshal ue) bumped (gBundleDir os))) ''upgrade: save bumped manifest: '')) (\<lambda>_.
     bnd (succeeded StepBumpVersion (''pinned forgejo to '' @ resolved)) (\<lambda>_.
     ret bumped)))))"

definition migrate :: "('w, 'k) upgrade_env \<Rightarrow> ctx \<Rightarrow> bundle_data \<Rightarrow> ('w, 'k) upgrade_options \<Rightarrow> ('w, unit) io" where
  "migrate ue c bumped os =
     bnd (subjob (up (ue_env ue) (ue_acme ue) (gh os) c (Some bumped)
            \<lparr>uRemoteDir = gRemoteDir os, uAddress = '''', uIssuer = gIssuer os, uMigrate = True, uQuarantine = False\<rparr>)) (\<lambda>r.
     orfail (of_sum (fst r)) ''upgrade: apply migrations: '')"

definition recovery_of :: "('w, 'k) upgrade_options \<Rightarrow> string \<Rightarrow> recovery" where
  "recovery_of os key =
     \<lparr>rc_destination = gDestination os, rc_snapshot = key, rc_version = image_of (gb os) ForgeService,
      rc_target = target_string (snd (the (gHost os))), rc_bundle = gBundleDir os\<rparr>"

text \<open>The outcome with the way back, which there is from the backup on and only for a failure.\<close>

definition past_backup ::
    "('w, 'k) upgrade_env \<Rightarrow> ctx \<Rightarrow> ('w, 'k) upgrade_options \<Rightarrow> string \<Rightarrow> ('w, (error + string) \<times> recovery option) io" where
  "past_backup ue c os key =
     bnd (attempt
       (bnd (bump_version ue c os) (\<lambda>bumped.
        bnd (migrate ue c bumped os) (\<lambda>_.
        bnd (check_healthy ue c os bumped StepVerify ''upgraded instance failed verification'') (\<lambda>_.
        ret (image_of bumped ForgeService)))))) (\<lambda>r.
     ret (r, case r of Inl _ \<Rightarrow> Some (recovery_of os key) | Inr _ \<Rightarrow> None))"

definition to_backup :: "('w, 'k) upgrade_env \<Rightarrow> ctx \<Rightarrow> ('w, 'k) upgrade_options \<Rightarrow> ('w, string) io" where
  "to_backup ue c os =
     bnd (check_healthy ue c os (gb os) StepCheckHealth ''refusing to upgrade'') (\<lambda>_. run_backup ue c os)"

definition prepare :: "('w, 'k) upgrade_options \<Rightarrow> ('w, unit) io" where
  "prepare os =
     bnd (locally (\<lambda>w. (validate_upgrade os (fs w), w))) (\<lambda>_.
     orfail (locally (on_fs (os_mkdir_all (gWorkDir os)))) ''upgrade: create work directory: '')"

definition upgrade_steps ::
    "('w, 'k) upgrade_env \<Rightarrow> ctx \<Rightarrow> ('w, 'k) upgrade_options \<Rightarrow> ('w, (error + string) \<times> recovery option) io" where
  "upgrade_steps ue c os =
     bnd (attempt (prepare os)) (\<lambda>v.
     case v of
       Inl e \<Rightarrow> ret (Inl e, None)
     | Inr _ \<Rightarrow>
         deferred (locally (on_fs (os_remove_all (gWorkDir os))))
           (bnd (attempt (to_backup ue c os)) (\<lambda>b.
            case b of Inl e \<Rightarrow> ret (Inl e, None) | Inr key \<Rightarrow> past_backup ue c os key)))"

definition report_failure :: "error \<Rightarrow> recovery option \<Rightarrow> ('w, unit) io" where
  "report_failure e r =
     bnd (case r of None \<Rightarrow> ret e
          | Some rv \<Rightarrow> bnd (succeeded StepRecoveryPath (recovery_detail rv)) (\<lambda>_. ret (suffixf e (nl @ recovery_detail rv)))) (\<lambda>e'.
     bnd (job_failed (msg e')) (\<lambda>_. fail e'))"

definition upgrade :: "('w, 'k) upgrade_env \<Rightarrow> ctx \<Rightarrow> ('w, 'k) upgrade_options \<Rightarrow> ('w, unit) io" where
  "upgrade ue c os =
     bnd (upgrade_steps ue c os) (\<lambda>(r, rv).
     case r of Inl e \<Rightarrow> report_failure e rv | Inr v \<Rightarrow> job_succeeded (''upgraded to forgejo '' @ v))"

section \<open>Facts\<close>

subsection \<open>What an upgrade changes\<close>

text \<open>A write to the host, a start of its stack, and the resolution of the new image.\<close>

definition changes :: "call \<Rightarrow> bool" where
  "changes k \<longleftrightarrow> writes_host k \<or> starts_stack k \<or> iface k = ''registry''"

lemma not_changes:
  "n \<noteq> ''host'' \<Longrightarrow> n \<noteq> ''registry'' \<Longrightarrow> \<not> changes (Call n c as)"
  "last cmd \<noteq> CHR ''s'' \<Longrightarrow> \<not> changes (Call ''host'' c [''output'', cmd])"
  by (simp_all add: changes_def writes_host_def starts_stack_def) (use not_stack_last in \<open>auto simp: starts_stack_def\<close>)

lemma status_calls: "only_calls (\<lambda>k. \<not> changes k) (status_check sl c os)"
  unfolding status_check_def check_services_def check_tls_def resolve_key_def check_disk_def replication_lag_def
  by (intro calls_intros not_changes; simp add: squote_def)

lemma check_healthy_calls: "only_calls (\<lambda>k. \<not> changes k) (check_healthy ue c os b stp refusal)"
  unfolding check_healthy_def by (intro calls_intros status_calls)

lemma held_changes: "only_calls (\<lambda>k. \<not> changes k) (held_captures hc ps)"
  by (rule calls_weaken [OF held_captures_calls]) (auto simp: held_call_def changes_def writes_host_def starts_stack_def)

lemma later_changes: "only_calls (\<lambda>k. \<not> changes k) (after_hold cd c ps held)"
  by (rule calls_weaken [OF after_hold_calls]) (auto simp: later_call_def changes_def writes_host_def starts_stack_def)

lemma backup_calls: "only_calls (\<lambda>k. \<not> changes k) (backup cd od c os)"
  unfolding backup_def backup_steps_def backup_body_def run_capture_def run_def run_steps_def capture_under_hold_def
    release_hold_def encrypt_def verify_encrypted_def write_snapshot_def Let_def
  by (intro calls_intros held_changes later_changes not_changes; simp)

lemma to_backup_calls: "only_calls (\<lambda>k. \<not> changes k) (to_backup ue c os)"
  unfolding to_backup_def run_backup_def upgrade_backup_def by (intro calls_intros check_healthy_calls backup_calls)

lemma prepare_calls: "only_calls (\<lambda>_. False) (prepare os)"
  unfolding prepare_def by (intro calls_intros)

lemma past_backup_calls: "only_calls (\<lambda>_. True) (past_backup ue c os key)"
  unfolding past_backup_def bump_version_def migrate_def
  by (intro calls_intros only_callsI_bound [OF check_healthy_calls] only_callsI_bound [OF up_no_dns]; simp)

subsection \<open>Running the steps\<close>

lemma deferred_local:
  assumes "deferred (locally a) m p = (r, p')"
  obtains r1 p1 where "m p = (r1, p1)" "runs_to p1 p'" "trace p' = trace p1" "\<And>x. r = Ok x \<Longrightarrow> r1 = Ok x"
proof -
  obtain r1 p1 where m: "m p = (r1, p1)" by force
  have l: "\<exists>y q. attempt (locally a) p1 = (Ok y, q) \<and> trace q = trace p1 \<and> runs_to p1 q"
    using only_calls_runs [OF calls_attempt [OF calls_locally], of a p1]
    by (cases "a (world p1)"; cases "fst (a (world p1))") (auto simp: attempt_def locally_def)
  with m assms have "runs_to p1 p'" "trace p' = trace p1" "\<And>x. r = Ok x \<Longrightarrow> r1 = Ok x"
    by (cases r1; auto simp: deferred_def attempt_def bnd_def fail_def ret_def)+
  with m show thesis using that by blast
qed

lemma infallible_deferred:
  assumes "infallible m"
  shows "infallible (deferred (locally a) m)"
  unfolding infallible_def
proof (intro allI notI)
  fix p e
  assume f: "fst (deferred (locally a) m p) = Fail e"
  obtain r1 p1 where m: "m p = (r1, p1)" by force
  with assms have "\<And>e. r1 \<noteq> Fail e" unfolding infallible_def by (metis fst_conv)
  moreover obtain y q where "attempt (locally a) p1 = (Ok y, q)"
    by (cases "a (world p1)"; cases "fst (a (world p1))") (auto simp: attempt_def locally_def)
  ultimately show False using f m by (cases r1) (auto simp: deferred_def attempt_def bnd_def ret_def)
qed

lemma upgrade_steps_infallible: "infallible (upgrade_steps ue c os)"
  unfolding upgrade_steps_def past_backup_def
  by (intro infallible_bnd infallible_attempt)
    (auto intro!: infallible_bnd infallible_attempt infallible_ret infallible_deferred split: sum.splits)

text \<open>A backup that succeeded from \<open>q\<close> to \<open>q'\<close>.\<close>

definition backed_up :: "('w, 'k) upgrade_env \<Rightarrow> ctx \<Rightarrow> ('w, 'k) upgrade_options \<Rightarrow> string \<Rightarrow> 'w proc \<Rightarrow> 'w proc \<Rightarrow> bool" where
  "backed_up ue c os key q q' \<longleftrightarrow> upgrade_backup ue c os q = (Ok key, q')"

lemma to_backup_Ok:
  assumes "to_backup ue c os p = (Ok key, p')"
  shows "checked (backed_up ue c os key) p p' (trace p')"
proof -
  from assms obtain p1 where p1: "check_healthy ue c os (gb os) StepCheckHealth ''refusing to upgrade'' p = (Ok (), p1)"
      and "run_backup ue c os p1 = (Ok key, p')" unfolding to_backup_def by (elim bnd_OkE) simp
  from this(2) obtain r p2 where s: "subjob (upgrade_backup ue c os) p1 = (Ok r, p2)" "orfail (of_sum (fst r)) ''upgrade: pre-upgrade backup: '' p2 = (Ok key, p')"
    unfolding run_backup_def by (elim bnd_OkE)
  from of_sum_Ok [OF orfail_Ok [OF s(2)]] obtain evs where r: "r = (Inr key, evs)" "p' = p2" by (cases r) auto
  from subjob_ran [OF s(1) [unfolded r(1)]] obtain q q' where q: "attempt (upgrade_backup ue c os) q = (Ok (Inr key), q')"
    "same_place p1 q" "same_place q' p2" .
  have "only_calls (\<lambda>k. \<not> changes k) (upgrade_backup ue c os)" unfolding upgrade_backup_def by (rule backup_calls)
  from only_calls_runs [OF this attempt_Ok [OF q(1)]] have run: "runs_to q q'" .
  have "backed_up ue c os key q q'" unfolding backed_up_def by (rule attempt_Ok [OF q(1)])
  then have "checked (backed_up ue c os key) q q' (trace q')" using run by (rule checked_at)
  from checked_same [OF this q(3)] have "checked (backed_up ue c os key) p p2 (trace q')"
    by (rule checked_earlier [OF runs_to_trans [OF only_calls_runs [OF check_healthy_calls p1] runs_to_same [OF q(2)]]])
  then show ?thesis using r(2) q(3) by (simp add: same_place_def)
qed

lemma past_backup_Ok:
  assumes "past_backup ue c os key p = (Ok x, p')"
  shows "(\<exists>e. x = (Inl e, Some (recovery_of os key))) \<or> (\<exists>v. x = (Inr v, None))"
proof -
  from assms obtain r where "x = (r, case r of Inl _ \<Rightarrow> Some (recovery_of os key) | Inr _ \<Rightarrow> None)"
    unfolding past_backup_def by (elim bnd_OkE) auto
  then show ?thesis by (cases r) auto
qed

lemma attempt_trace:
  assumes "attempt m p = (R, p')" "only_calls C m"
  obtains cs where "trace p' = trace p @ cs" "\<forall>k\<in>set cs. C k"
  using only_callsD [OF calls_attempt [OF assms(2)] assms(1)] .

text \<open>Nothing was changed between two processes; or a backup succeeded before anything was.\<close>

definition untouched :: "'w proc \<Rightarrow> 'w proc \<Rightarrow> bool" where
  "untouched p p' \<longleftrightarrow> (\<exists>cs. trace p' = trace p @ cs \<and> (\<forall>k\<in>set cs. \<not> changes k))"

lemma untouched_prefix:
  assumes "untouched p p1" "prefix (trace p) (trace q)" "prefix (trace q) (trace p1)"
  shows "untouched p q"
proof -
  from assms(1) obtain cs where cs: "trace p1 = trace p @ cs" "\<forall>k\<in>set cs. \<not> changes k" unfolding untouched_def by blast
  from assms(2,3) obtain as bs where ab: "trace q = trace p @ as" "trace p1 = trace q @ bs" unfolding prefix_def by blast
  with cs have "cs = as @ bs" by simp
  with cs(2) ab(1) show ?thesis unfolding untouched_def by auto
qed

definition backed_up_first ::
    "('w, 'k) upgrade_env \<Rightarrow> ctx \<Rightarrow> ('w, 'k) upgrade_options \<Rightarrow> string \<Rightarrow> 'w proc \<Rightarrow> 'w proc \<Rightarrow> bool" where
  "backed_up_first ue c os key p p' \<longleftrightarrow>
     checked (\<lambda>q q'. backed_up ue c os key q q' \<and> untouched p q') p p' (trace p')"

lemma untouched_cong: "trace p' = trace p'' \<Longrightarrow> trace q = trace q' \<Longrightarrow> untouched q p' \<longleftrightarrow> untouched q' p''"
  by (simp add: untouched_def)

lemma backed_up_first_later:
  "backed_up_first ue c os key p p' \<Longrightarrow> runs_to p' p'' \<Longrightarrow> backed_up_first ue c os key p p''"
  unfolding backed_up_first_def by (erule checked_later) (simp_all add: runs_to_trace)

lemma backed_up_first_earlier:
  "backed_up_first ue c os key q p' \<Longrightarrow> runs_to p q \<Longrightarrow> trace q = trace p \<Longrightarrow> backed_up_first ue c os key p p'"
  unfolding backed_up_first_def untouched_def by (rule checked_earlier) simp_all

text \<open>
  How far a run of the steps got: no further than the gate and the backup, and it failed; or past a
  successful backup, whose key is then the way back of every failure.
\<close>

definition got_to ::
    "('w, 'k) upgrade_env \<Rightarrow> ctx \<Rightarrow> ('w, 'k) upgrade_options \<Rightarrow> 'w proc \<Rightarrow> 'w proc \<Rightarrow> ((error + string) \<times> recovery option) res \<Rightarrow> bool" where
  "got_to ue c os p p' R \<longleftrightarrow>
     (untouched p p' \<and> (\<forall>x. R = Ok x \<longrightarrow> (\<exists>e. x = (Inl e, None)))) \<or>
     (\<exists>key. backed_up_first ue c os key p p' \<and>
        (\<forall>x. R = Ok x \<longrightarrow> (\<exists>e. x = (Inl e, Some (recovery_of os key))) \<or> (\<exists>v. x = (Inr v, None))))"

lemma got_to_cong:
  assumes "got_to ue c os q p' R1" "runs_to p' p''" "trace p'' = trace p'" "runs_to q' q" "trace q = trace q'"
    "\<And>x. R = Ok x \<Longrightarrow> R1 = Ok x"
  shows "got_to ue c os q' p'' R"
  using assms(1,6) untouched_cong [OF assms(3) [symmetric] assms(5)] backed_up_first_later [OF backed_up_first_earlier [OF _ assms(4,5)] assms(2)]
  unfolding got_to_def by metis

lemma bnd_attemptE:
  assumes "bnd (attempt m) k p = (R, p')"
  obtains (err) e p1 where "m p = (Fail e, p1)" "k (Inl e) p1 = (R, p')"
    | (ok) x p1 where "m p = (Ok x, p1)" "k (Inr x) p1 = (R, p')"
    | (broke) r' where "\<forall>x. R \<noteq> Ok x" "attempt m p = (r', p')"
proof (cases "m p")
  case (Pair r p1)
  then show thesis using assms that by (cases r) (auto simp: attempt_def bnd_def)
qed

lemma got_to_inner:
  assumes "bnd (attempt (to_backup ue c os)) (\<lambda>b. case b of Inl e \<Rightarrow> ret (Inl e, None) | Inr key \<Rightarrow> past_backup ue c os key) p = (R, p')"
  shows "got_to ue c os p p' R"
  using assms
proof (cases rule: bnd_attemptE)
  case (err e p1)
  then have "untouched p p'" using only_callsD [OF to_backup_calls err(1)] unfolding untouched_def by auto
  with err show ?thesis unfolding got_to_def by auto
next
  case (ok key p1)
  from to_backup_Ok [OF ok(1)] obtain q q' where q: "runs_to p q" "runs_to q q'" "runs_to q' p1" "backed_up ue c os key q q'"
    unfolding checked_def by blast
  have "untouched p p1" using only_callsD [OF to_backup_calls ok(1)] unfolding untouched_def by metis
  from untouched_prefix [OF this runs_to_trace [OF runs_to_trans [OF q(1,2)]] runs_to_trace [OF q(3)]] have "untouched p q'" .
  with q have b: "backed_up_first ue c os key p p1"
    unfolding backed_up_first_def checked_def by (intro exI [of _ q] exI [of _ q']) (simp add: runs_to_trace)
  have pb: "past_backup ue c os key p1 = (R, p')" using ok(2) by simp
  from backed_up_first_later [OF b only_calls_runs [OF past_backup_calls this]] have "backed_up_first ue c os key p p'" .
  moreover have "(\<exists>e. x = (Inl e, Some (recovery_of os key))) \<or> (\<exists>v. x = (Inr v, None))" if "R = Ok x" for x
    using past_backup_Ok pb that by blast
  ultimately show ?thesis unfolding got_to_def by (intro disjI2 exI [of _ key]) simp
next
  case (broke r')
  then have "untouched p p'" using attempt_trace [OF _ to_backup_calls] unfolding untouched_def by metis
  with broke show ?thesis unfolding got_to_def by blast
qed

lemma got_to_steps:
  assumes "upgrade_steps ue c os p = (R, p')"
  shows "got_to ue c os p p' R"
proof -
  have u: "untouched p p1" if "trace p1 = trace p" for p1 using that unfolding untouched_def by simp
  note silent = silentD [OF prepare_calls] silentD [OF calls_attempt [OF prepare_calls]]
  from assms [unfolded upgrade_steps_def] show ?thesis
  proof (cases rule: bnd_attemptE)
    case (err e p1)
    with u [OF silent(1) [OF err(1)]] show ?thesis unfolding got_to_def by auto
  next
    case (ok x p1)
    then have "deferred (locally (on_fs (os_remove_all (gWorkDir os))))
      (bnd (attempt (to_backup ue c os)) (\<lambda>b. case b of Inl e \<Rightarrow> ret (Inl e, None) | Inr key \<Rightarrow> past_backup ue c os key)) p1 = (R, p')"
      by simp
    then show ?thesis
    proof (rule deferred_local)
      fix r1 p2
      assume d: "bnd (attempt (to_backup ue c os)) (\<lambda>b. case b of Inl e \<Rightarrow> ret (Inl e, None) | Inr key \<Rightarrow> past_backup ue c os key) p1 = (r1, p2)"
        "runs_to p2 p'" "trace p' = trace p2" "\<And>x. R = Ok x \<Longrightarrow> r1 = Ok x"
      from got_to_cong [OF got_to_inner [OF d(1)] d(2,3) only_calls_runs [OF prepare_calls ok(1)] silent(1) [OF ok(1)] d(4)]
      show ?thesis .
    qed
  next
    case (broke r')
    with u [OF silent(2) [OF broke(2)]] show ?thesis unfolding got_to_def by blast
  qed
qed

lemma emit_event: "emit st s d p = (Ok x, p') \<Longrightarrow> \<exists>ev. ev_step ev = st \<and> ev_detail ev = d \<and> job_events (job p') = job_events (job p) @ [ev]"
  by (auto simp: emit_def job_emit_def mk_event_def split: option.splits if_splits)

lemma report_failure_runs:
  assumes "report_failure e rv p = (r, p')"
  shows "trace p' = trace p" "r = Ok u \<Longrightarrow> False"
    and "r = Fail e' \<Longrightarrow> rv = Some v \<Longrightarrow> e' = suffixf e (nl @ recovery_detail v)
      \<and> (\<exists>ev\<in>set (job_events (job p')). ev_step ev = StepRecoveryPath \<and> ev_detail ev = recovery_detail v)"
proof -
  have "only_calls (\<lambda>_. False) (report_failure e rv)" unfolding report_failure_def by (intro calls_intros)
  from silentD [OF this assms] show "trace p' = trace p" .
  show "r = Ok u \<Longrightarrow> False" using assms unfolding report_failure_def by (auto elim!: bnd_OkE)
  assume r: "r = Fail e'" and v: "rv = Some v"
  let ?e = "suffixf e (nl @ recovery_detail v)"
  from assms [unfolded report_failure_def v option.case] r obtain p1 p2
    where 1: "succeeded StepRecoveryPath (recovery_detail v) p = (Ok (), p1)" and 2: "job_failed (msg ?e) p1 = (Ok (), p2)"
      and 3: "e' = ?e" "p' = p2"
    by (auto simp: bnd_eq emit_def split: option.splits)
  from emit_event [OF 1] emit_event [OF 2] 3 show "e' = ?e
      \<and> (\<exists>ev\<in>set (job_events (job p')). ev_step ev = StepRecoveryPath \<and> ev_detail ev = recovery_detail v)"
    by auto
qed

section \<open>Properties\<close>

text \<open>
  C5. An upgrade, however it ends, has changed nothing (no write to the host, no start of its stack, no
  resolution of an image), and then it failed or broke off; or a backup succeeded before its first such
  call, and then an error it returns ends in the way back from that backup's snapshot, which its job has
  also reported as an event.
\<close>

theorem upgrade_leaves_way_back:
  "case upgrade ue c os p of (r, p') \<Rightarrow>
     (untouched p p' \<and> r \<noteq> Ok ()) \<or>
     (\<exists>key. backed_up_first ue c os key p p' \<and>
        (case r of Fail e \<Rightarrow> (\<exists>e0. e = suffixf e0 (nl @ recovery_detail (recovery_of os key))) \<and>
             (\<exists>ev\<in>set (job_events (job p')). ev_step ev = StepRecoveryPath \<and> ev_detail ev = recovery_detail (recovery_of os key))
         | _ \<Rightarrow> True))"
proof (cases "upgrade ue c os p")
  case (Pair r p')
  obtain R p1 where s: "upgrade_steps ue c os p = (R, p1)" by force
  note g = got_to_steps [OF s]
  have nofail: "R \<noteq> Fail e" for e
    using upgrade_steps_infallible [of ue c os] s unfolding infallible_def by (metis fst_conv)
  show ?thesis
  proof (cases R)
    case (Ok x)
    obtain o1 rv where x: "x = (o1, rv)" by force
    with Pair s Ok have k: "(case o1 of Inl e \<Rightarrow> report_failure e rv | Inr v \<Rightarrow> job_succeeded (''upgraded to forgejo '' @ v)) p1 = (r, p')"
      by (simp add: upgrade_def bnd_Ok)
    have silent: "only_calls (\<lambda>_. False) (case o1 of Inl e \<Rightarrow> report_failure e rv | Inr v \<Rightarrow> job_succeeded (''upgraded to forgejo '' @ v))"
      unfolding report_failure_def by (intro calls_intros)
    have t: "trace p1 = trace p'" "runs_to p1 p'" using silentD [OF silent k] only_calls_runs [OF silent k] by simp_all
    from g Ok x consider (stopped) e where "untouched p p1" "o1 = Inl e"
      | (failed) e key where "backed_up_first ue c os key p p1" "o1 = Inl e" "rv = Some (recovery_of os key)"
      | (fine) v key where "backed_up_first ue c os key p p1" "o1 = Inr v"
      unfolding got_to_def by auto
    then show ?thesis
    proof cases
      case stopped
      with k have "r \<noteq> Ok ()" using report_failure_runs(2) by fastforce
      with stopped(1) untouched_cong [OF t(1) refl] Pair show ?thesis by simp
    next
      case failed
      from k failed(2) have f: "report_failure e rv p1 = (r, p')" by simp
      from failed(1) t(2) have b: "backed_up_first ue c os key p p'" by (rule backed_up_first_later)
      from report_failure_runs(3) [OF f _ failed(3)] b Pair show ?thesis
        by (cases r) auto
    next
      case fine
      from k fine(2) have "\<forall>e. r \<noteq> Fail e" by (auto simp: emit_def split: option.splits)
      moreover from fine(1) t(2) have "backed_up_first ue c os key p p'" by (rule backed_up_first_later)
      ultimately show ?thesis using Pair by (cases r) auto
    qed
  qed (use nofail g Pair s in \<open>auto simp: upgrade_def bnd_def got_to_def\<close>)
qed

subsection \<open>The upgrade ends\<close>

lemma status_calm: "calm (status_check sl c os)"
  unfolding status_check_def check_services_def check_tls_def resolve_key_def check_disk_def replication_lag_def
  by (intro calm_intros)

lemma check_healthy_calm: "stp \<noteq> '''' \<Longrightarrow> calm (check_healthy ue c os b stp refusal)"
  unfolding check_healthy_def by (intro calm_intros status_calm) (simp_all add: ends_job_def)

lemma steps_named [simp]: "StepCheckHealth \<noteq> ''''" "StepBumpVersion \<noteq> ''''" "StepVerify \<noteq> ''''" "StepRecoveryPath \<noteq> ''''"
  by (simp_all add: StepCheckHealth_def StepBumpVersion_def StepVerify_def StepRecoveryPath_def)

lemma upgrade_steps_calm:
  assumes "encodes_runner_config (en_yaml (ue_env ue))"
  shows "calm_on mono (upgrade_steps ue c os)"
  unfolding upgrade_steps_def prepare_def to_backup_def run_backup_def upgrade_backup_def past_backup_def
    bump_version_def migrate_def
  by (intro calm_intros calm_on_calm [OF check_healthy_calm] completes_on_completes [OF backup_completes] up_completes_on assms; simp)

lemma report_failure_ends:
  assumes "report_failure e rv p = (r, p')" "\<not> job_terminal (job p)"
  shows "\<exists>e'. r = Fail e'" "job_terminal (job p')" "extends p p'" "ev_state (last (job_events (job p'))) = StateFailed"
proof -
  let ?m = "case rv of None \<Rightarrow> ret e
      | Some rv \<Rightarrow> bnd (succeeded StepRecoveryPath (recovery_detail rv)) (\<lambda>_. ret (suffixf e (nl @ recovery_detail rv)))"
  obtain r1 p1 where m: "?m p = (r1, p1)" by force
  have "calm ?m" by (intro calm_intros) (simp add: ends_job_def)
  note c = calmD [OF this m assms(2)]
  have "\<exists>e'. r1 = Ok e'" using m assms(2) by (cases rv) (auto simp: bnd_def emit_live)
  then obtain e' where 1: "?m p = (Ok e', p1)" "\<not> job_terminal (job p1)" "extends p p1" using m c by blast
  have "report_failure e rv p = bnd (job_failed (msg e')) (\<lambda>_. fail e') p1"
    unfolding report_failure_def by (rule bnd_Ok) (rule 1(1))
  with assms(1) 1(2) have "r = Fail e'" "p' = p1\<lparr>job := (job p1)\<lparr>job_events := job_events (job p1)
        @ [mk_event (job p1) '''' StateFailed (msg e') (reading p1)], job_terminal := True\<rparr>, ticks := Suc (ticks p1)\<rparr>"
    by (auto simp: bnd_def emit_live ends_job_def is_terminal_def)
  with 1 show "\<exists>e'. r = Fail e'" "job_terminal (job p')" "extends p p'" "ev_state (last (job_events (job p'))) = StateFailed"
    by (auto simp: intro!: extends_emit)
qed

text \<open>
  C34. Every upgrade returns, with exactly one terminal event, its last, that reports its outcome, when the
  clock does not run backwards: the gate, the backup and the deployment it runs under jobs of their own all
  end, and whatever they came to is reported.
\<close>

theorem upgrade_completes:
  assumes "encodes_runner_config (en_yaml (ue_env ue))"
  shows "completes_on mono (upgrade ue c os)"
  unfolding completes_on_def
proof (intro allI impI)
  fix p :: "'a proc"
  assume live: "\<not> job_terminal (job p)" and clk: "mono (clock p)"
  obtain R p1 where s: "upgrade_steps ue c os p = (R, p1)" by force
  note c = calm_onD [OF upgrade_steps_calm [OF assms] s live clk]
  have "R \<noteq> Fail e" for e
    using upgrade_steps_infallible [of ue c os] s unfolding infallible_def by (metis fst_conv)
  with c obtain o1 rv where R: "R = Ok (o1, rv)" by (cases R) auto
  obtain r p' where u: "upgrade ue c os p = (r, p')" by force
  with s R have k: "(case o1 of Inl e \<Rightarrow> report_failure e rv | Inr v \<Rightarrow> job_succeeded (''upgraded to forgejo '' @ v)) p1 = (r, p')"
    by (simp add: upgrade_def bnd_Ok)
  have live1: "\<not> job_terminal (job p1)" and ext: "extends p p1" using c by auto
  show "case upgrade ue c os p of (r, p') \<Rightarrow> orderly r \<and> job_terminal (job p') \<and> extends p p' \<and>
      ev_state (last (job_events (job p'))) = (case r of Ok x \<Rightarrow> StateSucceeded | _ \<Rightarrow> StateFailed)"
  proof (cases o1)
    case (Inl e)
    with k have f: "report_failure e rv p1 = (r, p')" by simp
    from report_failure_ends [OF f live1] ext u show ?thesis by (auto intro: extends_trans)
  next
    case (Inr v)
    with k ext live1 u show ?thesis by (auto simp: emit_live intro!: extends_emit)
  qed
qed

subsection \<open>What the cleanup spares\<close>

lemma drop_common_prefix: "drop_common as bs = (x, y) \<Longrightarrow> \<exists>cs. as = cs @ x \<and> bs = cs @ y"
  by (induction as bs rule: drop_common.induct) (force split: if_splits)+

lemma drop_common_append: "drop_common as (as @ bs) = ([], bs)"
  by (induction as) (cases bs, simp_all)

lemma place_plain: "e \<in> set (place s p) \<Longrightarrow> plain_elem e"
  by (auto simp: place_def comps_plain split: if_splits)

lemma rel_path_up: "rel_path (dotdot # es) = dotdot \<or> prefix (dotdot @ [slash]) (rel_path (dotdot # es))"
  by (cases es) (simp_all add: rel_path_def)

lemma rel_path_plain_head:
  assumes "\<forall>e\<in>set es. plain_elem e"
  shows "rel_path es \<noteq> dotdot" "\<not> prefix (dotdot @ [slash]) (rel_path es)"
proof -
  have s: "split_on slash (rel_path es) = (if es = [] then [dot] else es)" by (rule split_rel_path [OF assms])
  have n: "dotdot \<notin> set es" using assms by (auto simp: plain_elem_def)
  have no: "split_on slash (rel_path es) \<noteq> dotdot # ws" for ws
  proof
    assume "split_on slash (rel_path es) = dotdot # ws"
    with s n show False by (cases es) auto
  qed
  show "rel_path es \<noteq> dotdot"
  proof
    assume "rel_path es = dotdot"
    then have "split_on slash (rel_path es) = [dotdot]" by simp
    with no show False by blast
  qed
  show "\<not> prefix (dotdot @ [slash]) (rel_path es)"
  proof
    assume "prefix (dotdot @ [slash]) (rel_path es)"
    then obtain t where "rel_path es = dotdot @ slash # t" by (auto simp: prefix_def)
    then have "split_on slash (rel_path es) = dotdot # split_on slash t" by (simp only: split_on_append_sep) simp
    with no show False by blast
  qed
qed

lemma destination_inside_iff:
  "destination_inside s dest work \<longleftrightarrow> \<not> prefix ''s3://'' dest \<and> prefix (place s work) (place s dest)"
proof -
  obtain b t where d: "drop_common (place s work) (place s dest) = (b, t)" by force
  from drop_common_prefix [OF d] obtain cs where cs: "place s work = cs @ b" "place s dest = cs @ t" by blast
  have rel: "path_rel (place s work) (place s dest) = rel_path (map (\<lambda>_. dotdot) b @ t)"
    by (simp add: path_rel_def d)
  have pre: "prefix (place s work) (place s dest) \<longleftrightarrow> b = []"
  proof
    assume "prefix (place s work) (place s dest)"
    then obtain zs where "place s dest = place s work @ zs" by (auto simp: prefix_def)
    with d drop_common_append [of "place s work" zs] show "b = []" by simp
  qed (use cs in simp)
  have "\<forall>e\<in>set t. plain_elem e" using cs(2) place_plain [of _ s dest] by auto
  note down = rel_path_plain_head [OF this]
  show ?thesis
  proof (cases b)
    case Nil
    with down show ?thesis unfolding destination_inside_def Let_def rel pre by simp
  next
    case (Cons x xs)
    then have "map (\<lambda>_. dotdot) b @ t = dotdot # map (\<lambda>_. dotdot) xs @ t" by simp
    with rel_path_up [of "map (\<lambda>_. dotdot) xs @ t"] have "rel_path (map (\<lambda>_. dotdot) b @ t) = dotdot
        \<or> prefix (dotdot @ [slash]) (rel_path (map (\<lambda>_. dotdot) b @ t))" by (simp only:)
    with Cons show ?thesis unfolding destination_inside_def Let_def rel pre by (simp only: list.distinct simp_thms if_cancel)
  qed
qed

text \<open>
  C38. The cleanup of an upgrade that was let start removes no object of a directory it backs up to: every
  node below that directory survives the removal of the work directory, unless it lies below the work
  directory itself, which can then only be a place strictly inside the destination, never the destination
  or a directory above it.
\<close>

theorem cleanup_spares_destination:
  assumes "validate_upgrade os s = Inr ()" "\<not> prefix ''s3://'' (gDestination os)"
    and "os_remove_all (gWorkDir os) s' = (r, s'')" "cwd s' = cwd s" "prefix (place s (gDestination os)) q"
  shows "fnode s'' q = fnode s' q \<or> strict_prefix (place s (gDestination os)) (place s (gWorkDir os)) \<and> prefix (place s (gWorkDir os)) q"
proof -
  have "\<not> destination_inside s (gDestination os) (gWorkDir os)"
    using assms(1) by (auto simp: validate_upgrade_def split: if_splits)
  with assms(2) have n: "\<not> prefix (place s (gWorkDir os)) (place s (gDestination os))"
    by (simp add: destination_inside_iff)
  have pl: "place s' (gWorkDir os) = place s (gWorkDir os)" using assms(4) by (simp add: place_def)
  show ?thesis
  proof (cases "prefix (place s (gWorkDir os)) q")
    case True
    with assms(5) n show ?thesis by (auto simp: strict_prefix_def dest: prefix_same_cases)
  next
    case False
    with os_remove_all_frame(1) [OF assms(3)] pl show ?thesis by simp
  qed
qed

section \<open>Witnesses\<close>

definition sample_upgrade_env :: "(unit, string) upgrade_env" where
  "sample_upgrade_env =
     \<lparr>ue_env = sample_env\<lparr>en_yaml := sample_encoder\<rparr>, ue_acme = sample_acme, ue_codec = sample_codec,
      ue_open = (\<lambda>_. afail (errorf ''no destination'')),
      ue_backup = \<lparr>be_path = (\<lambda>_. Inl (errorf ''none'')), be_rand = aret '''', be_tmp = ''/tmp''\<rparr>,
      ue_status = \<lparr>st_entries = (\<lambda>_. None), st_entry = (\<lambda>_. Inl ''none''), st_pem = (\<lambda>_. None), st_x509 = (\<lambda>_. Inl (errorf ''none''))\<rparr>,
      ue_registry = sample_registry, ue_marshal = (\<lambda>_. Inr '''')\<rparr>"

lemma upgrade_completes_witness:
  "completes_on mono (upgrade sample_upgrade_env Caller
     \<lparr>gBundleDir = ''/b'', gRemoteDir = ''/srv'', gWorkDir = ''/w'', gBundle = Some sample_deployment, gDestination = ''/d'',
      gNewImage = ''forge:9'', gIdentity = None, gKeystore = None, gBlobs = None, gHost = None,
      gIssuer = None, gResolver = None, gDiskPath = ''''\<rparr>)"
  by (rule upgrade_completes) (simp add: sample_upgrade_env_def encodes_runner_config_def sample_encoder_def)

lemma cleanup_spares_destination_witness:
  "let os = \<lparr>gBundleDir = ''/b'', gRemoteDir = ''/srv'', gWorkDir = ''/w'', gBundle = Some sample_deployment, gDestination = ''/d'',
        gNewImage = ''forge:9'', gIdentity = Some (), gKeystore = Some \<lparr>resolve = (\<lambda>c k. afail (errorf '''')), writer = None, describer = None\<rparr>,
        gBlobs = Some \<lparr>blist = (\<lambda>c p. aret []), bget = (\<lambda>c k. afail (errorf '''')), bput = (\<lambda>c k f n. aret ())\<rparr>,
        gHost = Some (sample_host, \<lparr>tUser = ''u'', tHost = ''h'', tPort = ''22''\<rparr>),
        gIssuer = None, gResolver = None, gDiskPath = ''''\<rparr> :: (unit, unit) upgrade_options;
      s = \<lparr>nodes = [([''d''], Dir), ([''d'', ''k''], File ''x'' 384), ([''w''], Dir)], cwd = [], fault = (\<lambda>_. None), tmpname = id, fops = 0\<rparr>
   in fnode (snd (os_remove_all (gWorkDir os) s)) [''d'', ''k''] = Some (File ''x'' 384)"
proof -
  let ?os = "\<lparr>gBundleDir = ''/b'', gRemoteDir = ''/srv'', gWorkDir = ''/w'', gBundle = Some sample_deployment, gDestination = ''/d'',
        gNewImage = ''forge:9'', gIdentity = Some (), gKeystore = Some \<lparr>resolve = (\<lambda>c k. afail (errorf '''')), writer = None, describer = None\<rparr>,
        gBlobs = Some \<lparr>blist = (\<lambda>c p. aret []), bget = (\<lambda>c k. afail (errorf '''')), bput = (\<lambda>c k f n. aret ())\<rparr>,
        gHost = Some (sample_host, \<lparr>tUser = ''u'', tHost = ''h'', tPort = ''22''\<rparr>),
        gIssuer = None, gResolver = None, gDiskPath = ''''\<rparr> :: (unit, unit) upgrade_options"
  let ?s = "\<lparr>nodes = [([''d''], Dir), ([''d'', ''k''], File ''x'' 384), ([''w''], Dir)], cwd = [], fault = (\<lambda>_. None), tmpname = id, fops = 0\<rparr>"
  have b: "\<not> blank ''/b''" "\<not> blank ''/srv''" "\<not> blank ''/w''" "\<not> blank ''/d''" "\<not> blank ''forge:9''" by code_simp+
  have pl: "place ?s ''/w'' = [''w'']" "place ?s ''/d'' = [''d'']" by code_simp+
  then have "\<not> destination_inside ?s ''/d'' ''/w''" by (simp add: destination_inside_iff)
  with b have v: "validate_upgrade ?os ?s = Inr ()" by (simp add: validate_upgrade_def)
  from cleanup_spares_destination [OF v, of ?s "fst (os_remove_all ''/w'' ?s)" "snd (os_remove_all ''/w'' ?s)" "[''d'', ''k'']"] pl
  show ?thesis by (simp add: Let_def fnode_def)
qed

end
