(* ===== verification/Importer.thy ===== *)
theory Importer
  imports ForgeApi
begin

text \<open>
  \<open>internal/core/importer\<close>: one migration through the forge's API with the cleanup of a failed one
  (\<open>importer.go\<close>), the batch of them and its manifest (\<open>batch.go\<close>). The HTTP client, JSON, YAML, the URL
  parser and \<open>time.ParseDuration\<close> are parameters.
\<close>

section \<open>Options\<close>

definition StepMigrate :: string where "StepMigrate = ''migrate''"
definition ServiceGitHub :: string where "ServiceGitHub = ''github''"
definition ServiceGitLab :: string where "ServiceGitLab = ''gitlab''"

record import_options =
  iTarget :: string
  iTargetToken :: secret
  iSource :: string
  iSourceToken :: secret
  iService :: string
  iOwner :: string
  iName :: string
  iPrivate :: bool
  iMirror :: bool
  iInterval :: int

record import_result =
  ir_id :: int
  ir_full_name :: string
  ir_html_url :: string
  ir_mirror :: bool

text \<open>The hostname and the path of a URL.\<close>

type_synonym host_parser = "string \<Rightarrow> error + string \<times> string"

definition import_detail :: "import_options \<Rightarrow> import_result \<Rightarrow> string" where
  "import_detail os r =
     ''imported '' @ iSource os @ '' as '' @ ir_full_name r @ (if iMirror os then '' (mirror sync enabled)'' else '''')"

definition last_path_segment :: "string \<Rightarrow> string" where
  "last_path_segment path = last (split_on slash (trim_set ''/'' path))"

definition detect_service :: "string \<Rightarrow> error + string" where
  "detect_service h =
     (let host = to_lower h
      in if host = ''github.com'' \<or> suffix ''.github.com'' host then Inr ServiceGitHub
         else if host = ''gitlab.com'' \<or> suffix ''.gitlab.com'' host then Inr ServiceGitLab
         else Inl (errorf (''could not detect source service from host '' @ quote host @ '': set Service explicitly to ''
                @ quote ServiceGitHub @ '' or '' @ quote ServiceGitLab)))"

definition import_service :: "import_options \<Rightarrow> string \<Rightarrow> error + string" where
  "import_service os host =
     (let s = to_lower (trim_space (iService os))
      in if s = '''' then detect_service host
         else if s \<noteq> ServiceGitHub \<and> s \<noteq> ServiceGitLab
         then Inl (errorf (''unsupported service '' @ quote (iService os) @ '': must be '' @ quote ServiceGitHub @ '' or ''
                @ quote ServiceGitLab))
         else Inr s)"

definition import_name :: "import_options \<Rightarrow> string \<Rightarrow> error + string" where
  "import_name os path =
     (if \<not> blank (iName os) then Inr (trim_space (iName os))
      else let n = trim_suffix (last_path_segment path) ''.git''
           in if n = '''' then Inl (errorf (''repo name is required: could not derive one from source URL '' @ quote (iSource os)))
              else Inr n)"

definition resolve_import :: "host_parser \<Rightarrow> import_options \<Rightarrow> error + string \<times> string" where
  "resolve_import hp os =
     (if blank (iTarget os) then Inl (errorf ''target base URL is required'')
      else if reveal (iTargetToken os) = '''' then Inl (errorf ''target token is required'')
      else if blank (iSource os) then Inl (errorf ''source URL is required'')
      else if reveal (iSourceToken os) = '''' then Inl (errorf ''source token is required'')
      else if blank (iOwner os) then Inl (errorf ''repo owner is required'')
      else case hp (iSource os) of
             Inl e \<Rightarrow> Inl (wrapf ''parse source URL: '' e)
           | Inr (host, path) \<Rightarrow>
               (case import_service os host of
                  Inl e \<Rightarrow> Inl e
                | Inr s \<Rightarrow> (case import_name os path of Inl e \<Rightarrow> Inl e | Inr n \<Rightarrow> Inr (s, n))))"

section \<open>A migration\<close>

record migrate_request =
  mg_clone_addr :: string
  mg_auth_token :: string
  mg_service :: string
  mg_owner :: string
  mg_name :: string
  mg_mirror :: bool
  mg_interval :: string
  mg_lfs :: bool
  mg_private :: bool
  mg_wiki :: bool
  mg_issues :: bool
  mg_pulls :: bool
  mg_releases :: bool

text \<open>
  The encoded request; the decoded answer (\<open>id\<close>, \<open>full_name\<close>, \<open>html_url\<close>); and the message of an error
  answer, when it decodes.
\<close>

record import_json =
  ij_request :: "migrate_request \<Rightarrow> string"
  ij_response :: "string \<Rightarrow> string + int \<times> string \<times> string"
  ij_message :: "string \<Rightarrow> string option"

definition migrate_body :: "import_options \<Rightarrow> string \<Rightarrow> string \<Rightarrow> migrate_request" where
  "migrate_body os service name =
     \<lparr>mg_clone_addr = iSource os, mg_auth_token = reveal (iSourceToken os), mg_service = service, mg_owner = iOwner os,
      mg_name = name, mg_mirror = iMirror os,
      mg_interval = (if iMirror os \<and> iInterval os > 0 then duration_str (iInterval os) else ''''),
      mg_lfs = True, mg_private = iPrivate os, mg_wiki = False, mg_issues = False, mg_pulls = False, mg_releases = False\<rparr>"

definition target_url :: "import_options \<Rightarrow> string \<Rightarrow> string" where
  "target_url os path = trim_right_set ''/'' (iTarget os) @ path"

abbreviation migrate_url :: "import_options \<Rightarrow> string" where
  "migrate_url os \<equiv> target_url os ''/api/v1/repos/migrate''"

abbreviation import_repo_url :: "import_options \<Rightarrow> string \<Rightarrow> string" where
  "import_repo_url os name \<equiv> target_url os (repo_api_path (iOwner os) name)"

text \<open>What a deletion came to; a body that fails to read is what was read of it.\<close>

definition delete_outcome :: "api_exchange \<Rightarrow> error option" where
  "delete_outcome x =
     (case x of
        ApiUnsent e \<Rightarrow> Some (wrapf ''call target API: '' e)
      | ApiUnread st body e \<Rightarrow>
          (if st = 404 \<or> success_status st then None
           else Some (errorf (''target API returned '' @ nat_str st @ '': '' @ truncate_message (trim_space body))))
      | ApiReplied st body \<Rightarrow>
          (if st = 404 \<or> success_status st then None
           else Some (errorf (''target API returned '' @ nat_str st @ '': '' @ truncate_message (trim_space body)))))"

definition import_delete_repo :: "'w api_lib \<Rightarrow> import_options \<Rightarrow> string \<Rightarrow> ('w, error option) io" where
  "import_delete_repo al os name =
     (case api_build al ''DELETE'' (import_repo_url os name) of
        Some e \<Rightarrow> ret (Some (wrapf ''build cleanup request: '' e))
      | None \<Rightarrow>
          bnd (api_call al cleanup_ctx ''DELETE'' (import_repo_url os name) (iTargetToken os) None) (\<lambda>x.
          ret (delete_outcome x)))"

definition with_cleanup :: "'w api_lib \<Rightarrow> import_options \<Rightarrow> string \<Rightarrow> error \<Rightarrow> ('w, 'a) io" where
  "with_cleanup al os name e =
     bnd (import_delete_repo al os name) (\<lambda>d.
     case d of
       None \<Rightarrow> fail e
     | Some ce \<Rightarrow> fail (suffixf e ('' (cleanup also failed, '' @ iOwner os @ ''/'' @ name
                     @ '' may need manual removal from the target: '' @ msg ce @ '')'')))"

text \<open>What an answer to the migration says: a failure that is cleaned up after, or the decoded result.\<close>

definition migrate_refusal :: "import_json \<Rightarrow> nat \<Rightarrow> string \<Rightarrow> error" where
  "migrate_refusal ij st body =
     errorf (''target API returned '' @ nat_str st @ '': ''
       @ (case ij_message ij body of
            Some m \<Rightarrow> (if m \<noteq> '''' then m else truncate_message (trim_space body))
          | None \<Rightarrow> truncate_message (trim_space body)))"

definition migrate_repo ::
    "'w api_lib \<Rightarrow> import_json \<Rightarrow> ctx \<Rightarrow> import_options \<Rightarrow> string \<Rightarrow> string \<Rightarrow> ('w, import_result) io" where
  "migrate_repo al ij c os service name =
     (case api_build al ''POST'' (migrate_url os) of
        Some e \<Rightarrow> fail (wrapf ''build request: '' e)
      | None \<Rightarrow>
          bnd (api_call al c ''POST'' (migrate_url os) (iTargetToken os) (Some (ij_request ij (migrate_body os service name)))) (\<lambda>x.
          case x of
            ApiUnsent e \<Rightarrow> with_cleanup al os name (wrapf ''call target API: '' e)
          | ApiUnread st body e \<Rightarrow> with_cleanup al os name (wrapf ''read response: '' e)
          | ApiReplied st body \<Rightarrow>
              (if \<not> success_status st then with_cleanup al os name (migrate_refusal ij st body)
               else (case ij_response ij body of
                       Inl m \<Rightarrow> fail (errorf (''decode response: '' @ m))
                     | Inr (i, n, u) \<Rightarrow> ret \<lparr>ir_id = i, ir_full_name = n, ir_html_url = u, ir_mirror = iMirror os\<rparr>))))"

definition bool_str :: "bool \<Rightarrow> string" where
  "bool_str b = (if b then ''true'' else ''false'')"

definition import_one ::
    "host_parser \<Rightarrow> 'w api_lib \<Rightarrow> import_json \<Rightarrow> ctx \<Rightarrow> import_options \<Rightarrow> string \<Rightarrow> ('w, import_result) io" where
  "import_one hp al ij c os stp =
     (case resolve_import hp os of
        Inl e \<Rightarrow> bnd (emit stp StateFailed (msg e)) (\<lambda>_. fail (wrapf ''importer: '' e))
      | Inr (service, name) \<Rightarrow>
          bnd (started stp (''migrating '' @ iSource os @ '' from '' @ service @ '' to '' @ iOwner os @ ''/'' @ name
                 @ '' (mirror='' @ bool_str (iMirror os) @ '')'')) (\<lambda>_.
          bnd (handle (migrate_repo al ij c os service name) (\<lambda>e.
                 bnd (emit stp StateFailed (''migrate '' @ iSource os @ '': '' @ msg e)) (\<lambda>_.
                 fail (wrapf (''importer: migrate '' @ iSource os @ '': '') e)))) (\<lambda>r.
          bnd (succeeded stp (import_detail os r)) (\<lambda>_.
          ret r))))"

definition import_run ::
    "host_parser \<Rightarrow> 'w api_lib \<Rightarrow> import_json \<Rightarrow> ctx \<Rightarrow> import_options \<Rightarrow> ('w, import_result) io" where
  "import_run hp al ij c os = as_job (import_detail os) (import_one hp al ij c os StepMigrate)"

section \<open>A batch\<close>

record repo_result =
  rr_source :: string
  rr_outcome :: "error + import_result"

definition failures :: "repo_result list \<Rightarrow> nat" where
  "failures rs = length (filter (\<lambda>r. isl (rr_outcome r)) rs)"

fun batch_loop ::
    "host_parser \<Rightarrow> 'w api_lib \<Rightarrow> import_json \<Rightarrow> ctx \<Rightarrow> nat \<Rightarrow> import_options list \<Rightarrow> ('w, repo_result list) io" where
  "batch_loop hp al ij c i [] = ret []"
| "batch_loop hp al ij c i (os # rest) =
     bnd (attempt (import_one hp al ij c os (StepMigrate @ '':'' @ nat_str (i + 1)))) (\<lambda>r.
     bnd (batch_loop hp al ij c (i + 1) rest) (\<lambda>rs.
     ret (\<lparr>rr_source = iSource os, rr_outcome = r\<rparr> # rs)))"

text \<open>The results and the error, both of which the caller gets.\<close>

definition run_batch ::
    "host_parser \<Rightarrow> 'w api_lib \<Rightarrow> import_json \<Rightarrow> ctx \<Rightarrow> import_options list \<Rightarrow> ('w, repo_result list \<times> error option) io" where
  "run_batch hp al ij c repos =
     (if repos = []
      then let e = errorf ''importer: at least one repository is required''
           in bnd (job_failed (msg e)) (\<lambda>_. ret ([], Some e))
      else bnd (batch_loop hp al ij c 0 repos) (\<lambda>rs.
           let n = length repos; f = failures rs;
               detail = ''imported '' @ int_str (int n - int f) @ ''/'' @ nat_str n @ '' repositories''
           in if f > 0
              then bnd (job_failed detail) (\<lambda>_.
                   ret (rs, Some (errorf (''importer: '' @ nat_str f @ '' of '' @ nat_str n @ '' repositories failed''))))
              else bnd (job_succeeded detail) (\<lambda>_. ret (rs, None))))"

subsection \<open>Its manifest\<close>

record manifest_entry =
  me_source :: string
  me_service :: string
  me_owner :: string
  me_name :: string
  me_private :: "bool option"
  me_mirror :: "bool option"
  me_interval :: string

fun check_entries :: "nat \<Rightarrow> manifest_entry list \<Rightarrow> error + unit" where
  "check_entries i [] = Inr ()"
| "check_entries i (e # es) =
     (if blank (me_source e) then Inl (errorf (''import manifest repo '' @ nat_str (i + 1) @ '': source is required''))
      else check_entries (i + 1) es)"

definition parse_import_manifest :: "(string \<Rightarrow> error + manifest_entry list) \<Rightarrow> string \<Rightarrow> error + manifest_entry list" where
  "parse_import_manifest unmarshal raw =
     (case unmarshal raw of
        Inl e \<Rightarrow> Inl (wrapf ''parse import manifest: '' e)
      | Inr es \<Rightarrow>
          (if es = [] then Inl (errorf ''import manifest has no repositories'')
           else case check_entries 0 es of Inl e \<Rightarrow> Inl e | Inr _ \<Rightarrow> Inr es))"

definition entry_options :: "import_options \<Rightarrow> manifest_entry \<Rightarrow> import_options" where
  "entry_options d e =
     d\<lparr>iSource := me_source e,
       iService := (if me_service e \<noteq> '''' then me_service e else iService d),
       iOwner := (if me_owner e \<noteq> '''' then me_owner e else iOwner d),
       iName := (if me_name e \<noteq> '''' then me_name e else iName d),
       iPrivate := (case me_private e of Some b \<Rightarrow> b | None \<Rightarrow> iPrivate d),
       iMirror := (case me_mirror e of Some b \<Rightarrow> b | None \<Rightarrow> iMirror d)\<rparr>"

fun repo_options ::
    "(string \<Rightarrow> error + int) \<Rightarrow> import_options \<Rightarrow> nat \<Rightarrow> manifest_entry list \<Rightarrow> error + import_options list" where
  "repo_options dur d i [] = Inr []"
| "repo_options dur d i (e # es) =
     (case (if me_interval e = '''' then Inr (iInterval d) else dur (me_interval e)) of
        Inl er \<Rightarrow> Inl (wrapf (''import manifest repo '' @ nat_str (i + 1) @ '': parse mirrorInterval: '') er)
      | Inr iv \<Rightarrow>
          (if blank (iOwner (entry_options d e))
           then Inl (errorf (''import manifest repo '' @ nat_str (i + 1)
                  @ '': owner is required (set -owner or the entry'' @ [squote] @ ''s own owner field)''))
           else (case repo_options dur d (i + 1) es of
                   Inl er \<Rightarrow> Inl er
                 | Inr oss \<Rightarrow> Inr ((entry_options d e)\<lparr>iInterval := iv\<rparr> # oss))))"

section \<open>Facts\<close>

lemma delete_calm: "calm (import_delete_repo al os name)"
  unfolding import_delete_repo_def by (intro calm_intros)

lemma migrate_repo_calm: "calm (migrate_repo al ij c os service name)"
  unfolding migrate_repo_def with_cleanup_def
  by (auto intro!: calm_intros delete_calm split: option.splits api_exchange.splits sum.splits)

lemma import_one_calm: "stp \<noteq> '''' \<Longrightarrow> calm (import_one hp al ij c os stp)"
  unfolding import_one_def
  by (auto intro!: calm_intros migrate_repo_calm simp: ends_job_def split: sum.splits)

lemma batch_loop_calm: "calm (batch_loop hp al ij c i repos)"
  by (induction repos arbitrary: i) (auto intro!: calm_intros import_one_calm simp: StepMigrate_def)

text \<open>
  The states a batch goes through: the repositories are imported one after another, each from the state the
  one before it left, and what each import came to is what is recorded of it.
\<close>

definition ended :: "('w, 'a) io \<Rightarrow> 'w proc \<Rightarrow> error + 'a \<Rightarrow> 'w proc \<Rightarrow> bool" where
  "ended m q out q' \<longleftrightarrow> m q = (res_of out, q')"

definition imported_in_turn ::
    "host_parser \<Rightarrow> 'w api_lib \<Rightarrow> import_json \<Rightarrow> ctx \<Rightarrow> nat \<Rightarrow> import_options list \<Rightarrow> repo_result list \<Rightarrow> 'w proc list \<Rightarrow> bool" where
  "imported_in_turn hp al ij c i repos rs qs \<longleftrightarrow> length rs = length repos \<and> length qs = Suc (length repos) \<and>
     (\<forall>j<length repos. rr_source (rs ! j) = iSource (repos ! j) \<and>
        ended (import_one hp al ij c (repos ! j) (StepMigrate @ '':'' @ nat_str (i + j + 1))) (qs ! j) (rr_outcome (rs ! j)) (qs ! Suc j))"

lemma attempt_ended: "attempt m q = (Ok out, q') \<Longrightarrow> ended m q out q'"
  by (auto simp: ended_def attempt_def split: prod.splits res.splits)

lemma imported_Cons:
  assumes "ended (import_one hp al ij c os (StepMigrate @ '':'' @ nat_str (i + 1))) p out p1"
    and "imported_in_turn hp al ij c (i + 1) rest rs qs" "hd qs = p1"
  shows "imported_in_turn hp al ij c i (os # rest) (\<lparr>rr_source = iSource os, rr_outcome = out\<rparr> # rs) (p # qs)"
proof -
  have "qs ! 0 = p1" using assms(2,3) by (cases qs) (auto simp: imported_in_turn_def)
  with assms(1,2) show ?thesis
    by (auto simp: imported_in_turn_def nth_Cons add.commute add.left_commute split: nat.splits)
qed

lemma imported_sources: "imported_in_turn hp al ij c i repos rs qs \<Longrightarrow> map rr_source rs = map iSource repos"
  by (auto simp: imported_in_turn_def intro: nth_equalityI)

lemma batch_loop_runs:
  assumes "batch_loop hp al ij c i repos p = (R, p')" "\<not> job_terminal (job p)"
  shows "\<exists>rs qs. R = Ok rs \<and> imported_in_turn hp al ij c i repos rs qs \<and> hd qs = p \<and> last qs = p'"
  using assms
proof (induction repos arbitrary: i p R p')
  case (Cons os rest)
  let ?m = "import_one hp al ij c os (StepMigrate @ '':'' @ nat_str (i + 1))"
  have cm: "calm ?m" by (rule import_one_calm) (simp add: StepMigrate_def)
  obtain r1 p1 where m: "?m p = (r1, p1)" by force
  from calmD [OF cm m Cons.prems(2)] have "orderly r1" and live: "\<not> job_terminal (job p1)" by simp_all
  then obtain o1 where a: "attempt ?m p = (Ok o1, p1)" using m by (cases r1) (auto simp: attempt_def)
  obtain R2 p2 where l: "batch_loop hp al ij c (i + 1) rest p1 = (R2, p2)" by force
  from Cons.IH [OF l live] obtain rs qs where rs: "R2 = Ok rs" "imported_in_turn hp al ij c (i + 1) rest rs qs"
    "hd qs = p1" "last qs = p2" by blast
  have "R = Ok (\<lparr>rr_source = iSource os, rr_outcome = o1\<rparr> # rs)" "p2 = p'"
    using Cons.prems(1) by (simp_all add: bnd_def a [simplified] l [simplified] rs(1) ret_def)
  moreover have "qs \<noteq> []" using rs(2) by (auto simp: imported_in_turn_def)
  ultimately show ?case
    using imported_Cons [OF attempt_ended [OF a] rs(2,3)] rs(4) by (intro exI [of _ "p # qs"] exI conjI) auto
next
  case Nil
  then show ?case by (intro exI [of _ "[]"] exI [of _ "[p]"]) (simp add: ret_def imported_in_turn_def)
qed

lemma failures_0: "failures rs = 0 \<longleftrightarrow> (\<forall>r\<in>set rs. \<exists>x. rr_outcome r = Inr x)"
proof -
  have "\<not> isl y \<longleftrightarrow> (\<exists>x. y = Inr x)" for y :: "error + import_result" by (cases y) auto
  then show ?thesis by (simp add: failures_def filter_empty_conv)
qed

section \<open>Properties\<close>

text \<open>
  C26. A batch attempts every repository, whatever became of the others, and reports each one's outcome in
  the order given: from the state it starts in it goes through one state after every import, each import
  running from the state the one before it left, under the step of its number, and what it returned, its
  error or its result, is the outcome recorded for it. Its error and its single terminal event report a success exactly
  when every one of them succeeded.
\<close>

theorem batch_reports_all:
  assumes "run_batch hp al ij c repos p = (R, p')" "\<not> job_terminal (job p)"
  shows "\<exists>rs err qs. R = Ok (rs, err) \<and> map rr_source rs = map iSource repos
    \<and> imported_in_turn hp al ij c 0 repos rs qs \<and> hd qs = p \<and> same_place (last qs) p'
    \<and> (err = None \<longleftrightarrow> repos \<noteq> [] \<and> (\<forall>r\<in>set rs. \<exists>x. rr_outcome r = Inr x))
    \<and> job_terminal (job p') \<and> ev_state (last (job_events (job p'))) = (if err = None then StateSucceeded else StateFailed)"
proof (cases "repos = []")
  case True
  with assms show ?thesis
    by (intro exI [of _ "[]"] exI exI [of _ "[p]"])
      (auto simp: run_batch_def Let_def bnd_def emit_live ends_job_def is_terminal_def mk_event_def imported_in_turn_def same_place_def)
next
  case False
  obtain R1 p1 where l: "batch_loop hp al ij c 0 repos p = (R1, p1)" by force
  from batch_loop_runs [OF l assms(2)] obtain rs qs where rs: "R1 = Ok rs"
    and qs: "imported_in_turn hp al ij c 0 repos rs qs" "hd qs = p" "last qs = p1" by blast
  have live: "\<not> job_terminal (job p1)" using calmD [OF batch_loop_calm l assms(2)] by simp
  have b: "run_batch hp al ij c repos p =
      (let n = length repos; f = failures rs; detail = ''imported '' @ int_str (int n - int f) @ ''/'' @ nat_str n @ '' repositories''
       in if f > 0
          then bnd (job_failed detail) (\<lambda>_. ret (rs, Some (errorf (''importer: '' @ nat_str f @ '' of '' @ nat_str n @ '' repositories failed''))))
          else bnd (job_succeeded detail) (\<lambda>_. ret (rs, None))) p1"
    using False by (simp add: run_batch_def bnd_def [of "batch_loop hp al ij c 0 repos"] l rs(1))
  show ?thesis
  proof (cases "failures rs > 0")
    case True
    with assms(1) b live have "R = Ok (rs, Some (errorf (''importer: '' @ nat_str (failures rs) @ '' of '' @ nat_str (length repos) @ '' repositories failed'')))"
      "job_terminal (job p')" "ev_state (last (job_events (job p'))) = StateFailed" "same_place p1 p'"
      by (auto simp: Let_def bnd_def emit_live ends_job_def is_terminal_def mk_event_def same_place_def)
    with qs imported_sources [OF qs(1)] True failures_0 [of rs] show ?thesis by auto
  next
    case f: False
    with assms(1) b live have "R = Ok (rs, None)" "job_terminal (job p')" "ev_state (last (job_events (job p'))) = StateSucceeded"
      "same_place p1 p'"
      by (auto simp: Let_def bnd_def emit_live ends_job_def is_terminal_def mk_event_def same_place_def)
    with qs imported_sources [OF qs(1)] f False failures_0 [of rs] show ?thesis by auto
  qed
qed

text \<open>
  C16. An import whose migration the instance refuses, for whatever reason, goes on to delete the repository
  of the target's name: a refusal because the name is taken deletes the repository that had it.
\<close>

theorem refused_import_deletes:
  assumes "resolve_import hp os = Inr (service, name)" "api_build al ''POST'' (migrate_url os) = None"
    and "api_build al ''DELETE'' (import_repo_url os name) = None"
    and "api_do al c ''POST'' (migrate_url os) (iTargetToken os) (Some (ij_request ij (migrate_body os service name))) (world p)
      = (ApiReplied st body, w)" "\<not> success_status st"
    and "\<not> job_terminal (job p)" "stp \<noteq> ''''"
  shows "\<exists>e p'. import_one hp al ij c os stp p = (Fail e, p') \<and>
    trace p' = trace p @ [Call ''instance'' c [''POST'', migrate_url os], Call ''instance'' cleanup_ctx [''DELETE'', import_repo_url os name]] \<and>
    world p' = snd (api_do al cleanup_ctx ''DELETE'' (import_repo_url os name) (iTargetToken os) None w)"
proof -
  obtain p1 where s: "started stp (''migrating '' @ iSource os @ '' from '' @ service @ '' to '' @ iOwner os @ ''/'' @ name
      @ '' (mirror='' @ bool_str (iMirror os) @ '')'') p = (Ok (), p1)"
    and p1: "world p1 = world p" "trace p1 = trace p" "\<not> job_terminal (job p1)"
    using assms(6,7) by (simp add: emit_live ends_job_def is_terminal_def)
  obtain x w2 where d: "api_do al cleanup_ctx ''DELETE'' (import_repo_url os name) (iTargetToken os) None w = (x, w2)" by force
  let ?p2 = "after_call p1 w (Call ''instance'' c [''POST'', migrate_url os])"
  let ?p3 = "after_call ?p2 w2 (Call ''instance'' cleanup_ctx [''DELETE'', import_repo_url os name])"
  have post: "api_call al c ''POST'' (migrate_url os) (iTargetToken os) (Some (ij_request ij (migrate_body os service name))) p1
      = (Ok (ApiReplied st body), ?p2)"
    by (rule api_call_runs) (simp add: p1(1) assms(4))
  have del: "api_call al cleanup_ctx ''DELETE'' (import_repo_url os name) (iTargetToken os) None ?p2 = (Ok x, ?p3)"
    by (rule api_call_runs) (simp add: d)
  have "import_delete_repo al os name ?p2 = (Ok (delete_outcome x), ?p3)"
    using del by (simp add: import_delete_repo_def assms(3) bnd_def ret_def)
  then have "\<exists>e. with_cleanup al os name (migrate_refusal ij st body) ?p2 = (Fail e, ?p3)"
    unfolding with_cleanup_def by (cases "delete_outcome x") (simp_all add: bnd_def fail_def)
  then obtain e where "migrate_repo al ij c os service name p1 = (Fail e, ?p3)"
    using assms(2,5) post by (auto simp: migrate_repo_def bnd_def)
  moreover have "\<not> job_terminal (job ?p3)" using p1(3) by simp
  ultimately have "import_one hp al ij c os stp p =
      (Fail (wrapf (''importer: migrate '' @ iSource os @ '': '') e), snd (emit stp StateFailed (''migrate '' @ iSource os @ '': '' @ msg e) ?p3))"
    using s by (simp add: import_one_def assms(1) bnd_def handle_def emit_live fail_def)
  moreover obtain r4 p4 where e4: "emit stp StateFailed (''migrate '' @ iSource os @ '': '' @ msg e) ?p3 = (r4, p4)" by force
  ultimately have "import_one hp al ij c os stp p = (Fail (wrapf (''importer: migrate '' @ iSource os @ '': '') e), p4)" by simp
  moreover have "trace p4 = trace ?p3" "world p4 = world ?p3" using emit_trace [OF e4] emit_world [OF e4] by simp_all
  ultimately show ?thesis using p1(2) d by (intro exI conjI) (assumption, simp_all)
qed

subsection \<open>An instance\<close>

text \<open>
  An instance that either has a repository of the name or does not: a migration onto a name that is taken is
  a conflict, and a deletion removes the repository.
\<close>

definition sample_instance :: "bool api_lib" where
  "sample_instance =
     \<lparr>api_build = (\<lambda>m u. None),
      api_do = (\<lambda>c m u t b w.
        if m = ''DELETE'' then (ApiReplied 204 '''', w\<lparr>ext := False\<rparr>)
        else if ext w then (ApiReplied 409 ''exists'', w) else (ApiReplied 201 ''made'', w\<lparr>ext := True\<rparr>))\<rparr>"

definition sample_json :: import_json where
  "sample_json = \<lparr>ij_request = (\<lambda>r. ''''), ij_response = (\<lambda>b. Inr (1, ''o/r'', ''u'')), ij_message = (\<lambda>b. None)\<rparr>"

definition sample_import :: import_options where
  "sample_import =
     \<lparr>iTarget = ''https://f'', iTargetToken = Secret ''t'', iSource = ''https://github.com/o/r'', iSourceToken = Secret ''s'',
      iService = '''', iOwner = ''o'', iName = '''', iPrivate = True, iMirror = False, iInterval = 0\<rparr>"

definition sample_url :: host_parser where
  "sample_url u = Inr (''github.com'', ''/o/r'')"

definition instance_proc :: "bool proc" where
  "instance_proc =
     \<lparr>world = \<lparr>ext = True, fs = \<lparr>nodes = [], cwd = [], fault = (\<lambda>_. None), tmpname = id, fops = 0\<rparr>, ctxerr = (\<lambda>_ _. None)\<rparr>,
      trace = [], history = [], job = new_job ''j'', clock = (\<lambda>_. 0), fresh = (\<lambda>_. ''''), ticks = 0, slept = 0\<rparr>"

lemma sample_import_resolves: "resolve_import sample_url sample_import = Inr (ServiceGitHub, ''r'')"
  by code_simp

lemma refused_import_deletes_witness:
  "\<exists>e p'. import_one sample_url sample_instance sample_json Caller sample_import StepMigrate instance_proc = (Fail e, p')
     \<and> \<not> ext (world p')"
proof -
  have "api_do sample_instance Caller ''POST'' (migrate_url sample_import) (iTargetToken sample_import)
      (Some (ij_request sample_json (migrate_body sample_import ServiceGitHub ''r''))) (world instance_proc)
    = (ApiReplied 409 ''exists'', world instance_proc)"
    by (simp add: sample_instance_def instance_proc_def)
  from refused_import_deletes [OF sample_import_resolves _ _ this, of StepMigrate]
  obtain e p' where "import_one sample_url sample_instance sample_json Caller sample_import StepMigrate instance_proc = (Fail e, p')"
    "world p' = snd (api_do sample_instance cleanup_ctx ''DELETE'' (import_repo_url sample_import ''r'') (iTargetToken sample_import) None (world instance_proc))"
    by (auto simp: sample_instance_def success_status_def instance_proc_def new_job_def StepMigrate_def)
  moreover from this(2) have "\<not> ext (world p')" by (simp add: sample_instance_def)
  ultimately show ?thesis by blast
qed

lemma batch_reports_all_witness:
  "\<exists>rs err p'. run_batch sample_url sample_instance sample_json Caller [sample_import, sample_import] instance_proc = (Ok (rs, err), p')
     \<and> map rr_source rs = [''https://github.com/o/r'', ''https://github.com/o/r'']"
proof -
  obtain R p' where r: "run_batch sample_url sample_instance sample_json Caller [sample_import, sample_import] instance_proc = (R, p')" by force
  have "\<not> job_terminal (job instance_proc)" by (simp add: instance_proc_def new_job_def)
  from batch_reports_all [OF r this] r show ?thesis by (auto simp: sample_import_def)
qed

end
