(* ===== verification/Attach.thy ===== *)
theory Attach
  imports Restore
begin

text \<open>
  \<open>internal/core/attach\<close>: giving a nameless instance a name (\<open>attach.go\<close>), that is a proof of control of the
  zone, the certificate as key material, the named bundle and its deployment, and the report of what
  consumers re-point (\<open>urls.go\<close>). The ACME library and the URL parser are parameters.
\<close>

section \<open>Options\<close>

definition StepValidate :: string where "StepValidate = ''validate''"
definition StepProveZoneControl :: string where "StepProveZoneControl = ''prove-zone-control''"
definition StepPersistCertificate :: string where "StepPersistCertificate = ''persist-certificate''"
definition StepNameBundle :: string where "StepNameBundle = ''name-bundle''"
definition StepReportCloneURLs :: string where "StepReportCloneURLs = ''report-clone-urls''"

text \<open>A prover answers with a certificate, which may be missing.\<close>

type_synonym 'w prover = "string \<Rightarrow> acme_config \<Rightarrow> ('w, certificate option) act"

record 'w attach_options =
  tBundleDir :: string
  tRemoteDir :: string
  tBundle :: "bundle_data option"
  tHostOf :: "'w host option"
  tDomain :: string
  tProvider :: string
  tEmail :: string
  tDirectory :: string
  tAddress :: string
  tProver :: "'w prover option"
  tIssuer :: "'w issuer option"

record 'w attach_env =
  ae_env :: "'w env"
  ae_acme :: "'w acme_lib"
  ae_url :: "string \<Rightarrow> error + string \<times> string"
  ae_marshal :: "manifest \<Rightarrow> error + string"

definition acme_prove :: "'w acme_lib \<Rightarrow> 'w prover" where
  "acme_prove al domain cfg =
     abnd (awrap (al_gen_key al) ''generate acme account key: '') (\<lambda>k.
     abnd (issue al \<lparr>rq_domain = domain, rq_email = ac_email cfg, rq_account_key = Some k, rq_provider = ac_provider cfg,
        rq_directory = ac_directory cfg\<rparr>) (\<lambda>crt.
     aret (Some crt)))"

definition prover_or_default :: "'w acme_lib \<Rightarrow> 'w prover option \<Rightarrow> 'w prover" where
  "prover_or_default al p = (case p of Some q \<Rightarrow> q | None \<Rightarrow> acme_prove al)"

section \<open>Validation\<close>

definition named_web_port :: "manifest \<Rightarrow> int" where
  "named_web_port m =
     (if WebPort m = 0 \<or> WebPort m = DefaultNamelessWebPort then DefaultNamedWebPort else WebPort m)"

definition refuse_existing_certificate :: "ctx \<Rightarrow> 'w driver \<Rightarrow> ('w, unit) io" where
  "refuse_existing_certificate c d =
     bnd (attempt (resolve_key d c KeyTLSCertificate)) (\<lambda>r.
     case r of
       Inr _ \<Rightarrow> fail (errorf (''attach: the keystore already holds '' @ KeyTLSCertificate
         @ '', but this bundle's manifest carries no domain; refusing to overwrite a certificate that belongs to some other name. Reconcile the manifest and the keystore before naming this instance''))
     | Inl e \<Rightarrow>
         (if errors_is e KeystoreNotFound then ret ()
          else fail (wrapf ''attach: could not confirm the keystore holds no certificate yet: '' e)))"

record 'w checked_options =
  ck_domain :: string
  ck_acme :: acme_config
  ck_address :: string
  ck_keystore :: "'w driver"

text \<open>What can be checked without the keystore; the bundle, the domain, the directory and the address.\<close>

definition check_attach :: "'w attach_env \<Rightarrow> 'w attach_options \<Rightarrow> error + bundle_data \<times> string \<times> string \<times> string" where
  "check_attach ae os =
     (case tBundle os of
        None \<Rightarrow> Inl (errorf ''attach: bundle is required'')
      | Some b \<Rightarrow>
          if blank (tBundleDir os) then Inl (errorf ''attach: bundle directory is required'')
          else if blank (tRemoteDir os) then Inl (errorf ''attach: remote directory is required'')
          else if tHostOf os = None then Inl (errorf ''attach: host is required'')
          else if named (b_manifest b)
          then Inl (errorf (''attach: this bundle is already named '' @ trim_space (Domain (b_manifest b))
                 @ ''; a name is an instance's identity and every clone URL, webhook, and runner registration derives from it, so it is not renamed in place. Relocating a named instance is a DNS flip, and `up` converges it to its existing name''))
          else let domain = trim_space (tDomain os)
            in case validate_domain domain of Inl e \<Rightarrow> Inl (wrapf ''attach: '' e) | Inr _ \<Rightarrow>
               if blank (tProvider os)
               then Inl (errorf (''attach: acme dns-01 provider is required to prove control of '' @ domain
                      @ '' and to renew its certificate later''))
               else case resolve_directory_url (ae_url ae) (tDirectory os) of Inl e \<Rightarrow> Inl (wrapf ''attach: '' e) | Inr directory \<Rightarrow>
               if blank (tAddress os)
               then Inl (errorf ''attach: the address this instance is currently served at is required, so the clone URLs it is changing from can be reported'')
               else case normalize_address (trim_space (tAddress os)) of Inl e \<Rightarrow> Inl (wrapf ''attach: current address: '' e) | Inr address \<Rightarrow>
               case validate_web_ports ((b_manifest b)\<lparr>Domain := domain, WebPort := named_web_port (b_manifest b)\<rparr>) of
                 Inl e \<Rightarrow> Inl (wrapf ''attach: '' e)
               | Inr _ \<Rightarrow> Inr (b, domain, directory, address))"

definition validate_attach :: "'w attach_env \<Rightarrow> ctx \<Rightarrow> 'w attach_options \<Rightarrow> ('w, 'w checked_options) io" where
  "validate_attach ae c os =
     bnd (of_sum (check_attach ae os)) (\<lambda>(b, domain, directory, address).
     bnd (orfail (of_sum (bundle_driver (ae_env ae) b)) ''attach: '') (\<lambda>d.
     bnd (if writer d = None
          then fail (errorf (''attach: keystore driver '' @ quote (dr_driver (dc_keystore (Drivers (b_manifest b))))
                 @ '' cannot store the certificate this attaches; a nameless bundle holds no TLS key material, so naming it has to write some''))
          else ret ()) (\<lambda>_.
     bnd (refuse_existing_certificate c d) (\<lambda>_.
     ret \<lparr>ck_domain = domain,
          ck_acme = \<lparr>ac_provider = trim_space (tProvider os), ac_email = trim_space (tEmail os), ac_directory = directory\<rparr>,
          ck_address = address, ck_keystore = d\<rparr>))))"

section \<open>The steps\<close>

text \<open>The proof of zone control, and the certificate it must have brought.\<close>

definition prove_control :: "'w attach_env \<Rightarrow> ctx \<Rightarrow> 'w attach_options \<Rightarrow> string \<Rightarrow> acme_config \<Rightarrow> ('w, certificate) io" where
  "prove_control ae c os domain cfg =
     bnd (orfail (call ''prover'' c [domain] (prover_or_default (ae_acme ae) (tProver os) domain cfg))
            (''attach: prove control of '' @ domain @ '': '')) (\<lambda>r.
     let none = fail (errorf (''attach: no certificate from zone-control proof of '' @ domain @ '' to persist''))
     in case r of
          None \<Rightarrow> none
        | Some crt \<Rightarrow> (if crt_cert crt = '''' \<or> crt_key crt = '''' then none else ret crt))"

definition persist_certificate :: "ctx \<Rightarrow> 'w driver \<Rightarrow> certificate \<Rightarrow> ('w, unit) io" where
  "persist_certificate c d crt =
     (case writer d of
        None \<Rightarrow> fail (errorf ''attach: keystore driver cannot store key material'')
      | Some st \<Rightarrow>
          bnd (orfail (store_key st c KeyTLSCertificate (Secret (crt_cert crt))) (''attach: store '' @ KeyTLSCertificate @ '': '')) (\<lambda>_.
          orfail (store_key st c KeyTLSPrivateKey (Secret (crt_key crt))) (''attach: store '' @ KeyTLSPrivateKey @ '': '')))"

definition named_bundle :: "yaml_codec \<Rightarrow> bundle_data \<Rightarrow> string \<Rightarrow> acme_config \<Rightarrow> error + bundle_data" where
  "named_bundle y b domain cfg =
     (let m = (b_manifest b)\<lparr>Domain := domain, ACME := cfg, WebPort := named_web_port (b_manifest b)\<rparr>
      in case render y (Some m) of
           Inl e \<Rightarrow> Inl (wrapf (''attach: render compose for '' @ domain @ '': '') e)
         | Inr compose \<Rightarrow> Inr \<lparr>b_manifest = m, b_compose = compose\<rparr>)"

definition attach_deploy :: "'w attach_env \<Rightarrow> ctx \<Rightarrow> bundle_data \<Rightarrow> 'w attach_options \<Rightarrow> ('w, unit) io" where
  "attach_deploy ae c nb os =
     bnd (subjob (up (ae_env ae) (ae_acme ae) (the (tHostOf os)) c (Some nb)
            \<lparr>uRemoteDir = tRemoteDir os, uAddress = '''', uIssuer = tIssuer os, uMigrate = False, uQuarantine = False\<rparr>)) (\<lambda>r.
     handle (of_sum (fst r)) (\<lambda>e.
       fail (suffixf (wrapf (''attach: re-render configuration for '' @ Domain (b_manifest nb) @ '': '') e)
         (''; the bundle at '' @ tBundleDir os @ '' is already named, so re-run `up` against it to finish converging the host''))))"

definition placeholderOwner :: string where "placeholderOwner = ''<owner>''"
definition placeholderRepo :: string where "placeholderRepo = ''<repo>''"

definition arrow :: string where "arrow = [CHR '' '', CHR 0xE2, CHR 0x86, CHR 0x92, CHR '' '']"

definition hostKeyDetail :: string where
  "hostKeyDetail = ''the SSH host key is unchanged, so a client that already trusted this instance sees an ordinary unknown-host prompt for the new name ''
     @ em_dash @ '' never a host-key mismatch''"

definition report_clone_urls :: "manifest \<Rightarrow> manifest \<Rightarrow> string \<Rightarrow> ('w, unit) io" where
  "report_clone_urls m was old =
     bnd (started StepReportCloneURLs ''what consumers have to re-point'') (\<lambda>_.
     bnd (succeeded StepReportCloneURLs (''web UI: '' @ instance_url was old @ arrow @ instance_url m '''')) (\<lambda>_.
     bnd (succeeded StepReportCloneURLs (''git over SSH: '' @ git_ssh_clone_url_at m old placeholderOwner placeholderRepo
            @ arrow @ git_ssh_clone_url m placeholderOwner placeholderRepo)) (\<lambda>_.
     bnd (succeeded StepReportCloneURLs (''re-point an existing clone with: git remote set-url origin ''
            @ git_ssh_clone_url m placeholderOwner placeholderRepo)) (\<lambda>_.
     succeeded StepReportCloneURLs hostKeyDetail))))"

text \<open>From the proof on: everything that changes something.\<close>

definition name_and_deploy :: "'w attach_env \<Rightarrow> ctx \<Rightarrow> 'w attach_options \<Rightarrow> bundle_data \<Rightarrow> 'w checked_options \<Rightarrow> certificate \<Rightarrow> ('w, bundle_data) io" where
  "name_and_deploy ae c os b ck crt =
     bnd (started StepPersistCertificate ''storing the certificate as bundle key material'') (\<lambda>_.
     bnd (reported StepPersistCertificate (persist_certificate c (ck_keystore ck) crt)) (\<lambda>_.
     bnd (succeeded StepPersistCertificate (KeyTLSCertificate @ '' and '' @ KeyTLSPrivateKey @ '' stored through the ''
            @ dr_driver (dc_keystore (Drivers (b_manifest b))) @ '' keystore driver'')) (\<lambda>_.
     bnd (started StepNameBundle (''writing '' @ ck_domain ck @ '' into the manifest and re-rendering compose'')) (\<lambda>_.
     bnd (reported StepNameBundle (of_sum (named_bundle (en_yaml (ae_env ae)) b (ck_domain ck) (ck_acme ck)))) (\<lambda>nb.
     bnd (reported StepNameBundle (orfail (locally (bundle_save (ae_marshal ae) nb (tBundleDir os))) ''attach: save named manifest: '')) (\<lambda>_.
     bnd (succeeded StepNameBundle (''bundle at '' @ tBundleDir os @ '' is now named '' @ ck_domain ck)) (\<lambda>_.
     bnd (attach_deploy ae c nb os) (\<lambda>_.
     bnd (report_clone_urls (b_manifest nb) (b_manifest b) (ck_address ck)) (\<lambda>_.
     ret nb)))))))))"

definition prove_and_name :: "'w attach_env \<Rightarrow> ctx \<Rightarrow> 'w attach_options \<Rightarrow> 'w checked_options \<Rightarrow> ('w, bundle_data) io" where
  "prove_and_name ae c os ck =
     bnd (started StepProveZoneControl (''proving control of '' @ ck_domain ck @ '' via ACME DNS-01'')) (\<lambda>_.
     bnd (reported StepProveZoneControl (prove_control ae c os (ck_domain ck) (ck_acme ck))) (\<lambda>crt.
     bnd (succeeded StepProveZoneControl (''zone control proven for '' @ ck_domain ck @ '' and a certificate issued'')) (\<lambda>_.
     name_and_deploy ae c os (the (tBundle os)) ck crt)))"

definition attach_steps :: "'w attach_env \<Rightarrow> ctx \<Rightarrow> 'w attach_options \<Rightarrow> ('w, bundle_data) io" where
  "attach_steps ae c os =
     bnd (started StepValidate ''checking the bundle, the domain, and the keystore target'') (\<lambda>_.
     bnd (reported StepValidate (validate_attach ae c os)) (\<lambda>ck.
     bnd (succeeded StepValidate (''nameless bundle at '' @ tBundleDir os @ '' is ready to be named '' @ ck_domain ck)) (\<lambda>_.
     prove_and_name ae c os ck)))"

definition attach :: "'w attach_env \<Rightarrow> ctx \<Rightarrow> 'w attach_options \<Rightarrow> ('w, bundle_data) io" where
  "attach ae c os =
     as_job (\<lambda>_. tRemoteDir os @ '' is now served at '' @ trim_space (tDomain os)
         @ ''; repositories, history, pull requests, review comments, CI history, secrets, and the SSH host key are untouched ''
         @ em_dash @ '' consumers re-point their remote once'') (attach_steps ae c os)"

section \<open>Facts\<close>

subsection \<open>What an attachment calls, and when\<close>

text \<open>A write to the keystore or the host, or a start of its stack.\<close>

definition attach_effect :: "call \<Rightarrow> bool" where
  "attach_effect k \<longleftrightarrow> (iface k = ''keystore'' \<and> hd (args k) = ''store'') \<or> writes_host k \<or> starts_stack k"

lemma attach_effect_simps [simp]:
  "\<not> attach_effect (Call ''keystore'' c [''resolve'', n])" "\<not> attach_effect (Call ''prover'' c as)"
  by (simp_all add: attach_effect_def writes_host_def starts_stack_def)

lemma check_attach_Inr:
  assumes "check_attach ae os = Inr (b, domain, directory, address)"
  shows "tBundle os = Some b" "domain = trim_space (tDomain os)" "\<not> named (b_manifest b)" "tHostOf os \<noteq> None"
  using assms by (auto simp: check_attach_def Let_def split: option.splits if_splits sum.splits)

text \<open>The bundle's keystore answered that it holds no certificate; and a prover brought one for the domain.\<close>

definition no_certificate :: "'w attach_env \<Rightarrow> ctx \<Rightarrow> 'w attach_options \<Rightarrow> 'w proc \<Rightarrow> 'w proc \<Rightarrow> bool" where
  "no_certificate ae c os q q' \<longleftrightarrow> (\<exists>b d e. tBundle os = Some b \<and> bundle_driver (ae_env ae) b = Inr d \<and>
     resolve d c KeyTLSCertificate (world q) = (Inl e, world q') \<and> errors_is e KeystoreNotFound)"

definition zone_proven :: "'w attach_env \<Rightarrow> 'w attach_options \<Rightarrow> 'w proc \<Rightarrow> 'w proc \<Rightarrow> bool" where
  "zone_proven ae os q q' \<longleftrightarrow> (\<exists>cfg crt. prover_or_default (ae_acme ae) (tProver os) (trim_space (tDomain os)) cfg (world q)
       = (Inr (Some crt), world q') \<and> crt_cert crt \<noteq> '''' \<and> crt_key crt \<noteq> '''')"

lemma refuse_existing_Ok:
  fixes p :: "'w proc"
  assumes "refuse_existing_certificate c d p = (Ok u, p')"
  shows "\<exists>e. resolve d c KeyTLSCertificate (world p) = (Inl e, world p') \<and> errors_is e KeystoreNotFound"
proof -
  from assms obtain r p1 where r: "attempt (resolve_key d c KeyTLSCertificate) p = (Ok r, p1)"
    "(case r of Inr _ \<Rightarrow> fail (errorf (''attach: the keystore already holds '' @ KeyTLSCertificate
         @ '', but this bundle's manifest carries no domain; refusing to overwrite a certificate that belongs to some other name. Reconcile the manifest and the keystore before naming this instance''))
     | Inl e \<Rightarrow> (if errors_is e KeystoreNotFound then ret () else fail (wrapf ''attach: could not confirm the keystore holds no certificate yet: '' e))) p1 = (Ok u, p')"
    unfolding refuse_existing_certificate_def by (elim bnd_OkE)
  from r(2) obtain e where "r = Inl e" "errors_is e KeystoreNotFound" "p' = p1"
    by (auto split: sum.splits if_splits)
  with attempt_call_Ok [OF r(1) [unfolded resolve_key_def]] show ?thesis by blast
qed

lemma validate_attach_Ok:
  fixes p :: "'w proc"
  assumes "validate_attach ae c os p = (Ok ck, p')"
  shows "ck_domain ck = trim_space (tDomain os)"
proof -
  from assms obtain b domain directory address d p1
    where 1: "check_attach ae os = Inr (b, domain, directory, address)" "ck_domain ck = domain"
    unfolding validate_attach_def
    by (elim bnd_OkE) (auto dest!: of_sum_Ok orfail_Ok elim!: bnd_OkE split: prod.splits if_splits)
  with check_attach_Inr(2) [OF 1(1)] show ?thesis by simp
qed

lemma refuse_existing_calls: "only_calls (\<lambda>_. True) (refuse_existing_certificate c d)"
  unfolding refuse_existing_certificate_def resolve_key_def by (intro calls_intros; simp)

lemma validate_attach_passes: "passes (validate_attach ae c os) (no_certificate ae c os)"
  unfolding validate_attach_def
proof (rule passes_then [OF calls_of_sum])
  fix p :: "'a proc" and x p1
  assume "of_sum (check_attach ae os) p = (Ok x, p1)"
  then obtain b domain directory address where x: "x = (b, domain, directory, address)" "check_attach ae os = Inr (b, domain, directory, address)"
    by (cases x) (auto dest: of_sum_Ok)
  have refuse: "passes (refuse_existing_certificate c d) (no_certificate ae c os)" if "bundle_driver (ae_env ae) b = Inr d" for d
    using refuse_existing_Ok check_attach_Inr(1) [OF x(2)] that
    by (intro passes_whole [OF refuse_existing_calls]) (auto simp: no_certificate_def)
  have opened: "bundle_driver (ae_env ae) b = Inr d" if "orfail (of_sum (bundle_driver (ae_env ae) b)) t p = (Ok d, p1)" for t d and p p1 :: "'a proc"
    using of_sum_Ok [OF orfail_Ok [OF that]] by simp
  show "passes (case x of (b, domain, directory, address) \<Rightarrow>
     bnd (orfail (of_sum (bundle_driver (ae_env ae) b)) ''attach: '') (\<lambda>d.
     bnd (if writer d = None
          then fail (errorf (''attach: keystore driver '' @ quote (dr_driver (dc_keystore (Drivers (b_manifest b))))
                 @ '' cannot store the certificate this attaches; a nameless bundle holds no TLS key material, so naming it has to write some''))
          else ret ()) (\<lambda>_.
     bnd (refuse_existing_certificate c d) (\<lambda>_.
     ret \<lparr>ck_domain = domain,
          ck_acme = \<lparr>ac_provider = trim_space (tProvider os), ac_email = trim_space (tEmail os), ac_directory = directory\<rparr>,
          ck_address = address, ck_keystore = d\<rparr>)))) (no_certificate ae c os)"
    unfolding x(1) prod.case
    by (rule passes_then [OF calls_orfail [OF calls_of_sum]], rule passes_then [OF calls_if [OF calls_fail calls_ret]],
        rule passes_first [OF _ calls_ret], rule refuse [OF opened], assumption)
qed

lemma prove_control_Ok:
  fixes p :: "'w proc"
  assumes "prove_control ae c os (trim_space (tDomain os)) cfg p = (Ok crt, p')"
  shows "zone_proven ae os p p'"
proof -
  from assms obtain r p1 where 1: "call ''prover'' c [trim_space (tDomain os)]
      (prover_or_default (ae_acme ae) (tProver os) (trim_space (tDomain os)) cfg) p = (Ok r, p1)"
    "r = Some crt" "crt_cert crt \<noteq> ''''" "crt_key crt \<noteq> ''''" "p' = p1"
    unfolding prove_control_def Let_def
    by (elim bnd_OkE) (auto dest!: orfail_Ok split: option.splits if_splits)
  with call_Ok(1) [OF 1(1)] show ?thesis unfolding zone_proven_def by blast
qed

lemma validate_attach_calls: "only_calls (\<lambda>k. \<not> attach_effect k) (validate_attach ae c os)"
  unfolding validate_attach_def refuse_existing_certificate_def resolve_key_def by (intro calls_intros; simp)

lemma prove_control_calls: "only_calls (\<lambda>k. \<not> attach_effect k) (prove_control ae c os domain cfg)"
  unfolding prove_control_def Let_def by (intro calls_intros; simp)

lemma prove_control_passes: "passes (prove_control ae c os (trim_space (tDomain os)) cfg) (zone_proven ae os)"
  by (rule passes_whole [OF only_callsI_bound [OF prove_control_calls] prove_control_Ok])

lemma name_and_deploy_calls: "only_calls (\<lambda>_. True) (name_and_deploy ae c os b ck crt)"
  unfolding name_and_deploy_def persist_certificate_def store_key_def attach_deploy_def report_clone_urls_def
  by (intro calls_intros only_callsI_bound [OF up_no_dns]; simp)

subsection \<open>The attachment ends\<close>

lemma attach_steps_named: "StepValidate \<noteq> ''''" "StepProveZoneControl \<noteq> ''''" "StepPersistCertificate \<noteq> ''''"
  "StepNameBundle \<noteq> ''''" "StepReportCloneURLs \<noteq> ''''"
  by (simp_all add: StepValidate_def StepProveZoneControl_def StepPersistCertificate_def StepNameBundle_def StepReportCloneURLs_def)

lemma attach_steps_calm:
  assumes "encodes_runner_config (en_yaml (ae_env ae))"
  shows "calm_on mono (attach_steps ae c os)"
  unfolding attach_steps_def prove_and_name_def validate_attach_def refuse_existing_certificate_def resolve_key_def prove_control_def
    name_and_deploy_def persist_certificate_def store_key_def attach_deploy_def report_clone_urls_def Let_def
  by (intro calm_intros up_completes_on assms; simp add: attach_steps_named ends_job_def)

section \<open>Properties\<close>

text \<open>
  C6. An instance is named only by whoever controls the zone, and over no other name's certificate: an
  attachment stores key material, writes to the host and starts its stack only after the bundle's keystore
  answered that it holds no certificate, and only after the prover brought a certificate for the domain.
\<close>

theorem attach_proves_first:
  "preceded attach_effect (no_certificate ae c os) (attach ae c os) \<and> preceded attach_effect (zone_proven ae os) (attach ae c os)"
proof -
  note any = only_callsI_bound [OF validate_attach_calls] only_callsI_bound [OF prove_control_calls] name_and_deploy_calls
  have v: "only_calls (\<lambda>k. \<not> attach_effect k) (reported StepValidate (validate_attach ae c os))"
    and pr: "only_calls (\<lambda>k. \<not> attach_effect k) (reported StepProveZoneControl (prove_control ae c os d cfg))" for d cfg
    by (intro calls_intros validate_attach_calls prove_control_calls)+
  have pa: "only_calls (\<lambda>_. True) (prove_and_name ae c os ck)" for ck
    unfolding prove_and_name_def by (intro calls_intros any)
  have absent: "preceded attach_effect (no_certificate ae c os) (bnd (reported StepValidate (validate_attach ae c os)) (\<lambda>ck.
      bnd (succeeded StepValidate (msg ck)) (\<lambda>_. prove_and_name ae c os ck)))" for msg
    by (rule preceded_by [OF v _ passes_reported [OF validate_attach_passes]]) (intro calls_intros pa)
  have proven: "preceded attach_effect (zone_proven ae os) (prove_and_name ae c os ck)"
    if ck: "ck_domain ck = trim_space (tDomain os)" for ck
    unfolding prove_and_name_def
  proof (rule preceded_bnd)
    show "preceded attach_effect (zone_proven ae os)
      (bnd (reported StepProveZoneControl (prove_control ae c os (ck_domain ck) (ck_acme ck))) (\<lambda>crt.
       bnd (succeeded StepProveZoneControl (''zone control proven for '' @ ck_domain ck @ '' and a certificate issued'')) (\<lambda>_.
       name_and_deploy ae c os (the (tBundle os)) ck crt)))"
      unfolding ck by (rule preceded_by [OF pr _ passes_reported [OF prove_control_passes]]) (intro calls_intros any)
  qed (intro calls_intros any)+
  have named: "preceded attach_effect (zone_proven ae os) (bnd (reported StepValidate (validate_attach ae c os)) (\<lambda>ck.
      bnd (succeeded StepValidate (msg ck)) (\<lambda>_. prove_and_name ae c os ck)))" for msg
  proof (rule preceded_bnd [OF v])
    show "preceded attach_effect (zone_proven ae os) (bnd (succeeded StepValidate (msg x)) (\<lambda>_. prove_and_name ae c os x))"
      if "reported StepValidate (validate_attach ae c os) p = (Ok x, p1)" for p x p1
      using validate_attach_Ok [OF reported_Ok [OF that]]
      by (intro preceded_bnd proven) (intro calls_intros pa | assumption)+
  qed (intro calls_intros pa)
  show ?thesis
    unfolding attach_def attach_steps_def
    by (intro conjI preceded_as_job preceded_bnd [of _ "started _ _"] absent named) (intro calls_intros any pa)+
qed

text \<open>
  Every attachment returns with exactly one terminal event that reports its outcome, when the clock
  does not run backwards.
\<close>

theorem attach_completes:
  assumes "encodes_runner_config (en_yaml (ae_env ae))"
  shows "completes_on mono (attach ae c os)"
  unfolding attach_def by (intro completes_as_job attach_steps_calm assms)

section \<open>Witnesses\<close>

lemma attach_completes_witness:
  "completes_on mono (attach \<lparr>ae_env = sample_env\<lparr>en_yaml := sample_encoder\<rparr>, ae_acme = sample_acme,
        ae_url = (\<lambda>u. Inl (errorf ''no URL'')), ae_marshal = (\<lambda>m. Inr ''name: x'')\<rparr> Caller
     \<lparr>tBundleDir = ''/b'', tRemoteDir = ''/srv'', tBundle = None, tHostOf = None, tDomain = ''forge.example.org'', tProvider = ''x'',
      tEmail = '''', tDirectory = '''', tAddress = ''10.0.0.1'', tProver = None, tIssuer = None\<rparr>)"
  by (rule attach_completes) (simp add: encodes_runner_config_def sample_encoder_def)

end
