(* ===== verification/Publish.thy ===== *)
theory Publish
  imports ForgeApi HostState Address
begin

text \<open>
  \<open>internal/core/publish\<close>: putting a local project on its own instance. The ssh command a push is pinned
  with and the environment it needs (\<open>git.go\<close>, \<open>hostkey.go\<close>), where the instance is (\<open>host.go\<close>), its API
  (\<open>forge.go\<close>), and the five steps with their rollback (\<open>publish.go\<close>). Running git, HTTP, JSON and the URL
  parser are parameters.
\<close>

section \<open>The ssh command\<close>

abbreviation dquote :: char where "dquote \<equiv> CHR 0x22"
abbreviation backslash :: char where "backslash \<equiv> CHR 0x5C"

definition ssh_blank :: "char \<Rightarrow> bool" where
  "ssh_blank c \<longleftrightarrow> c = CHR '' '' \<or> c = CHR 0x09"

text \<open>The index of the closing double quote, from \<open>i\<close> on.\<close>

function closing_dquote :: "string \<Rightarrow> nat \<Rightarrow> nat option" where
  "closing_dquote s i =
     (if i \<ge> length s then None
      else if s ! i = backslash \<and> i + 1 < length s then closing_dquote s (i + 2)
      else if s ! i = dquote then Some i
      else closing_dquote s (i + 1))"
  by pat_completeness auto
termination by (relation "measure (\<lambda>(s, i). length s - i)") auto

declare closing_dquote.simps [simp del]

lemma closing_dquote_Some: "closing_dquote s i = Some j \<Longrightarrow> i \<le> j \<and> j < length s"
proof (induction s i rule: closing_dquote.induct)
  case (1 s i)
  note unfold = closing_dquote.simps [of s i]
  show ?case
  proof (cases "i + 1 < length s \<and> s ! i = backslash")
    case True
    with 1(3) unfold have "closing_dquote s (i + 2) = Some j" by simp
    with 1(1) True show ?thesis by auto
  next
    case False
    with 1(2,3) unfold show ?thesis by (cases "s ! i = dquote") (auto split: if_splits)
  qed
qed

fun index_from :: "char \<Rightarrow> string \<Rightarrow> nat option" where
  "index_from c [] = None"
| "index_from c (x # xs) = (if x = c then Some 0 else map_option Suc (index_from c xs))"

definition unterminated :: "string \<Rightarrow> error" where
  "unterminated s = errorf (''GIT_SSH_COMMAND '' @ quote s @ '' has an unterminated quote'')"

function end_of_word :: "string \<Rightarrow> nat \<Rightarrow> error + nat" where
  "end_of_word s i =
     (if i \<ge> length s then Inr (length s)
      else if ssh_blank (s ! i) then Inr i
      else if s ! i = squote
      then (case index_from squote (drop (i + 1) s) of
              None \<Rightarrow> Inl (unterminated s)
            | Some rest \<Rightarrow> end_of_word s (i + (rest + 2)))
      else if s ! i = dquote
      then (case closing_dquote s (i + 1) of
              None \<Rightarrow> Inl (unterminated s)
            | Some j \<Rightarrow> end_of_word s (j + 1))
      else if s ! i = backslash then end_of_word s (i + 2)
      else end_of_word s (i + 1))"
  by pat_completeness auto
termination
  by (relation "measure (\<lambda>(s, i). length s - i)") (auto dest: closing_dquote_Some)

declare end_of_word.simps [simp del]

text \<open>Every step that is not the word's end moves on, so a word that is there has an end beyond its start.\<close>

lemma end_of_word_step:
  assumes "end_of_word s i = Inr j" "i < length s" "\<not> ssh_blank (s ! i)"
  obtains k where "i < k" "end_of_word s k = Inr j"
proof -
  note run = assms(1) [unfolded end_of_word.simps [of s i]]
  have "\<exists>k>i. end_of_word s k = Inr j"
  proof (cases "s ! i = squote \<or> s ! i = dquote")
    case True
    with run assms(2,3) show ?thesis
      by (auto split: if_splits option.splits dest!: closing_dquote_Some)
        (rule exI, erule conjI [rotated], simp)+
  next
    case False
    with run assms(2,3) have "end_of_word s (i + 2) = Inr j \<or> end_of_word s (i + 1) = Inr j" by (auto split: if_splits)
    then show ?thesis by (meson less_add_one less_add_same_cancel1 zero_less_numeral)
  qed
  then show thesis using that by blast
qed

lemma end_of_word_bound: "end_of_word s i = Inr j \<Longrightarrow> j \<le> length s \<and> (i \<le> j \<or> j = length s)"
proof (induction "length s - i" arbitrary: i rule: less_induct)
  case less
  consider "length s \<le> i" | "i < length s" "ssh_blank (s ! i)" | "i < length s" "\<not> ssh_blank (s ! i)" by linarith
  then show ?case
  proof cases
    case 3
    with less(2) obtain k where k: "i < k" "end_of_word s k = Inr j" by (rule end_of_word_step)
    from less(1) [of k] k 3(1) have "j \<le> length s \<and> (k \<le> j \<or> j = length s)" by simp
    with k(1) show ?thesis by auto
  qed (use less(2) in \<open>subst (asm) end_of_word.simps, simp\<close>)+
qed

lemma end_of_word_gt:
  assumes "end_of_word s i = Inr j" "i < length s" "\<not> ssh_blank (s ! i)"
  shows "i < j" "j \<le> length s"
proof -
  from assms obtain k where "i < k" "end_of_word s k = Inr j" by (rule end_of_word_step)
  with end_of_word_bound [of s k j] assms(2) show "i < j" "j \<le> length s" by auto
qed

text \<open>Whether a word is an assignment of a shell variable.\<close>

definition ident_start :: "char \<Rightarrow> bool" where
  "ident_start c \<longleftrightarrow> c = CHR ''_'' \<or> is_letter c"

definition is_assignment :: "string \<Rightarrow> bool" where
  "is_assignment word =
     (case cut (CHR ''='') word of
        None \<Rightarrow> False
      | Some (name, _) \<Rightarrow>
          name \<noteq> '''' \<and> ident_start (hd name) \<and> list_all (\<lambda>c. ident_start c \<or> is_digit c) (tl name))"

definition skip_blanks :: "string \<Rightarrow> nat \<Rightarrow> nat" where
  "skip_blanks s i = i + length (takeWhile ssh_blank (drop i s))"

definition slice :: "string \<Rightarrow> nat \<Rightarrow> nat \<Rightarrow> string" where
  "slice s i j = take (j - i) (drop i s)"

lemma skip_blanks_at: "skip_blanks s i < length s \<Longrightarrow> \<not> ssh_blank (s ! skip_blanks s i)"
proof -
  assume "skip_blanks s i < length s"
  then have "length (takeWhile ssh_blank (drop i s)) < length (drop i s)" by (simp add: skip_blanks_def)
  from nth_length_takeWhile [OF this] this show ?thesis by (simp add: skip_blanks_def)
qed

lemma skip_blanks_le: "i \<le> length s \<Longrightarrow> skip_blanks s i \<le> length s"
  using length_takeWhile_le [of ssh_blank "drop i s"] by (simp add: skip_blanks_def)

function after_program :: "string \<Rightarrow> nat \<Rightarrow> error + nat" where
  "after_program cmd i =
     (let start = skip_blanks cmd i
      in if start \<ge> length cmd then Inl (errorf (''GIT_SSH_COMMAND '' @ quote cmd @ '' names no ssh program''))
         else case end_of_word cmd start of
           Inl e \<Rightarrow> Inl e
         | Inr stop \<Rightarrow> (if is_assignment (slice cmd start stop) then after_program cmd stop else Inr stop))"
  by pat_completeness auto
termination
proof (relation "measure (\<lambda>(cmd, i). length cmd - i)", goal_cases)
  case (2 cmd i start stop)
  with end_of_word_gt [of cmd start stop] skip_blanks_at [of cmd i] show ?case
    by (simp add: skip_blanks_def)
qed simp

declare after_program.simps [simp del]

definition ssh_pins :: "string \<Rightarrow> string" where
  "ssh_pins path = ''-o UserKnownHostsFile='' @ [squote] @ path @ [squote] @ '' -o StrictHostKeyChecking=yes''"

definition ssh_command :: "string \<Rightarrow> string \<Rightarrow> error + string" where
  "ssh_command given path =
     (if squote \<in> set path then Inl (errorf (''known_hosts path '' @ quote path @ '' contains a quote''))
      else let base = (if blank given then ''ssh'' else trim_space given)
           in case after_program base 0 of
                Inl e \<Rightarrow> Inl e
              | Inr at \<Rightarrow>
                  (let rest = dropWhile ssh_blank (drop at base)
                   in Inr (if rest = '''' then take at base @ '' '' @ ssh_pins path
                           else take at base @ '' '' @ ssh_pins path @ '' '' @ rest)))"

subsection \<open>Where the pins stand\<close>

text \<open>
  \<open>shell_word w rest\<close>: of the text \<open>w @ rest\<close> the shell reads \<open>w\<close> as one whole word. Blanks are part of a
  word only inside quotes or after a backslash, and the word goes on until one that is not, or the end.
\<close>

inductive dquoted :: "string \<Rightarrow> bool" where
  dquoted_none: "dquoted []"
| dquoted_escape: "dquoted t \<Longrightarrow> dquoted (backslash # c # t)"
| dquoted_char: "c \<noteq> dquote \<Longrightarrow> c \<noteq> backslash \<Longrightarrow> dquoted t \<Longrightarrow> dquoted (c # t)"

inductive shell_word :: "string \<Rightarrow> string \<Rightarrow> bool" where
  word_end: "rest = '''' \<or> ssh_blank (hd rest) \<Longrightarrow> shell_word [] rest"
| word_char: "\<not> ssh_blank c \<Longrightarrow> c \<noteq> squote \<Longrightarrow> c \<noteq> dquote \<Longrightarrow> c \<noteq> backslash \<Longrightarrow> shell_word w rest \<Longrightarrow> shell_word (c # w) rest"
| word_escape: "shell_word w rest \<Longrightarrow> shell_word (backslash # c # w) rest"
| word_backslash: "shell_word [backslash] []"
| word_quoted: "squote \<notin> set t \<Longrightarrow> shell_word w rest \<Longrightarrow> shell_word (squote # t @ squote # w) rest"
| word_dquoted: "dquoted t \<Longrightarrow> shell_word w rest \<Longrightarrow> shell_word (dquote # t @ dquote # w) rest"

text \<open>The assignments before the program, each a whole word.\<close>

inductive assignments :: "string \<Rightarrow> string \<Rightarrow> bool" where
  assignments_none: "assignments [] rest"
| assignments_word: "list_all ssh_blank b \<Longrightarrow> shell_word w (e @ rest) \<Longrightarrow> is_assignment w \<Longrightarrow> assignments e rest \<Longrightarrow>
    assignments (b @ w @ e) rest"

lemma slice_takes: "i \<le> j \<Longrightarrow> take j s = take i s @ slice s i j"
  by (simp add: slice_def flip: take_add)

lemma slice_blanks: "list_all ssh_blank (slice s i (skip_blanks s i))"
proof -
  have "slice s i (skip_blanks s i) = takeWhile ssh_blank (drop i s)"
    by (simp only: slice_def skip_blanks_def add_diff_cancel_left' takeWhile_eq_take [symmetric])
  then show ?thesis by (simp add: list_all_iff) (metis set_takeWhileD)
qed

lemma slice_hd: "i < j \<Longrightarrow> i < length s \<Longrightarrow> slice s i j \<noteq> '''' \<and> hd (slice s i j) = s ! i"
  by (simp add: slice_def hd_drop_conv_nth)

lemma slice_none [simp]: "slice s i i = []"
  by (simp add: slice_def)

lemma slice_Cons: "i < j \<Longrightarrow> i < length s \<Longrightarrow> slice s i j = s ! i # slice s (i + 1) j"
  by (simp add: slice_def take_Cons' flip: Cons_nth_drop_Suc)

lemma slice_split: "i \<le> k \<Longrightarrow> k \<le> j \<Longrightarrow> slice s i j = slice s i k @ slice s k j"
  using take_add [of "k - i" "j - k" "drop i s"] by (simp add: slice_def)

lemma index_from_Some: "index_from c xs = Some n \<Longrightarrow> take n xs @ c # drop (n + 1) xs = xs \<and> n < length xs \<and> c \<notin> set (take n xs)"
  by (induction xs arbitrary: n) (auto split: if_splits)

lemma closing_dquoted: "closing_dquote s i = Some j \<Longrightarrow> dquoted (slice s i j) \<and> s ! j = dquote"
proof (induction s i rule: closing_dquote.induct)
  case (1 s i)
  note unfold = closing_dquote.simps [of s i]
  show ?case
  proof (cases "i + 1 < length s \<and> s ! i = backslash")
    case True
    with 1(3) unfold have c: "closing_dquote s (i + 2) = Some j" by simp
    with closing_dquote_Some [OF c] True have "slice s i j = backslash # s ! (i + 1) # slice s (i + 2) j"
      by (simp add: slice_Cons)
    with 1(1) c True show ?thesis by (auto intro: dquoted_escape)
  next
    case False
    show ?thesis
    proof (cases "s ! i = dquote")
      case True
      with False 1(3) unfold show ?thesis by (auto intro: dquoted_none split: if_splits)
    next
      case q: False
      with False 1(3) unfold have lt: "i < length s" and c: "closing_dquote s (i + 1) = Some j"
        by (auto split: if_splits)
      from closing_dquote_Some [OF c] False have "s ! i \<noteq> backslash" by auto
      moreover from closing_dquote_Some [OF c] lt have "slice s i j = s ! i # slice s (i + 1) j" by (simp add: slice_Cons)
      ultimately show ?thesis using 1(2) c False lt q by (auto intro: dquoted_char)
    qed
  qed
qed

lemma end_of_word_is: "end_of_word s i = Inr j \<Longrightarrow> i \<le> length s \<Longrightarrow> shell_word (slice s i j) (drop j s)"
proof (induction "length s - i" arbitrary: i rule: less_induct)
  case less
  note run = less(2) [unfolded end_of_word.simps [of s i]]
  have next_word: "shell_word (slice s k j) (drop j s) \<and> slice s i j = slice s i k @ slice s k j"
    if "end_of_word s k = Inr j" "i < k" "k \<le> length s" for k
  proof -
    from end_of_word_bound [OF that(1)] that(3) have "k \<le> j" by auto
    with slice_split [of i k j s] that(2) have "slice s i j = slice s i k @ slice s k j" by simp
    with less(1) [of k] that show ?thesis by simp
  qed
  consider "i = length s" | "i < length s" "ssh_blank (s ! i)" | "i < length s" "\<not> ssh_blank (s ! i)" "s ! i = squote"
    | "i < length s" "\<not> ssh_blank (s ! i)" "s ! i = dquote"
    | "i < length s" "\<not> ssh_blank (s ! i)" "s ! i = backslash"
    | "i < length s" "\<not> ssh_blank (s ! i)" "s ! i \<noteq> squote" "s ! i \<noteq> dquote" "s ! i \<noteq> backslash"
    using less(3) by linarith
  then show ?case
  proof cases
    case 1
    with run show ?thesis by (auto intro: word_end)
  next
    case 2
    with run show ?thesis by (auto intro!: word_end simp: hd_drop_conv_nth)
  next
    case 3
    with run obtain n where n: "index_from squote (drop (i + 1) s) = Some n" and e: "end_of_word s (i + (n + 2)) = Inr j"
      by (auto split: option.splits)
    note q = index_from_Some [OF n]
    have "slice s i (i + (n + 2)) = squote # take n (drop (i + 1) s) @ [squote]"
    proof -
      have "take (n + 1) (drop (i + 1) s) = take n (drop (i + 1) s) @ [squote]"
        using q by (metis Suc_eq_plus1 add_diff_cancel_left' append_eq_conv_conj length_take min.absorb2 nat_less_le nth_append_length take_Suc_conv_app_nth)
      with 3 show ?thesis by (simp add: slice_Cons) (simp add: slice_def)
    qed
    moreover from q have "n < length s - (i + 1)" by simp
    then have "i + (n + 2) \<le> length s" by simp
    note next_word [OF e _ this]
    ultimately show ?thesis using q word_quoted by simp
  next
    case 4
    with run obtain k where k: "closing_dquote s (i + 1) = Some k" and e: "end_of_word s (k + 1) = Inr j"
      by (auto simp: squote_def split: option.splits)
    note q = closing_dquote_Some [OF k] closing_dquoted [OF k]
    have "slice s i (k + 1) = dquote # slice s (i + 1) k @ [dquote]"
      using q 4 slice_split [of "i + 1" k "k + 1" s] by (simp add: slice_Cons)
    with next_word [OF e] q word_dquoted show ?thesis by simp
  next
    case 5
    with run have e: "end_of_word s (i + 2) = Inr j" by (simp add: squote_def ssh_blank_def)
    show ?thesis
    proof (cases "i + 1 < length s")
      case True
      then have "slice s i (i + 2) = [backslash, s ! (i + 1)]" using 5 by (simp add: slice_Cons)
      with next_word [OF e] True word_escape show ?thesis by simp
    next
      case False
      with 5(1) have l: "length s = i + 1" by simp
      with e have "j = length s" by (subst (asm) end_of_word.simps) simp

      with 5 l word_backslash show ?thesis by (simp add: slice_Cons)
    qed
  next
    case 6
    with run have e: "end_of_word s (i + 1) = Inr j" by simp
    from 6 have "slice s i (i + 1) = [s ! i]" by (simp add: slice_Cons)
    with next_word [OF e] 6 word_char show ?thesis by simp
  qed
qed

lemma after_program_Inr:
  assumes "after_program cmd i = Inr at" "i \<le> length cmd"
  shows "\<exists>e b prog. assignments e (b @ prog @ drop at cmd) \<and> list_all ssh_blank b \<and> take at cmd = take i cmd @ e @ b @ prog \<and>
     at \<le> length cmd \<and> shell_word prog (drop at cmd) \<and> prog \<noteq> '''' \<and> \<not> ssh_blank (hd prog) \<and> \<not> is_assignment prog"
  using assms
proof (induction cmd i rule: after_program.induct)
  case (1 cmd i)
  let ?start = "skip_blanks cmd i"
  from 1(2) obtain stop where st: "?start < length cmd" "end_of_word cmd ?start = Inr stop"
    and run: "(if is_assignment (slice cmd ?start stop) then after_program cmd stop else Inr stop) = Inr at"
    by (subst (asm) after_program.simps) (auto simp: Let_def split: if_splits sum.splits)
  note gt = end_of_word_gt [OF st(2,1) skip_blanks_at [OF st(1)]]
  note word = end_of_word_is [OF st(2) less_imp_le [OF st(1)]]
  have le: "i \<le> ?start" by (simp add: skip_blanks_def)
  let ?b = "slice cmd i ?start" and ?w = "slice cmd ?start stop"
  have tk: "take stop cmd = take i cmd @ ?b @ ?w"
    using slice_takes [of ?start stop cmd] slice_takes [OF le, of cmd] gt(1) by simp
  note w = slice_hd [OF gt(1) st(1)]
  show ?case
  proof (cases "is_assignment ?w")
    case True
    with run have "after_program cmd stop = Inr at" by simp
    from 1(1) [OF refl _ st(2) True this gt(2)] st(1) obtain e b prog where
      e: "assignments e (b @ prog @ drop at cmd)" "list_all ssh_blank b" "take at cmd = take stop cmd @ e @ b @ prog" "at \<le> length cmd"
      "shell_word prog (drop at cmd)" "prog \<noteq> ''''" "\<not> ssh_blank (hd prog)" "\<not> is_assignment prog" by auto
    have "take stop cmd @ drop stop cmd = take stop cmd @ e @ b @ prog @ drop at cmd"
      using e(3) by (metis append_assoc append_take_drop_id)
    then have "drop stop cmd = e @ b @ prog @ drop at cmd" by (metis append_take_drop_id same_append_eq)
    with word have "assignments (?b @ ?w @ e) (b @ prog @ drop at cmd)"
      by (intro assignments_word [OF slice_blanks _ True e(1)]) simp
    with e tk show ?thesis by (intro exI [of _ "?b @ ?w @ e"] exI [of _ b] exI [of _ prog]) simp
  next
    case False
    with run have "at = stop" by simp
    with tk gt(2) w False slice_blanks skip_blanks_at [OF st(1)] word assignments_none show ?thesis
      by (intro exI [of _ "[]"] exI [of _ ?b] exI [of _ ?w]) simp
  qed
qed

section \<open>Options\<close>

definition StepInspect :: string where "StepInspect = ''inspect''"
definition StepAuthorize :: string where "StepAuthorize = ''authorize''"
definition StepCreate :: string where "StepCreate = ''create''"
definition StepRemote :: string where "StepRemote = ''remote''"
definition StepPush :: string where "StepPush = ''push''"

definition DefaultRemoteName :: string where "DefaultRemoteName = ''origin''"

record publish_options =
  pDir :: string
  pManifest :: "manifest option"
  pAddress :: string
  pTarget :: string
  pToken :: secret
  pOwner :: string
  pName :: string
  pPrivate :: bool
  pRemoteName :: string
  pPublicKey :: string
  pHome :: string

record publish_result =
  pr_root :: string
  pr_full_name :: string
  pr_remote_name :: string
  pr_remote_url :: string
  pr_branch :: string

text \<open>A run of git in a directory, under additional environment variables.\<close>

type_synonym 'w git = "ctx \<Rightarrow> string \<Rightarrow> string list \<Rightarrow> string list \<Rightarrow> ('w, string) act"

text \<open>What a process run by \<open>os/exec\<close> ends with: its error, its standard output and its standard error.\<close>

type_synonym 'w git_process = "ctx \<Rightarrow> string \<Rightarrow> string list \<Rightarrow> string list \<Rightarrow> 'w world \<Rightarrow> (error option \<times> string \<times> string) \<times> 'w world"

definition exec_git :: "'w git_process \<Rightarrow> 'w git" where
  "exec_git run c dir env as = (\<lambda>w.
     case run c dir env as w of
       ((None, out, err), w') \<Rightarrow> (Inr (trim_space out), w')
     | ((Some e, out, err), w') \<Rightarrow>
         (let detail = (if blank err then trim_space out else trim_space err);
              failed = wrapf (''git '' @ join '' '' as @ '': '') e
          in (Inl (if detail = '''' then failed else suffixf failed ('': '' @ detail)), w')))"

text \<open>
  The JSON the instance's API speaks: the message of an error, the login of a user, the keys of a user's key
  list, the full name of a repository; and the bodies of the two requests that have one.
\<close>

record publish_json =
  pj_message :: "string \<Rightarrow> string option"
  pj_login :: "string \<Rightarrow> string + string"
  pj_keys :: "string \<Rightarrow> string + string list"
  pj_full_name :: "string \<Rightarrow> string + string"
  pj_repo_body :: "string \<Rightarrow> bool \<Rightarrow> string \<Rightarrow> bool \<Rightarrow> string"
  pj_key_body :: "string \<Rightarrow> string \<Rightarrow> string"

text \<open>
  What a publication runs on: the keystores of \<^typ>\<open>'w env\<close>, git (the caller's, or \<open>exec_git\<close>), the API, and of the
  process's environment the working directory, the home directory, \<open>GIT_SSH_COMMAND\<close> and the directory for
  temporary files; and the hostname of a URL.
\<close>

record 'w publish_env =
  pe_env :: "'w env"
  pe_git :: "'w git option"
  pe_process :: "'w git_process"
  pe_api :: "'w api_lib"
  pe_json :: publish_json
  pe_wd :: "error + string"
  pe_home :: string
  pe_ssh_command :: string
  pe_tmp :: string
  pe_hostname :: "string \<Rightarrow> error + string"

section \<open>Where the instance is\<close>

definition host_of :: "(string \<Rightarrow> error + string) \<Rightarrow> string \<Rightarrow> error + string" where
  "host_of hostname raw =
     (case hostname raw of
        Inl e \<Rightarrow> Inl (wrapf (''target '' @ quote raw @ '' is not a URL: '') e)
      | Inr host \<Rightarrow>
          if host = ''''
          then Inl (errorf (''target '' @ quote raw
                 @ '' names no host, so publish cannot tell where the instance answers git over SSH: give the address with -address''))
          else Inr (if CHR '':'' \<in> set host then ''['' @ host @ '']'' else host))"

definition resolve_host :: "(string \<Rightarrow> error + string) \<Rightarrow> publish_options \<Rightarrow> manifest \<Rightarrow> error + string" where
  "resolve_host hostname os m =
     (let address = trim_space (pAddress os); target = trim_space (pTarget os)
      in if named m
         then if address \<noteq> ''''
              then Inl (errorf (''this bundle is named '' @ trim_space (Domain m)
                     @ '' and publish reaches the instance at that domain; an address is for a nameless bundle only''))
              else Inr (trim_space (Domain m))
         else if address \<noteq> '''' then normalize_address address
         else if target = ''''
         then Inl (errorf ''this bundle is nameless, so publish needs the address you deployed the instance at: give one with -address, or name the instance's API with -target and publish uses its host'')
         else host_of hostname target)"

definition defaultPublicKeyNames :: "string list" where
  "defaultPublicKeyNames = [''id_ed25519.pub'', ''id_rsa.pub'']"

definition default_public_key_paths :: "string \<Rightarrow> string list" where
  "default_public_key_paths home =
     (if home = '''' then [] else map (\<lambda>n. join_path [home, ''.ssh'', n]) defaultPublicKeyNames)"

definition expand_home :: "string \<Rightarrow> string \<Rightarrow> string" where
  "expand_home path home =
     (if home = '''' \<or> (path \<noteq> ''~'' \<and> \<not> prefix ''~/'' path) then path
      else join_path [home, trim_prefix (trim_prefix path ''~'') ''/''])"

record publish_settings =
  ps_dir :: string
  ps_manifest :: manifest
  ps_host :: string
  ps_owner :: string
  ps_name :: string
  ps_private :: bool
  ps_remote_name :: string
  ps_public_key :: string
  ps_default_keys :: "string list"
  ps_base_url :: string
  ps_token :: secret

definition resolve_publish :: "'w publish_env \<Rightarrow> publish_options \<Rightarrow> error + publish_settings" where
  "resolve_publish pe os =
     (case pManifest os of
        None \<Rightarrow> Inl (errorf ''bundle manifest is required'')
      | Some m \<Rightarrow>
          if reveal (pToken os) = '''' then Inl (errorf ''target token is required'')
          else case resolve_host (pe_hostname pe) os m of
            Inl e \<Rightarrow> Inl e
          | Inr host \<Rightarrow>
              case (if blank (pDir os) then pe_wd pe else Inr (trim_space (pDir os))) of
                Inl e \<Rightarrow> Inl (wrapf ''resolve working directory: '' e)
              | Inr dir \<Rightarrow>
                  let base = trim_right_set ''/'' (trim_space (pTarget os));
                      home = (if pHome os = '''' then pe_home pe else pHome os)
                  in Inr \<lparr>ps_dir = dir, ps_manifest = m, ps_host = host, ps_owner = trim_space (pOwner os),
                       ps_name = trim_space (pName os), ps_private = pPrivate os,
                       ps_remote_name = (if blank (pRemoteName os) then DefaultRemoteName else trim_space (pRemoteName os)),
                       ps_public_key = expand_home (trim_space (pPublicKey os)) home,
                       ps_default_keys = default_public_key_paths home,
                       ps_base_url = (if base = '''' then trim_right_set ''/'' (public_url_at m host) else base),
                       ps_token = pToken os\<rparr>)"

text \<open>\<open>filepath.Base\<close>, and what a name derived from it must be.\<close>

definition file_base :: "string \<Rightarrow> string" where
  "file_base path =
     (if path = '''' then ''.''
      else let t = trim_right_set ''/'' path in if t = '''' then ''/'' else last (split_on slash t))"

definition validate_repo_name :: "string \<Rightarrow> error + unit" where
  "validate_repo_name name =
     (if name = '''' \<or> name = ''.'' \<or> name = ''/''
      then Inl (errorf ''could not derive a repository name from the project folder: name one with -name'')
      else if contains_any name ('' /'' @ [backslash] @ '':*?'' @ [dquote] @ ''<>|'')
      then Inl (errorf (''repository name '' @ quote name @ '' is not usable on the instance: name one with -name''))
      else Inr ())"

section \<open>The instance's API\<close>

definition api_message :: "publish_json \<Rightarrow> string \<Rightarrow> string" where
  "api_message pj raw =
     (case pj_message pj raw of
        Some m \<Rightarrow> if m \<noteq> '''' then truncate_message m else truncate_message (trim_space raw)
      | None \<Rightarrow> truncate_message (trim_space raw))"

text \<open>The status, zero when there is none, and the error or the body of an exchange.\<close>

definition api_outcome :: "publish_json \<Rightarrow> api_exchange \<Rightarrow> nat \<times> (error + string)" where
  "api_outcome pj x =
     (case x of
        ApiUnsent e \<Rightarrow> (0, Inl (wrapf ''call the instance: '' e))
      | ApiUnread st body e \<Rightarrow> (st, Inl (wrapf ''read response: '' e))
      | ApiReplied st body \<Rightarrow>
          (if success_status st then (st, Inr body)
           else (st, Inl (errorf (''the instance returned '' @ nat_str st @ '': '' @ api_message pj body)))))"

definition client_do ::
    "'w publish_env \<Rightarrow> publish_settings \<Rightarrow> ctx \<Rightarrow> string \<Rightarrow> string \<Rightarrow> string option \<Rightarrow> ('w, nat \<times> (error + string)) io" where
  "client_do pe s c method path body =
     (case api_build (pe_api pe) method (ps_base_url s @ path) of
        Some e \<Rightarrow> ret (0, Inl (wrapf ''build request: '' e))
      | None \<Rightarrow>
          bnd (api_call (pe_api pe) c method (ps_base_url s @ path) (ps_token s) body) (\<lambda>x.
          ret (api_outcome (pe_json pe) x)))"

text \<open>The same, for a caller that decodes the body.\<close>

definition client_get ::
    "'w publish_env \<Rightarrow> publish_settings \<Rightarrow> ctx \<Rightarrow> string \<Rightarrow> string \<Rightarrow> string option \<Rightarrow> (string \<Rightarrow> string + 'a) \<Rightarrow> ('w, 'a) io" where
  "client_get pe s c method path body decode =
     bnd (client_do pe s c method path body) (\<lambda>(st, r).
     case r of
       Inl e \<Rightarrow> fail e
     | Inr raw \<Rightarrow> (case decode raw of Inl m \<Rightarrow> fail (errorf (''decode response: '' @ m)) | Inr x \<Rightarrow> ret x))"

definition whoami :: "'w publish_env \<Rightarrow> publish_settings \<Rightarrow> ctx \<Rightarrow> ('w, string) io" where
  "whoami pe s c =
     bnd (orfail (client_get pe s c ''GET'' ''/api/v1/user'' None (pj_login (pe_json pe)))
            ''identify the token's account: '') (\<lambda>login.
     if login = '''' then fail (errorf ''identify the token's account: the instance returned no login'') else ret login)"

definition repo_exists :: "'w publish_env \<Rightarrow> publish_settings \<Rightarrow> ctx \<Rightarrow> string \<Rightarrow> string \<Rightarrow> ('w, bool) io" where
  "repo_exists pe s c owner name =
     bnd (client_do pe s c ''GET'' (repo_api_path owner name) None) (\<lambda>(st, r).
     if st = 404 then ret False
     else case r of
       Inl e \<Rightarrow> fail (wrapf (''check whether '' @ owner @ ''/'' @ name @ '' exists: '') e)
     | Inr _ \<Rightarrow> ret True)"

record create_repo_request =
  cr_owner :: string
  cr_self :: bool
  cr_name :: string
  cr_private :: bool
  cr_branch :: string

definition create_path :: "create_repo_request \<Rightarrow> string" where
  "create_path rq =
     (if cr_self rq then ''/api/v1/user/repos'' else ''/api/v1/orgs/'' @ path_escape (cr_owner rq) @ ''/repos'')"

definition create_repo :: "'w publish_env \<Rightarrow> publish_settings \<Rightarrow> ctx \<Rightarrow> create_repo_request \<Rightarrow> ('w, string) io" where
  "create_repo pe s c rq =
     bnd (orfail (client_get pe s c ''POST'' (create_path rq)
            (Some (pj_repo_body (pe_json pe) (cr_name rq) (cr_private rq) (cr_branch rq) False)) (pj_full_name (pe_json pe)))
            (''create '' @ cr_owner rq @ ''/'' @ cr_name rq @ '': '')) (\<lambda>full.
     ret (if full = '''' then cr_owner rq @ ''/'' @ cr_name rq else full))"

definition publish_delete_repo :: "'w publish_env \<Rightarrow> publish_settings \<Rightarrow> string \<Rightarrow> string \<Rightarrow> ('w, error option) io" where
  "publish_delete_repo pe s owner name =
     bnd (client_do pe s cleanup_ctx ''DELETE'' (repo_api_path owner name) None) (\<lambda>(st, r).
     ret (if st = 404 then None else case r of Inl e \<Rightarrow> Some e | Inr _ \<Rightarrow> None))"

section \<open>The key a push authenticates with\<close>

text \<open>The first candidate that is there and is no directory; what a stat fails with is not looked at.\<close>

fun first_existing :: "string list \<Rightarrow> ('w, string option) io" where
  "first_existing [] = ret None"
| "first_existing (path # rest) =
     bnd (attempt (locally (on_fs (os_stat path)))) (\<lambda>r.
     if r = Inr False then ret (Some path) else first_existing rest)"

definition first_existing_key :: "string list \<Rightarrow> ('w, string) io" where
  "first_existing_key candidates =
     bnd (first_existing candidates) (\<lambda>found.
     case found of
       Some path \<Rightarrow> ret path
     | None \<Rightarrow>
         fail (errorf (if candidates = []
           then ''your home directory could not be located, so there was nowhere to look for your own public key: name one with -ssh-key, or add a key to the account in the forge's web UI''
           else ''this machine has no public key to register either (tried '' @ join '', '' candidates
             @ ''): make one with `ssh-keygen -t ed25519`, name an existing one with -ssh-key, or add a key to the account in the forge's web UI'')))"

definition key_title :: "string \<Rightarrow> string \<Rightarrow> string" where
  "key_title line blob =
     (let fields = str_fields (trim_space line)
      in if length fields > 2 then ''farrier: '' @ join '' '' (drop 2 fields)
         else ''farrier: '' @ take 12 (sha256_hex blob))"

text \<open>The file to register and whether it is the fallback, or the account's keys suffice.\<close>

definition push_key_file :: "publish_settings \<Rightarrow> string \<Rightarrow> string list \<Rightarrow> ('w, (string \<times> bool) option) io" where
  "push_key_file s user keys =
     (if ps_public_key s \<noteq> '''' then ret (Some (ps_public_key s, False))
      else if keys \<noteq> [] then ret None
      else bnd (orfail (first_existing_key (ps_default_keys s))
                  (''the account '' @ user @ '' has no ssh public key registered, so a push would be rejected, and '')) (\<lambda>found.
           ret (Some (found, True))))"

definition register_key ::
    "'w publish_env \<Rightarrow> publish_settings \<Rightarrow> ctx \<Rightarrow> string \<Rightarrow> string list \<Rightarrow> string \<Rightarrow> bool \<Rightarrow> ('w, string) io" where
  "register_key pe s c user keys path fellback =
     bnd (orfail (locally (on_fs (os_read_file path))) ''read ssh public key: '') (\<lambda>raw.
     bnd (orfail (of_sum (split_ssh_public_key raw)) (path @ '' '')) (\<lambda>(t, blob).
     if list_ex (\<lambda>k. split_ssh_public_key k = Inr (t, blob)) keys then ret (path @ '' is already registered'')
     else bnd (client_do pe s c ''POST'' ''/api/v1/user/keys''
                 (Some (pj_key_body (pe_json pe) (key_title raw blob) (t @ '' '' @ blob)))) (\<lambda>(st, r).
          case r of
            Inl e \<Rightarrow> fail (wrapf (''register ssh public key with '' @ user @ '': '') e)
          | Inr _ \<Rightarrow> ret (if fellback then ''the account had no ssh key, so registered '' @ path @ '' with it''
                         else ''registered '' @ path))))"

definition ensure_push_key :: "'w publish_env \<Rightarrow> publish_settings \<Rightarrow> ctx \<Rightarrow> string \<Rightarrow> ('w, string) io" where
  "ensure_push_key pe s c user =
     bnd (orfail (client_get pe s c ''GET'' ''/api/v1/user/keys'' None (pj_keys (pe_json pe)))
            ''list the account's ssh keys: '') (\<lambda>keys.
     bnd (push_key_file s user keys) (\<lambda>f.
     case f of
       None \<Rightarrow> ret (nat_str (length keys) @ '' ssh key(s) already registered'')
     | Some (path, fellback) \<Rightarrow> register_key pe s c user keys path fellback))"

section \<open>The local repository\<close>

definition publish_git :: "'w publish_env \<Rightarrow> 'w git" where
  "publish_git pe = (case pe_git pe of Some g \<Rightarrow> g | None \<Rightarrow> exec_git (pe_process pe))"

definition git_run :: "'w publish_env \<Rightarrow> ctx \<Rightarrow> string \<Rightarrow> string list \<Rightarrow> string list \<Rightarrow> ('w, string) io" where
  "git_run pe c dir env as = call ''git'' c as (publish_git pe c dir env as)"

record local_repo =
  lr_root :: string
  lr_branch :: string

definition inspect_repo :: "'w publish_env \<Rightarrow> ctx \<Rightarrow> string \<Rightarrow> string \<Rightarrow> ('w, local_repo) io" where
  "inspect_repo pe c dir remote =
     bnd (handle (git_run pe c dir [] [''rev-parse'', ''--show-toplevel'']) (\<lambda>e.
            fail (errorf (dir @ '' is not a git repository: run `git init` and commit the project's history first'')))) (\<lambda>root.
     bnd (handle (git_run pe c dir [] [''rev-parse'', ''--verify'', ''HEAD'']) (\<lambda>e.
            fail (errorf (root @ '' has no commits: there is no history to publish '' @ em_dash @ '' commit the project first'')))) (\<lambda>_.
     let detached = errorf (root @ '' has a detached HEAD: check out the branch you want published first'')
     in bnd (handle (git_run pe c dir [] [''symbolic-ref'', ''--short'', ''HEAD'']) (\<lambda>e. fail detached)) (\<lambda>branch.
        if branch = '''' then fail detached
        else bnd (attempt (git_run pe c dir [] [''remote'', ''get-url'', remote])) (\<lambda>u.
             case u of
               Inr url \<Rightarrow> fail (errorf (root @ '' already has a remote named '' @ remote @ '', pointing at '' @ url
                           @ '': publish will not overwrite it '' @ em_dash @ '' remove it, or publish under a different remote name''))
             | Inl _ \<Rightarrow> ret \<lparr>lr_root = root, lr_branch = branch\<rparr>))))"

section \<open>The pinned push\<close>

definition host_public_key :: "'w env \<Rightarrow> ctx \<Rightarrow> manifest \<Rightarrow> ('w, string \<times> string) io" where
  "host_public_key env c m =
     (let key = trim_space (SSHHostKeyPublic m)
      in if key \<noteq> '''' then ret (key, ''the bundle manifest's ssh host public key'')
         else bnd (of_sum (bundle_driver env \<lparr>b_manifest = m, b_compose = []\<rparr>)) (\<lambda>d.
              bnd (orfail (resolve_key d c KeySSHHostKeyPublic)
                     (''this bundle predates the manifest's ssh host public key, so it was read from the keystore instead: resolve ''
                      @ KeySSHHostKeyPublic @ '': '')) (\<lambda>k.
              ret (reveal k, KeySSHHostKeyPublic @ '' from the bundle's keystore''))))"

definition publish_known_hosts :: "'w env \<Rightarrow> ctx \<Rightarrow> manifest \<Rightarrow> string \<Rightarrow> ('w, string) io" where
  "publish_known_hosts env c m host =
     bnd (host_public_key env c m) (\<lambda>(key, source).
     orfail (of_sum (known_hosts_line_at m host key)) (source @ '': ''))"

definition drop_known_hosts :: "string \<Rightarrow> ('w, unit) io" where
  "drop_known_hosts path =
     bnd (attempt (locally (on_fs os_close))) (\<lambda>_.
     bnd (attempt (locally (on_fs (os_remove path)))) (\<lambda>_. ret ()))"

definition or_drop :: "string \<Rightarrow> ('w, 'a) io \<Rightarrow> ('w, 'a) io" where
  "or_drop path m = handle m (\<lambda>e. bnd (drop_known_hosts path) (\<lambda>_. fail e))"

text \<open>The environment of the push and the file it names.\<close>

definition ssh_env :: "'w publish_env \<Rightarrow> publish_settings \<Rightarrow> ctx \<Rightarrow> ('w, string list \<times> string) io" where
  "ssh_env pe s c =
     bnd (publish_known_hosts (pe_env pe) c (ps_manifest s) (ps_host s)) (\<lambda>line.
     bnd (orfail (locally (on_fs (os_create_temp (pe_tmp pe) ''farrier-known-hosts-'' ''''))) ''create known_hosts file: '') (\<lambda>path.
     bnd (or_drop path (orfail (locally (on_fs (os_write_file path line 384))) ''write known_hosts file: '')) (\<lambda>_.
     bnd (or_drop path (orfail (locally (on_fs os_close)) ''write known_hosts file: '')) (\<lambda>_.
     bnd (or_drop path (of_sum (ssh_command (pe_ssh_command pe) path))) (\<lambda>command.
     ret ([''GIT_SSH_COMMAND='' @ command], path))))))"

definition push_history :: "'w publish_env \<Rightarrow> publish_settings \<Rightarrow> ctx \<Rightarrow> string \<Rightarrow> ('w, unit) io" where
  "push_history pe s c root =
     bnd (ssh_env pe s c) (\<lambda>(env, path).
     deferred (drop_known_hosts path)
       (bnd (orfail (git_run pe c root env [''push'', ''--set-upstream'', ''--all'', ps_remote_name s]) ''push branches: '') (\<lambda>_.
        bnd (orfail (git_run pe c root env [''push'', ''--tags'', ps_remote_name s]) ''push tags: '') (\<lambda>_.
        ret ()))))"

section \<open>The publication\<close>

definition publish_failure :: "string \<Rightarrow> error \<Rightarrow> ('w, 'a) io" where
  "publish_failure step e = bnd (emit step StateFailed (msg e)) (\<lambda>_. fail (wrapf ''publish: '' e))"

definition at_step :: "string \<Rightarrow> ('w, 'a) io \<Rightarrow> ('w, 'a) io" where
  "at_step step m = handle m (publish_failure step)"

definition publish_detail :: "publish_result \<Rightarrow> string" where
  "publish_detail r =
     ''published '' @ pr_root r @ '' as '' @ pr_full_name r @ ''; '' @ pr_remote_name r @ '' set to '' @ pr_remote_url r
       @ '' (default branch '' @ pr_branch r @ '')''"

text \<open>\<open>context.Background()\<close>, like \<^const>\<open>cleanup_ctx\<close> one the caller cannot cancel.\<close>

definition roll_back ::
    "'w publish_env \<Rightarrow> publish_settings \<Rightarrow> bool \<Rightarrow> string \<Rightarrow> string \<Rightarrow> publish_result \<Rightarrow> error \<Rightarrow> ('w, error) io" where
  "roll_back pe s added owner name r e =
     bnd (if added
          then bnd (attempt (git_run pe (WithoutCancel Caller) (pr_root r) [] [''remote'', ''remove'', pr_remote_name r])) (\<lambda>u.
               ret (case u of
                      Inr _ \<Rightarrow> e
                    | Inl re \<Rightarrow> suffixf e ('' (cleanup also failed, remote '' @ pr_remote_name r
                                  @ '' may need removing by hand: '' @ msg re @ '')'')))
          else ret e) (\<lambda>e1.
     bnd (publish_delete_repo pe s owner name) (\<lambda>d.
     ret (case d of
            None \<Rightarrow> e1
          | Some de \<Rightarrow> suffixf e1 ('' (cleanup also failed, '' @ owner @ ''/'' @ name
                        @ '' may need removing from the instance by hand: '' @ msg de @ '')''))))"

text \<open>\<open>fail\<close>: what a failure after the creation does.\<close>

definition undone ::
    "'w publish_env \<Rightarrow> publish_settings \<Rightarrow> bool \<Rightarrow> string \<Rightarrow> string \<Rightarrow> publish_result \<Rightarrow> string \<Rightarrow> ('w, 'a) io \<Rightarrow> ('w, 'a) io" where
  "undone pe s added owner name r step m =
     handle m (\<lambda>e. bnd (roll_back pe s added owner name r e) (publish_failure step))"

definition publish_push :: "'w publish_env \<Rightarrow> publish_settings \<Rightarrow> ctx \<Rightarrow> string \<Rightarrow> string \<Rightarrow> publish_result \<Rightarrow> ('w, publish_result) io" where
  "publish_push pe s c owner name r =
     bnd (started StepRemote (''setting '' @ pr_remote_name r @ '' to '' @ pr_remote_url r)) (\<lambda>_.
     bnd (undone pe s False owner name r StepRemote
            (orfail (git_run pe c (pr_root r) [] [''remote'', ''add'', pr_remote_name r, pr_remote_url r])
               (''set remote '' @ pr_remote_name r @ '': ''))) (\<lambda>_.
     bnd (succeeded StepRemote (pr_remote_name r @ '' set to '' @ pr_remote_url r)) (\<lambda>_.
     bnd (started StepPush (''pushing '' @ pr_root r @ '' history to '' @ pr_remote_url r)) (\<lambda>_.
     bnd (undone pe s True owner name r StepPush (push_history pe s c (pr_root r))) (\<lambda>_.
     bnd (succeeded StepPush (''pushed every branch and tag to '' @ pr_full_name r)) (\<lambda>_.
     ret r))))))"

definition bool_text :: "bool \<Rightarrow> string" where
  "bool_text b = (if b then ''true'' else ''false'')"

definition publish_new ::
    "'w publish_env \<Rightarrow> publish_settings \<Rightarrow> ctx \<Rightarrow> string \<Rightarrow> string \<Rightarrow> string \<Rightarrow> local_repo \<Rightarrow> ('w, publish_result) io" where
  "publish_new pe s c user owner name lr =
     bnd (at_step StepCreate (create_repo pe s c \<lparr>cr_owner = owner, cr_self = (owner = user), cr_name = name,
            cr_private = ps_private s, cr_branch = lr_branch lr\<rparr>)) (\<lambda>full.
     bnd (succeeded StepCreate (''created '' @ full @ '' (private='' @ bool_text (ps_private s) @ '', default branch '' @ lr_branch lr @ '')'')) (\<lambda>_.
     publish_push pe s c owner name
       \<lparr>pr_root = lr_root lr, pr_full_name = full, pr_remote_name = ps_remote_name s,
        pr_remote_url = git_ssh_clone_url_at (ps_manifest s) (ps_host s) owner name, pr_branch = lr_branch lr\<rparr>))"

definition publish_create ::
    "'w publish_env \<Rightarrow> publish_settings \<Rightarrow> ctx \<Rightarrow> string \<Rightarrow> string \<Rightarrow> string \<Rightarrow> local_repo \<Rightarrow> ('w, publish_result) io" where
  "publish_create pe s c user owner name lr =
     bnd (started StepCreate (''creating '' @ owner @ ''/'' @ name @ '' on '' @ ps_host s)) (\<lambda>_.
     bnd (at_step StepCreate (repo_exists pe s c owner name)) (\<lambda>taken.
     if taken
     then publish_failure StepCreate (errorf (''repository '' @ owner @ ''/'' @ name @ '' already exists on '' @ ps_host s
            @ '': publish will not overwrite it '' @ em_dash @ '' publish under a different name with -name, or push to it by hand''))
     else publish_new pe s c user owner name lr))"

definition publish_authorize ::
    "'w publish_env \<Rightarrow> publish_settings \<Rightarrow> ctx \<Rightarrow> string \<Rightarrow> local_repo \<Rightarrow> ('w, publish_result) io" where
  "publish_authorize pe s c name lr =
     bnd (started StepAuthorize ''resolving the instance account'') (\<lambda>_.
     bnd (at_step StepAuthorize (whoami pe s c)) (\<lambda>user.
     bnd (at_step StepAuthorize (ensure_push_key pe s c user)) (\<lambda>detail.
     bnd (succeeded StepAuthorize (''authenticated as '' @ user @ ''; '' @ detail)) (\<lambda>_.
     publish_create pe s c user (if ps_owner s = '''' then user else ps_owner s) name lr))))"

definition publish_name :: "publish_settings \<Rightarrow> local_repo \<Rightarrow> string" where
  "publish_name s lr = (if ps_name s = '''' then file_base (lr_root lr) else ps_name s)"

definition publish_steps :: "'w publish_env \<Rightarrow> ctx \<Rightarrow> publish_options \<Rightarrow> ('w, publish_result) io" where
  "publish_steps pe c os =
     bnd (at_step StepInspect (of_sum (resolve_publish pe os))) (\<lambda>s.
     bnd (started StepInspect (''inspecting '' @ ps_dir s)) (\<lambda>_.
     bnd (at_step StepInspect (inspect_repo pe c (ps_dir s) (ps_remote_name s))) (\<lambda>lr.
     bnd (at_step StepInspect (of_sum (validate_repo_name (publish_name s lr)))) (\<lambda>_.
     bnd (succeeded StepInspect (lr_root lr @ '' is a git repository on branch '' @ lr_branch lr @ '', with no ''
            @ ps_remote_name s @ '' remote'')) (\<lambda>_.
     publish_authorize pe s c (publish_name s lr) lr)))))"

definition publish :: "'w publish_env \<Rightarrow> ctx \<Rightarrow> publish_options \<Rightarrow> ('w, publish_result) io" where
  "publish pe c os = as_job publish_detail (publish_steps pe c os)"

section \<open>Facts\<close>

subsection \<open>The publication ends\<close>

lemma client_do_calm [calm_intros]: "calm_on I (client_do pe s c method path body)"
  unfolding client_do_def by (intro calm_intros)

lemma client_get_calm [calm_intros]: "calm_on I (client_get pe s c method path body decode)"
  unfolding client_get_def by (intro calm_intros)

lemma git_run_calm [calm_intros]: "calm_on I (git_run pe c dir env as)"
  unfolding git_run_def by (intro calm_intros)

lemma first_existing_calm [calm_intros]: "calm_on I (first_existing paths)"
  by (induction paths) (auto intro!: calm_intros)

lemma publish_failure_calm [calm_intros]: "st \<noteq> '''' \<Longrightarrow> calm_on I (publish_failure st e)"
  unfolding publish_failure_def by (intro calm_intros) (simp_all add: ends_job_def)

lemma at_step_calm [calm_intros]: "st \<noteq> '''' \<Longrightarrow> calm_on I m \<Longrightarrow> calm_on I (at_step st m)"
  unfolding at_step_def publish_failure_def by (intro calm_intros) (simp_all add: ends_job_def)

lemma drop_known_hosts_calm [calm_intros]: "calm_on I (drop_known_hosts path)"
  unfolding drop_known_hosts_def by (intro calm_intros)

lemma or_drop_calm [calm_intros]: "calm_on I m \<Longrightarrow> calm_on I (or_drop path m)"
  unfolding or_drop_def by (intro calm_intros)

lemma push_history_calm [calm_intros]: "calm_on I (push_history pe s c root)"
  unfolding push_history_def ssh_env_def publish_known_hosts_def host_public_key_def resolve_key_def Let_def by (intro calm_intros)

lemma roll_back_calm [calm_intros]: "calm_on I (roll_back pe s added owner name r e)"
  unfolding roll_back_def publish_delete_repo_def by (intro calm_intros)

lemma undone_calm [calm_intros]: "st \<noteq> '''' \<Longrightarrow> calm_on I m \<Longrightarrow> calm_on I (undone pe s added owner name r st m)"
  unfolding undone_def publish_failure_def by (intro calm_intros) (simp_all add: ends_job_def)

lemma publish_steps_named: "StepInspect \<noteq> ''''" "StepAuthorize \<noteq> ''''" "StepCreate \<noteq> ''''" "StepRemote \<noteq> ''''" "StepPush \<noteq> ''''"
  by (simp_all add: StepInspect_def StepAuthorize_def StepCreate_def StepRemote_def StepPush_def)

lemma inspect_repo_calm [calm_intros]: "calm_on I (inspect_repo pe c dir remote)"
  unfolding inspect_repo_def Let_def by (intro calm_intros)

lemma ensure_push_key_calm [calm_intros]: "calm_on I (ensure_push_key pe s c user)"
  unfolding ensure_push_key_def push_key_file_def first_existing_key_def register_key_def by (intro calm_intros)

lemma publish_push_calm [calm_intros]: "calm_on I (publish_push pe s c owner name r)"
  unfolding publish_push_def by (intro calm_intros; simp add: publish_steps_named ends_job_def)

lemma publish_steps_calm: "calm_on I (publish_steps pe c os)"
  unfolding publish_steps_def publish_authorize_def publish_create_def publish_new_def whoami_def repo_exists_def create_repo_def
  by (intro calm_intros; simp add: publish_steps_named ends_job_def)

subsection \<open>What is called, and when\<close>

lemma at_step_Ok: "at_step st m p = (Ok x, p') \<Longrightarrow> m p = (Ok x, p')"
  by (auto simp: at_step_def handle_def publish_failure_def emit_def bnd_def fail_def split: prod.splits res.splits option.splits)

lemma publish_failure_calls [calls_intros]: "only_calls C (publish_failure st e)"
  unfolding publish_failure_def by (intro calls_intros)

lemma at_step_calls [calls_intros]: "only_calls C m \<Longrightarrow> only_calls C (at_step st m)"
  unfolding at_step_def by (intro calls_intros)

lemma client_do_calls [calls_intros]:
  "C (Call ''instance'' c [method, ps_base_url s @ path]) \<Longrightarrow> only_calls C (client_do pe s c method path body)"
  unfolding client_do_def by (intro calls_intros)

lemma client_get_calls [calls_intros]:
  "C (Call ''instance'' c [method, ps_base_url s @ path]) \<Longrightarrow> only_calls C (client_get pe s c method path body decode)"
  unfolding client_get_def by (intro calls_intros)

lemma git_run_calls [calls_intros]: "C (Call ''git'' c as) \<Longrightarrow> only_calls C (git_run pe c dir env as)"
  unfolding git_run_def by (intro calls_intros)

lemma first_existing_calls [calls_intros]: "only_calls C (first_existing paths)"
  by (induction paths) (auto intro!: calls_intros)

lemma drop_known_hosts_calls [calls_intros]: "only_calls C (drop_known_hosts path)"
  unfolding drop_known_hosts_def by (intro calls_intros)

lemma or_drop_calls [calls_intros]: "only_calls C m \<Longrightarrow> only_calls C (or_drop path m)"
  unfolding or_drop_def by (intro calls_intros)

text \<open>A deletion on the instance, and the removal of a remote from the project.\<close>

definition deletes_at :: "string \<Rightarrow> call \<Rightarrow> bool" where
  "deletes_at url k \<longleftrightarrow> iface k = ''instance'' \<and> args k = [''DELETE'', url]"

definition removes_remote :: "call \<Rightarrow> bool" where
  "removes_remote k \<longleftrightarrow> iface k = ''git'' \<and> take 2 (args k) = [''remote'', ''remove'']"

definition undoes :: "string \<Rightarrow> call \<Rightarrow> bool" where
  "undoes url k \<longleftrightarrow> deletes_at url k \<or> removes_remote k"

lemma undoes_simps [simp]:
  "\<not> undoes u (Call ''git'' c [''rev-parse'', a])" "\<not> undoes u (Call ''git'' c [''rev-parse'', a, b])"
  "\<not> undoes u (Call ''git'' c [''symbolic-ref'', a, b])" "\<not> undoes u (Call ''git'' c [''remote'', ''get-url'', b])"
  "\<not> undoes u (Call ''keystore'' c as)" "\<not> undoes u (Call ''instance'' c [''GET'', v])" "\<not> undoes u (Call ''instance'' c [''POST'', v])"
  "removes_remote k \<Longrightarrow> undoes u k" "deletes_at u k \<Longrightarrow> undoes u k"
  by (simp_all add: undoes_def deletes_at_def removes_remote_def)

lemma before_creation_calls [calls_intros]:
  "only_calls (\<lambda>k. \<not> undoes u k) (inspect_repo pe c dir remote)"
  "only_calls (\<lambda>k. \<not> undoes u k) (whoami pe s c)"
  "only_calls (\<lambda>k. \<not> undoes u k) (ensure_push_key pe s c user)"
  "only_calls (\<lambda>k. \<not> undoes u k) (repo_exists pe s c owner name)"
  "only_calls (\<lambda>k. \<not> undoes u k) (create_repo pe s c rq)"
  unfolding inspect_repo_def whoami_def ensure_push_key_def push_key_file_def first_existing_key_def register_key_def
    repo_exists_def create_repo_def Let_def
  by (intro calls_intros; simp)+

lemma any_calls [calls_intros]:
  "only_calls (\<lambda>_. True) (publish_push pe s c owner name r)"
  "only_calls (\<lambda>_. True) (publish_new pe s c user owner name lr)"
  "only_calls (\<lambda>_. True) (publish_create pe s c user owner name lr)"
  "only_calls (\<lambda>_. True) (publish_authorize pe s c name lr)"
proof -
  show 1: "only_calls (\<lambda>_. True) (publish_push pe s c owner name r)" for s owner name r
    unfolding publish_push_def undone_def roll_back_def publish_delete_repo_def push_history_def ssh_env_def publish_known_hosts_def
      host_public_key_def resolve_key_def Let_def by (intro calls_intros TrueI)
  show 0: "only_calls (\<lambda>_. True) (publish_new pe s c user owner name lr)" for user owner
    unfolding publish_new_def create_repo_def by (intro calls_intros TrueI 1)
  show 2: "only_calls (\<lambda>_. True) (publish_create pe s c user owner name lr)" for user owner
    unfolding publish_create_def repo_exists_def by (intro calls_intros TrueI 0)
  show "only_calls (\<lambda>_. True) (publish_authorize pe s c name lr)"
    unfolding publish_authorize_def whoami_def ensure_push_key_def push_key_file_def first_existing_key_def register_key_def
    by (intro calls_intros TrueI 2)
qed

text \<open>
  The instance answered that there is no repository at a URL; it answered the creation of the repository at a
  URL with a success.
\<close>

definition absent_at :: "'w publish_env \<Rightarrow> publish_options \<Rightarrow> ctx \<Rightarrow> string \<Rightarrow> 'w proc \<Rightarrow> 'w proc \<Rightarrow> bool" where
  "absent_at pe os c url q q' \<longleftrightarrow> (\<exists>s x. resolve_publish pe os = Inr s \<and>
     api_do (pe_api pe) c ''GET'' url (ps_token s) None (world q) = (x, world q') \<and> fst (api_outcome (pe_json pe) x) = 404)"

text \<open>The body of the creation's request names the repository.\<close>

abbreviation repo_body :: "'w publish_env \<Rightarrow> create_repo_request \<Rightarrow> string" where
  "repo_body pe rq \<equiv> pj_repo_body (pe_json pe) (cr_name rq) (cr_private rq) (cr_branch rq) False"

definition created_at :: "'w publish_env \<Rightarrow> publish_options \<Rightarrow> ctx \<Rightarrow> string \<Rightarrow> 'w proc \<Rightarrow> 'w proc \<Rightarrow> bool" where
  "created_at pe os c url q q' \<longleftrightarrow> (\<exists>s rq st raw. resolve_publish pe os = Inr s \<and>
     url = ps_base_url s @ repo_api_path (cr_owner rq) (cr_name rq) \<and>
     api_do (pe_api pe) c ''POST'' (ps_base_url s @ create_path rq) (ps_token s) (Some (repo_body pe rq)) (world q)
       = (ApiReplied st raw, world q') \<and>
     success_status st)"

lemma client_do_Ok:
  assumes "client_do pe s c method path body p = (Ok (st, r), p')"
  shows "(\<exists>x. api_do (pe_api pe) c method (ps_base_url s @ path) (ps_token s) body (world p) = (x, world p')
       \<and> (st, r) = api_outcome (pe_json pe) x) \<or> (st = 0 \<and> (\<exists>e. r = Inl e))"
proof (cases "api_build (pe_api pe) method (ps_base_url s @ path)")
  case None
  with assms obtain x p1 where x: "api_call (pe_api pe) c method (ps_base_url s @ path) (ps_token s) body p = (Ok x, p1)"
    "(st, r) = api_outcome (pe_json pe) x" "p1 = p'"
    unfolding client_do_def by (auto elim!: bnd_OkE)
  from call_Ok(1) [OF x(1) [unfolded api_call_def]] x(2,3) show ?thesis by (auto split: prod.splits)
next
  case (Some e)
  with assms show ?thesis by (auto simp: client_do_def)
qed

lemma repo_exists_False:
  assumes "repo_exists pe s c owner name p = (Ok False, p')"
  obtains x where "api_do (pe_api pe) c ''GET'' (ps_base_url s @ repo_api_path owner name) (ps_token s) None (world p) = (x, world p')"
    "fst (api_outcome (pe_json pe) x) = 404"
proof -
  from assms obtain st r where d: "client_do pe s c ''GET'' (repo_api_path owner name) None p = (Ok (st, r), p')" and st: "st = 404"
    unfolding repo_exists_def by (auto elim!: bnd_OkE split: if_splits sum.splits)
  from client_do_Ok [OF d] st that show thesis by (metis fst_conv zero_neq_numeral)
qed

lemma create_repo_Ok:
  assumes "create_repo pe s c rq p = (Ok full, p')"
  obtains st raw where "api_do (pe_api pe) c ''POST'' (ps_base_url s @ create_path rq) (ps_token s) (Some (repo_body pe rq)) (world p)
      = (ApiReplied st raw, world p')" "success_status st"
proof -
  from assms obtain st raw where d: "client_do pe s c ''POST'' (create_path rq) (Some (repo_body pe rq)) p = (Ok (st, Inr raw), p')"
    unfolding create_repo_def client_get_def
    by (auto elim!: bnd_OkE dest!: orfail_Ok split: prod.splits sum.splits)
  from client_do_Ok [OF d] obtain x where
    "api_do (pe_api pe) c ''POST'' (ps_base_url s @ create_path rq) (ps_token s) (Some (repo_body pe rq)) (world p) = (x, world p')"
    "(st, Inr raw) = api_outcome (pe_json pe) x" by blast
  then show thesis using that by (auto simp: api_outcome_def split: api_exchange.splits if_splits)
qed

definition remote_added :: "'w publish_env \<Rightarrow> publish_options \<Rightarrow> ctx \<Rightarrow> 'w proc \<Rightarrow> 'w proc \<Rightarrow> bool" where
  "remote_added pe os c q q' \<longleftrightarrow> (\<exists>s root url out. resolve_publish pe os = Inr s \<and>
     publish_git pe c root [] [''remote'', ''add'', ps_remote_name s, url] (world q) = (Inr out, world q'))"

lemma undone_Ok: "undone pe s added owner name r st m p = (Ok x, p') \<Longrightarrow> m p = (Ok x, p')"
  unfolding undone_def publish_failure_def
  by (auto simp: handle_def bnd_def emit_def fail_def split: prod.splits res.splits option.splits)

lemma roll_back_calls:
  assumes "C (Call ''instance'' cleanup_ctx [''DELETE'', ps_base_url s @ repo_api_path owner name])"
    and "added \<Longrightarrow> C (Call ''git'' (WithoutCancel Caller) [''remote'', ''remove'', pr_remote_name r])"
  shows "only_calls C (roll_back pe s added owner name r e)"
  unfolding roll_back_def publish_delete_repo_def by (intro calls_intros; rule assms)

lemma undone_calls:
  assumes "only_calls C m" "C (Call ''instance'' cleanup_ctx [''DELETE'', ps_base_url s @ repo_api_path owner name])"
    and "added \<Longrightarrow> C (Call ''git'' (WithoutCancel Caller) [''remote'', ''remove'', pr_remote_name r])"
  shows "only_calls C (undone pe s added owner name r st m)"
  unfolding undone_def by (intro calls_intros assms roll_back_calls)

lemma push_history_calls:
  "(\<And>as. C (Call ''git'' c (''push'' # as))) \<Longrightarrow> (\<And>k. C (Call ''keystore'' c k)) \<Longrightarrow> only_calls C (push_history pe s c root)"
  unfolding push_history_def ssh_env_def publish_known_hosts_def host_public_key_def resolve_key_def Let_def
  by (intro calls_intros)

lemma publish_push_elsewhere:
  assumes "u \<noteq> ps_base_url s @ repo_api_path owner name"
  shows "only_calls (\<lambda>k. \<not> deletes_at u k) (publish_push pe s c owner name r)"
  unfolding publish_push_def
  by (intro calls_intros undone_calls push_history_calls) (use assms in \<open>simp_all add: deletes_at_def\<close>)

lemma before_creation_silent:
  assumes "\<And>k. C k \<Longrightarrow> undoes u k"
  shows "only_calls (\<lambda>k. \<not> C k) (inspect_repo pe c dir remote)" "only_calls (\<lambda>k. \<not> C k) (whoami pe s c)"
    "only_calls (\<lambda>k. \<not> C k) (ensure_push_key pe s c user)" "only_calls (\<lambda>k. \<not> C k) (repo_exists pe s c owner name)"
    "only_calls (\<lambda>k. \<not> C k) (create_repo pe s c rq)"
  by (rule before_creation_calls [THEN calls_weaken, of u]; use assms in blast)+

lemma deletes_at_silent: "\<And>k. deletes_at u k \<Longrightarrow> undoes u k" "\<And>k. removes_remote k \<Longrightarrow> undoes u k"
  by simp_all

lemma any_new:
  "only_calls (\<lambda>_. True) (bnd (succeeded st d) (\<lambda>_. publish_push pe s c owner name r))"
  "only_calls (\<lambda>_. True) (if x then publish_failure st e else publish_new pe s c user owner name lr)"
  "only_calls (\<lambda>_. True) (at_step st (repo_exists pe s c owner name))"
  by (intro calls_intros any_calls only_callsI_bound [OF before_creation_calls(4)])+

lemma publish_new_created:
  assumes s: "resolve_publish pe os = Inr s"
  shows "preceded (deletes_at u) (created_at pe os c u) (publish_new pe s c user owner name lr)"
proof (cases "u = ps_base_url s @ repo_api_path owner name")
  case True
  let ?rq = "\<lparr>cr_owner = owner, cr_self = (owner = user), cr_name = name, cr_private = ps_private s, cr_branch = lr_branch lr\<rparr>"
  show ?thesis
    unfolding publish_new_def
  proof (intro preceded_by passes_whole)
    fix p full p1
    assume "at_step StepCreate (create_repo pe s c ?rq) p = (Ok full, p1)"
    from create_repo_Ok [OF at_step_Ok [OF this]] obtain st raw where
      "api_do (pe_api pe) c ''POST'' (ps_base_url s @ create_path ?rq) (ps_token s) (Some (repo_body pe ?rq)) (world p) = (ApiReplied st raw, world p1)"
      "success_status st" .
    with s True show "created_at pe os c u p p1"
      unfolding created_at_def by (intro exI [of _ s] exI [of _ ?rq]) auto
  qed (simp_all add: calls_emit at_step_calls before_creation_silent [OF deletes_at_silent(1)] any_new before_creation_silent [OF deletes_at_silent(1), THEN only_callsI_bound])
next
  case False
  show ?thesis
    unfolding publish_new_def
    by (intro preceded_none calls_intros before_creation_silent [OF deletes_at_silent(1)] publish_push_elsewhere False)
qed

lemma publish_create_absent:
  assumes s: "resolve_publish pe os = Inr s"
  shows "preceded (deletes_at u) (absent_at pe os c u) (publish_create pe s c user owner name lr)"
proof (cases "u = ps_base_url s @ repo_api_path owner name")
  case True
  show ?thesis
    unfolding publish_create_def
  proof (intro preceded_bnd [of _ "started _ _"] preceded_or)
    fix p p1 and x :: bool
    assume run: "at_step StepCreate (repo_exists pe s c owner name) p = (Ok x, p1)"
    show "checked (absent_at pe os c u) p p1 (trace p1) \<or> only_calls (\<lambda>k. \<not> deletes_at u k)
       (if x then publish_failure StepCreate (errorf (''repository '' @ owner @ ''/'' @ name @ '' already exists on '' @ ps_host s
            @ '': publish will not overwrite it '' @ em_dash @ '' publish under a different name with -name, or push to it by hand''))
        else publish_new pe s c user owner name lr)"
    proof (cases x)
      case False
      from at_step_Ok [OF run] False have "repo_exists pe s c owner name p = (Ok False, p1)" by simp
      from repo_exists_False [OF this] obtain y where
        "api_do (pe_api pe) c ''GET'' (ps_base_url s @ repo_api_path owner name) (ps_token s) None (world p) = (y, world p1)"
        "fst (api_outcome (pe_json pe) y) = 404" by blast
      with s True have "absent_at pe os c u p p1" unfolding absent_at_def by blast
      then show ?thesis by (intro disjI1 checked_at only_calls_runs [OF any_new(3) run])
    qed (simp add: calls_intros)
  qed (simp_all add: calls_emit at_step_calls before_creation_silent [OF deletes_at_silent(1)] any_new calls_bnd)
next
  case False
  show ?thesis
    unfolding publish_create_def publish_new_def
    by (intro preceded_none calls_intros before_creation_silent [OF deletes_at_silent(1)] publish_push_elsewhere False)
qed

lemma publish_create_created:
  assumes s: "resolve_publish pe os = Inr s"
  shows "preceded (deletes_at u) (created_at pe os c u) (publish_create pe s c user owner name lr)"
  unfolding publish_create_def
proof (intro preceded_bnd)
  fix p p1 p2 p3 and x :: bool and y :: unit
  show "preceded (deletes_at u) (created_at pe os c u)
       (if x then publish_failure StepCreate (errorf (''repository '' @ owner @ ''/'' @ name @ '' already exists on '' @ ps_host s
            @ '': publish will not overwrite it '' @ em_dash @ '' publish under a different name with -name, or push to it by hand''))
        else publish_new pe s c user owner name lr)"
    using publish_new_created [OF s] by (simp add: preceded_none calls_intros)
qed (simp_all add: calls_emit at_step_calls before_creation_silent [OF deletes_at_silent(1)] any_new calls_bnd)

lemma publish_push_remote:
  assumes s: "resolve_publish pe os = Inr s" "pr_remote_name r = ps_remote_name s"
  shows "preceded removes_remote (remote_added pe os c) (publish_push pe s c owner name r)"
  unfolding publish_push_def
proof (intro preceded_bnd [of _ "started _ _"] preceded_by passes_whole)
  fix p x p1
  assume "undone pe s False owner name r StepRemote (orfail (git_run pe c (pr_root r) [] [''remote'', ''add'', pr_remote_name r, pr_remote_url r])
      (''set remote '' @ pr_remote_name r @ '': '')) p = (Ok x, p1)"
  from orfail_Ok [OF undone_Ok [OF this]] have "call ''git'' c [''remote'', ''add'', pr_remote_name r, pr_remote_url r]
      (publish_git pe c (pr_root r) [] [''remote'', ''add'', pr_remote_name r, pr_remote_url r]) p = (Ok x, p1)"
    unfolding git_run_def .
  from call_Ok(1) [OF this] s
  show "remote_added pe os c p p1" unfolding remote_added_def by auto
qed (intro calls_intros undone_calls push_history_calls; simp add: removes_remote_def)+

lemma publish_authorize_preceded:
  assumes "\<And>user owner. preceded C G (publish_create pe s c user owner name lr)" "\<And>k. C k \<Longrightarrow> undoes u k"
  shows "preceded C G (publish_authorize pe s c name lr)"
  unfolding publish_authorize_def
  by (intro preceded_bnd assms(1)) (simp_all add: calls_bnd calls_emit at_step_calls before_creation_silent [OF assms(2)] any_calls
    before_creation_silent [OF assms(2), THEN only_callsI_bound])

lemma publish_preceded:
  assumes "\<And>s user owner name lr. resolve_publish pe os = Inr s \<Longrightarrow> preceded C G (publish_create pe s c user owner name lr)"
    and "\<And>k. C k \<Longrightarrow> undoes u k"
  shows "preceded C G (publish pe c os)"
proof -
  have "preceded C G (publish_steps pe c os)"
    unfolding publish_steps_def
  proof (rule preceded_bnd)
    fix p s p1
    assume "at_step StepInspect (of_sum (resolve_publish pe os)) p = (Ok s, p1)"
    from of_sum_Ok [OF at_step_Ok [OF this]] have s: "resolve_publish pe os = Inr s" ..
    show "preceded C G (bnd (started StepInspect (''inspecting '' @ ps_dir s)) (\<lambda>_.
       bnd (at_step StepInspect (inspect_repo pe c (ps_dir s) (ps_remote_name s))) (\<lambda>lr.
       bnd (at_step StepInspect (of_sum (validate_repo_name (publish_name s lr)))) (\<lambda>_.
       bnd (succeeded StepInspect (lr_root lr @ '' is a git repository on branch '' @ lr_branch lr @ '', with no ''
              @ ps_remote_name s @ '' remote'')) (\<lambda>_.
       publish_authorize pe s c (publish_name s lr) lr)))))"
      by (intro preceded_bnd publish_authorize_preceded [OF assms(1) [OF s] assms(2)])
        (simp_all add: calls_bnd calls_emit calls_of_sum at_step_calls before_creation_silent [OF assms(2)] any_calls
          before_creation_silent [OF assms(2), THEN only_callsI_bound])
  qed (simp_all add: calls_bnd calls_emit calls_of_sum at_step_calls any_calls before_creation_silent [OF assms(2), THEN only_callsI_bound])
  then show ?thesis unfolding publish_def by (rule preceded_as_job)
qed

lemma publish_create_remote:
  assumes s: "resolve_publish pe os = Inr s"
  shows "preceded removes_remote (remote_added pe os c) (publish_create pe s c user owner name lr)"
proof -
  note silent = before_creation_silent [OF deletes_at_silent(2)]
  have "preceded removes_remote (remote_added pe os c) (publish_new pe s c user owner name lr)"
    unfolding publish_new_def
    by (intro preceded_bnd publish_push_remote [OF s]) (simp_all add: calls_emit at_step_calls silent any_calls any_new)
  then have "preceded removes_remote (remote_added pe os c) (if x then publish_failure st e else publish_new pe s c user owner name lr)"
    for x st e by (simp add: preceded_none calls_intros)
  then show ?thesis
    unfolding publish_create_def
    by (intro preceded_bnd) (simp_all add: calls_emit at_step_calls silent any_calls any_new calls_bnd)
qed

subsection \<open>After the creation\<close>

lemma client_do_runs:
  assumes "api_build (pe_api pe) method (ps_base_url s @ path) = None"
    and "api_do (pe_api pe) c method (ps_base_url s @ path) (ps_token s) body (world p) = (x, w)"
  shows "client_do pe s c method path body p = (Ok (api_outcome (pe_json pe) x),
    after_call p w (Call ''instance'' c [method, ps_base_url s @ path]))"
  using api_call_runs [OF assms(2)] by (simp add: client_do_def assms(1) bnd_def ret_def)

lemma publish_delete_runs:
  assumes "api_build (pe_api pe) ''DELETE'' (ps_base_url s @ repo_api_path owner name) = None"
  shows "\<exists>d w. publish_delete_repo pe s owner name p = (Ok d,
    after_call p w (Call ''instance'' cleanup_ctx [''DELETE'', ps_base_url s @ repo_api_path owner name]))"
proof -
  obtain x w where "api_do (pe_api pe) cleanup_ctx ''DELETE'' (ps_base_url s @ repo_api_path owner name) (ps_token s) None (world p) = (x, w)" by force
  from client_do_runs [OF assms this] show ?thesis
    unfolding publish_delete_repo_def by (cases "api_outcome (pe_json pe) x") (auto simp: bnd_def ret_def)
qed

lemma roll_back_runs:
  assumes "api_build (pe_api pe) ''DELETE'' (ps_base_url s @ repo_api_path owner name) = None"
  shows "\<exists>e' p'. roll_back pe s added owner name r e p = (Ok e', p') \<and> job p' = job p \<and> trace p' = trace p
     @ (if added then [Call ''git'' (WithoutCancel Caller) [''remote'', ''remove'', pr_remote_name r]] else [])
     @ [Call ''instance'' cleanup_ctx [''DELETE'', ps_base_url s @ repo_api_path owner name]]"
proof (cases added)
  case True
  let ?as = "[''remote'', ''remove'', pr_remote_name r]"
  obtain u w where u: "publish_git pe (WithoutCancel Caller) (pr_root r) [] ?as (world p) = (u, w)" by force
  let ?p1 = "after_call p w (Call ''git'' (WithoutCancel Caller) ?as)"
  have "attempt (git_run pe (WithoutCancel Caller) (pr_root r) [] ?as) p = (Ok u, ?p1)"
    using u by (cases u) (simp_all add: git_run_def call_def attempt_def)
  with publish_delete_runs [OF assms, of ?p1] True show ?thesis
    unfolding roll_back_def by (auto simp: bnd_def ret_def)
next
  case False
  with publish_delete_runs [OF assms, of p] show ?thesis
    unfolding roll_back_def by (auto simp: bnd_def ret_def)
qed

lemma undone_runs:
  fixes m :: "('w, 'b) io"
  assumes "calm m" "\<not> job_terminal (job p)" "st \<noteq> ''''"
    and "api_build (pe_api pe) ''DELETE'' (ps_base_url s @ repo_api_path owner name) = None"
    and "undone pe s added owner name r st m p = (R, p')"
  shows "(\<exists>x. R = Ok x \<and> m p = (Ok x, p') \<and> \<not> job_terminal (job p')) \<or>
    (\<exists>e p1. (\<exists>e'. R = Fail e') \<and> m p = (Fail e, p1) \<and> trace p' = trace p1
     @ (if added then [Call ''git'' (WithoutCancel Caller) [''remote'', ''remove'', pr_remote_name r]] else [])
     @ [Call ''instance'' cleanup_ctx [''DELETE'', ps_base_url s @ repo_api_path owner name]])"
proof -
  obtain r1 p1 where m: "m p = (r1, p1)" by force
  from calmD [OF assms(1) m assms(2)] have o: "orderly r1" and live: "\<not> job_terminal (job p1)" by simp_all
  show ?thesis
  proof (cases r1)
    case (Ok x)
    with m assms(5) have "R = Ok x" "p' = p1" by (simp_all add: undone_def handle_def)
    with m Ok live show ?thesis by simp
  next
    case (Fail e)
    from roll_back_runs [OF assms(4), of added r e p1] obtain e' p2 where rb: "roll_back pe s added owner name r e p1 = (Ok e', p2)"
      "job p2 = job p1" "trace p2 = trace p1 @ (if added then [Call ''git'' (WithoutCancel Caller) [''remote'', ''remove'', pr_remote_name r]] else [])
     @ [Call ''instance'' cleanup_ctx [''DELETE'', ps_base_url s @ repo_api_path owner name]]" by blast
    have "undone pe s added owner name r st m p = publish_failure st e' p2"
      using m Fail rb(1) by (simp add: undone_def handle_def bnd_def)
    moreover obtain p3 where "publish_failure st e' p2 = (Fail (wrapf ''publish: '' e') :: 'b res, p3)" "trace p3 = trace p2"
      using live rb(2) by (simp add: publish_failure_def bnd_def emit_live fail_def)
    ultimately have "(R, p') = (Fail (wrapf ''publish: '' e'), p3)" "trace p3 = trace p2" using assms(5) by (simp_all only: prod.inject)
    with m Fail rb(3) show ?thesis by simp
  qed (use o in simp_all)
qed

lemma remote_add_trace:
  assumes "orfail (git_run pe c dir env as) t p = (R, p')"
  shows "trace p' = trace p @ [Call ''git'' c as]"
  using assms by (cases "publish_git pe c dir env as (world p)"; cases "fst (publish_git pe c dir env as (world p))")
    (auto simp: orfail_def handle_def git_run_def call_def fail_def)

lemma past_event:
  assumes "\<not> job_terminal (job p)" "bnd (emit st state d) k p = (r, p')" "\<not> ends_job st state"
  obtains p1 where "k () p1 = (r, p')" "trace p1 = trace p" "\<not> job_terminal (job p1)"
proof -
  from assms(2,3) have "k () (p\<lparr>job := (job p)\<lparr>job_events := job_events (job p) @ [mk_event (job p) st state d (reading p)],
      job_terminal := False\<rparr>, ticks := Suc (ticks p)\<rparr>) = (r, p')"
    by (simp add: bnd_def emit_live [OF assms(1)])
  from that [OF this] show thesis by simp
qed

text \<open>A push that failed was undone.\<close>

lemma push_undone:
  assumes "bnd (succeeded StepRemote d1) (\<lambda>_. bnd (started StepPush d2) (\<lambda>_.
      bnd (undone pe s True owner name r StepPush (push_history pe s c (pr_root r))) (\<lambda>_.
      bnd (succeeded StepPush d3) (\<lambda>_. ret r)))) p = (Fail e, p')" "\<not> job_terminal (job p)"
    and "api_build (pe_api pe) ''DELETE'' (ps_base_url s @ repo_api_path owner name) = None"
  shows "\<exists>ms. trace p' = trace p @ ms @ [Call ''git'' (WithoutCancel Caller) [''remote'', ''remove'', pr_remote_name r],
     Call ''instance'' cleanup_ctx [''DELETE'', ps_base_url s @ repo_api_path owner name]]"
proof -
  from assms(1) obtain p3 where p3: "bnd (started StepPush d2) (\<lambda>_.
      bnd (undone pe s True owner name r StepPush (push_history pe s c (pr_root r))) (\<lambda>_.
      bnd (succeeded StepPush d3) (\<lambda>_. ret r))) p3 = (Fail e, p')" "trace p3 = trace p" "\<not> job_terminal (job p3)"
    by (rule past_event [OF assms(2)]) (simp_all add: ends_job_def publish_steps_named)
  from p3(1) obtain p4 where p4: "bnd (undone pe s True owner name r StepPush (push_history pe s c (pr_root r))) (\<lambda>_.
      bnd (succeeded StepPush d3) (\<lambda>_. ret r)) p4 = (Fail e, p')" "trace p4 = trace p3" "\<not> job_terminal (job p4)"
    by (rule past_event [OF p3(3)]) (simp_all add: ends_job_def publish_steps_named)
  obtain R5 p5 where u: "undone pe s True owner name r StepPush (push_history pe s c (pr_root r)) p4 = (R5, p5)" by force
  from undone_runs [OF push_history_calm p4(3) publish_steps_named(5) assms(3) u]
  consider (ok) x where "R5 = Ok x" "\<not> job_terminal (job p5)"
    | (bad) e1 q e2 where "R5 = Fail e2" "push_history pe s c (pr_root r) p4 = (Fail e1, q)"
      "trace p5 = trace q @ [Call ''git'' (WithoutCancel Caller) [''remote'', ''remove'', pr_remote_name r],
        Call ''instance'' cleanup_ctx [''DELETE'', ps_base_url s @ repo_api_path owner name]]"
    by auto
  then show ?thesis
  proof cases
    case ok
    with p4(1) u publish_steps_named show ?thesis by (simp add: bnd_def emit_live ends_job_def ret_def)
  next
    case bad
    from calmD [OF push_history_calm bad(2) p4(3)] obtain ms where "trace q = trace p4 @ ms"
      by (auto simp: extends_def prefix_def)
    moreover have "p' = p5" using p4(1) u bad(1) by (simp add: bnd_def)
    ultimately show ?thesis using bad(3) p4(2) p3(2) by simp
  qed
qed

section \<open>Properties\<close>

text \<open>
  C9. A publication undoes only what it did: it deletes a repository on the instance only after the instance
  answered that there was none of that name and then answered its creation with a success, and it removes the
  project's remote only after having added it.
\<close>

theorem publish_undoes_own:
  "preceded (deletes_at u) (absent_at pe os c u) (publish pe c os) \<and>
   preceded (deletes_at u) (created_at pe os c u) (publish pe c os) \<and>
   preceded removes_remote (remote_added pe os c) (publish pe c os)"
  by (intro conjI publish_preceded [of _ _ _ _ _ u] publish_create_absent publish_create_created publish_create_remote) simp_all

text \<open>
  C10. A failure after the creation is undone: when setting the remote or the push fails, the last thing a
  publication does is to delete the repository it created, right after removing the remote it had added. The
  request that deletes can be built, which \<open>http.NewRequest\<close> refuses only for a malformed URL.
\<close>

theorem failed_push_undone:
  assumes "publish_push pe s c owner name r p = (Fail e, p')" "\<not> job_terminal (job p)"
    and "api_build (pe_api pe) ''DELETE'' (ps_base_url s @ repo_api_path owner name) = None"
  shows "\<exists>ds. trace p' = trace p @ Call ''git'' c [''remote'', ''add'', pr_remote_name r, pr_remote_url r] # ds
       @ [Call ''instance'' cleanup_ctx [''DELETE'', ps_base_url s @ repo_api_path owner name]]
     \<and> (ds = [] \<or> last ds = Call ''git'' (WithoutCancel Caller) [''remote'', ''remove'', pr_remote_name r])"
proof -
  let ?add = "[''remote'', ''add'', pr_remote_name r, pr_remote_url r]"
  let ?m = "orfail (git_run pe c (pr_root r) [] ?add) (''set remote '' @ pr_remote_name r @ '': '')"
  from assms(1) obtain p1 where p1: "trace p1 = trace p" "\<not> job_terminal (job p1)"
    and rest: "bnd (undone pe s False owner name r StepRemote ?m) (\<lambda>_.
      bnd (succeeded StepRemote (pr_remote_name r @ '' set to '' @ pr_remote_url r)) (\<lambda>_.
      bnd (started StepPush (''pushing '' @ pr_root r @ '' history to '' @ pr_remote_url r)) (\<lambda>_.
      bnd (undone pe s True owner name r StepPush (push_history pe s c (pr_root r))) (\<lambda>_.
      bnd (succeeded StepPush (''pushed every branch and tag to '' @ pr_full_name r)) (\<lambda>_. ret r))))) p1 = (Fail e, p')"
    unfolding publish_push_def by (rule past_event [OF assms(2)]) (simp_all add: ends_job_def publish_steps_named)
  obtain R2 p2 where m: "undone pe s False owner name r StepRemote ?m p1 = (R2, p2)" by force
  have "calm ?m" by (intro calm_intros)
  from undone_runs [OF this p1(2) publish_steps_named(4) assms(3) m]
  consider (ok) x where "R2 = Ok x" "?m p1 = (Ok x, p2)" "\<not> job_terminal (job p2)"
    | (bad) e1 e2 q where "R2 = Fail e1" "?m p1 = (Fail e2, q)" "trace p2 = trace q @ [Call ''instance'' cleanup_ctx [''DELETE'', ps_base_url s @ repo_api_path owner name]]"
    by auto
  then show ?thesis
  proof cases
    case bad
    with rest m have "p' = p2" by (simp add: bnd_def)
    with remote_add_trace [OF bad(2)] bad(3) p1(1) show ?thesis by (intro exI [of _ "[]"]) simp
  next
    case ok
    have t2: "trace p2 = trace p @ [Call ''git'' c ?add]" using remote_add_trace [OF ok(2)] p1(1) by simp
    from rest m ok(1) obtain ms where "trace p' = trace p2 @ ms @ [Call ''git'' (WithoutCancel Caller) [''remote'', ''remove'', pr_remote_name r],
       Call ''instance'' cleanup_ctx [''DELETE'', ps_base_url s @ repo_api_path owner name]]"
      using push_undone [OF _ ok(3) assms(3)] by (simp add: bnd_def) blast
    with t2 show ?thesis
      by (intro exI [of _ "ms @ [Call ''git'' (WithoutCancel Caller) [''remote'', ''remove'', pr_remote_name r]]"]) simp
  qed
qed

text \<open>
  C17. A creation whose answer does not arrive whole is not undone: when the instance created the repository and
  its answer cannot be read to the end or decoded, the publication fails and leaves the repository, and its next
  run is refused because of it.
\<close>

theorem unread_creation_left:
  assumes "api_build (pe_api pe) ''GET'' (ps_base_url s @ repo_api_path owner name) = None"
    and "api_do (pe_api pe) c ''GET'' (ps_base_url s @ repo_api_path owner name) (ps_token s) None (world p) = (ApiReplied 404 none, w1)"
    and "rq = \<lparr>cr_owner = owner, cr_self = (owner = user), cr_name = name, cr_private = ps_private s, cr_branch = lr_branch lr\<rparr>"
    and "api_build (pe_api pe) ''POST'' (ps_base_url s @ create_path rq) = None"
    and "api_do (pe_api pe) c ''POST'' (ps_base_url s @ create_path rq) (ps_token s)
       (Some (pj_repo_body (pe_json pe) name (ps_private s) (lr_branch lr) False)) w1 = (answer, w2)"
    and "(\<exists>raw e. answer = ApiUnread 201 raw e) \<or> (\<exists>raw m. answer = ApiReplied 201 raw \<and> pj_full_name (pe_json pe) raw = Inl m)"
    and "\<not> job_terminal (job p)"
  shows "\<exists>e p'. publish_create pe s c user owner name lr p = (Fail e, p') \<and> world p' = w2 \<and>
    trace p' = trace p @ [Call ''instance'' c [''GET'', ps_base_url s @ repo_api_path owner name],
      Call ''instance'' c [''POST'', ps_base_url s @ create_path rq]]"
proof -
  obtain p1 where p1: "started StepCreate (''creating '' @ owner @ ''/'' @ name @ '' on '' @ ps_host s) p = (Ok (), p1)"
    "world p1 = world p" "trace p1 = trace p" "\<not> job_terminal (job p1)"
    using assms(7) publish_steps_named by (simp add: emit_live ends_job_def)
  let ?p2 = "after_call p1 w1 (Call ''instance'' c [''GET'', ps_base_url s @ repo_api_path owner name])"
  let ?p3 = "after_call ?p2 w2 (Call ''instance'' c [''POST'', ps_base_url s @ create_path rq])"
  have "client_do pe s c ''GET'' (repo_api_path owner name) None p1 = (Ok (api_outcome (pe_json pe) (ApiReplied 404 none)), ?p2)"
    by (rule client_do_runs [OF assms(1)]) (simp add: p1(2) assms(2))
  then have ex: "repo_exists pe s c owner name p1 = (Ok False, ?p2)"
    by (simp add: repo_exists_def bnd_def api_outcome_def success_status_def ret_def)
  have d: "client_do pe s c ''POST'' (create_path rq) (Some (pj_repo_body (pe_json pe) name (ps_private s) (lr_branch lr) False)) ?p2
      = (Ok (api_outcome (pe_json pe) answer), ?p3)"
    by (rule client_do_runs [OF assms(4)]) (simp add: assms(5))
  from assms(6) d have "\<exists>e. create_repo pe s c rq ?p2 = (Fail e, ?p3)"
    unfolding create_repo_def client_get_def
    by (auto simp: assms(3) bnd_def orfail_def handle_def fail_def api_outcome_def success_status_def)
  then obtain e where cr: "create_repo pe s c rq ?p2 = (Fail e, ?p3)" ..
  obtain p4 where "publish_failure StepCreate e ?p3 = (Fail (wrapf ''publish: '' e) :: string res, p4)" "trace p4 = trace ?p3" "world p4 = w2"
    using p1(4) by (simp add: publish_failure_def bnd_def emit_live fail_def)
  with cr have st: "at_step StepCreate (create_repo pe s c rq) ?p2 = (Fail (wrapf ''publish: '' e), p4)" "trace p4 = trace ?p3" "world p4 = w2"
    by (simp_all add: at_step_def handle_def)
  have "publish_new pe s c user owner name lr ?p2 = (Fail (wrapf ''publish: '' e), p4)"
    unfolding publish_new_def assms(3) [symmetric] by (rule bnd_Fail) (rule st(1))
  with p1(1) ex have "publish_create pe s c user owner name lr p = (Fail (wrapf ''publish: '' e), p4)"
    by (simp add: publish_create_def bnd_def at_step_def handle_def)
  with st(2,3) p1(3) show ?thesis by (intro exI conjI) (assumption, simp_all)
qed

text \<open>
  C27. The host key is pinned for the program that connects: in the ssh command of a push the pins stand right
  after the program, the first whole word of the given command, as the shell reads words, that is no
  assignment of a variable, and before everything that follows it, all its arguments; and the path they name
  is quoted as it is.
\<close>

theorem ssh_command_pins:
  assumes "ssh_command given path = Inr cmd"
  shows "\<exists>e b prog tl. (if blank given then ''ssh'' else trim_space given) = e @ b @ prog @ tl \<and>
    assignments e (b @ prog @ tl) \<and> list_all ssh_blank b \<and>
    shell_word prog tl \<and> prog \<noteq> '''' \<and> \<not> ssh_blank (hd prog) \<and> \<not> is_assignment prog \<and>
    cmd = e @ b @ prog @ '' '' @ ssh_pins path
      @ (let rest = dropWhile ssh_blank tl in if rest = '''' then '''' else '' '' @ rest) \<and> squote \<notin> set path"
proof -
  define base where "base = (if blank given then ''ssh'' else trim_space given)"
  from assms obtain at where at: "after_program base 0 = Inr at" and q: "squote \<notin> set path"
    and cmd: "cmd = (let rest = dropWhile ssh_blank (drop at base) in
      if rest = '''' then take at base @ '' '' @ ssh_pins path else take at base @ '' '' @ ssh_pins path @ '' '' @ rest)"
    unfolding ssh_command_def base_def [symmetric] by (auto simp: Let_def split: if_splits sum.splits)
  define tl where "tl = drop at base"
  from after_program_Inr [OF at] obtain e b prog where 1: "assignments e (b @ prog @ tl)" "list_all ssh_blank b"
    "take at base = e @ b @ prog" "shell_word prog tl" "prog \<noteq> ''''" "\<not> ssh_blank (hd prog)" "\<not> is_assignment prog"
    unfolding tl_def by auto
  have "cmd = e @ b @ prog @ '' '' @ ssh_pins path @ (let rest = dropWhile ssh_blank tl in if rest = '''' then '''' else '' '' @ rest)"
    unfolding cmd tl_def 1(3) Let_def by (cases "dropWhile ssh_blank (drop at base) = ''''") (simp_all only: if_True if_False append_assoc append_Nil2 simp_thms)
  moreover have "base = e @ b @ prog @ tl"
    unfolding tl_def by (metis 1(3) append_assoc append_take_drop_id)
  ultimately show ?thesis unfolding base_def [symmetric] using 1 q by blast
qed

text \<open>
  Every publication returns with exactly one terminal event that reports its outcome.
\<close>

theorem publish_completes:
  "completes (publish pe c os)"
  unfolding publish_def by (intro completes_as_job publish_steps_calm)

subsection \<open>An instance whose answers are lost\<close>

text \<open>Git always fails; the instance has the repository or not, creates it, and breaks off its answer.\<close>

definition lossy_instance :: "bool api_lib" where
  "lossy_instance =
     \<lparr>api_build = (\<lambda>m u. None),
      api_do = (\<lambda>c m u t b w.
        if m = ''GET'' then (ApiReplied (if ext w then 200 else 404) '''', w)
        else if m = ''POST'' then (ApiUnread 201 '''' (errorf ''unexpected EOF''), w\<lparr>ext := True\<rparr>)
        else (ApiReplied 204 '''', w\<lparr>ext := False\<rparr>))\<rparr>"

definition sample_publish :: "bool publish_env" where
  "sample_publish =
     \<lparr>pe_env = \<lparr>en_shell = (\<lambda>c cmd k i w. ((None, '''', ''''), w)),
        en_invoke = (\<lambda>p as b. \<lparr>resolve = (\<lambda>c k. afail (errorf ''none'')), writer = None, describer = None\<rparr>), en_yaml = sample_yaml\<rparr>,
      pe_git = Some (\<lambda>c dir env as. afail (errorf ''exit status 3'')),
      pe_process = (\<lambda>c dir env as w. ((None, '''', ''''), w)), pe_api = lossy_instance,
      pe_json = \<lparr>pj_message = (\<lambda>b. None), pj_login = (\<lambda>b. Inr ''me''), pj_keys = (\<lambda>b. Inr []), pj_full_name = (\<lambda>b. Inr ''me/r''),
        pj_repo_body = (\<lambda>n p b a. ''{}''), pj_key_body = (\<lambda>t k. ''{}'')\<rparr>,
      pe_wd = Inr ''/p'', pe_home = ''/h'', pe_ssh_command = '''', pe_tmp = ''/tmp'', pe_hostname = (\<lambda>u. Inr ''f'')\<rparr>"

definition sample_settings :: publish_settings where
  "sample_settings =
     \<lparr>ps_dir = ''/p'', ps_manifest = sample_manifest, ps_host = ''f'', ps_owner = '''', ps_name = ''r'', ps_private = True,
      ps_remote_name = ''origin'', ps_public_key = '''', ps_default_keys = [], ps_base_url = ''https://f'', ps_token = Secret ''t''\<rparr>"

definition fresh_proc :: "bool proc" where
  "fresh_proc =
     \<lparr>world = \<lparr>ext = False, fs = \<lparr>nodes = [], cwd = [], fault = (\<lambda>_. None), tmpname = id, fops = 0\<rparr>, ctxerr = (\<lambda>_ _. None)\<rparr>,
      trace = [], history = [], job = new_job ''j'', clock = (\<lambda>_. 0), fresh = (\<lambda>_. ''''), ticks = 0, slept = 0\<rparr>"

lemma failed_push_undone_witness:
  "let r = \<lparr>pr_root = ''/p'', pr_full_name = ''me/r'', pr_remote_name = ''origin'', pr_remote_url = ''git@f:me/r.git'', pr_branch = ''main''\<rparr>
   in \<exists>e p'. publish_push sample_publish sample_settings Caller ''me'' ''r'' r fresh_proc = (Fail e, p') \<and>
     last (trace p') = Call ''instance'' cleanup_ctx [''DELETE'', ps_base_url sample_settings @ repo_api_path ''me'' ''r'']"
proof -
  let ?r = "\<lparr>pr_root = ''/p'', pr_full_name = ''me/r'', pr_remote_name = ''origin'', pr_remote_url = ''git@f:me/r.git'', pr_branch = ''main''\<rparr>"
  have live: "\<not> job_terminal (job fresh_proc)" by (simp add: fresh_proc_def new_job_def)
  have build: "api_build (pe_api sample_publish) ''DELETE'' u = None" for u by (simp add: sample_publish_def lossy_instance_def)
  obtain p1 where p1: "started StepRemote (''setting '' @ pr_remote_name ?r @ '' to '' @ pr_remote_url ?r) fresh_proc = (Ok (), p1)"
    "\<not> job_terminal (job p1)"
    using emit_live [OF live, of StepRemote] by (simp add: publish_steps_named ends_job_def)
  let ?m = "orfail (git_run sample_publish Caller (pr_root ?r) [] [''remote'', ''add'', pr_remote_name ?r, pr_remote_url ?r]) (''set remote '' @ pr_remote_name ?r @ '': '')"
  have "\<exists>e q. ?m p1 = (Fail e, q)"
    by (simp add: git_run_def publish_git_def sample_publish_def call_def orfail_def handle_def fail_def)
  moreover obtain R q where u: "undone sample_publish sample_settings False ''me'' ''r'' ?r StepRemote ?m p1 = (R, q)" by force
  moreover have "calm ?m" by (intro calm_intros)
  ultimately obtain e where "R = Fail e"
    using undone_runs [OF _ p1(2) publish_steps_named(4) build u] by force
  with p1(1) u have "publish_push sample_publish sample_settings Caller ''me'' ''r'' ?r fresh_proc = (Fail e, q)"
    by (simp add: publish_push_def bnd_def)
  from failed_push_undone [OF this live build] this show ?thesis by (auto simp: Let_def)
qed

lemma unread_creation_left_witness:
  "\<exists>e p'. publish_create sample_publish sample_settings Caller ''me'' ''me'' ''r'' \<lparr>lr_root = ''/p'', lr_branch = ''main''\<rparr> fresh_proc
     = (Fail e, p') \<and> ext (world p')"
proof -
  let ?w = "world fresh_proc"
  have "\<not> job_terminal (job fresh_proc)" by (simp add: fresh_proc_def new_job_def)
  from unread_creation_left [where pe = sample_publish and s = sample_settings and c = Caller and owner = "''me''" and user = "''me''"
      and name = "''r''" and lr = "\<lparr>lr_root = ''/p'', lr_branch = ''main''\<rparr>" and ?w1.0 = "?w" and ?w2.0 = "?w\<lparr>ext := True\<rparr>"
      and none = "''''" and answer = "ApiUnread 201 '''' (errorf ''unexpected EOF'')", OF _ _ refl _ _ _ this]
  obtain e p' where "publish_create sample_publish sample_settings Caller ''me'' ''me'' ''r'' \<lparr>lr_root = ''/p'', lr_branch = ''main''\<rparr> fresh_proc
     = (Fail e, p')" "world p' = ?w\<lparr>ext := True\<rparr>"
    by (auto simp: sample_publish_def lossy_instance_def fresh_proc_def)
  then show ?thesis by (intro exI conjI) (assumption, simp)
qed

lemma ssh_command_pins_witness:
  "\<exists>e b prog tl. ''LANG=C ssh -v'' = e @ b @ prog @ tl \<and> assignments e (b @ prog @ tl) \<and> shell_word prog tl \<and>
    \<not> is_assignment prog \<and> ''LANG=C ssh '' @ ssh_pins ''/tmp/k'' @ '' -v'' = e @ b @ prog @ '' '' @ ssh_pins ''/tmp/k''
      @ (let rest = dropWhile ssh_blank tl in if rest = '''' then '''' else '' '' @ rest)"
proof -
  have "ssh_command ''LANG=C ssh -v'' ''/tmp/k'' = Inr (''LANG=C ssh '' @ ssh_pins ''/tmp/k'' @ '' -v'')" by code_simp
  note pins = ssh_command_pins [OF this]
  have "(if blank ''LANG=C ssh -v'' then ''ssh'' else trim_space ''LANG=C ssh -v'') = ''LANG=C ssh -v''" by code_simp
  from pins [unfolded this] show ?thesis by blast
qed

end
