(* ===== verification/Initialize.thy ===== *)
theory Initialize
  imports Attach Registry "HOL-Library.AList"
begin

text \<open>
  \<open>internal/core/initialize\<close>: creating a bundle, that is its validation and the images and files that
  persist nothing (\<open>initialize.go\<close>), the key material and its storage (\<open>keys.go\<close>), and the record that lets
  an unfinished run be resumed (\<open>resume.go\<close>). The ACME library, the registry, JSON, YAML, and the generation
  of SSH and age keys are parameters.
\<close>

section \<open>Parameters\<close>

text \<open>Names clash with those of \<^theory_text>\<open>Attach\<close> for the steps the two share, so these carry a prefix.\<close>

definition InitValidate :: string where "InitValidate = ''validate''"
definition InitProveZoneControl :: string where "InitProveZoneControl = ''prove-zone-control''"
definition StepGenerateKeys :: string where "StepGenerateKeys = ''generate-keys''"
definition StepReportKeys :: string where "StepReportKeys = ''report-key-material''"
definition StepResolveImages :: string where "StepResolveImages = ''resolve-images''"
definition StepRenderCompose :: string where "StepRenderCompose = ''render-compose''"
definition StepWrite :: string where "StepWrite = ''write''"

definition DefaultImageRefs :: "(string \<times> string) list" where
  "DefaultImageRefs =
     [(''forgejo'', ''codeberg.org/forgejo/forgejo:15''), (''caddy'', ''docker.io/library/caddy:2.11.4''),
      (RunnerService, ''code.forgejo.org/forgejo/runner:13'')]"

definition requiredComponents :: "string list" where
  "requiredComponents = [''forgejo'', ''caddy'', RunnerService]"



record 'w init_params =
  nDomain :: string
  nProject :: string
  nDir :: string
  nProvider :: string
  nEmail :: string
  nDirectory :: string
  nKeystore :: driver_ref
  nBlob :: driver_ref
  nImages :: "(string \<times> string) list"
  nRunner :: "bool option"
  nGitSSHPort :: int
  nWebPort :: int
  nPublicWebPort :: int
  nResolver :: "(ctx \<Rightarrow> string \<Rightarrow> ('w, string) act) option"
  nProver :: "'w prover option"

record incomplete_record =
  in_schema :: int
  in_note :: string
  in_driver :: string
  in_fingerprint :: string
  in_keys :: "string list"

text \<open>
  \<open>ie_order\<close> is the order a range over a map takes; \<open>ie_host_key\<close> generates an SSH host key pair,
  \<open>ie_host_public\<close> derives the public half of a stored one, \<open>ie_age_key\<close> generates an age identity.
\<close>

record 'w init_env =
  ie_env :: "'w env"
  ie_acme :: "'w acme_lib"
  ie_registry :: "'w reg_lib"
  ie_url :: "string \<Rightarrow> error + string \<times> string"
  ie_marshal :: "manifest \<Rightarrow> error + string"
  ie_encode :: "incomplete_record \<Rightarrow> string"
  ie_decode :: "string \<Rightarrow> string + incomplete_record"
  ie_ref_json :: "driver_ref \<Rightarrow> error + string"
  ie_order :: "(string \<times> string) list \<Rightarrow> (string \<times> string) list"
  ie_host_key :: "('w, string \<times> string) act"
  ie_host_public :: "string \<Rightarrow> error + string"
  ie_age_key :: "('w, string) act"

definition init_named :: "'w init_params \<Rightarrow> bool" where
  "init_named ps \<longleftrightarrow> \<not> blank (nDomain ps)"

definition bundle_dir :: "'w init_params \<Rightarrow> string" where
  "bundle_dir ps = (if blank (nDir ps) then dir_for (trim_space (nProject ps)) else trim_space (nDir ps))"

section \<open>The record of an unfinished run\<close>

definition IncompleteFile :: string where "IncompleteFile = ''init-incomplete.json''"
definition incompleteSchema :: int where "incompleteSchema = 1"

definition incompleteNote :: string where
  "incompleteNote = ''farrier init stored key material here and did not finish. Re-run `farrier init` in this folder: it reuses the key material named below instead of generating new material, and removes this file once the bundle is written. This file holds no key material, only key names.''"

definition recovery_hint :: "string \<Rightarrow> string" where
  "recovery_hint dir =
     ''key material was already written to the keystore, and '' @ join2 dir IncompleteFile @ '' now records it ''
       @ em_dash @ '' re-run `farrier init` with the same keystore target and it will reuse that key material rather than generate new material; nothing needs to be deleted by hand''"

definition record_matches :: "incomplete_record \<Rightarrow> driver_ref \<Rightarrow> string \<Rightarrow> bool" where
  "record_matches rec dr fingerprint \<longleftrightarrow> in_driver rec = trim_space (dr_driver dr) \<and> in_fingerprint rec = fingerprint"

definition fingerprint_driver_ref :: "'w init_env \<Rightarrow> driver_ref \<Rightarrow> error + string" where
  "fingerprint_driver_ref ie dr =
     (case ie_ref_json ie (dr\<lparr>dr_driver := trim_space (dr_driver dr)\<rparr>) of
        Inl e \<Rightarrow> Inl (wrapf ''initialize: fingerprint keystore target: '' e)
      | Inr raw \<Rightarrow> Inr (sha256_hex raw))"

definition decode_incomplete :: "'w init_env \<Rightarrow> string \<Rightarrow> string \<Rightarrow> error + incomplete_record" where
  "decode_incomplete ie path raw =
     (case ie_decode ie raw of
        Inl m \<Rightarrow> Inl (errorf (''initialize: '' @ path @ '' is not readable ('' @ m
               @ ''); it records which key material an unfinished init wrote, and init cannot tell what is safe to reuse without it. It holds no key material, so deleting it is safe once you know whether the keystore target holds key material for this bundle''))
      | Inr rec \<Rightarrow>
          if in_schema rec \<noteq> incompleteSchema
          then Inl (errorf (''initialize: '' @ path @ '' has schema '' @ int_str (in_schema rec) @ '', and this farrier understands ''
                 @ int_str incompleteSchema @ ''; upgrade farrier rather than guessing what an unfinished init wrote''))
          else Inr rec)"

definition read_incomplete :: "'w init_env \<Rightarrow> string \<Rightarrow> ('w, incomplete_record option) act" where
  "read_incomplete ie dir =
     (let path = join2 dir IncompleteFile
      in (\<lambda>w. case on_fs (os_read_file path) w of
           (Inl e, w') \<Rightarrow>
             (if errors_is e NotExist then (Inr None, w') else (Inl (wrapf (''initialize: read '' @ path @ '': '') e), w'))
         | (Inr raw, w') \<Rightarrow> (case decode_incomplete ie path raw of Inl e \<Rightarrow> (Inl e, w') | Inr rec \<Rightarrow> (Inr (Some rec), w'))))"

definition write_incomplete :: "'w init_env \<Rightarrow> string \<Rightarrow> incomplete_record \<Rightarrow> ('w, unit) act" where
  "write_incomplete ie dir rec =
     (let path = join2 dir IncompleteFile
      in abnd (ahandle (on_fs (os_mkdir_all dir)) (\<lambda>e. afail (wrapf (''initialize: create '' @ dir @ '': '') e))) (\<lambda>_.
         abnd (ahandle (on_fs (os_write_file (path @ ''.tmp'') (ie_encode ie rec @ nl) 420)) (\<lambda>e.
                 afail (wrapf (''initialize: write '' @ path @ '': '') e))) (\<lambda>_.
         ahandle (on_fs (os_rename (path @ ''.tmp'') path)) (\<lambda>e.
           afail (wrapf (''initialize: write '' @ path @ '': '') e)))))"

definition remove_incomplete :: "string \<Rightarrow> ('w, unit) act" where
  "remove_incomplete dir =
     ahandle (on_fs (os_remove (join2 dir IncompleteFile))) (\<lambda>e.
       if errors_is e NotExist then aret ()
       else afail (wrapf (''initialize: remove '' @ join2 dir IncompleteFile @ '': '') e))"

section \<open>Validation\<close>

definition validate_init_name :: "'w init_params \<Rightarrow> error + unit" where
  "validate_init_name ps =
     (let domain = trim_space (nDomain ps); provider = trim_space (nProvider ps)
      in if domain = ''''
         then if provider \<noteq> '''' \<or> \<not> blank (nEmail ps) \<or> \<not> blank (nDirectory ps)
              then Inl (errorf ''initialize: acme dns-01 settings were given without a domain; pass a domain to prove its zone, or drop them for a nameless bundle'')
              else Inr ()
         else case validate_domain domain of
           Inl e \<Rightarrow> Inl (wrapf ''initialize: '' e)
         | Inr _ \<Rightarrow>
             (if provider = ''''
              then Inl (errorf (''initialize: acme dns-01 provider is required to prove control of '' @ domain))
              else Inr ()))"

definition no_acme :: acme_config where
  "no_acme = \<lparr>ac_provider = '''', ac_email = '''', ac_directory = ''''\<rparr>"

definition resolve_acme_config :: "'w init_env \<Rightarrow> 'w init_params \<Rightarrow> error + acme_config" where
  "resolve_acme_config ie ps =
     (if \<not> init_named ps then Inr no_acme
      else case resolve_directory_url (ie_url ie) (nDirectory ps) of
        Inl e \<Rightarrow> Inl (wrapf ''initialize: '' e)
      | Inr url \<Rightarrow> Inr \<lparr>ac_provider = trim_space (nProvider ps), ac_email = trim_space (nEmail ps), ac_directory = url\<rparr>)"

definition validate_project :: "string \<Rightarrow> ('w, unit) io" where
  "validate_project project =
     (if blank project then fail (errorf ''initialize: project folder is required'')
      else bnd (handle (locally (on_fs (os_stat (trim_space project)))) (\<lambda>e.
             if errors_is e NotExist then fail (errorf (''initialize: project folder '' @ quote project @ '' does not exist''))
             else fail (wrapf (''initialize: project folder '' @ quote project @ '': '') e))) (\<lambda>isdir.
           if isdir then ret () else fail (errorf (''initialize: project folder '' @ quote project @ '' is not a directory''))))"

definition refuse_existing_bundle :: "string \<Rightarrow> ('w, unit) io" where
  "refuse_existing_bundle dir =
     bnd (orfail (locally (bundle_exists dir)) ''initialize: '') (\<lambda>ex.
     if \<not> ex then ret ()
     else bnd (attempt (locally (on_fs (os_stat (join2 dir IncompleteFile))))) (\<lambda>r.
          case r of
            Inr _ \<Rightarrow> fail (errorf (''initialize: '' @ dir
              @ '' holds part of a bundle from an init that did not finish, and refusing to write over a bundle directory is not something init will guess its way past. Remove ''
              @ ManifestFile @ '' and '' @ ComposeDir @ '' from that folder '' @ em_dash @ '' but keep '' @ IncompleteFile
              @ '', which is what lets the next init reuse the key material already in your keystore instead of colliding with it ''
              @ em_dash @ '' then re-run init''))
          | Inl _ \<Rightarrow> fail (errorf (''initialize: '' @ dir
              @ '' already holds a bundle; refusing to overwrite it, because a second init would replace the instance's identity with newly generated key material. Remove that folder deliberately, or give init another location, to create a second bundle''))))"

section \<open>What the keystore holds\<close>

definition KeyAgeBackupKey :: string where "KeyAgeBackupKey = ''age_backup_key''"

definition keyMaterialOrder :: "string list" where
  "keyMaterialOrder =
     [KeySecretKey, KeyInternalToken, KeyLFSJWTSecret, KeyRunnerSecret, KeyTLSCertificate, KeyTLSPrivateKey,
      KeySSHHostKey, KeySSHHostKeyPublic, KeyAgeBackupKey]"

definition identity_keys :: "string list" where
  "identity_keys = filter (\<lambda>k. \<not> rotates k) keyMaterialOrder"

type_synonym material = "(string \<times> secret) list"

record preflight =
  pf_reuse :: "string list"
  pf_derived :: material
  pf_notes :: "string list"
  pf_fingerprint :: string

definition key_exists :: "ctx \<Rightarrow> 'w driver \<Rightarrow> string \<Rightarrow> ('w, bool) io" where
  "key_exists c d k =
     bnd (attempt (resolve_key d c k)) (\<lambda>r.
     case r of
       Inr _ \<Rightarrow> ret True
     | Inl e \<Rightarrow>
         (if errors_is e KeystoreNotFound then ret False
          else fail (wrapf (''initialize: keystore: could not check whether '' @ k @ '' already exists: '') e)))"

text \<open>The keys that are there: those the record accounts for, and those it does not.\<close>

fun find_keys :: "ctx \<Rightarrow> 'w driver \<Rightarrow> string list \<Rightarrow> string list \<Rightarrow> ('w, string list \<times> string list) io" where
  "find_keys c d recorded [] = ret ([], [])"
| "find_keys c d recorded (k # ks) =
     bnd (key_exists c d k) (\<lambda>present.
     bnd (find_keys c d recorded ks) (\<lambda>(reuse, conflicts).
     ret (if \<not> present then (reuse, conflicts)
          else if k \<in> set recorded then (k # reuse, conflicts)
          else (reuse, k # conflicts))))"

definition conflict_error :: "'w driver \<Rightarrow> string \<Rightarrow> string list \<Rightarrow> error" where
  "conflict_error d name conflicts =
     (let target = target_of d (hd conflicts); store = name @ '' keystore driver''
      in errorf (''initialize: the '' @ (if target = '''' then store else store @ '' ('' @ target @ '')'')
           @ '' already holds key material that no bundle in this folder accounts for: '' @ join '', '' conflicts
           @ ''. Key material is an instance's identity and never rotates, so init will neither adopt it (two instances would share one identity) nor overwrite it. Point this bundle at a keystore target of its own, or ''
           @ em_dash @ '' only once you have confirmed no live instance depends on it '' @ em_dash
           @ '' remove that key material and re-run init''))"

definition repair_ssh_pair :: "'w init_env \<Rightarrow> ctx \<Rightarrow> 'w driver \<Rightarrow> preflight \<Rightarrow> ('w, preflight) io" where
  "repair_ssh_pair ie c d pf =
     (let private = KeySSHHostKey \<in> set (pf_reuse pf); public = KeySSHHostKeyPublic \<in> set (pf_reuse pf)
      in if private = public then ret pf
         else if public
         then fail (errorf (''initialize: the keystore holds '' @ KeySSHHostKeyPublic @ '' with no '' @ KeySSHHostKey
                @ ''; init cannot store a host key whose published public half belongs to a different key. Remove ''
                @ KeySSHHostKeyPublic @ '', once you have confirmed no live instance depends on it, and re-run init''))
         else bnd (orfail (resolve_key d c KeySSHHostKey)
                     (''initialize: read the stored '' @ KeySSHHostKey @ '' to derive its public half: '')) (\<lambda>s.
              bnd (orfail (of_sum (ie_host_public ie (reveal s)))
                     (''initialize: parse the stored '' @ KeySSHHostKey @ '': '')) (\<lambda>derived.
              ret (pf\<lparr>pf_derived := [(KeySSHHostKeyPublic, Secret derived)],
                     pf_notes := pf_notes pf @ [''the unfinished init stored '' @ KeySSHHostKey @ '' without '' @ KeySSHHostKeyPublic
                       @ ''; deriving the public half from the stored host key rather than replacing the pair'']\<rparr>))))"

text \<open>The keys a record accounts for, and the note on a record of another target.\<close>

definition recorded_for :: "string \<Rightarrow> driver_ref \<Rightarrow> string \<Rightarrow> incomplete_record option \<Rightarrow> string list \<times> string list" where
  "recorded_for dir dr fingerprint r =
     (case r of
        None \<Rightarrow> ([], [])
      | Some rec \<Rightarrow>
          if record_matches rec dr fingerprint then (in_keys rec, [])
          else ([], [join2 dir IncompleteFile @ '' records an unfinished init that wrote key material to the '' @ in_driver rec
                 @ '' keystore driver, which is not the keystore target this run was given; that key material belongs to no bundle and this run will not touch it'']))"

definition inspect_keystore :: "'w init_env \<Rightarrow> ctx \<Rightarrow> 'w driver \<Rightarrow> string \<Rightarrow> driver_ref \<Rightarrow> ('w, preflight) io" where
  "inspect_keystore ie c d dir dr =
     bnd (of_sum (fingerprint_driver_ref ie dr)) (\<lambda>fingerprint.
     bnd (locally (read_incomplete ie dir)) (\<lambda>r.
     let (recorded, notes) = recorded_for dir dr fingerprint r
     in bnd (find_keys c d recorded identity_keys) (\<lambda>(reuse, conflicts).
        if conflicts \<noteq> [] then fail (conflict_error d (dr_driver dr) conflicts)
        else bnd (repair_ssh_pair ie c d \<lparr>pf_reuse = reuse, pf_derived = [], pf_notes = notes, pf_fingerprint = fingerprint\<rparr>) (\<lambda>pf.
             ret (if pf_reuse pf = [] then pf
                  else pf\<lparr>pf_notes := pf_notes pf @ [''resuming an unfinished init: '' @ nat_str (length (pf_reuse pf))
                         @ '' piece(s) of key material are already in the '' @ dr_driver dr
                         @ '' keystore driver and will be kept as this instance's identity rather than regenerated (''
                         @ join '', '' (sort (pf_reuse pf)) @ '')'']\<rparr>)))))"

section \<open>Images and the manifest\<close>

definition image_refs :: "(string \<times> string) list \<Rightarrow> error + (string \<times> string) list" where
  "image_refs overrides =
     (case find (\<lambda>kv. blank (snd kv)) overrides of
        Some kv \<Rightarrow> Inl (errorf (''initialize: image '' @ quote (fst kv) @ '': reference is required''))
      | None \<Rightarrow>
          let refs = foldl (\<lambda>m (k, v). AList.update k v m) DefaultImageRefs overrides
          in case find (\<lambda>k. map_of refs k = None) requiredComponents of
               Some k \<Rightarrow> Inl (errorf (''initialize: image '' @ quote k @ '' is required''))
             | None \<Rightarrow> Inr refs)"

definition init_resolve :: "'w init_env \<Rightarrow> 'w init_params \<Rightarrow> ctx \<Rightarrow> string \<Rightarrow> ('w, string) io" where
  "init_resolve ie ps c r =
     call ''registry'' c [r] ((case nResolver ps of Some f \<Rightarrow> f | None \<Rightarrow> resolve_image (ie_registry ie)) c r)"

definition resolve_images :: "'w init_env \<Rightarrow> 'w init_params \<Rightarrow> ctx \<Rightarrow> ('w, (string \<times> string) list) io" where
  "resolve_images ie ps c =
     bnd (of_sum (image_refs (ie_order ie (nImages ps)))) (\<lambda>refs.
     collect (\<lambda>(component, r).
       bnd (orfail (init_resolve ie ps c r) (''initialize: image '' @ quote component @ '': '')) (\<lambda>pinned.
       ret (component, pinned))) (ie_order ie refs))"

definition build_manifest :: "'w init_params \<Rightarrow> (string \<times> string) list \<Rightarrow> acme_config \<Rightarrow> manifest" where
  "build_manifest ps images cfg =
     (let m = new_manifest (trim_space (nDomain ps)) images
            \<lparr>dc_keystore = nKeystore ps, dc_dns = \<lparr>dr_driver = '''', dr_config = (\<lambda>_. None)\<rparr>, dc_blob = nBlob ps\<rparr> cfg
      in m\<lparr>Actions := \<lparr>aa_colocated = Some (nRunner ps \<noteq> Some False), aa_job_image = DefaultActionsJobImage\<rparr>,
           GitSSHPort := (if nGitSSHPort ps = 0 then DefaultGitSSHPort else nGitSSHPort ps),
           WebPort := (if nWebPort ps = 0 then web_port (m\<lparr>WebPort := 0\<rparr>) else nWebPort ps),
           PublicWebPort := nPublicWebPort ps\<rparr>)"

section \<open>Key material\<close>

definition secretByteLength :: nat where "secretByteLength = 32"

text \<open>\<open>base64.RawURLEncoding\<close>.\<close>

definition b64_url_char :: "char \<Rightarrow> char" where
  "b64_url_char ch = (if ch = CHR ''+'' then CHR ''-'' else if ch = CHR ''/'' then CHR ''_'' else ch)"

definition random_secret :: "('w, string) io" where
  "random_secret =
     bnd (rand_read secretByteLength) (\<lambda>buf.
     ret (map b64_url_char (filter (\<lambda>ch. ch \<noteq> CHR ''='') (b64_encode buf))))"

text \<open>Generating one name unless it is reused; what generates it gives the entries it adds.\<close>

definition unless_reused :: "bool \<Rightarrow> ('w, material) io \<Rightarrow> ('w, material) io" where
  "unless_reused reused m = (if reused then ret [] else m)"

definition forge_secret :: "string list \<Rightarrow> string \<Rightarrow> ('w, material) io" where
  "forge_secret reuse k = unless_reused (k \<in> set reuse) (bnd random_secret (\<lambda>s. ret [(k, Secret s)]))"

definition certificate_material :: "certificate option \<Rightarrow> material" where
  "certificate_material crt =
     (case crt of
        None \<Rightarrow> []
      | Some ct \<Rightarrow> [(KeyTLSCertificate, Secret (crt_cert ct)), (KeyTLSPrivateKey, Secret (crt_key ct))])"

definition generate_key_material :: "'w init_env \<Rightarrow> ctx \<Rightarrow> certificate option \<Rightarrow> string list \<Rightarrow> ('w, material) io" where
  "generate_key_material ie c crt reuse =
     (if (case crt of Some ct \<Rightarrow> crt_cert ct = '''' \<or> crt_key ct = '''' | None \<Rightarrow> False)
      then fail (errorf ''initialize: certificate from zone-control proof is incomplete'')
      else bnd (collect (forge_secret reuse) [KeySecretKey, KeyInternalToken, KeyLFSJWTSecret]) (\<lambda>secrets.
           bnd (unless_reused (KeyRunnerSecret \<in> set reuse)
                  (bnd new_runner_secret (\<lambda>s. ret [(KeyRunnerSecret, Secret s)]))) (\<lambda>runner.
           bnd (unless_reused (KeySSHHostKey \<in> set reuse \<or> KeySSHHostKeyPublic \<in> set reuse)
                  (bnd (orfail (locally (ie_host_key ie)) (''initialize: generate '' @ KeySSHHostKey @ '': '')) (\<lambda>(private, public).
                   ret [(KeySSHHostKey, Secret private), (KeySSHHostKeyPublic, Secret public)]))) (\<lambda>ssh.
           bnd (unless_reused (KeyAgeBackupKey \<in> set reuse)
                  (bnd (orfail (locally (ie_age_key ie)) (''initialize: generate '' @ KeyAgeBackupKey @ '': '')) (\<lambda>k.
                   ret [(KeyAgeBackupKey, Secret k)]))) (\<lambda>age.
           ret (concat secrets @ runner @ ssh @ age @ certificate_material crt))))))"

definition with_derived :: "material \<Rightarrow> material \<Rightarrow> material" where
  "with_derived m derived = foldl (\<lambda>m (k, v). AList.update k v m) m derived"

definition recorded_keys :: "material \<Rightarrow> string list \<Rightarrow> string list" where
  "recorded_keys m reuse = filter (\<lambda>k. map_of m k \<noteq> None \<or> k \<in> set reuse) identity_keys"

definition stored_summary :: "nat \<Rightarrow> nat \<Rightarrow> string" where
  "stored_summary stored reused =
     (if reused = 0 then ''stored '' @ nat_str stored @ '' piece(s) of key material''
      else ''stored '' @ nat_str stored @ '' piece(s) of key material and kept '' @ nat_str reused
        @ '' from an earlier unfinished init'')"

fun store_keys ::
    "ctx \<Rightarrow> (ctx \<Rightarrow> string \<Rightarrow> secret \<Rightarrow> ('w, unit) act) \<Rightarrow> material \<Rightarrow> string list \<Rightarrow> ('w, unit) io" where
  "store_keys c st m [] = ret ()"
| "store_keys c st m (k # ks) =
     (case map_of m k of
        None \<Rightarrow> store_keys c st m ks
      | Some s \<Rightarrow> bnd (orfail (store_key st c k s) (''initialize: store '' @ k @ '': '')) (\<lambda>_. store_keys c st m ks))"

definition store_key_material ::
    "ctx \<Rightarrow> (ctx \<Rightarrow> string \<Rightarrow> secret \<Rightarrow> ('w, unit) act) \<Rightarrow> material \<Rightarrow> ('w, unit) io" where
  "store_key_material c st m = store_keys c st m keyMaterialOrder"

definition describe_location :: "string \<Rightarrow> 'w driver \<Rightarrow> string \<Rightarrow> string" where
  "describe_location name d k =
     (let target = target_of d k
      in if target \<noteq> '''' then name @ '' keystore driver, '' @ target
         else name @ '' keystore driver (it does not report where key material lands)'')"

definition ageKeyWarning :: string where
  "ageKeyWarning = ''the age backup key ('' @ KeyAgeBackupKey @ '') is the one unrecoverable loss: snapshots are age-encrypted and you hold the only key, so losing it leaves every backup this instance will ever produce permanently unreadable ''
     @ em_dash @ '' no recovery path, no reset, nobody to ask. Keep a copy somewhere other than the machine you would be recovering from''"

fun report_keys :: "string \<Rightarrow> 'w driver \<Rightarrow> material \<Rightarrow> string list \<Rightarrow> string list \<Rightarrow> ('w, bool) io" where
  "report_keys name d m reuse [] = ret False"
| "report_keys name d m reuse (k # ks) =
     (if map_of m k \<noteq> None \<or> k \<in> set reuse
      then bnd (succeeded StepReportKeys (k @ arrow @ describe_location name d k
                  @ (if map_of m k \<noteq> None then '''' else '' (kept from an earlier unfinished init)''))) (\<lambda>_.
           bnd (report_keys name d m reuse ks) (\<lambda>reported.
           ret (k = KeyAgeBackupKey \<or> reported)))
      else report_keys name d m reuse ks)"

definition report_key_material :: "string \<Rightarrow> 'w driver \<Rightarrow> material \<Rightarrow> string list \<Rightarrow> ('w, unit) io" where
  "report_key_material name d m reuse =
     bnd (started StepReportKeys ''where each piece of key material was stored'') (\<lambda>_.
     bnd (report_keys name d m reuse keyMaterialOrder) (\<lambda>reported.
     if reported then succeeded StepReportKeys ageKeyWarning else ret ()))"

definition record_host_public_key :: "ctx \<Rightarrow> 'w driver \<Rightarrow> manifest \<Rightarrow> ('w, manifest) io" where
  "record_host_public_key c d m =
     bnd (orfail (resolve_key d c KeySSHHostKeyPublic)
            (''initialize: read the stored '' @ KeySSHHostKeyPublic @ '' to record it in the manifest: '')) (\<lambda>s.
     bnd (orfail (of_sum (split_ssh_public_key (trim_space (reveal s)))) (''initialize: the stored '' @ KeySSHHostKeyPublic @ '' '')) (\<lambda>_.
     ret (m\<lparr>SSHHostKeyPublic := trim_space (reveal s)\<rparr>)))"

section \<open>The steps\<close>

definition with_recovery :: "string \<Rightarrow> ('w, 'a) io \<Rightarrow> ('w, 'a) io" where
  "with_recovery dir m = handle m (\<lambda>e. fail (suffixf e (''. '' @ recovery_hint dir)))"

record 'w init_checked =
  ic_acme :: acme_config
  ic_driver :: "'w driver"
  ic_store :: "ctx \<Rightarrow> string \<Rightarrow> secret \<Rightarrow> ('w, unit) act"
  ic_found :: preflight

definition validate_init :: "'w init_env \<Rightarrow> ctx \<Rightarrow> 'w init_params \<Rightarrow> ('w, 'w init_checked) io" where
  "validate_init ie c ps =
     bnd (of_sum (validate_init_name ps)) (\<lambda>_.
     bnd (of_sum (resolve_acme_config ie ps)) (\<lambda>cfg.
     bnd (validate_project (nProject ps)) (\<lambda>_.
     bnd (refuse_existing_bundle (bundle_dir ps)) (\<lambda>_.
     bnd (orfail (of_sum (keystore_new (en_shell (ie_env ie)) (en_invoke (ie_env ie)) (dr_driver (nKeystore ps)) (dr_config (nKeystore ps))))
            ''initialize: keystore target: '') (\<lambda>d.
     bnd (if blank (dr_driver (nBlob ps)) then fail (errorf ''initialize: blob driver is required'') else ret ()) (\<lambda>_.
     bnd (orfail (of_sum (validate_git_ssh_port (nGitSSHPort ps))) ''initialize: '') (\<lambda>_.
     bnd (orfail (of_sum (validate_web_ports
            ((new_manifest (trim_space (nDomain ps)) [] \<lparr>dc_keystore = nKeystore ps, dc_dns = \<lparr>dr_driver = '''', dr_config = (\<lambda>_. None)\<rparr>,
                dc_blob = nBlob ps\<rparr> cfg)\<lparr>WebPort := nWebPort ps, PublicWebPort := nPublicWebPort ps\<rparr>))) ''initialize: '') (\<lambda>_.
     case writer d of
       None \<Rightarrow> fail (errorf (''initialize: keystore driver '' @ quote (dr_driver (nKeystore ps))
              @ '' cannot store generated key material; give the command driver a storeCommand, declare store: true on an out-of-tree driver that implements it, use the file driver, or provision Forgejo's key material manually first''))
     | Some st \<Rightarrow>
         bnd (inspect_keystore ie c d (bundle_dir ps) (nKeystore ps)) (\<lambda>found.
         ret \<lparr>ic_acme = cfg, ic_driver = d, ic_store = st, ic_found = found\<rparr>)))))))))"

text \<open>The proof of zone control, for a bundle that is to have a name.\<close>

definition init_prove :: "'w init_env \<Rightarrow> ctx \<Rightarrow> 'w init_params \<Rightarrow> acme_config \<Rightarrow> ('w, certificate option) io" where
  "init_prove ie c ps cfg =
     (if init_named ps
      then bnd (started InitProveZoneControl (''proving control of '' @ nDomain ps @ '' via ACME DNS-01'')) (\<lambda>_.
           bnd (reported InitProveZoneControl
                  (bnd (orfail (call ''prover'' c [nDomain ps] (prover_or_default (ie_acme ie) (nProver ps) (nDomain ps) cfg))
                          (''initialize: prove control of '' @ nDomain ps @ '': '')) (\<lambda>r.
                   let none = fail (errorf (''initialize: no certificate from zone-control proof of '' @ nDomain ps @ '' to persist''))
                   in case r of
                        None \<Rightarrow> none
                      | Some crt \<Rightarrow> (if crt_cert crt = '''' \<or> crt_key crt = '''' then none else ret (Some crt))))) (\<lambda>crt.
           bnd (succeeded InitProveZoneControl (''zone control proven for '' @ nDomain ps)) (\<lambda>_.
           ret crt)))
      else bnd (started InitProveZoneControl ''no domain given; nothing to prove'') (\<lambda>_.
           bnd (succeeded InitProveZoneControl
             ''nameless bundle: skipping DNS-01 proof and certificate issuance; the forge is served over plain HTTP at an address given to `up`, and a domain can be attached later'') (\<lambda>_.
           ret None)))"

text \<open>From the first write on: the record, the key material, the bundle.\<close>

definition init_write :: "'w init_env \<Rightarrow> ctx \<Rightarrow> 'w init_params \<Rightarrow> 'w init_checked \<Rightarrow> bundle_data \<Rightarrow> ('w, bundle_data) io" where
  "init_write ie c ps ck b =
     bnd (started StepWrite ''writing the bundle'') (\<lambda>_.
     bnd (reported StepWrite (with_recovery (bundle_dir ps) (record_host_public_key c (ic_driver ck) (b_manifest b)))) (\<lambda>m.
     bnd (reported StepWrite (with_recovery (bundle_dir ps)
            (orfail (locally (bundle_save (ie_marshal ie) (b\<lparr>b_manifest := m\<rparr>) (bundle_dir ps))) ''initialize: ''))) (\<lambda>_.
     bnd (attempt (locally (remove_incomplete (bundle_dir ps)))) (\<lambda>r.
     bnd (case r of
            Inl e \<Rightarrow> succeeded StepWrite (''the bundle is written, but '' @ msg e @ ''; the file is safe to delete'')
          | Inr _ \<Rightarrow> ret ()) (\<lambda>_.
     bnd (succeeded StepWrite (''bundle written to '' @ bundle_dir ps)) (\<lambda>_.
     ret (b\<lparr>b_manifest := m\<rparr>)))))))"

definition init_record :: "'w init_params \<Rightarrow> preflight \<Rightarrow> material \<Rightarrow> incomplete_record" where
  "init_record ps pf m =
     \<lparr>in_schema = incompleteSchema, in_note = incompleteNote, in_driver = trim_space (dr_driver (nKeystore ps)),
      in_fingerprint = pf_fingerprint pf, in_keys = recorded_keys m (pf_reuse pf)\<rparr>"

definition init_store :: "'w init_env \<Rightarrow> ctx \<Rightarrow> 'w init_params \<Rightarrow> 'w init_checked \<Rightarrow> bundle_data \<Rightarrow> material \<Rightarrow> ('w, bundle_data) io" where
  "init_store ie c ps ck b m =
     bnd (reported StepGenerateKeys (with_recovery (bundle_dir ps) (store_key_material c (ic_store ck) m))) (\<lambda>_.
     bnd (succeeded StepGenerateKeys (stored_summary (length m) (length (pf_reuse (ic_found ck))))) (\<lambda>_.
     bnd (report_key_material (dr_driver (nKeystore ps)) (ic_driver ck) m (pf_reuse (ic_found ck))) (\<lambda>_.
     init_write ie c ps ck b)))"

definition init_keys :: "'w init_env \<Rightarrow> ctx \<Rightarrow> 'w init_params \<Rightarrow> 'w init_checked \<Rightarrow> bundle_data \<Rightarrow> certificate option \<Rightarrow> ('w, bundle_data) io" where
  "init_keys ie c ps ck b crt =
     bnd (started StepGenerateKeys ''generating and storing bundle key material'') (\<lambda>_.
     bnd (reported StepGenerateKeys (generate_key_material ie c crt (pf_reuse (ic_found ck)))) (\<lambda>m0.
     let m = with_derived m0 (pf_derived (ic_found ck))
     in bnd (reported StepGenerateKeys (locally (write_incomplete ie (bundle_dir ps) (init_record ps (ic_found ck) m)))) (\<lambda>_.
        init_store ie c ps ck b m)))"

definition init_bundle :: "'w init_env \<Rightarrow> ctx \<Rightarrow> 'w init_params \<Rightarrow> 'w init_checked \<Rightarrow> ('w, bundle_data) io" where
  "init_bundle ie c ps ck =
     bnd (started StepResolveImages ''resolving image references to digests'') (\<lambda>_.
     bnd (reported StepResolveImages (resolve_images ie ps c)) (\<lambda>images.
     bnd (succeeded StepResolveImages (''resolved '' @ nat_str (length images) @ '' image(s)'')) (\<lambda>_.
     bnd (started StepRenderCompose ''assembling the manifest and rendering Compose'') (\<lambda>_.
     let m = build_manifest ps images (ic_acme ck)
     in bnd (reported StepRenderCompose (orfail (of_sum (render (en_yaml (ie_env ie)) (Some m))) ''initialize: '')) (\<lambda>compose.
        bnd (succeeded StepRenderCompose (''rendered '' @ nat_str (length compose) @ '' Compose file(s)'')) (\<lambda>_.
        ret \<lparr>b_manifest = m, b_compose = compose\<rparr>))))))"

fun emit_notes :: "string list \<Rightarrow> ('w, unit) io" where
  "emit_notes [] = ret ()"
| "emit_notes (n # ns) = bnd (succeeded InitValidate n) (\<lambda>_. emit_notes ns)"

definition init_steps :: "'w init_env \<Rightarrow> ctx \<Rightarrow> 'w init_params \<Rightarrow> ('w, bundle_data) io" where
  "init_steps ie c ps =
     bnd (started InitValidate ''checking the project folder, domain, and driver targets'') (\<lambda>_.
     bnd (reported InitValidate (validate_init ie c ps)) (\<lambda>ck.
     bnd (succeeded InitValidate
            (if init_named ps then ''project folder '' @ nProject ps @ '' is ready; domain and driver targets are valid''
             else ''project folder '' @ nProject ps @ '' is ready; driver targets are valid, and no domain was given'')) (\<lambda>_.
     bnd (emit_notes (pf_notes (ic_found ck))) (\<lambda>_.
     bnd (init_bundle ie c ps ck) (\<lambda>b.
     bnd (init_prove ie c ps (ic_acme ck)) (\<lambda>crt.
     init_keys ie c ps ck b crt))))))"

definition init_detail :: "'w init_params \<Rightarrow> string" where
  "init_detail ps =
     (if init_named ps
      then ''bundle for '' @ trim_space (nDomain ps) @ '' created at '' @ bundle_dir ps @ '', serving '' @ nProject ps
      else ''nameless bundle created at '' @ bundle_dir ps @ '', serving '' @ nProject ps
        @ ''; give `up` an address to serve it at, and attach a domain when the instance outlives the experiment'')"

text \<open>
  \<open>fail\<close> emits the step's failure (\<open>reported\<close>) and the job's (\<open>as_job\<close>) with the same message. The deferred
  \<open>announceIncomplete\<close> speaks only when neither a bundle nor a terminal event is there.
\<close>

definition announce_incomplete :: "error + bundle_data \<Rightarrow> string \<Rightarrow> ('w, unit) io" where
  "announce_incomplete r dir = (\<lambda>p.
     if \<not> isl r \<or> job_terminal (job p) then (Ok (), p)
     else job_failed (''init did not finish: '' @ recovery_hint dir) p)"

definition initialize :: "'w init_env \<Rightarrow> ctx \<Rightarrow> 'w init_params \<Rightarrow> ('w, bundle_data) io" where
  "initialize ie c ps =
     bnd (attempt (as_job (\<lambda>_. init_detail ps) (init_steps ie c ps))) (\<lambda>r.
     bnd (announce_incomplete r (bundle_dir ps)) (\<lambda>_.
     of_sum r))"

section \<open>Facts\<close>

subsection \<open>The run ends\<close>

lemma init_steps_named: "InitValidate \<noteq> ''''" "InitProveZoneControl \<noteq> ''''" "StepGenerateKeys \<noteq> ''''" "StepReportKeys \<noteq> ''''"
  "StepResolveImages \<noteq> ''''" "StepRenderCompose \<noteq> ''''" "StepWrite \<noteq> ''''"
  by (simp_all add: InitValidate_def InitProveZoneControl_def StepGenerateKeys_def StepReportKeys_def StepResolveImages_def
    StepRenderCompose_def StepWrite_def)

lemma resolve_key_calm [calm_intros]: "calm_on I (resolve_key d c k)"
  unfolding resolve_key_def by (intro calm_intros)

lemma find_keys_calm [calm_intros]: "calm_on I (find_keys c d recorded ks)"
  by (induction ks) (auto simp: key_exists_def intro!: calm_intros)

lemma with_recovery_calm [calm_intros]: "calm_on I m \<Longrightarrow> calm_on I (with_recovery dir m)"
  unfolding with_recovery_def by (intro calm_intros)

lemma validate_init_calm [calm_intros]: "calm_on I (validate_init ie c ps)"
  unfolding validate_init_def validate_project_def refuse_existing_bundle_def inspect_keystore_def repair_ssh_pair_def Let_def
  by (intro calm_intros)

lemma collect_calm [calm_intros]: "(\<And>x. calm_on I (f x)) \<Longrightarrow> calm_on I (collect f xs)"
  by (induction xs) (auto intro!: calm_intros)

lemma rand_read_calm [calm_intros]: "calm_on I (rand_read n)"
  by (simp add: calm_on_def rand_read_def extends_def)

lemma unless_reused_calm [calm_intros]: "calm_on I m \<Longrightarrow> calm_on I (unless_reused b m)"
  unfolding unless_reused_def by (intro calm_intros)

lemma generate_key_material_calm [calm_intros]: "calm_on I (generate_key_material ie c crt reuse)"
  unfolding generate_key_material_def forge_secret_def random_secret_def new_runner_secret_def by (intro calm_intros)

lemma store_keys_calm [calm_intros]: "calm_on I (store_keys c st m ks)"
  by (induction ks) (auto simp: store_key_def intro!: calm_intros split: option.splits)

lemma report_keys_calm [calm_intros]: "calm_on I (report_keys name d m reuse ks)"
  by (induction ks) (auto intro!: calm_intros simp: ends_job_def init_steps_named)

lemma emit_notes_calm [calm_intros]: "calm_on I (emit_notes ns)"
  by (induction ns) (auto intro!: calm_intros simp: ends_job_def init_steps_named)

lemma init_steps_calm: "calm_on I (init_steps ie c ps)"
  unfolding init_steps_def init_bundle_def resolve_images_def init_resolve_def init_prove_def init_keys_def init_store_def store_key_material_def
    report_key_material_def init_write_def record_host_public_key_def Let_def
  by (intro calm_intros; simp add: init_steps_named ends_job_def)

text \<open>The deferred announcement never speaks: every way out of the steps has ended the job.\<close>

lemma initialize_is_job:
  assumes "\<not> job_terminal (job p)"
  shows "initialize ie c ps p = as_job (\<lambda>_. init_detail ps) (init_steps ie c ps) p"
proof -
  let ?m = "as_job (\<lambda>_. init_detail ps) (init_steps ie c ps)"
  obtain r p' where m: "?m p = (r, p')" by force
  have "completes ?m" by (intro completes_as_job init_steps_calm)
  with m assms have "orderly r" "job_terminal (job p')" by (auto simp: completes_on_def dest!: spec [of _ p])
  with m show ?thesis
    by (cases r) (simp_all add: initialize_def bnd_def attempt_def announce_incomplete_def ret_def fail_def)
qed

subsection \<open>What precedes a store\<close>

text \<open>A store of any key material, and of a key.\<close>

definition stores :: "call \<Rightarrow> bool" where
  "stores x \<longleftrightarrow> iface x = ''keystore'' \<and> hd (args x) = ''store''"

definition stores_name :: "string \<Rightarrow> call \<Rightarrow> bool" where
  "stores_name k x \<longleftrightarrow> stores x \<and> take 1 (drop 1 (args x)) = [k]"

lemma stores_simps [simp]: "\<not> stores (Call ''keystore'' c [''resolve'', n])" "\<not> stores (Call ''prover'' c as)"
  "\<not> stores (Call ''registry'' c as)" "stores_name k x \<Longrightarrow> stores x"
  by (simp_all add: stores_def stores_name_def)

lemma key_exists_calls: "only_calls (\<lambda>x. \<not> stores x) (key_exists c d k)"
  unfolding key_exists_def resolve_key_def by (intro calls_intros; simp)

lemma find_keys_calls: "only_calls (\<lambda>x. \<not> stores x) (find_keys c d recorded ks)"
  by (induction ks) (auto intro!: calls_intros key_exists_calls)

lemma repair_ssh_calls: "only_calls (\<lambda>x. \<not> stores x) (repair_ssh_pair ie c d pf)"
  unfolding repair_ssh_pair_def resolve_key_def Let_def by (intro calls_intros; simp)

lemma validate_init_calls: "only_calls (\<lambda>x. \<not> stores x) (validate_init ie c ps)"
  unfolding validate_init_def validate_project_def refuse_existing_bundle_def inspect_keystore_def Let_def
  by (intro calls_intros find_keys_calls repair_ssh_calls; simp)

lemma emit_notes_calls: "only_calls C (emit_notes ns)"
  by (induction ns) (auto intro!: calls_intros)

lemma init_bundle_calls: "only_calls (\<lambda>x. \<not> stores x) (init_bundle ie c ps ck)"
  unfolding init_bundle_def resolve_images_def init_resolve_def Let_def by (intro calls_intros; simp)

lemma init_prove_calls: "only_calls (\<lambda>x. \<not> stores x) (init_prove ie c ps cfg)"
  unfolding init_prove_def Let_def by (intro calls_intros; simp)

declare rand_read_calls [calls_intros]

lemma generate_calls: "only_calls C (generate_key_material ie c crt reuse)"
  unfolding generate_key_material_def forge_secret_def random_secret_def new_runner_secret_def unless_reused_def by (intro calls_intros)

lemma with_recovery_calls [calls_intros]: "only_calls C m \<Longrightarrow> only_calls C (with_recovery dir m)"
  unfolding with_recovery_def by (intro calls_intros)

lemma report_keys_calls: "only_calls C (report_keys name d m reuse ks)"
  by (induction ks) (auto intro!: calls_intros)

lemma store_keys_calls:
  assumes "\<And>k s. k \<in> set ks \<Longrightarrow> map_of m k = Some s \<Longrightarrow> C (Call ''keystore'' c [''store'', k, reveal s])"
  shows "only_calls C (store_keys c st m ks)"
  using assms
proof (induction ks)
  case (Cons k ks)
  then show ?case by (cases "map_of m k") (auto simp: store_key_def intro!: calls_intros)
qed (simp add: calls_intros)

lemma init_store_calls:
  assumes "\<And>k s. k \<in> set keyMaterialOrder \<Longrightarrow> map_of m k = Some s \<Longrightarrow> C (Call ''keystore'' c [''store'', k, reveal s])"
    and "C (Call ''keystore'' c [''resolve'', KeySSHHostKeyPublic])"
  shows "only_calls C (init_store ie c ps ck b m)"
  unfolding init_store_def store_key_material_def report_key_material_def init_write_def record_host_public_key_def resolve_key_def
  by (intro calls_intros store_keys_calls report_keys_calls assms)

lemma init_store_spares:
  assumes "map_of m k = None"
  shows "only_calls (\<lambda>x. \<not> stores_name k x) (init_store ie c ps ck b m)"
  using assms by (intro init_store_calls) (auto simp: stores_name_def stores_def)

lemma init_keys_calls: "only_calls (\<lambda>_. True) (init_keys ie c ps ck b crt)"
  unfolding init_keys_def Let_def by (intro calls_intros generate_calls init_store_calls TrueI)

subsection \<open>What the checks found\<close>

text \<open>
  \<open>finds m Q G\<close>: a statement that succeeds has found \<open>Q\<close> of its result, or has made the check \<open>G\<close>.
\<close>

definition finds :: "('w, 'a) io \<Rightarrow> ('a \<Rightarrow> bool) \<Rightarrow> ('w proc \<Rightarrow> 'w proc \<Rightarrow> bool) \<Rightarrow> bool" where
  "finds m Q G \<longleftrightarrow> (\<forall>p x p'. m p = (Ok x, p') \<longrightarrow> Q x \<or> checked G p p' (trace p'))"

lemma findsI: "(\<And>p x p'. m p = (Ok x, p') \<Longrightarrow> Q x \<or> checked G p p' (trace p')) \<Longrightarrow> finds m Q G"
  by (auto simp: finds_def)

lemma findsD: "finds m Q G \<Longrightarrow> m p = (Ok x, p') \<Longrightarrow> Q x \<or> checked G p p' (trace p')"
  by (auto simp: finds_def)

lemma finds_fail: "finds (fail e) Q G"
  by (rule findsI) simp

lemma finds_then:
  assumes "only_calls (\<lambda>_. True) m" "\<And>p x p1. m p = (Ok x, p1) \<Longrightarrow> finds (f x) Q G"
  shows "finds (bnd m f) Q G"
proof (rule findsI)
  fix p y p'
  assume "bnd m f p = (Ok y, p')"
  then obtain x p1 where 1: "m p = (Ok x, p1)" "f x p1 = (Ok y, p')" by (rule bnd_OkE)
  from findsD [OF assms(2) [OF 1(1)] 1(2)] checked_earlier [OF only_calls_runs [OF assms(1) 1(1)]]
  show "Q y \<or> checked G p p' (trace p')" by blast
qed

lemma finds_first:
  assumes "finds m Q G" "\<And>x. only_calls (\<lambda>_. True) (f x)"
    and "\<And>x y p p'. Q x \<Longrightarrow> f x p = (Ok y, p') \<Longrightarrow> Q' y"
  shows "finds (bnd m f) Q' G"
proof (rule findsI)
  fix p y p'
  assume "bnd m f p = (Ok y, p')"
  then obtain x p1 where 1: "m p = (Ok x, p1)" "f x p1 = (Ok y, p')" by (rule bnd_OkE)
  from only_calls_runs [OF assms(2) 1(2)] have r: "runs_to p1 p'" .
  from findsD [OF assms(1) 1(1)] show "Q' y \<or> checked G p p' (trace p')"
  proof
    assume "Q x"
    from assms(3) [OF this 1(2)] show ?thesis ..
  next
    assume "checked G p p1 (trace p1)"
    from checked_later [OF this r runs_to_trace [OF r]] show ?thesis ..
  qed
qed

lemma finds_prod: "(\<And>a b. finds (f a b) Q G) \<Longrightarrow> finds (case y of (a, b) \<Rightarrow> f a b) Q G"
  by (cases y) simp

text \<open>The keystore answered that it does not hold a key.\<close>

definition unheld :: "'w driver \<Rightarrow> ctx \<Rightarrow> string \<Rightarrow> 'w proc \<Rightarrow> 'w proc \<Rightarrow> bool" where
  "unheld d c k q q' \<longleftrightarrow> (\<exists>e. resolve d c k (world q) = (Inl e, world q') \<and> errors_is e KeystoreNotFound)"

definition absent_key :: "'w init_env \<Rightarrow> ctx \<Rightarrow> 'w init_params \<Rightarrow> string \<Rightarrow> 'w proc \<Rightarrow> 'w proc \<Rightarrow> bool" where
  "absent_key ie c ps k q q' \<longleftrightarrow> (\<exists>d. keystore_new (en_shell (ie_env ie)) (en_invoke (ie_env ie)) (dr_driver (nKeystore ps))
       (dr_config (nKeystore ps)) = Inr d \<and> unheld d c k q q')"

lemma key_exists_any: "only_calls (\<lambda>_. True) (key_exists c d k)"
  by (rule only_callsI_bound [OF key_exists_calls])

lemma key_exists_False:
  assumes "key_exists c d k p = (Ok False, p')"
  shows "unheld d c k p p'"
proof -
  from assms obtain r p1 where a: "attempt (resolve_key d c k) p = (Ok r, p1)"
    and r: "(case r of Inr _ \<Rightarrow> ret True | Inl e \<Rightarrow> (if errors_is e KeystoreNotFound then ret False
          else fail (wrapf (''initialize: keystore: could not check whether '' @ k @ '' already exists: '') e))) p1 = (Ok False, p')"
    unfolding key_exists_def by (elim bnd_OkE)
  from r obtain e where "r = Inl e" "errors_is e KeystoreNotFound" "p1 = p'" by (auto split: sum.splits if_splits)
  with attempt_call_Ok [OF a [unfolded resolve_key_def]] show ?thesis unfolding unheld_def by blast
qed

lemma key_exists_finds: "finds (key_exists c d k) (\<lambda>present. present) (unheld d c k)"
proof (rule findsI)
  fix p x p'
  assume run: "key_exists c d k p = (Ok x, p')"
  show "x \<or> checked (unheld d c k) p p' (trace p')"
  proof (cases x)
    case False
    with run have "key_exists c d k p = (Ok False, p')" by simp
    then have "unheld d c k p p'" by (rule key_exists_False)
    then show ?thesis by (intro disjI2 checked_at only_calls_runs [OF key_exists_any run])
  qed simp
qed

lemma find_keys_finds:
  "k \<in> set ks \<Longrightarrow> finds (find_keys c d recorded ks) (\<lambda>(reuse, conflicts). k \<in> set reuse \<or> k \<in> set conflicts) (unheld d c k)"
proof (induction ks)
  case (Cons k1 ks)
  note any = key_exists_any only_callsI_bound [OF find_keys_calls]
  show ?case
  proof (cases "k = k1")
    case True
    show ?thesis
      unfolding find_keys.simps True
      by (rule finds_first [OF key_exists_finds]) (auto intro!: calls_intros any elim!: bnd_OkE split: if_splits)
  next
    case False
    with Cons have "finds (find_keys c d recorded ks) (\<lambda>(reuse, conflicts). k \<in> set reuse \<or> k \<in> set conflicts) (unheld d c k)" by simp
    then show ?thesis
      unfolding find_keys.simps
      by (intro finds_then [OF any(1)], elim finds_first) (auto intro!: calls_intros split: if_splits)
  qed
qed simp

lemma repair_ssh_Ok:
  assumes "repair_ssh_pair ie c d pf p = (Ok pf', p')"
  shows "pf_reuse pf' = pf_reuse pf"
    "pf_derived pf' = pf_derived pf \<or> (KeySSHHostKeyPublic \<notin> set (pf_reuse pf) \<and> map fst (pf_derived pf') = [KeySSHHostKeyPublic])"
  using assms by (auto simp: repair_ssh_pair_def Let_def elim!: bnd_OkE split: if_splits)

lemma inspect_keystore_derived:
  assumes "inspect_keystore ie c d dir dr p = (Ok pf, p')"
  shows "pf_derived pf = [] \<or> (KeySSHHostKeyPublic \<notin> set (pf_reuse pf) \<and> map fst (pf_derived pf) = [KeySSHHostKeyPublic])"
proof -
  from assms obtain ns fp reuse p2 pf1 where
    1: "repair_ssh_pair ie c d \<lparr>pf_reuse = reuse, pf_derived = [], pf_notes = ns, pf_fingerprint = fp\<rparr> p2 = (Ok pf1, p')"
      "pf_reuse pf = pf_reuse pf1" "pf_derived pf = pf_derived pf1"
    unfolding inspect_keystore_def Let_def
    by (auto elim!: bnd_OkE split: prod.splits if_splits)
  from repair_ssh_Ok [OF 1(1)] 1(2,3) show ?thesis by auto
qed

lemma inspect_keystore_finds:
  assumes "k \<in> set identity_keys"
  shows "finds (inspect_keystore ie c d dir dr) (\<lambda>pf. k \<in> set (pf_reuse pf)) (unheld d c k)"
  unfolding inspect_keystore_def Let_def
  by (rule finds_then [OF calls_of_sum], rule finds_then [OF calls_locally], rule finds_prod,
      rule finds_first [OF find_keys_finds [OF assms]])
    (auto intro!: calls_intros only_callsI_bound [OF repair_ssh_calls] elim!: bnd_OkE dest!: repair_ssh_Ok(1) split: if_splits)

lemma inspect_any: "only_calls (\<lambda>_. True) (inspect_keystore ie c d dir dr)"
  unfolding inspect_keystore_def Let_def
  by (intro calls_intros only_callsI_bound [OF find_keys_calls] only_callsI_bound [OF repair_ssh_calls])

text \<open>There was no bundle in the folder.\<close>

definition no_bundle :: "'w init_params \<Rightarrow> 'w proc \<Rightarrow> 'w proc \<Rightarrow> bool" where
  "no_bundle ps q q' \<longleftrightarrow> bundle_exists (bundle_dir ps) (world q) = (Inr False, world q')"

lemma refuse_bundle_any: "only_calls (\<lambda>_. True) (refuse_existing_bundle dir)"
  unfolding refuse_existing_bundle_def by (intro calls_intros)

lemma refuse_bundle_Ok:
  assumes "refuse_existing_bundle (bundle_dir ps) p = (Ok u, p')"
  shows "no_bundle ps p p'"
proof -
  from assms obtain ex p1 where 1: "orfail (locally (bundle_exists (bundle_dir ps))) ''initialize: '' p = (Ok ex, p1)"
    "\<not> ex" "p1 = p'"
    unfolding refuse_existing_bundle_def by (auto elim!: bnd_OkE split: if_splits sum.splits)
  from locally_Ok(1) [OF orfail_Ok [OF 1(1)]] 1(2,3) show ?thesis by (simp add: no_bundle_def)
qed

lemma refuse_bundle_passes: "passes (refuse_existing_bundle (bundle_dir ps)) (no_bundle ps)"
  by (rule passes_whole [OF refuse_bundle_any refuse_bundle_Ok])

lemma validate_project_any: "only_calls (\<lambda>_. True) (validate_project f)"
  unfolding validate_project_def by (intro calls_intros)

lemma validate_init_passes: "passes (validate_init ie c ps) (no_bundle ps)"
  unfolding validate_init_def
  by (intro passes_then [OF calls_of_sum] passes_then [OF validate_project_any] passes_first [OF refuse_bundle_passes])
    (intro calls_intros inspect_any)

lemma validate_init_finds:
  assumes "k \<in> set identity_keys"
  shows "finds (validate_init ie c ps) (\<lambda>ck. k \<in> set (pf_reuse (ic_found ck))) (absent_key ie c ps k)"
proof -
  have inspect: "finds (inspect_keystore ie c d (bundle_dir ps) (nKeystore ps)) (\<lambda>pf. k \<in> set (pf_reuse pf)) (absent_key ie c ps k)"
    if "keystore_new (en_shell (ie_env ie)) (en_invoke (ie_env ie)) (dr_driver (nKeystore ps)) (dr_config (nKeystore ps)) = Inr d" for d
  proof (rule findsI)
    fix p pf p'
    assume "inspect_keystore ie c d (bundle_dir ps) (nKeystore ps) p = (Ok pf, p')"
    from findsD [OF inspect_keystore_finds [OF assms] this]
    show "k \<in> set (pf_reuse pf) \<or> checked (absent_key ie c ps k) p p' (trace p')"
      using that by (auto simp: absent_key_def intro: checked_mono)
  qed
  have opened: "keystore_new (en_shell (ie_env ie)) (en_invoke (ie_env ie)) (dr_driver (nKeystore ps)) (dr_config (nKeystore ps)) = Inr d"
    if "orfail (of_sum (keystore_new (en_shell (ie_env ie)) (en_invoke (ie_env ie)) (dr_driver (nKeystore ps)) (dr_config (nKeystore ps)))) t p
      = (Ok d, p1)" for t p p1 d
    using of_sum_Ok [OF orfail_Ok [OF that]] by simp
  have last: "finds (case writer d of None \<Rightarrow> fail e | Some st \<Rightarrow>
         bnd (inspect_keystore ie c d (bundle_dir ps) (nKeystore ps)) (\<lambda>found.
         ret \<lparr>ic_acme = cfg, ic_driver = d, ic_store = st, ic_found = found\<rparr>)) (\<lambda>ck. k \<in> set (pf_reuse (ic_found ck))) (absent_key ie c ps k)"
    if "keystore_new (en_shell (ie_env ie)) (en_invoke (ie_env ie)) (dr_driver (nKeystore ps)) (dr_config (nKeystore ps)) = Inr d" for d e cfg
  proof (cases "writer d")
    case (Some st)
    show ?thesis unfolding Some option.case by (rule finds_first [OF inspect [OF that] calls_ret]) auto
  qed (simp add: finds_fail)
  show ?thesis
    unfolding validate_init_def
    by (intro finds_then calls_intros validate_project_any refuse_bundle_any last) (rule opened)
qed

lemma validate_init_derived:
  assumes "validate_init ie c ps p = (Ok ck, p')"
  shows "pf_derived (ic_found ck) = [] \<or>
      (KeySSHHostKeyPublic \<notin> set (pf_reuse (ic_found ck)) \<and> map fst (pf_derived (ic_found ck)) = [KeySSHHostKeyPublic])"
proof -
  from assms obtain d p3 found where "inspect_keystore ie c d (bundle_dir ps) (nKeystore ps) p3 = (Ok found, p')" "ic_found ck = found"
    unfolding validate_init_def by (auto elim!: bnd_OkE split: option.splits)
  with inspect_keystore_derived show ?thesis by blast
qed

lemma unless_reused_Ok: "unless_reused b m p = (Ok x, p') \<Longrightarrow> (b \<and> x = []) \<or> (\<not> b \<and> m p = (Ok x, p'))"
  by (auto simp: unless_reused_def split: if_splits)

lemma forge_secrets_Ok:
  "collect (forge_secret reuse) ks p = (Ok ms, p') \<Longrightarrow> m \<in> set ms \<Longrightarrow> kv \<in> set m \<Longrightarrow> fst kv \<notin> set reuse"
proof (induction ks arbitrary: p ms)
  case (Cons k ks)
  from Cons(2) obtain m1 ms1 p1 where 1: "forge_secret reuse k p = (Ok m1, p1)" "collect (forge_secret reuse) ks p1 = (Ok ms1, p')" "ms = m1 # ms1"
    by (auto elim!: bnd_OkE)
  from 1(1) have "kv \<in> set m1 \<Longrightarrow> fst kv \<notin> set reuse"
    by (auto simp: forge_secret_def elim!: bnd_OkE dest!: unless_reused_Ok)
  with Cons.IH [OF 1(2)] Cons(3,4) 1(3) show ?case by auto
qed simp

lemma generate_Ok:
  assumes "generate_key_material ie c crt reuse p = (Ok m, p')" "k \<in> set reuse" "\<not> rotates k"
  shows "map_of m k = None"
proof -
  from assms(1) obtain ms rn ssh age p1 p2 p3 p4 where 1: "collect (forge_secret reuse) [KeySecretKey, KeyInternalToken, KeyLFSJWTSecret] p = (Ok ms, p1)"
    and 2: "unless_reused (KeyRunnerSecret \<in> set reuse) (bnd new_runner_secret (\<lambda>s. ret [(KeyRunnerSecret, Secret s)])) p1 = (Ok rn, p2)"
    and 3: "unless_reused (KeySSHHostKey \<in> set reuse \<or> KeySSHHostKeyPublic \<in> set reuse)
                  (bnd (orfail (locally (ie_host_key ie)) (''initialize: generate '' @ KeySSHHostKey @ '': '')) (\<lambda>(private, public).
                   ret [(KeySSHHostKey, Secret private), (KeySSHHostKeyPublic, Secret public)])) p2 = (Ok ssh, p3)"
    and 4: "unless_reused (KeyAgeBackupKey \<in> set reuse)
                  (bnd (orfail (locally (ie_age_key ie)) (''initialize: generate '' @ KeyAgeBackupKey @ '': '')) (\<lambda>k.
                   ret [(KeyAgeBackupKey, Secret k)])) p3 = (Ok age, p4)"
    and m: "m = concat ms @ rn @ ssh @ age @ certificate_material crt"
    unfolding generate_key_material_def by (auto simp del: collect.simps elim!: bnd_OkE split: if_splits)
  have "kv \<in> set rn \<Longrightarrow> fst kv \<notin> set reuse" "kv \<in> set ssh \<Longrightarrow> fst kv \<notin> set reuse" "kv \<in> set age \<Longrightarrow> fst kv \<notin> set reuse" for kv
    using unless_reused_Ok [OF 2] unless_reused_Ok [OF 3] unless_reused_Ok [OF 4] by (auto elim!: bnd_OkE split: prod.splits)
  moreover have "rotates (fst kv)" if "kv \<in> set (certificate_material crt)" for kv
    using that by (auto simp: certificate_material_def rotates_iff split: option.splits)
  moreover have "kv \<in> set m \<Longrightarrow> (\<exists>l\<in>set ms. kv \<in> set l) \<or> kv \<in> set rn \<or> kv \<in> set ssh \<or> kv \<in> set age \<or> kv \<in> set (certificate_material crt)" for kv
    by (auto simp: m)
  ultimately have "kv \<in> set m \<Longrightarrow> fst kv \<noteq> k" for kv
    using forge_secrets_Ok [OF 1] assms(2,3) by metis
  then show ?thesis by (auto simp: map_of_eq_None_iff)
qed

lemma with_derived_None:
  assumes "map_of m k = None" "derived = [] \<or> map fst derived = [n]" "k \<noteq> n"
  shows "map_of (with_derived m derived) k = None"
  using assms by (cases derived) (auto simp: with_derived_def update_conv')

text \<open>The record of what is about to be stored was on disk; the prover had brought a certificate for the domain.\<close>

definition recorded_key :: "'w init_env \<Rightarrow> 'w init_params \<Rightarrow> string \<Rightarrow> 'w proc \<Rightarrow> 'w proc \<Rightarrow> bool" where
  "recorded_key ie ps k q q' \<longleftrightarrow> (\<exists>rec. write_incomplete ie (bundle_dir ps) rec (world q) = (Inr (), world q') \<and> k \<in> set (in_keys rec))"

definition name_proven :: "'w init_env \<Rightarrow> 'w init_params \<Rightarrow> 'w proc \<Rightarrow> 'w proc \<Rightarrow> bool" where
  "name_proven ie ps q q' \<longleftrightarrow> (init_named ps \<longrightarrow> (\<exists>cfg crt. prover_or_default (ie_acme ie) (nProver ps) (nDomain ps) cfg (world q)
       = (Inr (Some crt), world q') \<and> crt_cert crt \<noteq> '''' \<and> crt_key crt \<noteq> ''''))"

subsection \<open>Composition\<close>

lemma initialize_preceded:
  assumes "preceded C G (init_steps ie c ps)" "only_calls (\<lambda>_. True) (init_steps ie c ps)"
  shows "preceded C G (initialize ie c ps)"
proof -
  have "only_calls D (announce_incomplete r dir)" for D and r and dir
    unfolding announce_incomplete_def by (rule calls_same) (simp add: emit_same)
  then have any: "only_calls D (bnd (announce_incomplete r dir) (\<lambda>_. of_sum r))" for D r dir
    by (intro calls_bnd calls_of_sum)
  show ?thesis
    unfolding initialize_def
    by (rule preceded_seq [OF preceded_attempt [OF preceded_as_job [OF assms(1)]] preceded_none [OF any]
          calls_attempt [OF calls_as_job [OF assms(2)]] any])
qed

lemma init_steps_calls: "only_calls (\<lambda>_. True) (init_steps ie c ps)"
  unfolding init_steps_def
  by (intro calls_intros emit_notes_calls init_keys_calls only_callsI_bound [OF validate_init_calls]
    only_callsI_bound [OF init_bundle_calls] only_callsI_bound [OF init_prove_calls])

lemma init_after_calls:
  "only_calls (\<lambda>_. True) (bnd (succeeded st d) (\<lambda>_. bnd (emit_notes ns) (\<lambda>_. bnd (init_bundle ie c ps ck) (\<lambda>b.
     bnd (init_prove ie c ps cfg) (\<lambda>crt. init_keys ie c ps ck b crt)))))"
  by (intro calls_intros emit_notes_calls init_keys_calls only_callsI_bound [OF init_bundle_calls] only_callsI_bound [OF init_prove_calls])

text \<open>What the validation, or what the storing of the keys, establishes for every store of a kind.\<close>

lemma init_by_validation:
  assumes "\<And>x. C x \<Longrightarrow> stores x"
    and "\<And>p ck p1. validate_init ie c ps p = (Ok ck, p1) \<Longrightarrow>
      checked G p p1 (trace p1) \<or> (\<forall>b crt. preceded C G (init_keys ie c ps ck b crt))"
  shows "preceded C G (initialize ie c ps)"
proof (rule initialize_preceded [OF _ init_steps_calls])
  note silent = calls_weaken [of "\<lambda>x. \<not> stores x" _ "\<lambda>x. \<not> C x"]
  have v: "only_calls (\<lambda>x. \<not> C x) (reported InitValidate (validate_init ie c ps))"
    and b: "only_calls (\<lambda>x. \<not> C x) (init_bundle ie c ps ck)" and pr: "only_calls (\<lambda>x. \<not> C x) (init_prove ie c ps cfg)" for ck cfg
    using assms(1) by (auto intro!: calls_intros silent init_bundle_calls init_prove_calls validate_init_calls)
  show "preceded C G (init_steps ie c ps)"
    unfolding init_steps_def
  proof (intro preceded_bnd [of _ "started _ _"] preceded_check [OF v])
    fix p ck p1
    assume "reported InitValidate (validate_init ie c ps) p = (Ok ck, p1)"
    from assms(2) [OF reported_Ok [OF this]]
    show "checked G p p1 (trace p1) \<or> preceded C G (bnd (succeeded InitValidate
            (if init_named ps then ''project folder '' @ nProject ps @ '' is ready; domain and driver targets are valid''
             else ''project folder '' @ nProject ps @ '' is ready; driver targets are valid, and no domain was given'')) (\<lambda>_.
       bnd (emit_notes (pf_notes (ic_found ck))) (\<lambda>_. bnd (init_bundle ie c ps ck) (\<lambda>b.
       bnd (init_prove ie c ps (ic_acme ck)) (\<lambda>crt. init_keys ie c ps ck b crt)))))"
    proof
      assume k: "\<forall>b crt. preceded C G (init_keys ie c ps ck b crt)"
      show ?thesis
        by (intro disjI2 preceded_bnd b pr k [rule_format] calls_emit emit_notes_calls init_keys_calls)
          (intro calls_bnd emit_notes_calls init_keys_calls only_callsI_bound [OF b] only_callsI_bound [OF pr])+
    qed blast
  qed (intro calls_intros init_after_calls only_callsI_bound [OF v])+
qed

definition stores_identity :: "string \<Rightarrow> call \<Rightarrow> bool" where
  "stores_identity k x \<longleftrightarrow> stores_name k x \<and> \<not> rotates k"

lemma stores_identity_stores: "stores_identity k x \<Longrightarrow> stores x"
  by (auto simp: stores_identity_def stores_name_def)

lemma init_store_silent:
  assumes "\<not> rotates k \<Longrightarrow> k \<in> set keyMaterialOrder \<Longrightarrow> map_of m k = None"
  shows "only_calls (\<lambda>x. \<not> stores_identity k x) (init_store ie c ps ck b m)"
proof (cases "rotates k")
  case False
  with assms show ?thesis by (intro init_store_calls) (auto simp: stores_identity_def stores_name_def stores_def)
qed (rule init_store_calls; simp add: stores_identity_def)

lemma generate_reported_calls: "only_calls C (reported st (generate_key_material ie c crt reuse))"
  by (intro calls_intros generate_calls)

lemma init_store_any: "only_calls (\<lambda>_. True) (init_store ie c ps ck b m)"
  by (intro init_store_calls TrueI)

lemma init_keys_reused:
  assumes "k \<in> set (pf_reuse (ic_found ck))"
    and "pf_derived (ic_found ck) = [] \<or>
      (KeySSHHostKeyPublic \<notin> set (pf_reuse (ic_found ck)) \<and> map fst (pf_derived (ic_found ck)) = [KeySSHHostKeyPublic])"
  shows "preceded (stores_identity k) G (init_keys ie c ps ck b crt)"
  unfolding init_keys_def Let_def
proof (rule preceded_bnd, goal_cases)
  case 3
  show ?case
  proof (rule preceded_bnd, goal_cases)
    case (3 p m p1)
    show ?case
    proof (intro preceded_none calls_intros init_store_silent)
      assume k: "\<not> rotates k"
      have m: "map_of m k = None" by (rule generate_Ok [OF reported_Ok [OF 3] assms(1) k])
      show "map_of (with_derived m (pf_derived (ic_found ck))) k = None"
      proof (cases "pf_derived (ic_found ck) = []")
        case True
        with m show ?thesis by (simp add: with_derived_def)
      next
        case False
        with assms have "k \<noteq> KeySSHHostKeyPublic" "map fst (pf_derived (ic_found ck)) = [KeySSHHostKeyPublic]" by auto
        with m show ?thesis by (intro with_derived_None) auto
      qed
    qed
  qed (intro calls_intros generate_calls init_store_any)+
qed (intro calls_intros generate_calls init_store_any)+

lemma init_keys_recorded:
  "preceded (stores_identity k) (recorded_key ie ps k) (init_keys ie c ps ck b crt)"
  unfolding init_keys_def Let_def
proof (rule preceded_bnd, goal_cases)
  case 3
  show ?case
  proof (rule preceded_bnd, goal_cases)
    case (3 p m p1)
    let ?m = "with_derived m (pf_derived (ic_found ck))"
    show ?case
    proof (rule preceded_or, goal_cases)
      case (3 q x q')
      show ?case
      proof (cases "\<not> rotates k \<and> k \<in> set keyMaterialOrder \<and> map_of ?m k \<noteq> None")
        case True
        then have "k \<in> set (in_keys (init_record ps (ic_found ck) ?m))"
          by (simp add: init_record_def recorded_keys_def identity_keys_def)
        moreover from locally_Ok(1) [OF reported_Ok [OF 3]]
        have "write_incomplete ie (bundle_dir ps) (init_record ps (ic_found ck) ?m) (world q) = (Inr (), world q')" by simp
        ultimately have "recorded_key ie ps k q q'" unfolding recorded_key_def by blast
        moreover have "runs_to q q'" using only_calls_runs [OF calls_locally reported_Ok [OF 3]] .
        ultimately show ?thesis by (intro disjI1 checked_at)
      qed (auto intro: init_store_silent)
    qed (intro calls_intros init_store_any)+
  qed (intro calls_intros generate_calls init_store_any)+
qed (intro calls_intros generate_calls init_store_any)+

lemma init_prove_passes: "passes (init_prove ie c ps cfg) (name_proven ie ps)"
proof (cases "init_named ps")
  case True
  have prover: "passes (bnd (orfail (call ''prover'' c [nDomain ps] (prover_or_default (ie_acme ie) (nProver ps) (nDomain ps) cfg)) t) (\<lambda>r.
       case r of None \<Rightarrow> fail e | Some crt \<Rightarrow> (if crt_cert crt = '''' \<or> crt_key crt = '''' then fail e else ret (Some crt)))) (name_proven ie ps)"
    for t and e
  proof (rule passes_whole)
    fix p x p'
    assume "bnd (orfail (call ''prover'' c [nDomain ps] (prover_or_default (ie_acme ie) (nProver ps) (nDomain ps) cfg)) t) (\<lambda>r.
       case r of None \<Rightarrow> fail e | Some crt \<Rightarrow> (if crt_cert crt = '''' \<or> crt_key crt = '''' then fail e else ret (Some crt))) p = (Ok x, p')"
    then obtain ct where "call ''prover'' c [nDomain ps] (prover_or_default (ie_acme ie) (nProver ps) (nDomain ps) cfg) p = (Ok (Some ct), p')"
      "crt_cert ct \<noteq> ''''" "crt_key ct \<noteq> ''''"
      by (auto elim!: bnd_OkE dest!: orfail_Ok split: option.splits if_splits)
    from call_Ok(1) [OF this(1)] this(2,3) show "name_proven ie ps p p'" unfolding name_proven_def by blast
  qed (intro calls_intros TrueI)
  show ?thesis
    unfolding init_prove_def if_P [OF True] Let_def
    by (rule passes_then [OF calls_emit], rule passes_first, rule passes_reported, rule prover) (intro calls_intros)
next
  case False
  have "only_calls (\<lambda>_. True) (init_prove ie c ps cfg)" by (rule only_callsI_bound [OF init_prove_calls])
  then show ?thesis by (rule passes_whole) (simp add: name_proven_def False)
qed

section \<open>Properties\<close>

text \<open>
  C7. An initialisation never replaces an identity: it stores key material that does not rotate only after the
  keystore answered that it holds none of that name, and only after a record naming it was on disk, from which
  an unfinished run can be resumed.
\<close>

theorem init_stores_absent_recorded:
  "preceded (stores_identity k) (absent_key ie c ps k) (initialize ie c ps) \<and>
   preceded (stores_identity k) (recorded_key ie ps k) (initialize ie c ps)"
proof (intro conjI init_by_validation stores_identity_stores)
  fix p ck p1
  assume v: "validate_init ie c ps p = (Ok ck, p1)"
  show "checked (absent_key ie c ps k) p p1 (trace p1) \<or>
      (\<forall>b crt. preceded (stores_identity k) (absent_key ie c ps k) (init_keys ie c ps ck b crt))"
  proof (cases "k \<in> set identity_keys")
    case True
    from findsD [OF validate_init_finds [OF this] v] init_keys_reused [OF _ validate_init_derived [OF v]] show ?thesis by blast
  next
    case False
    then have "only_calls (\<lambda>x. \<not> stores_identity k x) (init_keys ie c ps ck b crt)" for b crt
      unfolding init_keys_def Let_def
      by (intro calls_intros generate_calls init_store_silent) (simp add: identity_keys_def)
    then show ?thesis by (blast intro: preceded_none)
  qed
  show "checked (recorded_key ie ps k) p p1 (trace p1) \<or>
      (\<forall>b crt. preceded (stores_identity k) (recorded_key ie ps k) (init_keys ie c ps ck b crt))"
    using init_keys_recorded by blast
qed

text \<open>
  C8. Nothing is spent on an initialisation that is refused: key material is stored only when the folder held no
  bundle, and for a bundle that is to have a name only after its zone was proven to be controlled.
\<close>

theorem init_spends_late:
  "preceded stores (no_bundle ps) (initialize ie c ps) \<and> preceded stores (name_proven ie ps) (initialize ie c ps)"
proof (intro conjI)
  show "preceded stores (no_bundle ps) (initialize ie c ps)"
    by (rule init_by_validation) (use passesD [OF validate_init_passes] in blast)+
  have pr: "preceded stores (name_proven ie ps) (bnd (init_prove ie c ps cfg) (\<lambda>crt. init_keys ie c ps ck b crt))" for cfg ck b
    by (rule preceded_by [OF init_prove_calls init_keys_calls init_prove_passes])
  have "preceded stores (name_proven ie ps) (init_steps ie c ps)"
    unfolding init_steps_def
    by (intro preceded_bnd pr calls_emit emit_notes_calls init_bundle_calls calls_handle [OF validate_init_calls] calls_fail_step init_after_calls)
      (intro calls_intros emit_notes_calls init_keys_calls only_callsI_bound [OF validate_init_calls]
        only_callsI_bound [OF init_bundle_calls] only_callsI_bound [OF init_prove_calls])+
  then show "preceded stores (name_proven ie ps) (initialize ie c ps)" by (rule initialize_preceded [OF _ init_steps_calls])
qed

text \<open>
  Every initialisation returns with exactly one terminal event that reports its outcome.
\<close>

theorem init_completes:
  "completes (initialize ie c ps)"
proof -
  have "completes (as_job (\<lambda>_. init_detail ps) (init_steps ie c ps))" by (intro completes_as_job init_steps_calm)
  then show ?thesis unfolding completes_on_def by (simp add: initialize_is_job)
qed

end
